(* ===== verification/Prelude.thy ===== *)
theory Prelude
  imports Main "HOL-Library.Word" "HOL-Library.Multiset"
begin

section \<open>Prelude: errors as values, and the library the components share\<close>

text \<open>
  The sources of the worker are TypeScript. A function that may throw is modelled by a
  function into \<open>js_error + 'a\<close>: \<open>Inl e\<close> is the exception, \<open>Inr x\<close> the normal result.
  \<open>and_then\<close> sequences two such computations the way consecutive statements do, so the
  first exception ends the whole function. A \<open>try\<close> with a \<open>catch\<close> is a case distinction on the sum.

  The theorem collections declared here gather the facts each group of proofs shares:
  \<open>result_simps\<close> (sequencing), \<open>js_simps\<close> (reading values and records), \<open>codec_simps\<close>
  (what a parser does with a value the program itself built), \<open>rule_simps\<close> (the rule table).
\<close>

named_theorems result_simps "sequencing of fallible computations"
named_theorems js_simps "reading JavaScript values and records"
named_theorems codec_simps "parsers applied to values the program built"
named_theorems rule_simps "the constant rule table"

subsection \<open>Errors\<close>

text \<open>
  The exceptions the modelled code throws: \<open>new Error(m)\<close>, \<open>new TypeError(m)\<close>, the
  \<open>RangeError\<close> of the date library, and the error classes of the program itself, which
  carry a code.
\<close>

datatype js_error =
    Error string
  | TypeError string
  | RangeError string
  | CodedError string string

type_synonym 'a result = "js_error + 'a"

definition and_then :: "'e + 'a \<Rightarrow> ('a \<Rightarrow> 'e + 'b) \<Rightarrow> 'e + 'b" where
  "and_then m k = (case m of Inl e \<Rightarrow> Inl e | Inr x \<Rightarrow> k x)"

lemma and_then_Inl [simp, result_simps]: "and_then (Inl e) k = Inl e"
  by (simp add: and_then_def)

lemma and_then_Inr [simp, result_simps]: "and_then (Inr x) k = k x"
  by (simp add: and_then_def)

lemma and_then_eq_Inr [result_simps]:
  "and_then m k = Inr y \<longleftrightarrow> (\<exists>x. m = Inr x \<and> k x = Inr y)"
  by (cases m) auto

lemma and_then_eq_Inl [result_simps]:
  "and_then m k = Inl e \<longleftrightarrow> m = Inl e \<or> (\<exists>x. m = Inr x \<and> k x = Inl e)"
  by (cases m) auto

lemma throw_if_eq_Inr [result_simps]:
  "(if b then Inl e else m) = Inr x \<longleftrightarrow> \<not> b \<and> m = Inr x"
  "(if b then m else Inl e) = Inr x \<longleftrightarrow> b \<and> m = Inr x"
  by auto

lemma throw_none_eq_Inr [result_simps]:
  "(case x of None \<Rightarrow> Inl e | Some y \<Rightarrow> f y) = Inr z \<longleftrightarrow> (\<exists>y. x = Some y \<and> f y = Inr z)"
  by (cases x) simp_all

lemma and_then_InrE [elim]:
  assumes "and_then m k = Inr y"
  obtains x where "m = Inr x" and "k x = Inr y"
  using assms by (auto simp: and_then_eq_Inr)

lemma and_then_assoc: "and_then (and_then m f) g = and_then m (\<lambda>x. and_then (f x) g)"
  by (cases m) simp_all

lemma and_then_cong [fundef_cong]:
  "m = m' \<Longrightarrow> (\<And>x. m' = Inr x \<Longrightarrow> k x = k' x) \<Longrightarrow> and_then m k = and_then m' k'"
  by (cases m') auto

definition is_ok :: "'e + 'a \<Rightarrow> bool" where
  "is_ok m = (case m of Inl _ \<Rightarrow> False | Inr _ \<Rightarrow> True)"

lemma is_ok_simps [simp]: "is_ok (Inr x)" "\<not> is_ok (Inl e)"
  by (simp_all add: is_ok_def)

lemma is_okE:
  assumes "is_ok m"
  obtains x where "m = Inr x"
  using assms by (cases m) (auto simp: is_ok_def)

lemma is_ok_and_then: "is_ok (and_then m k) \<longleftrightarrow> (\<exists>x. m = Inr x \<and> is_ok (k x))"
  by (cases m) simp_all

text \<open>A loop that applies a fallible function to each element in turn.\<close>

fun map_result :: "('a \<Rightarrow> 'e + 'b) \<Rightarrow> 'a list \<Rightarrow> 'e + 'b list" where
  "map_result f [] = Inr []"
| "map_result f (x # xs) =
     and_then (f x) (\<lambda>y. and_then (map_result f xs) (\<lambda>ys. Inr (y # ys)))"

lemma map_result_Inr_iff:
  "map_result f xs = Inr ys \<longleftrightarrow> list_all2 (\<lambda>x y. f x = Inr y) xs ys"
  by (induction xs arbitrary: ys) (auto simp: and_then_eq_Inr list_all2_Cons1)

lemma is_ok_map_result: "is_ok (map_result f xs) \<longleftrightarrow> (\<forall>x \<in> set xs. is_ok (f x))"
proof (induction xs)
  case (Cons x xs)
  then show ?case
    by (cases "f x"; cases "map_result f xs") auto
qed simp

subsection \<open>Options\<close>

lemma map_of_eq_None_keys: "map_of r k = None \<longleftrightarrow> k \<notin> set (map fst r)"
  by (induction r) auto

lemma set_subset_card_eq:
  assumes "distinct ks" and "set ks \<subseteq> set as" and "length as = length ks"
  shows "set as = set ks \<and> distinct as"
proof -
  have "card (set ks) = length as"
    using assms by (simp add: distinct_card)
  moreover have "card (set as) \<le> length as"
    by (rule card_length)
  moreover have "card (set ks) \<le> card (set as)"
    using assms(2) by (rule card_mono[rotated]) simp
  ultimately have c: "card (set as) = length as" and "card (set as) = card (set ks)"
    by auto
  then have "set ks = set as"
    by (metis assms(2) card_subset_eq List.finite_set)
  with c show ?thesis
    by (simp add: card_distinct)
qed

end
