(* ===== verification/Js_Values.thy ===== *)
theory Js_Values
  imports Prelude
begin

section \<open>JavaScript values and the record checks of the parsers\<close>

text \<open>
  The parsers of the alert modules take \<open>unknown\<close> and check it field by field. This theory
  models the values they can be given and the two checks every parser starts with,
  \<open>recordValue\<close> and \<open>exactRecord\<close> of \<^verbatim>\<open>apps/sso/worker/alert-rules.ts\<close>.

  A number is an integral double (an \<open>int\<close>), or one of the others: a finite fraction (its
  value is never looked at, so a tag names it), a NaN or an infinity. The two zeros are one
  value, as they are for \<open>===\<close>. An object is the list of its own enumerable properties in
  creation order; values with accessors or inherited properties are outside the model.
  A string is the list of its code units, all below 256.
\<close>

datatype js_number = NInt int | NFraction nat | NNan | NInfinity bool

datatype js =
    JUndefined
  | JNull
  | JBool bool
  | JNum js_number
  | JStr string
  | JArr "js list"
  | JObj "(string \<times> js) list"
  | JDate "int option"
  | JFunction

type_synonym js_record = "(string \<times> js) list"

abbreviation JInt :: "int \<Rightarrow> js" where
  "JInt n \<equiv> JNum (NInt n)"

text \<open>\<open>Number.MAX_SAFE_INTEGER\<close>, and \<open>Number.isSafeInteger\<close> on any value.\<close>

definition MAX_SAFE_INTEGER :: int where
  "MAX_SAFE_INTEGER = 9007199254740991"

fun safeInteger :: "js \<Rightarrow> int option" where
  "safeInteger (JNum (NInt n)) = (if \<bar>n\<bar> \<le> MAX_SAFE_INTEGER then Some n else None)"
| "safeInteger _ = None"

lemma safeInteger_Some_iff:
  "safeInteger v = Some n \<longleftrightarrow> v = JInt n \<and> \<bar>n\<bar> \<le> MAX_SAFE_INTEGER"
  by (cases v rule: safeInteger.cases) (auto split: if_splits)

text \<open>Reading a property that is absent gives \<open>undefined\<close>.\<close>

definition field_of :: "js_record \<Rightarrow> string \<Rightarrow> js" where
  "field_of r k = (case map_of r k of None \<Rightarrow> JUndefined | Some v \<Rightarrow> v)"

lemma field_of_Nil [simp, js_simps]: "field_of [] k = JUndefined"
  by (simp add: field_of_def)

lemma field_of_Cons [simp, js_simps]: "field_of ((k', v) # r) k = (if k' = k then v else field_of r k)"
  by (auto simp: field_of_def)

text \<open>
  \<open>recordValue\<close>: anything of type object but null and arrays. A \<open>Date\<close> passes: it is an
  object with no own enumerable property.
\<close>

definition recordValue :: "js \<Rightarrow> string \<Rightarrow> js_record result" where
  "recordValue value name =
     (case value of
        JObj r \<Rightarrow> Inr r
      | JDate _ \<Rightarrow> Inr []
      | _ \<Rightarrow> Inl (Error (name @ '' must be an object'')))"

definition exactRecord :: "js \<Rightarrow> string list \<Rightarrow> string \<Rightarrow> js_record result" where
  "exactRecord value keys name =
     and_then (recordValue value name) (\<lambda>record.
       let actual = map fst record in
       if length actual \<noteq> length keys \<or> list_ex (\<lambda>key. key \<notin> set actual) keys
       then Inl (Error (name @ '' must contain only the canonical keys''))
       else Inr record)"

lemma recordValue_JObj [simp, js_simps]: "recordValue (JObj r) name = Inr r"
  by (simp add: recordValue_def)

lemma recordValue_Inr_iff:
  "recordValue v name = Inr r \<longleftrightarrow> v = JObj r \<or> (r = [] \<and> (\<exists>t. v = JDate t))"
  by (auto simp: recordValue_def split: js.splits)

lemma exactRecord_Inr_iff:
  "exactRecord v keys name = Inr r \<longleftrightarrow>
     recordValue v name = Inr r \<and> length r = length keys \<and> set keys \<subseteq> set (map fst r)"
  by (auto simp: exactRecord_def Let_def result_simps list_ex_iff split: if_splits)

lemma exactRecord_nonempty_Inr_iff:
  "keys \<noteq> [] \<Longrightarrow> exactRecord v keys name = Inr r \<longleftrightarrow>
     v = JObj r \<and> length r = length keys \<and> set keys \<subseteq> set (map fst r)"
  by (auto simp: exactRecord_Inr_iff recordValue_Inr_iff)

text \<open>
  What the check establishes: the record's own keys are exactly the canonical ones, each once.
\<close>

lemma exactRecord_keys:
  assumes "exactRecord v keys name = Inr r" and "distinct keys"
  shows "set (map fst r) = set keys \<and> distinct (map fst r)"
  using assms set_subset_card_eq[of keys "map fst r"]
  by (simp add: exactRecord_Inr_iff)

lemma exactRecord_built [simp, codec_simps]:
  "map fst r = keys \<Longrightarrow> exactRecord (JObj r) keys name = Inr r"
  by (auto simp: exactRecord_Inr_iff)

end
