(* ===== verification/Js_Date.thy ===== *)
theory Js_Date
  imports Js_Values
begin

section \<open>The date library, as far as the code uses it\<close>

text \<open>
  The alert modules exchange instants as strings and accept a string \<open>s\<close> only when
  \<open>new Date(s).getTime()\<close> is finite and \<open>new Date(t).toISOString() === s\<close>. This theory
  models the two library functions on the format \<open>toISOString\<close> produces, the proleptic
  Gregorian calendar included, and proves that reading what \<open>toISOString\<close> wrote gives the
  instant back. A string of any other format cannot pass the comparison, whatever the
  engine's date parser makes of it, so leaving the other formats out loses nothing.

  An instant is a number of milliseconds; a \<open>Date\<close> holds one in the range of 8.64e15 either
  side of the epoch.
\<close>

definition MAX_TIME :: int where
  "MAX_TIME = 8640000000000000"

definition time_in_range :: "int \<Rightarrow> bool" where
  "time_in_range t \<longleftrightarrow> - MAX_TIME \<le> t \<and> t \<le> MAX_TIME"

subsection \<open>The calendar\<close>

text \<open>
  Years are counted from the first of March, so that the leap day is the last of its year.
  A 400-year cycle has 146097 days. \<open>civil_of_days\<close> cuts it into centuries, 4-year cycles and years.
\<close>

definition days_of_civil :: "int \<Rightarrow> int \<Rightarrow> int \<Rightarrow> int" where
  "days_of_civil y m d =
     (let y' = (if m \<le> 2 then y - 1 else y);
          era = y' div 400;
          yoe = y' mod 400;
          mp = (if m \<le> 2 then m + 9 else m - 3);
          doy = (153 * mp + 2) div 5 + d - 1
      in era * 146097 + (yoe * 365 + yoe div 4 - yoe div 100 + doy) - 719468)"

definition civil_of_days :: "int \<Rightarrow> int \<times> int \<times> int" where
  "civil_of_days z =
     (let era = (z + 719468) div 146097;
          doe = (z + 719468) mod 146097;
          c = min 3 (doe div 36524);
          r = doe - 36524 * c;
          q = r div 1461;
          s = r - 1461 * q;
          k = min 3 (s div 365);
          doy = s - 365 * k;
          mp = (5 * doy + 2) div 153;
          d = doy - (153 * mp + 2) div 5 + 1;
          m = (if mp < 10 then mp + 3 else mp - 9);
          yoe = 100 * c + 4 * q + k;
          y = yoe + 400 * era
      in (if m \<le> 2 then y + 1 else y, m, d))"

text \<open>The bounds of each level of the decomposition.\<close>

lemma century_bounds:
  fixes doe :: int
  assumes "0 \<le> doe" "doe < 146097" and "c = min 3 (doe div 36524)"
  shows "0 \<le> c" "c \<le> 3" "0 \<le> doe - 36524 * c" "doe - 36524 * c \<le> 36524"
  using assms by (auto simp: min_def split: if_splits)

lemma cycle_bounds:
  fixes r :: int
  assumes "0 \<le> r" "r \<le> 36524" and "q = r div 1461"
  shows "0 \<le> q" "q \<le> 24" "0 \<le> r - 1461 * q" "r - 1461 * q \<le> 1460"
  using assms by auto

lemma year_bounds:
  fixes s :: int
  assumes "0 \<le> s" "s \<le> 1460" and "k = min 3 (s div 365)"
  shows "0 \<le> k" "k \<le> 3" "0 \<le> s - 365 * k" "s - 365 * k \<le> 365"
  using assms by (auto simp: min_def split: if_splits)

lemma month_bounds:
  fixes doy :: int
  assumes "0 \<le> doy" "doy \<le> 365" and "mp = (5 * doy + 2) div 153"
  shows "0 \<le> mp" "mp \<le> 11" "1 \<le> doy - (153 * mp + 2) div 5 + 1"
    "doy - (153 * mp + 2) div 5 + 1 \<le> 31"
  using assms by auto

lemma civil_of_days_bounds:
  assumes "civil_of_days z = (y, m, d)"
  shows "1 \<le> m" "m \<le> 12" "1 \<le> d" "d \<le> 31"
proof -
  define doe where "doe = (z + 719468) mod 146097"
  define c where "c = min 3 (doe div 36524)"
  define r where "r = doe - 36524 * c"
  define q where "q = r div 1461"
  define s where "s = r - 1461 * q"
  define k where "k = min 3 (s div 365)"
  define doy where "doy = s - 365 * k"
  define mp where "mp = (5 * doy + 2) div 153"
  note defs = doe_def c_def r_def q_def s_def k_def doy_def mp_def
  have "0 \<le> doe" "doe < 146097" by (simp_all add: doe_def)
  note c = century_bounds[OF this c_def, folded r_def]
  note q = cycle_bounds[OF c(3,4) q_def, folded s_def]
  note k = year_bounds[OF q(3,4) k_def, folded doy_def]
  note mp = month_bounds[OF k(3,4) mp_def]
  have m: "m = (if mp < 10 then mp + 3 else mp - 9)" and d: "d = doy - (153 * mp + 2) div 5 + 1"
    using assms unfolding civil_of_days_def Let_def defs prod.inject by blast+
  show "1 \<le> m" "m \<le> 12" using mp(1,2) by (simp_all add: m)
  show "1 \<le> d" "d \<le> 31" unfolding d using mp(3,4) by blast+
qed

lemma days_of_civil_of_days:
  assumes "civil_of_days z = (y, m, d)"
  shows "days_of_civil y m d = z"
proof -
  define era where "era = (z + 719468) div 146097"
  define doe where "doe = (z + 719468) mod 146097"
  define c where "c = min 3 (doe div 36524)"
  define r where "r = doe - 36524 * c"
  define q where "q = r div 1461"
  define s where "s = r - 1461 * q"
  define k where "k = min 3 (s div 365)"
  define doy where "doy = s - 365 * k"
  define mp where "mp = (5 * doy + 2) div 153"
  define yoe where "yoe = 100 * c + 4 * q + k"
  note defs = era_def doe_def c_def r_def q_def s_def k_def doy_def mp_def yoe_def
  have z: "z = 146097 * era + doe - 719468"
    by (simp add: era_def doe_def)
  have "0 \<le> doe" "doe < 146097" by (simp_all add: doe_def)
  note c = century_bounds[OF this c_def, folded r_def]
  note q = cycle_bounds[OF c(3,4) q_def, folded s_def]
  note k = year_bounds[OF q(3,4) k_def, folded doy_def]
  note mp = month_bounds[OF k(3,4) mp_def]
  have yoe: "0 \<le> yoe" "yoe < 400" "yoe div 4 = 25 * c + q" "yoe div 100 = c"
    using c(1,2) q(1,2) k(1,2) by (simp_all add: yoe_def)
  have m: "m = (if mp < 10 then mp + 3 else mp - 9)"
    and d: "d = doy - (153 * mp + 2) div 5 + 1"
    and y: "y = (if m \<le> 2 then yoe + 400 * era + 1 else yoe + 400 * era)"
    using assms unfolding civil_of_days_def Let_def defs prod.inject by blast+
  have mp': "(if m \<le> 2 then m + 9 else m - 3) = mp"
    and y': "(if m \<le> 2 then y - 1 else y) = yoe + 400 * era"
    using mp(1,2) by (auto simp: m y)
  have "(yoe + 400 * era) div 400 = era" and "(yoe + 400 * era) mod 400 = yoe"
    using yoe(1,2) by simp_all
  then have "days_of_civil y m d =
      era * 146097 + (yoe * 365 + (25 * c + q) - c + ((153 * mp + 2) div 5 + d - 1)) - 719468"
    unfolding days_of_civil_def Let_def by (simp add: mp' y' yoe)
  also have "\<dots> = era * 146097 + (365 * yoe + 24 * c + q + doy) - 719468"
    by (simp add: d)
  also have "365 * yoe + 24 * c + q + doy = doe"
    by (simp add: yoe_def doy_def s_def r_def)
  finally show ?thesis by (simp add: z)
qed

subsection \<open>Decimal fields of a fixed width\<close>

definition digit :: "int \<Rightarrow> char" where
  "digit n = char_of (nat (48 + n))"

definition digit_value :: "char \<Rightarrow> int option" where
  "digit_value c =
     (let n = of_char c in if (48::nat) \<le> n \<and> n \<le> 57 then Some (int n - 48) else None)"

fun digits :: "nat \<Rightarrow> int \<Rightarrow> string" where
  "digits 0 n = []"
| "digits (Suc k) n = digits k (n div 10) @ [digit (n mod 10)]"

fun read_digits :: "int \<Rightarrow> string \<Rightarrow> int option" where
  "read_digits acc [] = Some acc"
| "read_digits acc (c # cs) =
     (case digit_value c of None \<Rightarrow> None | Some d \<Rightarrow> read_digits (10 * acc + d) cs)"

lemma digit_value_digit: "0 \<le> n \<Longrightarrow> n \<le> 9 \<Longrightarrow> digit_value (digit n) = Some n"
  by (auto simp: digit_def digit_value_def of_char_of Let_def nat_add_distrib)

lemma digit_inj: "0 \<le> m \<Longrightarrow> m \<le> 9 \<Longrightarrow> 0 \<le> n \<Longrightarrow> n \<le> 9 \<Longrightarrow> digit m = digit n \<Longrightarrow> m = n"
  by (metis digit_value_digit option.inject)

lemma read_digits_append:
  "read_digits acc (xs @ ys) =
     (case read_digits acc xs of None \<Rightarrow> None | Some n \<Rightarrow> read_digits n ys)"
  by (induction xs arbitrary: acc) (auto split: option.splits)

lemma length_digits [simp]: "length (digits k n) = k"
  by (induction k arbitrary: n) auto

lemma read_digits_digits: "0 \<le> n \<Longrightarrow> n < 10 ^ k \<Longrightarrow> read_digits 0 (digits k n) = Some n"
proof (induction k arbitrary: n)
  case 0
  then show ?case by simp
next
  case (Suc k)
  have "0 \<le> n div 10" "n div 10 < 10 ^ k"
    using Suc.prems by (simp_all add: div_less_iff_less_mult mult.commute)
  then have "read_digits 0 (digits k (n div 10)) = Some (n div 10)"
    by (rule Suc.IH)
  then show ?case
    by (simp add: read_digits_append digit_value_digit)
qed

subsection \<open>Writing and reading an instant\<close>

definition iso_year :: "int \<Rightarrow> string" where
  "iso_year y =
     (if 0 \<le> y \<and> y \<le> 9999 then digits 4 y
      else (if y < 0 then CHR ''-'' else CHR ''+'') # digits 6 \<bar>y\<bar>)"

definition iso_clock :: "int \<Rightarrow> int \<Rightarrow> int \<Rightarrow> string" where
  "iso_clock m d ms =
     ''-'' @ digits 2 m @ ''-'' @ digits 2 d @ ''T'' @ digits 2 (ms div 3600000) @ '':'' @
     digits 2 (ms div 60000 mod 60) @ '':'' @ digits 2 (ms div 1000 mod 60) @ ''.'' @
     digits 3 (ms mod 1000) @ ''Z''"

definition iso_of_time :: "int \<Rightarrow> string" where
  "iso_of_time t =
     (case civil_of_days (t div 86400000) of (y, m, d) \<Rightarrow>
        iso_year y @ iso_clock m d (t mod 86400000))"

text \<open>\<open>new Date(t).toISOString()\<close>: an instant out of range makes an invalid date, and writing it throws.\<close>

definition toISOString :: "int \<Rightarrow> string result" where
  "toISOString t =
     (if time_in_range t then Inr (iso_of_time t) else Inl (RangeError ''Invalid time value''))"

definition slice :: "nat \<Rightarrow> nat \<Rightarrow> string \<Rightarrow> string" where
  "slice i n s = take n (drop i s)"

definition read_clock :: "int \<Rightarrow> string \<Rightarrow> int option" where
  "read_clock y s =
     (if length s = 20 \<and> slice 0 1 s = ''-'' \<and> slice 3 1 s = ''-'' \<and> slice 6 1 s = ''T'' \<and>
         slice 9 1 s = '':'' \<and> slice 12 1 s = '':'' \<and> slice 15 1 s = ''.'' \<and> slice 19 1 s = ''Z''
      then Option.bind (read_digits 0 (slice 1 2 s)) (\<lambda>m.
           Option.bind (read_digits 0 (slice 4 2 s)) (\<lambda>d.
           Option.bind (read_digits 0 (slice 7 2 s)) (\<lambda>h.
           Option.bind (read_digits 0 (slice 10 2 s)) (\<lambda>mi.
           Option.bind (read_digits 0 (slice 13 2 s)) (\<lambda>sec.
           Option.bind (read_digits 0 (slice 16 3 s)) (\<lambda>ms.
             Some (days_of_civil y m d * 86400000 + h * 3600000 + mi * 60000 + sec * 1000 + ms)))))))
      else None)"

fun time_of_iso :: "string \<Rightarrow> int option" where
  "time_of_iso [] = None"
| "time_of_iso (c # s) =
     (if c = CHR ''-'' then
        Option.bind (read_digits 0 (take 6 s)) (\<lambda>y. read_clock (- y) (drop 6 s))
      else if c = CHR ''+'' then
        Option.bind (read_digits 0 (take 6 s)) (\<lambda>y. read_clock y (drop 6 s))
      else Option.bind (read_digits 0 (c # take 3 s)) (\<lambda>y. read_clock y (drop 3 s)))"

text \<open>
  The test the code applies to every instant it is given: the string reads as an instant in
  range, and writing that instant gives the string back. The result is \<open>getTime()\<close>.
\<close>

definition canonical_time :: "string \<Rightarrow> int option" where
  "canonical_time s =
     (case time_of_iso s of
        None \<Rightarrow> None
      | Some t \<Rightarrow> if time_in_range t \<and> iso_of_time t = s then Some t else None)"

subsection \<open>What was written is what is read\<close>

lemma digits4: "digits 4 n = [digit (n div 10 div 10 div 10 mod 10), digit (n div 10 div 10 mod 10), digit (n div 10 mod 10), digit (n mod 10)]"
  by (simp add: eval_nat_numeral)

lemma clock_split:
  fixes ms :: int
  shows "ms div 3600000 * 3600000 + ms div 60000 mod 60 * 60000 + ms div 1000 mod 60 * 1000 +
    ms mod 1000 = ms"
proof -
  define a where "a = ms div 1000"
  define b where "b = a div 60"
  have b: "ms div 60000 = b" and c: "ms div 3600000 = b div 60"
    by (simp_all add: a_def b_def flip: zdiv_zmult2_eq)
  have "a = b * 60 + a mod 60" and "b = b div 60 * 60 + b mod 60" and "ms = a * 1000 + ms mod 1000"
    by (simp_all add: a_def b_def)
  then show ?thesis unfolding b c a_def[symmetric] by linarith
qed

lemma read_clock_fields:
  assumes "length a = 2" "length b = 2" "length c = 2" "length e = 2" "length f = 2" "length g = 3"
  shows "read_clock y (''-'' @ a @ ''-'' @ b @ ''T'' @ c @ '':'' @ e @ '':'' @ f @ ''.'' @ g @ ''Z'') =
      Option.bind (read_digits 0 a) (\<lambda>m.
      Option.bind (read_digits 0 b) (\<lambda>d.
      Option.bind (read_digits 0 c) (\<lambda>h.
      Option.bind (read_digits 0 e) (\<lambda>mi.
      Option.bind (read_digits 0 f) (\<lambda>sec.
      Option.bind (read_digits 0 g) (\<lambda>ms.
        Some (days_of_civil y m d * 86400000 + h * 3600000 + mi * 60000 + sec * 1000 + ms)))))))"
proof -
  from assms obtain a0 a1 b0 b1 c0 c1 e0 e1 f0 f1 g0 g1 g2 where
    "a = [a0, a1]" "b = [b0, b1]" "c = [c0, c1]" "e = [e0, e1]" "f = [f0, f1]" "g = [g0, g1, g2]"
    by (auto simp: eval_nat_numeral length_Suc_conv)
  then show ?thesis by (simp add: read_clock_def slice_def)
qed

lemma read_clock_iso_clock:
  assumes "1 \<le> m" "m \<le> 12" "1 \<le> d" "d \<le> 31" "0 \<le> ms" "ms < 86400000"
  shows "read_clock y (iso_clock m d ms) = Some (days_of_civil y m d * 86400000 + ms)"
proof -
  have r: "read_digits 0 (digits 2 m) = Some m" "read_digits 0 (digits 2 d) = Some d"
    "read_digits 0 (digits 2 (ms div 3600000)) = Some (ms div 3600000)"
    "read_digits 0 (digits 2 (ms div 60000 mod 60)) = Some (ms div 60000 mod 60)"
    "read_digits 0 (digits 2 (ms div 1000 mod 60)) = Some (ms div 1000 mod 60)"
    "read_digits 0 (digits 3 (ms mod 1000)) = Some (ms mod 1000)"
    using assms by (simp_all add: read_digits_digits)
  have "read_clock y (iso_clock m d ms) = Some (days_of_civil y m d * 86400000 +
      (ms div 3600000 * 3600000) + (ms div 60000 mod 60 * 60000) + (ms div 1000 mod 60 * 1000) +
      ms mod 1000)"
    unfolding iso_clock_def by (subst read_clock_fields) (simp_all only: length_digits r bind.bind_lunit)
  then show ?thesis using clock_split[of ms] by (simp only: add.assoc)
qed

lemma digit_not_sign: "0 \<le> n \<Longrightarrow> n \<le> 9 \<Longrightarrow> digit n \<noteq> CHR ''-'' \<and> digit n \<noteq> CHR ''+''"
proof -
  assume "0 \<le> n" "n \<le> 9"
  then have "digit_value (digit n) = Some n" by (rule digit_value_digit)
  moreover have "digit_value CHR ''-'' = None" "digit_value CHR ''+'' = None"
    by (simp_all add: digit_value_def)
  ultimately show ?thesis by force
qed

lemma time_of_iso_year:
  assumes "- 999999 \<le> y" "y \<le> 999999"
  shows "time_of_iso (iso_year y @ s) = read_clock y s"
proof (cases "0 \<le> y \<and> y \<le> 9999")
  case True
  define z where "z = y div 10 div 10 div 10 mod 10"
  have "iso_year y = digits 4 y" using True by (simp add: iso_year_def)
  moreover have "digits 4 y = digit z # tl (digits 4 y)" by (simp add: digits4 z_def)
  moreover have "read_digits 0 (digits 4 y) = Some y"
    using True by (simp add: read_digits_digits)
  moreover have "digit z \<noteq> CHR ''-'' \<and> digit z \<noteq> CHR ''+''"
    by (rule digit_not_sign) (simp_all add: z_def)
  moreover have "length (tl (digits 4 y)) = 3" by simp
  ultimately show ?thesis
    by (metis (no_types, lifting) append_Cons append_eq_conv_conj bind.bind_lunit time_of_iso.simps(2))
next
  case False
  have "read_digits 0 (digits 6 \<bar>y\<bar>) = Some \<bar>y\<bar>"
    using assms by (simp add: read_digits_digits)
  with False show ?thesis by (auto simp: iso_year_def)
qed

lemma civil_year_bounds:
  assumes "civil_of_days z = (y, m, d)" and "- 100000000 \<le> z" "z \<le> 100000000"
  shows "- 999999 \<le> y" "y \<le> 999999"
proof -
  define era where "era = (z + 719468) div 146097"
  define doe where "doe = (z + 719468) mod 146097"
  define c where "c = min 3 (doe div 36524)"
  define r where "r = doe - 36524 * c"
  define q where "q = r div 1461"
  define s where "s = r - 1461 * q"
  define k where "k = min 3 (s div 365)"
  note defs = era_def doe_def c_def r_def q_def s_def k_def
  have "0 \<le> doe" "doe < 146097" by (simp_all add: doe_def)
  note c = century_bounds[OF this c_def, folded r_def]
  note q = cycle_bounds[OF c(3,4) q_def, folded s_def]
  note k = year_bounds[OF q(3,4) k_def]
  have "y = 100 * c + 4 * q + k + 400 * era + 1 \<or> y = 100 * c + 4 * q + k + 400 * era"
    using assms(1) unfolding civil_of_days_def Let_def defs prod.inject by presburger
  moreover have "- 1000 \<le> era" "era \<le> 1000"
    using assms(2,3) by (simp_all add: era_def)
  ultimately show "- 999999 \<le> y" "y \<le> 999999"
    using c(1,2) q(1,2) k(1,2) by linarith+
qed

lemma time_of_iso_of_time:
  assumes "time_in_range t"
  shows "time_of_iso (iso_of_time t) = Some t"
proof -
  obtain y m d where c: "civil_of_days (t div 86400000) = (y, m, d)"
    by (rule prod_cases3)
  have z: "- 100000000 \<le> t div 86400000" "t div 86400000 \<le> 100000000"
    using assms unfolding time_in_range_def MAX_TIME_def by linarith+
  have "time_of_iso (iso_of_time t) = read_clock y (iso_clock m d (t mod 86400000))"
    using civil_year_bounds[OF c z] by (simp add: iso_of_time_def c time_of_iso_year)
  also have "\<dots> = Some (days_of_civil y m d * 86400000 + t mod 86400000)"
    using civil_of_days_bounds[OF c] by (intro read_clock_iso_clock) simp_all
  finally show ?thesis by (simp add: days_of_civil_of_days[OF c])
qed

text \<open>
  The test accepts exactly the strings \<open>toISOString\<close> writes, and reads each as the one
  instant it was written from.
\<close>

lemma canonical_time_Some_iff:
  "canonical_time s = Some t \<longleftrightarrow> time_in_range t \<and> s = iso_of_time t"
  by (auto simp: canonical_time_def time_of_iso_of_time split: option.splits if_splits)

lemma canonical_time_iso_of_time [simp]:
  "time_in_range t \<Longrightarrow> canonical_time (iso_of_time t) = Some t"
  by (simp add: canonical_time_Some_iff)

lemma iso_of_time_inj:
  "time_in_range t \<Longrightarrow> time_in_range u \<Longrightarrow> iso_of_time t = iso_of_time u \<Longrightarrow> t = u"
  by (metis canonical_time_iso_of_time option.inject)

lemma toISOString_Inr_iff: "toISOString t = Inr s \<longleftrightarrow> canonical_time s = Some t"
  by (auto simp: toISOString_def canonical_time_Some_iff)

text \<open>\<open>new Date(s).getTime()\<close> where \<open>s\<close> has passed the test.\<close>

definition getTime :: "string \<Rightarrow> int" where
  "getTime s = (case canonical_time s of None \<Rightarrow> 0 | Some t \<Rightarrow> t)"

lemma getTime_canonical: "canonical_time s = Some t \<Longrightarrow> getTime s = t"
  by (simp add: getTime_def)

definition canonical :: "string \<Rightarrow> bool" where
  "canonical s \<longleftrightarrow> canonical_time s \<noteq> None"

lemma canonical_iff: "canonical s \<longleftrightarrow> canonical_time s = Some (getTime s)"
  by (auto simp: canonical_def getTime_def)

lemma canonical_getTime_inj:
  "canonical s \<Longrightarrow> canonical u \<Longrightarrow> getTime s = getTime u \<longleftrightarrow> s = u"
  by (auto simp: canonical_iff canonical_time_Some_iff)

lemma canonical_iso_of_time [simp]: "time_in_range t \<Longrightarrow> canonical (iso_of_time t)"
  by (simp add: canonical_def)

lemma getTime_iso_of_time [simp]: "time_in_range t \<Longrightarrow> getTime (iso_of_time t) = t"
  by (simp add: getTime_def)

end
