(* ===== verification/Base64url.thy ===== *)
theory Base64url
  imports Js_Values
begin

section \<open>Unpadded base64url, as the alert references use it\<close>

text \<open>
  \<open>btoa\<close> and \<open>atob\<close> of the platform, and the functions of
  \<^verbatim>\<open>apps/sso/worker/alert-rules.ts\<close> built on them: \<open>base64Url\<close>, \<open>base64UrlIndex\<close>,
  \<open>isCanonicalBase64Url32\<close> and \<open>decodeHmacKey\<close>. A byte is an \<open>8 word\<close>. The main fact
  is that the two checks of the code, a pattern with a test on the last character and a
  decoding with a comparison, both accept exactly the encodings of 32 bytes.
\<close>

type_synonym bytes = "8 word list"

subsection \<open>Groups of six bits\<close>

fun sextets :: "bytes \<Rightarrow> nat list" where
  "sextets [] = []"
| "sextets [x] = [unat x div 4, unat x mod 4 * 16]"
| "sextets [x, y] = [unat x div 4, unat x mod 4 * 16 + unat y div 16, unat y mod 16 * 4]"
| "sextets (x # y # z # r) =
     unat x div 4 # (unat x mod 4 * 16 + unat y div 16) # (unat y mod 16 * 4 + unat z div 64) #
     unat z mod 64 # sextets r"

fun unsextets :: "nat list \<Rightarrow> bytes option" where
  "unsextets [] = Some []"
| "unsextets [a] = None"
| "unsextets [a, b] = Some [word_of_nat (a * 4 + b div 16)]"
| "unsextets [a, b, c] =
     Some [word_of_nat (a * 4 + b div 16), word_of_nat (b mod 16 * 16 + c div 4)]"
| "unsextets (a # b # c # d # r) =
     map_option (\<lambda>bs. word_of_nat (a * 4 + b div 16) # word_of_nat (b mod 16 * 16 + c div 4) #
       word_of_nat (c mod 4 * 64 + d) # bs) (unsextets r)"

lemma unat8: "unat (x :: 8 word) < 256"
  using unsigned_less[of x] by simp

lemma word8_of_nat: "n = unat (x :: 8 word) \<Longrightarrow> word_of_nat n = x"
  by simp

lemma unat_word8: "n < 256 \<Longrightarrow> unat (word_of_nat n :: 8 word) = n"
  by (simp add: unsigned_of_nat take_bit_nat_eq_self)

lemma sextet_split:
  fixes x y z :: nat
  assumes "x < 256" "y < 256" "z < 256"
  shows "x div 4 * 4 + (x mod 4 * 16 + y div 16) div 16 = x"
    and "(x mod 4 * 16 + y div 16) mod 16 * 16 + (y mod 16 * 4 + z div 64) div 4 = y"
    and "(y mod 16 * 4 + z div 64) mod 4 * 64 + z mod 64 = z"
proof -
  have a: "(x mod 4 * 16 + y div 16) div 16 = x mod 4" "(x mod 4 * 16 + y div 16) mod 16 = y div 16"
    using assms by simp_all
  have b: "(y mod 16 * 4 + z div 64) div 4 = y mod 16" "(y mod 16 * 4 + z div 64) mod 4 = z div 64"
    using assms by simp_all
  show "x div 4 * 4 + (x mod 4 * 16 + y div 16) div 16 = x"
    and "(x mod 4 * 16 + y div 16) mod 16 * 16 + (y mod 16 * 4 + z div 64) div 4 = y"
    and "(y mod 16 * 4 + z div 64) mod 4 * 64 + z mod 64 = z"
    unfolding a b by simp_all
qed

lemma unsextets_sextets: "unsextets (sextets bs) = Some bs"
proof (induction bs rule: sextets.induct)
  case 1
  then show ?case by simp
next
  case (2 x)
  show ?case using sextet_split(1)[of "unat x" 0 0] unat8[of x] by (simp add: word8_of_nat)
next
  case (3 x y)
  show ?case using sextet_split(1,2)[of "unat x" "unat y" 0] unat8[of x] unat8[of y]
    by (simp add: word8_of_nat)
next
  case (4 x y z r)
  then show ?case using sextet_split[of "unat x" "unat y" "unat z"] unat8[of x] unat8[of y] unat8[of z]
    by (simp add: word8_of_nat)
qed

lemma sextets_bound: "i \<in> set (sextets bs) \<Longrightarrow> i < 64"
proof (induction bs rule: sextets.induct)
  case (4 x y z r)
  then show ?case using unat8[of x] unat8[of y] unat8[of z] by auto
next
  case (3 x y)
  then show ?case using unat8[of x] unat8[of y] by auto
next
  case (2 x)
  then show ?case using unat8[of x] by auto
qed simp

text \<open>
  The converse: six-bit groups whose unused bits are zero are the groups of the bytes they decode to.
\<close>

fun zero_tail :: "nat list \<Rightarrow> bool" where
  "zero_tail [] = True"
| "zero_tail [a] = False"
| "zero_tail [a, b] = (b mod 16 = 0)"
| "zero_tail [a, b, c] = (c mod 4 = 0)"
| "zero_tail (a # b # c # d # r) = zero_tail r"

lemma sextets_unsextets:
  assumes "\<forall>i \<in> set is. i < 64" and "zero_tail is"
  shows "\<exists>bs. unsextets is = Some bs \<and> sextets bs = is"
  using assms
proof (induction "is" rule: zero_tail.induct)
  case (3 a b)
  then have "unat (word_of_nat (a * 4 + b div 16) :: 8 word) = a * 4 + b div 16"
    by (intro unat_word8) auto
  with 3 show ?case by auto
next
  case (4 a b c)
  then have "unat (word_of_nat (a * 4 + b div 16) :: 8 word) = a * 4 + b div 16"
    and "unat (word_of_nat (b mod 16 * 16 + c div 4) :: 8 word) = b mod 16 * 16 + c div 4"
    by (intro unat_word8; auto)+
  with 4 show ?case by auto
next
  case (5 a b c d r)
  then obtain bs where bs: "unsextets r = Some bs" "sextets bs = r" by auto
  have "unat (word_of_nat (a * 4 + b div 16) :: 8 word) = a * 4 + b div 16"
    and "unat (word_of_nat (b mod 16 * 16 + c div 4) :: 8 word) = b mod 16 * 16 + c div 4"
    and "unat (word_of_nat (c mod 4 * 64 + d) :: 8 word) = c mod 4 * 64 + d"
    using 5 by (intro unat_word8; auto)+
  with 5 bs show ?case by auto
qed simp_all

subsection \<open>\<open>btoa\<close>, \<open>atob\<close> and the url alphabet\<close>

definition base64Char :: "nat \<Rightarrow> char" where
  "base64Char i =
     (if i < 26 then char_of (65 + i)
      else if i < 52 then char_of (71 + i)
      else if i < 62 then char_of (i - 4)
      else if i = 62 then CHR ''+'' else CHR ''/'')"

definition base64Index :: "char \<Rightarrow> nat option" where
  "base64Index ch =
     (let c = of_char ch :: nat in
      if 65 \<le> c \<and> c \<le> 90 then Some (c - 65)
      else if 97 \<le> c \<and> c \<le> 122 then Some (c - 71)
      else if 48 \<le> c \<and> c \<le> 57 then Some (c + 4)
      else if ch = CHR ''+'' then Some 62
      else if ch = CHR ''/'' then Some 63
      else None)"

definition btoa :: "bytes \<Rightarrow> string" where
  "btoa bs = map base64Char (sextets bs) @ replicate ((3 - length bs mod 3) mod 3) CHR ''=''"

text \<open>
  \<open>atob\<close> (the forgiving decoder of the platform): whitespace is dropped, one or two padding
  characters are dropped when the length is a multiple of four, everything else must be in
  the alphabet, and bits left over are ignored.
\<close>

definition is_space :: "char \<Rightarrow> bool" where
  "is_space c \<longleftrightarrow> of_char c \<in> {9, 10, 12, 13, 32 :: nat}"

definition strip_padding :: "string \<Rightarrow> string" where
  "strip_padding s =
     (if length s mod 4 \<noteq> 0 then s
      else if drop (length s - 2) s = ''=='' then take (length s - 2) s
      else if drop (length s - 1) s = ''='' then take (length s - 1) s
      else s)"

fun base64Indices :: "string \<Rightarrow> nat list option" where
  "base64Indices [] = Some []"
| "base64Indices (c # cs) =
     (case base64Index c of
        None \<Rightarrow> None
      | Some i \<Rightarrow> map_option (\<lambda>is. i # is) (base64Indices cs))"

definition atob :: "string \<Rightarrow> bytes option" where
  "atob s = Option.bind (base64Indices (strip_padding (filter (\<lambda>c. \<not> is_space c) s))) unsextets"

definition replaceAll :: "char \<Rightarrow> char \<Rightarrow> string \<Rightarrow> string" where
  "replaceAll a b s = map (\<lambda>c. if c = a then b else c) s"

definition strip_trailing :: "char \<Rightarrow> string \<Rightarrow> string" where
  "strip_trailing c s = rev (dropWhile (\<lambda>d. d = c) (rev s))"

definition base64Url :: "bytes \<Rightarrow> string" where
  "base64Url bs =
     strip_trailing CHR ''='' (replaceAll CHR ''/'' CHR ''_'' (replaceAll CHR ''+'' CHR ''-'' (btoa bs)))"

subsection \<open>The checks of the code\<close>

definition base64UrlIndex :: "string \<Rightarrow> int" where
  "base64UrlIndex character =
     (if length character \<noteq> 1 then -1
      else let code = of_char (hd character) :: nat in
        if 65 \<le> code \<and> code \<le> 90 then int code - 65
        else if 97 \<le> code \<and> code \<le> 122 then int code - 97 + 26
        else if 48 \<le> code \<and> code \<le> 57 then int code - 48 + 52
        else if character = ''-'' then 62
        else if character = ''_'' then 63
        else -1)"

definition is_base64url_char :: "char \<Rightarrow> bool" where
  "is_base64url_char c \<longleftrightarrow>
     (let n = of_char c :: nat in
      65 \<le> n \<and> n \<le> 90 \<or> 97 \<le> n \<and> n \<le> 122 \<or> 48 \<le> n \<and> n \<le> 57 \<or> c = CHR ''_'' \<or> c = CHR ''-'')"

text \<open>\<open>HMAC_REFERENCE_PATTERN\<close>: exactly 43 characters of the alphabet.\<close>

definition HMAC_REFERENCE_PATTERN :: "string \<Rightarrow> bool" where
  "HMAC_REFERENCE_PATTERN s \<longleftrightarrow> length s = 43 \<and> list_all is_base64url_char s"

definition isCanonicalBase64Url32 :: "string \<Rightarrow> bool" where
  "isCanonicalBase64Url32 s =
     (if \<not> HMAC_REFERENCE_PATTERN s then False
      else let finalIndex = base64UrlIndex (if s = [] then [] else [last s]) in
        finalIndex \<ge> 0 \<and> finalIndex mod 4 = 0)"

definition decodeHmacKey :: "string \<Rightarrow> bytes result" where
  "decodeHmacKey s =
     (let failed = Inl (Error ''alert HMAC key must be 32-byte unpadded base64url'') in
      if \<not> HMAC_REFERENCE_PATTERN s then failed
      else case atob (replaceAll CHR ''_'' CHR ''/'' (replaceAll CHR ''-'' CHR ''+'' s) @ ''='') of
        None \<Rightarrow> failed
      | Some bs \<Rightarrow>
          if length bs \<noteq> 32 then failed
          else if base64Url bs \<noteq> s then failed
          else Inr bs)"

subsection \<open>Encodings and checks agree\<close>

definition urlChar :: "nat \<Rightarrow> char" where
  "urlChar i = (if i = 62 then CHR ''-'' else if i = 63 then CHR ''_'' else base64Char i)"

lemma of_char_base64Char:
  "i < 64 \<Longrightarrow> (of_char (base64Char i) :: nat) =
     (if i < 26 then 65 + i else if i < 52 then 71 + i else if i < 62 then i - 4
      else if i = 62 then 43 else 47)"
  by (auto simp: base64Char_def of_char_of)

lemma of_char_urlChar:
  "i < 64 \<Longrightarrow> (of_char (urlChar i) :: nat) =
     (if i < 26 then 65 + i else if i < 52 then 71 + i else if i < 62 then i - 4
      else if i = 62 then 45 else 95)"
  by (auto simp: urlChar_def of_char_base64Char)

lemma char_eq_nat: "c = d \<longleftrightarrow> (of_char c :: nat) = of_char d"
  by simp

lemma sextet_table:
  assumes "i < 64"
  shows "base64Index (base64Char i) = Some i" "base64Char i \<noteq> CHR ''=''" "\<not> is_space (base64Char i)"
    "base64UrlIndex [urlChar i] = int i" "is_base64url_char (urlChar i)" "urlChar i \<noteq> CHR ''=''"
    "base64Char i = CHR ''+'' \<longleftrightarrow> i = 62" "base64Char i = CHR ''/'' \<longleftrightarrow> i = 63"
    "urlChar i = CHR ''-'' \<longleftrightarrow> i = 62" "urlChar i = CHR ''_'' \<longleftrightarrow> i = 63"
  using assms unfolding base64Index_def is_space_def base64UrlIndex_def is_base64url_char_def Let_def
  by (auto simp: of_char_base64Char of_char_urlChar char_eq_nat simp del: of_char_eq_iff)

lemma url_alphabet:
  assumes "is_base64url_char c"
  shows "\<exists>i < 64. c = urlChar i"
proof -
  let ?n = "of_char c :: nat"
  consider "65 \<le> ?n" "?n \<le> 90" | "97 \<le> ?n" "?n \<le> 122" | "48 \<le> ?n" "?n \<le> 57"
    | "?n = 45" | "?n = 95"
    using assms by (auto simp: is_base64url_char_def Let_def)
  then show ?thesis
  proof cases
    case 1
    then show ?thesis by (intro exI[of _ "?n - 65"]) (auto simp: char_eq_nat of_char_urlChar simp del: of_char_eq_iff)
  next
    case 2
    then show ?thesis by (intro exI[of _ "?n - 71"]) (auto simp: char_eq_nat of_char_urlChar simp del: of_char_eq_iff)
  next
    case 3
    then show ?thesis by (intro exI[of _ "?n + 4"]) (auto simp: char_eq_nat of_char_urlChar simp del: of_char_eq_iff)
  next
    case 4
    then show ?thesis by (intro exI[of _ 62]) (auto simp: char_eq_nat of_char_urlChar simp del: of_char_eq_iff)
  next
    case 5
    then show ?thesis by (intro exI[of _ 63]) (auto simp: char_eq_nat of_char_urlChar simp del: of_char_eq_iff)
  qed
qed

lemma base64Indices_map: "\<forall>i \<in> set is. i < 64 \<Longrightarrow> base64Indices (map base64Char is) = Some is"
  by (induction "is") (simp_all add: sextet_table)

lemma replaceAll_simps [simp]:
  "replaceAll a b [] = []" "replaceAll a b (c # s) = (if c = a then b else c) # replaceAll a b s"
  "replaceAll a b (s @ t) = replaceAll a b s @ replaceAll a b t"
  "replaceAll a b (replicate n c) = replicate n (if c = a then b else c)"
  "length (replaceAll a b s) = length s"
  by (simp_all add: replaceAll_def)

lemma to_url: "\<forall>i \<in> set is. i < 64 \<Longrightarrow>
    replaceAll CHR ''/'' CHR ''_'' (replaceAll CHR ''+'' CHR ''-'' (map base64Char is)) = map urlChar is"
  by (induction "is") (auto simp: sextet_table urlChar_def)

lemma from_url: "\<forall>i \<in> set is. i < 64 \<Longrightarrow>
    replaceAll CHR ''_'' CHR ''/'' (replaceAll CHR ''-'' CHR ''+'' (map urlChar is)) = map base64Char is"
proof (induction "is")
  case (Cons i "is")
  have "(if i = 62 then CHR ''+'' else if i = 63 then CHR ''/'' else base64Char i) = base64Char i"
    by (simp add: base64Char_def)
  with Cons show ?case using sextet_table(9,10)[of i] by (auto simp: urlChar_def)
qed simp

lemma base64Url_eq: "base64Url bs = map urlChar (sextets bs)"
proof -
  have b: "\<forall>i \<in> set (sextets bs). i < 64" using sextets_bound by blast
  have "dropWhile (\<lambda>d. d = CHR ''='') (rev (map urlChar (sextets bs))) = rev (map urlChar (sextets bs))"
    using b sextet_table(6) by (cases "rev (sextets bs)") (auto simp flip: rev_map simp: rev_eq_Cons_iff)
  moreover have "dropWhile (\<lambda>d. d = CHR ''='') (replicate n CHR ''='' @ xs) = dropWhile (\<lambda>d. d = CHR ''='') xs" for n xs
    by (induction n) auto
  ultimately show ?thesis
    using b by (simp add: base64Url_def btoa_def to_url strip_trailing_def)
qed

lemma map_urlChar_inj:
  assumes "\<forall>i \<in> set is. i < 64" and "\<forall>i \<in> set js. i < 64" and "map urlChar is = map urlChar js"
  shows "is = js"
proof (rule map_inj_on)
  show "map urlChar is = map urlChar js" by fact
  show "inj_on urlChar (set is \<union> set js)"
  proof (rule inj_onI)
    fix a b assume ab: "a \<in> set is \<union> set js" "b \<in> set is \<union> set js" and eq: "urlChar a = urlChar b"
    then have "a < 64" "b < 64" using assms(1,2) by auto
    then have "int a = base64UrlIndex [urlChar a]" "int b = base64UrlIndex [urlChar b]"
      by (simp_all only: sextet_table)
    with eq show "a = b" by simp
  qed
qed

lemma base64Url_inj: "base64Url bs = base64Url bs' \<Longrightarrow> bs = bs'"
proof -
  assume "base64Url bs = base64Url bs'"
  then have "sextets bs = sextets bs'"
    unfolding base64Url_eq by (rule map_urlChar_inj[rotated 2]) (use sextets_bound in blast)+
  then show ?thesis by (metis option.inject unsextets_sextets)
qed

subsection \<open>Both checks accept exactly the encodings of 32 bytes\<close>

lemma length_sextets: "length (sextets bs) = (4 * length bs + 2) div 3"
  by (induction bs rule: sextets.induct) simp_all

lemma zero_tail_last: "length is mod 4 = 3 \<Longrightarrow> zero_tail is \<longleftrightarrow> last is mod 4 = 0"
  by (induction "is" rule: zero_tail.induct) auto

lemma zero_tail_sextets: "zero_tail (sextets bs)"
  by (induction bs rule: sextets.induct) auto

lemma unsextets_length: "unsextets is = Some bs \<Longrightarrow> length bs = 3 * length is div 4"
  by (induction "is" arbitrary: bs rule: unsextets.induct) auto

lemma pattern_sextets:
  assumes "HMAC_REFERENCE_PATTERN s"
  obtains "is" where "\<forall>i \<in> set is. i < 64" and "s = map urlChar is" and "length is = 43"
proof -
  have "list_all is_base64url_char s" and len: "length s = 43"
    using assms by (simp_all add: HMAC_REFERENCE_PATTERN_def)
  from this(1) have "\<exists>is. (\<forall>i \<in> set is. i < 64) \<and> s = map urlChar is"
  proof (induction s)
    case (Cons c s)
    then obtain "is" where r: "\<forall>i \<in> set is. i < 64" "s = map urlChar is" by auto
    obtain i where "i < 64" "c = urlChar i"
      using url_alphabet Cons.prems by auto
    with r show ?case by (intro exI[of _ "i # is"]) simp
  qed simp
  with len that show thesis by auto
qed

lemma pattern_base64Url: "length bs = 32 \<Longrightarrow> HMAC_REFERENCE_PATTERN (base64Url bs)"
proof -
  assume "length bs = 32"
  then have "length (sextets bs) = 43" using length_sextets[of bs] by simp
  then show ?thesis
    using sextets_bound sextet_table(5)
    by (auto simp: HMAC_REFERENCE_PATTERN_def base64Url_eq list_all_iff)
qed

lemma base64Url_of_tail:
  assumes b: "\<forall>i \<in> set is. i < 64" and "length is = 43"
  shows "last is mod 4 = 0 \<longleftrightarrow> (\<exists>bs. length bs = 32 \<and> base64Url bs = map urlChar is)"
proof
  assume "last is mod 4 = 0"
  then have "zero_tail is" using assms(2) by (simp add: zero_tail_last)
  then obtain bs where bs: "unsextets is = Some bs" "sextets bs = is"
    using sextets_unsextets b by blast
  with assms(2) have "length bs = 32" using unsextets_length[OF bs(1)] by simp
  then show "\<exists>bs. length bs = 32 \<and> base64Url bs = map urlChar is"
    using bs(2) by (auto simp: base64Url_eq)
next
  assume "\<exists>bs. length bs = 32 \<and> base64Url bs = map urlChar is"
  then obtain bs where eq: "map urlChar (sextets bs) = map urlChar is"
    by (auto simp: base64Url_eq)
  have "sextets bs = is"
    by (rule map_urlChar_inj[OF _ _ eq]) (use sextets_bound b in blast)+
  then show "last is mod 4 = 0"
    using zero_tail_sextets[of bs] zero_tail_last[of "is"] assms(2) by simp
qed

lemma isCanonicalBase64Url32_iff:
  "isCanonicalBase64Url32 s \<longleftrightarrow> (\<exists>bs. length bs = 32 \<and> base64Url bs = s)"
proof (cases "HMAC_REFERENCE_PATTERN s")
  case True
  then obtain "is" where i: "\<forall>i \<in> set is. i < 64" "s = map urlChar is" "length is = 43"
    by (rule pattern_sextets)
  from i(3) have ne: "is \<noteq> []" by auto
  then have l: "last is < 64" using i(1) by simp
  have "isCanonicalBase64Url32 s \<longleftrightarrow> int (last is) mod 4 = 0"
    using True ne l by (simp add: isCanonicalBase64Url32_def i(2) last_map sextet_table)
  also have "\<dots> \<longleftrightarrow> last is mod 4 = 0" by presburger
  finally show ?thesis using base64Url_of_tail[OF i(1,3)] i(2) by simp
next
  case False
  then show ?thesis using pattern_base64Url by (auto simp: isCanonicalBase64Url32_def)
qed

lemma atob_base64Url:
  assumes "HMAC_REFERENCE_PATTERN s"
  obtains "is" where "\<forall>i \<in> set is. i < 64" and "s = map urlChar is" and "length is = 43"
    and "atob (replaceAll CHR ''_'' CHR ''/'' (replaceAll CHR ''-'' CHR ''+'' s) @ ''='') = unsextets is"
proof -
  obtain "is" where i: "\<forall>i \<in> set is. i < 64" "s = map urlChar is" "length is = 43"
    using assms by (rule pattern_sextets)
  let ?t = "map base64Char is"
  have "filter (\<lambda>c. \<not> is_space c) (?t @ ''='') = ?t @ ''=''"
    using i(1) sextet_table(3) by (auto simp: filter_id_conv is_space_def)
  moreover have "last ?t \<noteq> CHR ''=''"
    using i sextet_table(2) by (cases "is" rule: rev_cases) auto
  then have "strip_padding (?t @ ''='') = ?t"
    using i(3) by (cases "is" rule: rev_cases) (auto simp: strip_padding_def)
  ultimately have "atob (?t @ ''='') = unsextets is"
    using i(1) by (simp add: atob_def base64Indices_map)
  with i that show thesis by (simp add: from_url)
qed

lemma decodeHmacKey_Inr_iff:
  "decodeHmacKey s = Inr bs \<longleftrightarrow> length bs = 32 \<and> base64Url bs = s"
proof
  assume "decodeHmacKey s = Inr bs"
  then show "length bs = 32 \<and> base64Url bs = s"
    by (auto simp: decodeHmacKey_def Let_def split: if_splits option.splits)
next
  assume bs: "length bs = 32 \<and> base64Url bs = s"
  then have p: "HMAC_REFERENCE_PATTERN s" using pattern_base64Url by blast
  then obtain "is" where i: "\<forall>i \<in> set is. i < 64" "s = map urlChar is" "length is = 43"
    and a: "atob (replaceAll CHR ''_'' CHR ''/'' (replaceAll CHR ''-'' CHR ''+'' s) @ ''='') = unsextets is"
    by (rule atob_base64Url)
  from bs i(2) have eq: "map urlChar (sextets bs) = map urlChar is"
    by (simp add: base64Url_eq)
  have "sextets bs = is"
    by (rule map_urlChar_inj[OF _ _ eq]) (use sextets_bound i(1) in blast)+
  then show "decodeHmacKey s = Inr bs"
    using bs p by (auto simp: decodeHmacKey_def a unsextets_sextets)
qed

end
