(* ===== verification/Alert_Types.thy ===== *)
theory Alert_Types
  imports Js_Date Base64url
begin

section \<open>The vocabulary of the alert rules\<close>

text \<open>
  The closed enumerations and the descriptor types of
  \<^verbatim>\<open>apps/sso/worker/alert-rules.ts\<close>: rule identifiers, severities, windows, queues,
  dimensions, metrics, threshold expressions and source descriptors. A union of string
  literals is a \<open>datatype\<close>, with a function giving each constructor the literal of the source.
\<close>

subsection \<open>Rule identifiers\<close>

datatype alertRuleId =
    Registration_rate_limited
  | Registration_denied
  | Registration_challenge_unavailable
  | Registration_restricted_created
  | Restricted_sensitive_denied
  | Recovery_entry_abuse
  | Recovery_passkey_failure
  | Passkey_step_up_failure
  | Oauth_client_report
  | Admin_sensitive_activity
  | Admin_directory_volume
  | Security_fanout_gap
  | Logout_delivery_health
  | Alert_runtime_health
  | Queue_dlq_approximate

definition ALERT_RULE_IDS :: "alertRuleId list" where
  "ALERT_RULE_IDS =
     [Registration_rate_limited, Registration_denied, Registration_challenge_unavailable,
      Registration_restricted_created, Restricted_sensitive_denied, Recovery_entry_abuse,
      Recovery_passkey_failure, Passkey_step_up_failure, Oauth_client_report,
      Admin_sensitive_activity, Admin_directory_volume, Security_fanout_gap,
      Logout_delivery_health, Alert_runtime_health, Queue_dlq_approximate]"

fun ruleIdString :: "alertRuleId \<Rightarrow> string" where
  "ruleIdString Registration_rate_limited = ''pgid.registration.rate_limited.v1''"
| "ruleIdString Registration_denied = ''pgid.registration.denied.v1''"
| "ruleIdString Registration_challenge_unavailable = ''pgid.registration.challenge_unavailable.v1''"
| "ruleIdString Registration_restricted_created = ''pgid.registration.restricted_created.v1''"
| "ruleIdString Restricted_sensitive_denied = ''pgid.restricted.sensitive_denied.v1''"
| "ruleIdString Recovery_entry_abuse = ''pgid.recovery.entry_abuse.v1''"
| "ruleIdString Recovery_passkey_failure = ''pgid.recovery.passkey_failure.v1''"
| "ruleIdString Passkey_step_up_failure = ''pgid.passkey.step_up_failure.v1''"
| "ruleIdString Oauth_client_report = ''pgid.oauth.client_report.v1''"
| "ruleIdString Admin_sensitive_activity = ''pgid.admin.sensitive_activity.v1''"
| "ruleIdString Admin_directory_volume = ''pgid.admin.directory_volume.v1''"
| "ruleIdString Security_fanout_gap = ''pgid.security.fanout_gap.v1''"
| "ruleIdString Logout_delivery_health = ''pgid.logout.delivery_health.v1''"
| "ruleIdString Alert_runtime_health = ''pgid.alert.runtime_health.v1''"
| "ruleIdString Queue_dlq_approximate = ''pgid.queue.dlq_approximate.v1''"

lemma ALERT_RULE_IDS_all: "r \<in> set ALERT_RULE_IDS"
  by (cases r) (simp_all add: ALERT_RULE_IDS_def)

lemma ruleIdString_inj [simp]: "ruleIdString a = ruleIdString b \<longleftrightarrow> a = b"
  by (cases a; cases b) simp_all

text \<open>The position of a rule in \<open>ALERT_RULE_IDS\<close> orders the rules; the order is linear.\<close>

fun ruleIndex :: "alertRuleId \<Rightarrow> nat" where
  "ruleIndex Registration_rate_limited = 0"
| "ruleIndex Registration_denied = 1"
| "ruleIndex Registration_challenge_unavailable = 2"
| "ruleIndex Registration_restricted_created = 3"
| "ruleIndex Restricted_sensitive_denied = 4"
| "ruleIndex Recovery_entry_abuse = 5"
| "ruleIndex Recovery_passkey_failure = 6"
| "ruleIndex Passkey_step_up_failure = 7"
| "ruleIndex Oauth_client_report = 8"
| "ruleIndex Admin_sensitive_activity = 9"
| "ruleIndex Admin_directory_volume = 10"
| "ruleIndex Security_fanout_gap = 11"
| "ruleIndex Logout_delivery_health = 12"
| "ruleIndex Alert_runtime_health = 13"
| "ruleIndex Queue_dlq_approximate = 14"

lemma ruleIndex_nth: "ALERT_RULE_IDS ! ruleIndex r = r \<and> ruleIndex r < length ALERT_RULE_IDS"
  by (cases r) (simp_all add: ALERT_RULE_IDS_def)

lemma ruleIndex_inj: "ruleIndex a = ruleIndex b \<longleftrightarrow> a = b"
  by (metis ruleIndex_nth)

instantiation alertRuleId :: linorder
begin

definition less_eq_alertRuleId :: "alertRuleId \<Rightarrow> alertRuleId \<Rightarrow> bool" where
  "less_eq_alertRuleId a b = (ruleIndex a \<le> ruleIndex b)"

definition less_alertRuleId :: "alertRuleId \<Rightarrow> alertRuleId \<Rightarrow> bool" where
  "less_alertRuleId a b = (ruleIndex a < ruleIndex b)"

instance
  by standard (auto simp: less_eq_alertRuleId_def less_alertRuleId_def ruleIndex_inj)

end

subsection \<open>Severities, evidence and windows\<close>

text \<open>
  \<open>AlertSeverity\<close> is \<open>activeSeverity option\<close>: \<open>None\<close> is the literal "none". Where the code has
  \<open>ActiveAlertSeverity | null\<close>, \<open>None\<close> is null.
\<close>

datatype activeSeverity = Warning | Critical

type_synonym alertSeverity = "activeSeverity option"

datatype alertEvidenceStatus = Known | Unknown

datatype alertSourceKind = D1_exact | Queue_approximate

datatype alertResolutionMode = Automatic | Manual

datatype alertWindowKey = W5m | W15m | W60m

definition ALERT_WINDOW_KEYS :: "alertWindowKey list" where
  "ALERT_WINDOW_KEYS = [W5m, W15m, W60m]"

definition ALERT_EVIDENCE_WINDOW_ORDER :: "alertWindowKey list" where
  "ALERT_EVIDENCE_WINDOW_ORDER = ALERT_WINDOW_KEYS"

fun windowKeyString :: "alertWindowKey \<Rightarrow> string" where
  "windowKeyString W5m = ''5m''"
| "windowKeyString W15m = ''15m''"
| "windowKeyString W60m = ''60m''"

fun ALERT_WINDOW_SECONDS :: "alertWindowKey \<Rightarrow> int" where
  "ALERT_WINDOW_SECONDS W5m = 300"
| "ALERT_WINDOW_SECONDS W15m = 900"
| "ALERT_WINDOW_SECONDS W60m = 3600"

instantiation alertWindowKey :: linorder
begin

definition less_eq_alertWindowKey :: "alertWindowKey \<Rightarrow> alertWindowKey \<Rightarrow> bool" where
  "less_eq_alertWindowKey a b = (ALERT_WINDOW_SECONDS a \<le> ALERT_WINDOW_SECONDS b)"

definition less_alertWindowKey :: "alertWindowKey \<Rightarrow> alertWindowKey \<Rightarrow> bool" where
  "less_alertWindowKey a b = (ALERT_WINDOW_SECONDS a < ALERT_WINDOW_SECONDS b)"

instance
proof
  fix a b :: alertWindowKey
  show "a \<le> b \<Longrightarrow> b \<le> a \<Longrightarrow> a = b"
    by (cases a; cases b) (simp_all add: less_eq_alertWindowKey_def)
qed (auto simp: less_eq_alertWindowKey_def less_alertWindowKey_def)

end

text \<open>\<open>Windowed<T>\<close>: one value for each window.\<close>

record 'a windowed =
  w5m :: 'a
  w15m :: 'a
  w60m :: 'a

fun atWindow :: "('a, 'b) windowed_scheme \<Rightarrow> alertWindowKey \<Rightarrow> 'a" where
  "atWindow w W5m = w5m w"
| "atWindow w W15m = w15m w"
| "atWindow w W60m = w60m w"

definition mapWindows :: "('a \<Rightarrow> 'b) \<Rightarrow> 'a windowed \<Rightarrow> 'b windowed" where
  "mapWindows f w = \<lparr>w5m = f (w5m w), w15m = f (w15m w), w60m = f (w60m w)\<rparr>"

lemma atWindow_mapWindows [simp]: "atWindow (mapWindows f w) k = f (atWindow w k)"
  by (cases k) (simp_all add: mapWindows_def)

subsection \<open>Bounds of the persistence domain\<close>

definition MAX_EVIDENCE_VALUE :: int where
  "MAX_EVIDENCE_VALUE = 1000000000"

definition MAX_RATIO_FIELD :: int where
  "MAX_RATIO_FIELD = 1000000"

definition MAX_QUEUE_BACKLOG_BYTES :: int where
  "MAX_QUEUE_BACKLOG_BYTES = 1000000000000"

definition ALERT_RUNTIME_GENERATION_MAX :: int where
  "ALERT_RUNTIME_GENERATION_MAX = MAX_SAFE_INTEGER"

definition ALERT_RUNTIME_REVISION_MAX :: int where
  "ALERT_RUNTIME_REVISION_MAX = MAX_SAFE_INTEGER"

lemmas bound_defs = MAX_EVIDENCE_VALUE_def MAX_RATIO_FIELD_def MAX_QUEUE_BACKLOG_BYTES_def
  MAX_SAFE_INTEGER_def ALERT_RUNTIME_GENERATION_MAX_def ALERT_RUNTIME_REVISION_MAX_def

subsection \<open>Queues and dimensions\<close>

datatype alertQueueName =
    Security_events_dlq
  | Logout_deliveries_dlq
  | Alert_deliveries_dlq
  | Audit_archive_dlq

definition ALERT_QUEUE_NAMES :: "alertQueueName list" where
  "ALERT_QUEUE_NAMES =
     [Security_events_dlq, Logout_deliveries_dlq, Alert_deliveries_dlq, Audit_archive_dlq]"

fun queueNameString :: "alertQueueName \<Rightarrow> string" where
  "queueNameString Security_events_dlq = ''security_events_dlq''"
| "queueNameString Logout_deliveries_dlq = ''logout_deliveries_dlq''"
| "queueNameString Alert_deliveries_dlq = ''alert_deliveries_dlq''"
| "queueNameString Audit_archive_dlq = ''audit_archive_dlq''"

lemma queueNameString_inj [simp]: "queueNameString a = queueNameString b \<longleftrightarrow> a = b"
  by (cases a; cases b) simp_all

fun ALERT_QUEUE_COMPONENTS :: "alertQueueName \<Rightarrow> string" where
  "ALERT_QUEUE_COMPONENTS Alert_deliveries_dlq = ''alert_dlq''"
| "ALERT_QUEUE_COMPONENTS Audit_archive_dlq = ''audit_archive_dlq''"
| "ALERT_QUEUE_COMPONENTS Logout_deliveries_dlq = ''logout_dlq''"
| "ALERT_QUEUE_COMPONENTS Security_events_dlq = ''security_dlq''"

datatype hashedDimensionKind = Subject_hmac | Actor_hmac | Client_hmac

definition ALERT_HASHED_DIMENSION_KINDS :: "hashedDimensionKind list" where
  "ALERT_HASHED_DIMENSION_KINDS = [Subject_hmac, Actor_hmac, Client_hmac]"

fun hashedKindString :: "hashedDimensionKind \<Rightarrow> string" where
  "hashedKindString Subject_hmac = ''subject_hmac''"
| "hashedKindString Actor_hmac = ''actor_hmac''"
| "hashedKindString Client_hmac = ''client_hmac''"

lemma hashedKindString_inj [simp]: "hashedKindString a = hashedKindString b \<longleftrightarrow> a = b"
  by (cases a; cases b) simp_all

definition ALERT_HMAC_REFERENCE_DOMAINS :: "string list" where
  "ALERT_HMAC_REFERENCE_DOMAINS =
     map hashedKindString ALERT_HASHED_DIMENSION_KINDS @ [''reporter_hmac'']"

record hashedAlertReference =
  keyVersion :: int
  refValue :: string

datatype dimensionKind = KGlobal | KHashed hashedDimensionKind | KQueue

fun dimensionKindString :: "dimensionKind \<Rightarrow> string" where
  "dimensionKindString KGlobal = ''global''"
| "dimensionKindString (KHashed k) = hashedKindString k"
| "dimensionKindString KQueue = ''queue''"

datatype alertDimension =
    Global
  | Hashed hashedDimensionKind hashedAlertReference
  | QueueDimension alertQueueName

fun kindOf :: "alertDimension \<Rightarrow> dimensionKind" where
  "kindOf Global = KGlobal"
| "kindOf (Hashed k _) = KHashed k"
| "kindOf (QueueDimension _) = KQueue"

subsection \<open>Metrics and threshold expressions\<close>

datatype alertMetricName =
    M_consecutive_nonzero_samples | M_count | M_dead | M_dead_outbox | M_depth
  | M_distinct_reporters | M_evaluator_age_seconds | M_evaluator_missing | M_high_risk_count
  | M_known_surfaces | M_lease_expired | M_missing | M_oldest_unresolved_age_seconds
  | M_outbox_due_age_seconds | M_protected_denials | M_rate_limited | M_ratio | M_successes

fun metricNameString :: "alertMetricName \<Rightarrow> string" where
  "metricNameString M_consecutive_nonzero_samples = ''consecutive_nonzero_samples''"
| "metricNameString M_count = ''count''"
| "metricNameString M_dead = ''dead''"
| "metricNameString M_dead_outbox = ''dead_outbox''"
| "metricNameString M_depth = ''depth''"
| "metricNameString M_distinct_reporters = ''distinct_reporters''"
| "metricNameString M_evaluator_age_seconds = ''evaluator_age_seconds''"
| "metricNameString M_evaluator_missing = ''evaluator_missing''"
| "metricNameString M_high_risk_count = ''high_risk_count''"
| "metricNameString M_known_surfaces = ''known_surfaces''"
| "metricNameString M_lease_expired = ''lease_expired''"
| "metricNameString M_missing = ''missing''"
| "metricNameString M_oldest_unresolved_age_seconds = ''oldest_unresolved_age_seconds''"
| "metricNameString M_outbox_due_age_seconds = ''outbox_due_age_seconds''"
| "metricNameString M_protected_denials = ''protected_denials''"
| "metricNameString M_rate_limited = ''rate_limited''"
| "metricNameString M_ratio = ''ratio''"
| "metricNameString M_successes = ''successes''"

lemma metricNameString_inj [simp]: "metricNameString a = metricNameString b \<longleftrightarrow> a = b"
  by (cases a; cases b) simp_all

definition ALERT_METRIC_NAMES :: "alertMetricName list" where
  "ALERT_METRIC_NAMES =
     [M_consecutive_nonzero_samples, M_count, M_dead, M_dead_outbox, M_depth,
      M_distinct_reporters, M_evaluator_age_seconds, M_evaluator_missing, M_high_risk_count,
      M_known_surfaces, M_lease_expired, M_missing, M_oldest_unresolved_age_seconds,
      M_outbox_due_age_seconds, M_protected_denials, M_rate_limited, M_ratio, M_successes]"

lemma ALERT_METRIC_NAMES_all: "m \<in> set ALERT_METRIC_NAMES"
  by (cases m) (simp_all add: ALERT_METRIC_NAMES_def)

datatype internalMetricName =
    ConsecutiveNonzeroSamples | Count | Dead | DeadOutbox | Denominator | Depth
  | DistinctReporters | EvaluatorAgeSeconds | EvaluatorMissing | HighRiskCount | KnownSurfaces
  | LeaseExpired | MissingOlderThan15mCount | MissingOlderThan5mCount | Numerator
  | OldestUnresolvedAgeSeconds | OutboxDueAgeSeconds | ProtectedDenials | RateLimited | Successes

fun METRIC_NAMES :: "internalMetricName \<Rightarrow> alertMetricName" where
  "METRIC_NAMES ConsecutiveNonzeroSamples = M_consecutive_nonzero_samples"
| "METRIC_NAMES Count = M_count"
| "METRIC_NAMES Dead = M_dead"
| "METRIC_NAMES DeadOutbox = M_dead_outbox"
| "METRIC_NAMES Denominator = M_count"
| "METRIC_NAMES Depth = M_depth"
| "METRIC_NAMES DistinctReporters = M_distinct_reporters"
| "METRIC_NAMES EvaluatorAgeSeconds = M_evaluator_age_seconds"
| "METRIC_NAMES EvaluatorMissing = M_evaluator_missing"
| "METRIC_NAMES HighRiskCount = M_high_risk_count"
| "METRIC_NAMES KnownSurfaces = M_known_surfaces"
| "METRIC_NAMES LeaseExpired = M_lease_expired"
| "METRIC_NAMES MissingOlderThan15mCount = M_missing"
| "METRIC_NAMES MissingOlderThan5mCount = M_missing"
| "METRIC_NAMES Numerator = M_count"
| "METRIC_NAMES OldestUnresolvedAgeSeconds = M_oldest_unresolved_age_seconds"
| "METRIC_NAMES OutboxDueAgeSeconds = M_outbox_due_age_seconds"
| "METRIC_NAMES ProtectedDenials = M_protected_denials"
| "METRIC_NAMES RateLimited = M_rate_limited"
| "METRIC_NAMES Successes = M_successes"

text \<open>
  \<open>Ratio_gte basisPoints minDenominator minNumerator\<close>; its two metrics are always the
  numerator and the denominator.
\<close>

datatype thresholdExpression =
    Gte internalMetricName int
  | Ratio_gte int int int
  | All "thresholdExpression list"
  | Any "thresholdExpression list"

record windowThresholdDefinition =
  criticalThreshold :: "thresholdExpression option"
  warningThreshold :: "thresholdExpression option"

fun thresholdFor :: "windowThresholdDefinition \<Rightarrow> activeSeverity \<Rightarrow> thresholdExpression option" where
  "thresholdFor d Critical = criticalThreshold d"
| "thresholdFor d Warning = warningThreshold d"

definition countAtLeast :: "internalMetricName \<Rightarrow> int \<Rightarrow> thresholdExpression" where
  "countAtLeast metric value = Gte metric value"

definition ratioAtLeast :: "int \<Rightarrow> int \<Rightarrow> int \<Rightarrow> thresholdExpression" where
  "ratioAtLeast minDenominator minNumerator basisPoints =
     Ratio_gte basisPoints minDenominator minNumerator"

definition anyOf :: "thresholdExpression list \<Rightarrow> thresholdExpression" where
  "anyOf clauses = Any clauses"

definition allOf :: "thresholdExpression list \<Rightarrow> thresholdExpression" where
  "allOf clauses = All clauses"

lemmas threshold_builders [rule_simps] = countAtLeast_def ratioAtLeast_def anyOf_def allOf_def

end
