(* ===== verification/Alert_Rule_Table.thy ===== *)
theory Alert_Rule_Table
  imports Alert_Types
begin

section \<open>The constant table of alert rules\<close>

text \<open>
  The source descriptors and \<open>ALERT_RULE_DEFINITIONS\<close> of
  \<^verbatim>\<open>apps/sso/worker/alert-rules.ts\<close>, one definition per rule, and
  \<open>ALERT_RULE_POLICY\<close>. Fields that name columns or semantics are kept as the strings they are.
\<close>

definition RESTRICTED_ALERT_SURFACES :: "string list" where
  "RESTRICTED_ALERT_SURFACES =
     [''provider_link'', ''clients.manage'', ''clients.manage_all'', ''users.read'',
      ''users.invite'', ''users.manage'', ''users.assign_roles'']"

definition OAUTH_REPORT_REASONS :: "string list" where
  "OAUTH_REPORT_REASONS = [''impersonation'', ''phishing'', ''scope_abuse'', ''other'']"

definition HIGH_RISK_OAUTH_REPORT_REASONS :: "string list" where
  "HIGH_RISK_OAUTH_REPORT_REASONS = [''impersonation'', ''phishing'']"

definition HIGH_RISK_ADMIN_SUCCESS_EVENTS :: "string list" where
  "HIGH_RISK_ADMIN_SUCCESS_EVENTS =
     [''invitation.created'', ''logout_delivery.replayed'', ''oauth_client.created'',
      ''oauth_client.deleted'', ''oauth_client.disabled'', ''oauth_client.enabled'',
      ''oauth_client.secret_rotated'', ''oauth_client.trust_updated'', ''oauth_client.updated'',
      ''user.access_promoted'', ''user.access_restricted'', ''user.deleted'', ''user.reactivated'',
      ''user.role_changed'', ''user.sessions_revoked'', ''user.suspended'']"

definition BOOTADMIN_PROTECTED_EVENTS :: "string list" where
  "BOOTADMIN_PROTECTED_EVENTS =
     [''user.access_promoted'', ''user.access_restricted'', ''user.deleted'', ''user.reactivated'',
      ''user.role_changed'', ''user.sessions_revoked'', ''user.suspended'']"

subsection \<open>Source descriptors\<close>

datatype auditOutcome = Success | Denied | Failure

datatype auditMetricRole =
    R_count | R_denominator | R_known_surfaces | R_numerator | R_protected_denials
  | R_rate_limited | R_successes

record auditEventSourceFilter =
  eventTypes :: "string list"
  filterMetadata :: "(string \<times> string list) option"
  metricRoles :: "auditMetricRole list"
  filterOutcome :: auditOutcome

record actorProvenance =
  actorRefColumn :: string
  actorRefHashVersionColumn :: string
  actorCompletenessPredicate :: string
  actorCoverageLookbackSeconds :: int
  missingActorIdentity :: string

record auditEventSource =
  eventIdColumn :: string
  eventTypeColumn :: string
  metadataColumn :: string
  occurredAtColumn :: string
  outcomeColumn :: string
  au_dimensionColumn :: "string option"
  au_filters :: "auditEventSourceFilter list"
  includeGlobal :: bool
  au_actor :: "actorProvenance option"
  au_table :: string

record oauthReportSource =
  allReasons :: "string list"
  or_completenessPredicate :: string
  or_coverageLookbackSeconds :: int
  or_createdAtColumn :: string
  or_dimensionColumn :: string
  hashVersion :: int
  highRiskReasons :: "string list"
  missingReporterIdentity :: string
  reasonColumn :: string
  reporterRefColumn :: string
  reporterRefDomain :: string
  reporterRefHashVersionColumn :: string
  reporterUserIdColumn :: string
  or_table :: string

record auditFanoutSource =
  detectionOnly :: bool
  fo_dimension :: string
  graceSeconds :: int
  fo_join :: string
  lookbackSeconds :: int
  markerEventIdColumn :: string
  markerTable :: string
  sourceIdColumn :: string
  sourceTable :: string
  sourceTimeColumn :: string

record logoutSnapshotSource =
  ls_clientIdColumn :: string
  ls_createdAtColumn :: string
  deadStatus :: string
  oldestAgeSecondsSemantics :: string
  ls_scope :: string
  ls_statusColumn :: string
  ls_unresolvedStatuses :: "string list"

record logoutWindowSource =
  attemptCompletedAtColumn :: string
  attemptCohortScope :: string
  attemptDeliveryIdColumn :: string
  attemptOutcomeColumn :: string
  attemptTable :: string
  deliveryClientIdColumn :: string
  deliveryCohortColumn :: string
  deliveryCohortScope :: string
  deliveryIdColumn :: string
  deliveryStatusColumn :: string
  deliveryTable :: string
  eligibleStatuses :: "string list"
  leaseExpiredOutcome :: string
  lw_unresolvedStatuses :: "string list"

record runtimeOutboxSource =
  currentDeadCountSemantics :: string
  currentDeadStatus :: string
  dueAgeSecondsSemantics :: string
  dueAgeSecondsNullSemantics :: string
  dueStatuses :: "string list"
  dueTimeColumn :: string
  expiredProcessingStatus :: string
  expiredProcessingTimeColumn :: string
  ob_statusColumn :: string
  ob_table :: string

text \<open>
  The bootstrap part of the runtime descriptor is documentation the code never reads back:
  a nested object of strings, kept as the paths of its leaves with their values, in order.
\<close>

record runtimeEvaluatorSource =
  ageSecondsSemantics :: string
  bootstrapContract :: "(string \<times> string list) list"
  ev_component :: string
  ev_componentColumn :: string
  lastSuccessAtColumn :: string
  nullAgeSemantics :: string
  runtimeStatuses :: "string list"
  ev_statusColumn :: string

record queueMetricsSource =
  backlogBytesBindingField :: string
  backlogBytesColumn :: string
  backlogBytesMaximum :: int
  backlogCountBindingField :: string
  backlogCountColumn :: string
  backlogCountMaximum :: int
  qm_componentColumn :: string
  consecutiveNonzeroSamplesColumn :: string
  consecutiveNonzeroSamplesMaximum :: int
  criticalDurationSeconds :: int
  qm_dimension :: string
  invalidBindingMetrics :: string
  qm_method :: string
  metricSampledAtColumn :: string
  nonzeroSinceAtColumn :: string
  numericValidation :: string
  oldestMessageAgeSecondsColumn :: string
  oldestMessageAgeSecondsMaximum :: int
  oldestMessageTimestampBindingField :: string
  oldestMessageTimestampNormalization :: string
  queueComponentByName :: "alertQueueName \<Rightarrow> string"
  queueNames :: "alertQueueName list"
  sampleCadenceSeconds :: int
  streakStateTable :: string

datatype alertSourceDescriptor =
    Audit_event auditEventSource
  | Oauth_client_report_source oauthReportSource
  | Audit_fanout auditFanoutSource
  | Logout_delivery logoutSnapshotSource "string list" logoutWindowSource
  | Alert_runtime string runtimeEvaluatorSource runtimeOutboxSource string "(string \<times> string) list"
  | Queue_metrics queueMetricsSource

record alertRuleDefinition =
  ruleDimensions :: "dimensionKind list"
  ruleId :: alertRuleId
  resolutionMode :: alertResolutionMode
  ruleSource :: alertSourceDescriptor
  sourceKind :: alertSourceKind
  thresholds :: "windowThresholdDefinition windowed"

subsection \<open>Building blocks\<close>

definition auditFilter :: "string list \<Rightarrow> auditMetricRole list \<Rightarrow> auditOutcome \<Rightarrow> auditEventSourceFilter" where
  "auditFilter types roles result =
     \<lparr>eventTypes = types, filterMetadata = None, metricRoles = roles, filterOutcome = result\<rparr>"

text \<open>\<open>AUDIT_EVENT_SOURCE_COLUMNS\<close>, spread into every audit descriptor.\<close>

definition auditSource ::
  "string option \<Rightarrow> auditEventSourceFilter list \<Rightarrow> bool \<Rightarrow> actorProvenance option \<Rightarrow> alertSourceDescriptor" where
  "auditSource dimension filters global actor = Audit_event
     \<lparr>eventIdColumn = ''id'', eventTypeColumn = ''event_type'', metadataColumn = ''metadata_json'',
      occurredAtColumn = ''occurred_at'', outcomeColumn = ''outcome'',
      au_dimensionColumn = dimension, au_filters = filters, includeGlobal = global,
      au_actor = actor, au_table = ''audit_event''\<rparr>"

definition actorSource :: actorProvenance where
  "actorSource =
     \<lparr>actorRefColumn = ''actor_ref'', actorRefHashVersionColumn = ''actor_ref_hash_version'',
      actorCompletenessPredicate = ''actor_user_id_or_actor_ref_present'',
      actorCoverageLookbackSeconds = 3600, missingActorIdentity = ''source_incomplete''\<rparr>"

definition warnOnly :: "thresholdExpression \<Rightarrow> windowThresholdDefinition" where
  "warnOnly e = \<lparr>criticalThreshold = None, warningThreshold = Some e\<rparr>"

definition criticalOnly :: "thresholdExpression \<Rightarrow> windowThresholdDefinition" where
  "criticalOnly e = \<lparr>criticalThreshold = Some e, warningThreshold = None\<rparr>"

definition bothThresholds ::
  "thresholdExpression \<Rightarrow> thresholdExpression \<Rightarrow> windowThresholdDefinition" where
  "bothThresholds c w = \<lparr>criticalThreshold = Some c, warningThreshold = Some w\<rparr>"

definition noThreshold :: windowThresholdDefinition where
  "noThreshold = \<lparr>criticalThreshold = None, warningThreshold = None\<rparr>"

lemmas window_builders [rule_simps] =
  warnOnly_def criticalOnly_def bothThresholds_def noThreshold_def

subsection \<open>The rules\<close>

definition rule_registration_rate_limited :: alertRuleDefinition where
  "rule_registration_rate_limited =
     \<lparr>ruleDimensions = [KGlobal], ruleId = Registration_rate_limited, resolutionMode = Automatic,
      ruleSource = auditSource None
        [auditFilter [''registration.rate_limited''] [R_count] Denied] True None,
      sourceKind = D1_exact,
      thresholds =
        \<lparr>w5m = warnOnly (countAtLeast Count 5),
         w15m = warnOnly (countAtLeast Count 10),
         w60m = criticalOnly (countAtLeast Count 40)\<rparr>\<rparr>"

definition rule_registration_denied :: alertRuleDefinition where
  "rule_registration_denied =
     \<lparr>ruleDimensions = [KGlobal], ruleId = Registration_denied, resolutionMode = Automatic,
      ruleSource = auditSource None
        [auditFilter [''registration.denied''] [R_count] Denied] True None,
      sourceKind = D1_exact,
      thresholds =
        \<lparr>w5m = warnOnly (countAtLeast Count 10),
         w15m = warnOnly (countAtLeast Count 25),
         w60m = criticalOnly (countAtLeast Count 100)\<rparr>\<rparr>"

definition rule_registration_challenge_unavailable :: alertRuleDefinition where
  "rule_registration_challenge_unavailable =
     \<lparr>ruleDimensions = [KGlobal], ruleId = Registration_challenge_unavailable,
      resolutionMode = Automatic,
      ruleSource = auditSource None
        [auditFilter [''registration.challenge_unavailable''] [R_numerator, R_denominator] Failure,
         auditFilter [''registration.challenge_denied''] [R_denominator] Denied,
         auditFilter [''registration.intent_created''] [R_denominator] Success] True None,
      sourceKind = D1_exact,
      thresholds =
        \<lparr>w5m = warnOnly (ratioAtLeast 5 2 2000),
         w15m = warnOnly (ratioAtLeast 15 2 2000),
         w60m = criticalOnly (ratioAtLeast 30 5 5000)\<rparr>\<rparr>"

definition rule_registration_restricted_created :: alertRuleDefinition where
  "rule_registration_restricted_created =
     \<lparr>ruleDimensions = [KGlobal], ruleId = Registration_restricted_created,
      resolutionMode = Automatic,
      ruleSource = auditSource None
        [(auditFilter [''user.created''] [R_count] Success)
           \<lparr>filterMetadata := Some (''accessLevel'', [''restricted''])\<rparr>] True None,
      sourceKind = D1_exact,
      thresholds =
        \<lparr>w5m = warnOnly (countAtLeast Count 7),
         w15m = warnOnly (countAtLeast Count 20),
         w60m = criticalOnly (countAtLeast Count 80)\<rparr>\<rparr>"

definition rule_restricted_sensitive_denied :: alertRuleDefinition where
  "rule_restricted_sensitive_denied =
     \<lparr>ruleDimensions = [KHashed Subject_hmac], ruleId = Restricted_sensitive_denied,
      resolutionMode = Automatic,
      ruleSource = auditSource (Some ''subject_id'')
        [(auditFilter [''account.restricted_action_denied''] [R_count, R_known_surfaces] Denied)
           \<lparr>filterMetadata := Some (''surface'', RESTRICTED_ALERT_SURFACES)\<rparr>] False None,
      sourceKind = D1_exact,
      thresholds =
        \<lparr>w5m = warnOnly (countAtLeast Count 3),
         w15m = warnOnly (countAtLeast Count 5),
         w60m = criticalOnly (anyOf
           [countAtLeast Count 20,
            allOf [countAtLeast Count 5, countAtLeast KnownSurfaces 2]])\<rparr>\<rparr>"

definition rule_recovery_entry_abuse :: alertRuleDefinition where
  "rule_recovery_entry_abuse =
     \<lparr>ruleDimensions = [KGlobal], ruleId = Recovery_entry_abuse, resolutionMode = Automatic,
      ruleSource = auditSource None
        [auditFilter [''recovery.rate_limited''] [R_rate_limited] Denied,
         auditFilter [''recovery.entry_denied''] [R_numerator, R_denominator] Denied,
         auditFilter [''recovery.started''] [R_denominator] Success] True None,
      sourceKind = D1_exact,
      thresholds =
        \<lparr>w5m = warnOnly (anyOf [countAtLeast RateLimited 5, ratioAtLeast 5 5 8000]),
         w15m = warnOnly (anyOf [countAtLeast RateLimited 10, ratioAtLeast 15 10 8000]),
         w60m = criticalOnly (anyOf [countAtLeast RateLimited 40, ratioAtLeast 30 40 9000])\<rparr>\<rparr>"

definition rule_recovery_passkey_failure :: alertRuleDefinition where
  "rule_recovery_passkey_failure =
     \<lparr>ruleDimensions = [KGlobal, KHashed Subject_hmac], ruleId = Recovery_passkey_failure,
      resolutionMode = Automatic,
      ruleSource = auditSource (Some ''subject_id'')
        [auditFilter [''recovery.passkey_failed''] [R_numerator, R_denominator] Denied,
         auditFilter [''recovery.completed''] [R_denominator] Success] True None,
      sourceKind = D1_exact,
      thresholds =
        \<lparr>w5m = warnOnly (ratioAtLeast 3 3 6000),
         w15m = warnOnly (ratioAtLeast 5 5 6000),
         w60m = criticalOnly (ratioAtLeast 10 10 8000)\<rparr>\<rparr>"

definition rule_passkey_step_up_failure :: alertRuleDefinition where
  "rule_passkey_step_up_failure =
     \<lparr>ruleDimensions = [KGlobal, KHashed Subject_hmac], ruleId = Passkey_step_up_failure,
      resolutionMode = Automatic,
      ruleSource = auditSource (Some ''subject_id'')
        [auditFilter [''passkey.step_up_failed''] [R_numerator, R_denominator] Denied,
         auditFilter [''passkey.step_up_succeeded''] [R_denominator] Success] True None,
      sourceKind = D1_exact,
      thresholds =
        \<lparr>w5m = warnOnly (ratioAtLeast 5 3 3000),
         w15m = warnOnly (ratioAtLeast 15 5 3000),
         w60m = criticalOnly (ratioAtLeast 30 10 6000)\<rparr>\<rparr>"

definition rule_oauth_client_report :: alertRuleDefinition where
  "rule_oauth_client_report =
     \<lparr>ruleDimensions = [KHashed Client_hmac], ruleId = Oauth_client_report,
      resolutionMode = Automatic,
      ruleSource = Oauth_client_report_source
        \<lparr>allReasons = OAUTH_REPORT_REASONS,
         or_completenessPredicate = ''reporter_user_id_or_reporter_ref_present'',
         or_coverageLookbackSeconds = 3600, or_createdAtColumn = ''created_at'',
         or_dimensionColumn = ''client_id'', hashVersion = 1,
         highRiskReasons = HIGH_RISK_OAUTH_REPORT_REASONS,
         missingReporterIdentity = ''null_distinct_reporters'', reasonColumn = ''reason'',
         reporterRefColumn = ''reporter_ref'', reporterRefDomain = ''reporter_hmac'',
         reporterRefHashVersionColumn = ''reporter_ref_hash_version'',
         reporterUserIdColumn = ''reporter_user_id'', or_table = ''oauth_client_report''\<rparr>,
      sourceKind = D1_exact,
      thresholds =
        \<lparr>w5m = warnOnly (countAtLeast HighRiskCount 1),
         w15m = warnOnly (countAtLeast Count 3),
         w60m = criticalOnly (anyOf
           [allOf [countAtLeast HighRiskCount 3, countAtLeast DistinctReporters 2],
            countAtLeast Count 10])\<rparr>\<rparr>"

definition rule_admin_sensitive_activity :: alertRuleDefinition where
  "rule_admin_sensitive_activity =
     \<lparr>ruleDimensions = [KHashed Actor_hmac], ruleId = Admin_sensitive_activity,
      resolutionMode = Automatic,
      ruleSource = auditSource (Some ''actor_user_id'')
        [auditFilter HIGH_RISK_ADMIN_SUCCESS_EVENTS [R_count, R_successes] Success,
         (auditFilter BOOTADMIN_PROTECTED_EVENTS [R_count, R_protected_denials] Denied)
           \<lparr>filterMetadata := Some (''reason'', [''bootadmin_protected''])\<rparr>]
        False (Some actorSource),
      sourceKind = D1_exact,
      thresholds =
        \<lparr>w5m = warnOnly (anyOf [countAtLeast Successes 1, countAtLeast ProtectedDenials 1]),
         w15m = criticalOnly (countAtLeast Count 3),
         w60m = criticalOnly (countAtLeast Count 10)\<rparr>\<rparr>"

definition rule_admin_directory_volume :: alertRuleDefinition where
  "rule_admin_directory_volume =
     \<lparr>ruleDimensions = [KHashed Actor_hmac], ruleId = Admin_directory_volume,
      resolutionMode = Automatic,
      ruleSource = auditSource (Some ''actor_user_id'')
        [auditFilter [''admin.users_listed''] [R_count] Success] False (Some actorSource),
      sourceKind = D1_exact,
      thresholds =
        \<lparr>w5m = warnOnly (countAtLeast Count 20),
         w15m = warnOnly (countAtLeast Count 50),
         w60m = criticalOnly (countAtLeast Count 200)\<rparr>\<rparr>"

definition rule_security_fanout_gap :: alertRuleDefinition where
  "rule_security_fanout_gap =
     \<lparr>ruleDimensions = [KGlobal], ruleId = Security_fanout_gap, resolutionMode = Manual,
      ruleSource = Audit_fanout
        \<lparr>detectionOnly = True, fo_dimension = ''global'', graceSeconds = 300, fo_join = ''left'',
         lookbackSeconds = 3600, markerEventIdColumn = ''event_id'',
         markerTable = ''security_event_delivery'', sourceIdColumn = ''id'',
         sourceTable = ''audit_event'', sourceTimeColumn = ''occurred_at''\<rparr>,
      sourceKind = D1_exact,
      thresholds =
        \<lparr>w5m = warnOnly (countAtLeast MissingOlderThan5mCount 1),
         w15m = criticalOnly (countAtLeast MissingOlderThan15mCount 1),
         w60m = criticalOnly (countAtLeast MissingOlderThan5mCount 10)\<rparr>\<rparr>"

definition rule_logout_delivery_health :: alertRuleDefinition where
  "rule_logout_delivery_health =
     \<lparr>ruleDimensions = [KGlobal, KHashed Client_hmac], ruleId = Logout_delivery_health,
      resolutionMode = Automatic,
      ruleSource = Logout_delivery
        \<lparr>ls_clientIdColumn = ''client_id'', ls_createdAtColumn = ''created_at'',
         deadStatus = ''dead'',
         oldestAgeSecondsSemantics =
           ''as_of_minus_oldest_current_unresolved_created_at_floor_seconds'',
         ls_scope = ''all_current_rows_at_as_of'', ls_statusColumn = ''status'',
         ls_unresolvedStatuses = [''pending'', ''processing'', ''retry'', ''dead'']\<rparr>
        [''global'', ''client_id'']
        \<lparr>attemptCompletedAtColumn = ''completed_at'',
         attemptCohortScope = ''completed_at_in_half_open_window'',
         attemptDeliveryIdColumn = ''delivery_id'', attemptOutcomeColumn = ''outcome'',
         attemptTable = ''logout_delivery_attempt'', deliveryClientIdColumn = ''client_id'',
         deliveryCohortColumn = ''created_at'',
         deliveryCohortScope = ''created_at_in_half_open_window'', deliveryIdColumn = ''id'',
         deliveryStatusColumn = ''status'', deliveryTable = ''logout_delivery'',
         eligibleStatuses = [''pending'', ''processing'', ''retry'', ''delivered'', ''dead''],
         leaseExpiredOutcome = ''lease_expired'',
         lw_unresolvedStatuses = [''pending'', ''processing'', ''retry'', ''dead'']\<rparr>,
      sourceKind = D1_exact,
      thresholds =
        \<lparr>w5m = bothThresholds
           (anyOf [countAtLeast Dead 1, ratioAtLeast 5 1 5000])
           (anyOf [countAtLeast OldestUnresolvedAgeSeconds (2 * 60), countAtLeast LeaseExpired 1,
                   ratioAtLeast 5 1 2000]),
         w15m = bothThresholds
           (anyOf [countAtLeast Dead 1, countAtLeast OldestUnresolvedAgeSeconds (5 * 60),
                   countAtLeast LeaseExpired 3, ratioAtLeast 10 1 5000])
           (ratioAtLeast 10 1 2000),
         w60m = bothThresholds
           (anyOf [countAtLeast Dead 1, countAtLeast LeaseExpired 5, ratioAtLeast 20 1 5000])
           (ratioAtLeast 20 1 2000)\<rparr>\<rparr>"

definition joinLines :: "string list \<Rightarrow> string" where
  "joinLines ls = concat (map (\<lambda>l. l @ [CHR 0x0A]) (butlast ls)) @ last ls"

definition ALERT_RUNTIME_SOURCE_QUERY :: string where
  "ALERT_RUNTIME_SOURCE_QUERY = joinLines
     [''SELECT'',
      ''  b.component AS bootstrap_component,'',
      ''  b.first_success_at AS first_success_at,'',
      ''  b.source_generation AS source_generation,'',
      ''  b.source_revision AS source_revision,'',
      ''  r.component AS runtime_component,'',
      ''  r.status AS runtime_status,'',
      ''  r.generation AS runtime_generation,'',
      ''  r.revision AS runtime_revision,'',
      ''  r.last_started_at AS runtime_last_started_at,'',
      ''  r.last_success_at AS runtime_last_success_at,'',
      ''  r.last_error_at AS runtime_last_error_at,'',
      ''  r.last_error_code AS runtime_last_error_code,'',
      ''  r.updated_at AS runtime_updated_at'',
      ''FROM (SELECT '' @ [CHR 0x27] @ ''evaluator'' @ [CHR 0x27] @ '' AS expected_component) AS e'',
      ''LEFT JOIN alert_evaluator_bootstrap AS b'',
      ''  ON b.component = e.expected_component'',
      ''LEFT JOIN alert_runtime_status AS r'',
      ''  ON r.component = e.expected_component'']"

definition ALERT_RUNTIME_STATUSES :: "string list" where
  "ALERT_RUNTIME_STATUSES = [''disabled'', ''healthy'', ''degraded'', ''failing'', ''unavailable'']"

definition runtimeBootstrapContract :: "(string \<times> string list) list" where
  "runtimeBootstrapContract =
     [(''completenessLayer'', [''repository_source'']),
      (''completenessParser'', [''parseAlertRuntimeSourceCompleteness'']),
      (''enablement'', [''one_way_immutable_repository_sentinel'']),
      (''insertion'', [''same_atomic_d1_batch_repository_insert_select_after_controlled_success'']),
      (''parserAttestation'', [''shape_and_chronology_only'']),
      (''postBootstrapInvalidDisposition'', [''emit_missing_threshold_input'']),
      (''postBootstrapStatuses'', ALERT_RUNTIME_STATUSES),
      (''preBootstrapDisposition'', [''exclude_without_threshold_input'']),
      (''provenance'', [''schema_guards_and_repository_query'']),
      (''query.access'', [''repository_only'']),
      (''query.anchor'', [''SELECT '' @ [CHR 0x27] @ ''evaluator'' @ [CHR 0x27] @ '' AS expected_component'']),
      (''query.bootstrapJoin'', [''LEFT JOIN alert_evaluator_bootstrap AS b ON b.component = e.expected_component'']),
      (''query.projection.bootstrapComponent'', [''b.component AS bootstrap_component'']),
      (''query.projection.firstSuccessAt'', [''b.first_success_at AS first_success_at'']),
      (''query.projection.runtimeComponent'', [''r.component AS runtime_component'']),
      (''query.projection.runtimeGeneration'', [''r.generation AS runtime_generation'']),
      (''query.projection.runtimeLastErrorAt'', [''r.last_error_at AS runtime_last_error_at'']),
      (''query.projection.runtimeLastErrorCode'', [''r.last_error_code AS runtime_last_error_code'']),
      (''query.projection.runtimeLastStartedAt'', [''r.last_started_at AS runtime_last_started_at'']),
      (''query.projection.runtimeLastSuccessAt'', [''r.last_success_at AS runtime_last_success_at'']),
      (''query.projection.runtimeRevision'', [''r.revision AS runtime_revision'']),
      (''query.projection.runtimeStatus'', [''r.status AS runtime_status'']),
      (''query.projection.runtimeUpdatedAt'', [''r.updated_at AS runtime_updated_at'']),
      (''query.projection.sourceGeneration'', [''b.source_generation AS source_generation'']),
      (''query.projection.sourceRevision'', [''b.source_revision AS source_revision'']),
      (''query.repositoryQuery'', [ALERT_RUNTIME_SOURCE_QUERY]),
      (''query.runtimeJoin'', [''LEFT JOIN alert_runtime_status AS r ON r.component = e.expected_component'']),
      (''sentinel.columns.component'', [''component'']),
      (''sentinel.columns.firstSuccessAt'', [''first_success_at'']),
      (''sentinel.columns.sourceGeneration'', [''source_generation'']),
      (''sentinel.columns.sourceRevision'', [''source_revision'']),
      (''sentinel.component'', [''evaluator'']),
      (''sentinel.foreignKey.column'', [''component'']),
      (''sentinel.foreignKey.onDelete'', [''restrict'']),
      (''sentinel.foreignKey.referencedColumn'', [''component'']),
      (''sentinel.foreignKey.referencedTable'', [''alert_runtime_status'']),
      (''sentinel.immutable'', [''true'']),
      (''sentinel.singleton'', [''true'']),
      (''sentinel.table'', [''alert_evaluator_bootstrap'']),
      (''statusAlone'', [''never_sufficient''])]"

definition rule_alert_runtime_health :: alertRuleDefinition where
  "rule_alert_runtime_health =
     \<lparr>ruleDimensions = [KGlobal], ruleId = Alert_runtime_health, resolutionMode = Automatic,
      ruleSource = Alert_runtime ''global''
        \<lparr>ageSecondsSemantics = ''as_of_minus_last_success_at_floor_seconds'',
         bootstrapContract = runtimeBootstrapContract, ev_component = ''evaluator'',
         ev_componentColumn = ''component'', lastSuccessAtColumn = ''last_success_at'',
         nullAgeSemantics = ''post_bootstrap_evaluator_missing_only'',
         runtimeStatuses = ALERT_RUNTIME_STATUSES, ev_statusColumn = ''status''\<rparr>
        \<lparr>currentDeadCountSemantics = ''status_equals_dead_at_as_of'', currentDeadStatus = ''dead'',
         dueAgeSecondsSemantics = ''as_of_minus_oldest_due_or_expired_time_floor_seconds'',
         dueAgeSecondsNullSemantics = ''no_due_or_expired_work_at_as_of'',
         dueStatuses = [''pending'', ''retry''], dueTimeColumn = ''next_attempt_at'',
         expiredProcessingStatus = ''processing'',
         expiredProcessingTimeColumn = ''lease_expires_at'', ob_statusColumn = ''status'',
         ob_table = ''alert_outbox''\<rparr>
        ''alert_runtime_status''
        [(''bootstrapFields'', ''forbidden''),
         (''evaluatorAgeSecondsNull'', ''post_bootstrap_missing_immediate''),
         (''preBootstrap'', ''no_observation'')],
      sourceKind = D1_exact,
      thresholds =
        \<lparr>w5m = warnOnly (anyOf
           [countAtLeast EvaluatorAgeSeconds 181, countAtLeast OutboxDueAgeSeconds 121]),
         w15m = criticalOnly (anyOf
           [countAtLeast EvaluatorMissing 1, countAtLeast EvaluatorAgeSeconds 301,
            countAtLeast OutboxDueAgeSeconds 301]),
         w60m = criticalOnly (countAtLeast DeadOutbox 1)\<rparr>\<rparr>"

definition rule_queue_dlq_approximate :: alertRuleDefinition where
  "rule_queue_dlq_approximate =
     \<lparr>ruleDimensions = [KQueue], ruleId = Queue_dlq_approximate, resolutionMode = Automatic,
      ruleSource = Queue_metrics
        \<lparr>backlogBytesBindingField = ''backlogBytes'', backlogBytesColumn = ''backlog_bytes'',
         backlogBytesMaximum = MAX_QUEUE_BACKLOG_BYTES,
         backlogCountBindingField = ''backlogCount'', backlogCountColumn = ''backlog_count'',
         backlogCountMaximum = MAX_EVIDENCE_VALUE, qm_componentColumn = ''component'',
         consecutiveNonzeroSamplesColumn = ''consecutive_nonzero_samples'',
         consecutiveNonzeroSamplesMaximum = MAX_RATIO_FIELD, criticalDurationSeconds = 900,
         qm_dimension = ''queue_name'', invalidBindingMetrics = ''unknown'', qm_method = ''metrics'',
         metricSampledAtColumn = ''metric_sampled_at'', nonzeroSinceAtColumn = ''nonzero_since_at'',
         numericValidation = ''finite_safe_nonnegative_integer'',
         oldestMessageAgeSecondsColumn = ''oldest_message_age_seconds'',
         oldestMessageAgeSecondsMaximum = MAX_EVIDENCE_VALUE,
         oldestMessageTimestampBindingField = ''oldestMessageTimestamp'',
         oldestMessageTimestampNormalization =
           ''sampled_at_minus_oldest_message_timestamp_floor_seconds'',
         queueComponentByName = ALERT_QUEUE_COMPONENTS, queueNames = ALERT_QUEUE_NAMES,
         sampleCadenceSeconds = 60, streakStateTable = ''alert_runtime_status''\<rparr>,
      sourceKind = Queue_approximate,
      thresholds =
        \<lparr>w5m = warnOnly (countAtLeast Depth 1),
         w15m = criticalOnly (anyOf
           [countAtLeast Depth 10, countAtLeast ConsecutiveNonzeroSamples 15]),
         w60m = noThreshold\<rparr>\<rparr>"

lemmas rule_defs =
  rule_registration_rate_limited_def rule_registration_denied_def
  rule_registration_challenge_unavailable_def rule_registration_restricted_created_def
  rule_restricted_sensitive_denied_def rule_recovery_entry_abuse_def
  rule_recovery_passkey_failure_def rule_passkey_step_up_failure_def rule_oauth_client_report_def
  rule_admin_sensitive_activity_def rule_admin_directory_volume_def rule_security_fanout_gap_def
  rule_logout_delivery_health_def rule_alert_runtime_health_def rule_queue_dlq_approximate_def

fun ALERT_RULE_DEFINITIONS :: "alertRuleId \<Rightarrow> alertRuleDefinition" where
  "ALERT_RULE_DEFINITIONS Registration_rate_limited = rule_registration_rate_limited"
| "ALERT_RULE_DEFINITIONS Registration_denied = rule_registration_denied"
| "ALERT_RULE_DEFINITIONS Registration_challenge_unavailable = rule_registration_challenge_unavailable"
| "ALERT_RULE_DEFINITIONS Registration_restricted_created = rule_registration_restricted_created"
| "ALERT_RULE_DEFINITIONS Restricted_sensitive_denied = rule_restricted_sensitive_denied"
| "ALERT_RULE_DEFINITIONS Recovery_entry_abuse = rule_recovery_entry_abuse"
| "ALERT_RULE_DEFINITIONS Recovery_passkey_failure = rule_recovery_passkey_failure"
| "ALERT_RULE_DEFINITIONS Passkey_step_up_failure = rule_passkey_step_up_failure"
| "ALERT_RULE_DEFINITIONS Oauth_client_report = rule_oauth_client_report"
| "ALERT_RULE_DEFINITIONS Admin_sensitive_activity = rule_admin_sensitive_activity"
| "ALERT_RULE_DEFINITIONS Admin_directory_volume = rule_admin_directory_volume"
| "ALERT_RULE_DEFINITIONS Security_fanout_gap = rule_security_fanout_gap"
| "ALERT_RULE_DEFINITIONS Logout_delivery_health = rule_logout_delivery_health"
| "ALERT_RULE_DEFINITIONS Alert_runtime_health = rule_alert_runtime_health"
| "ALERT_RULE_DEFINITIONS Queue_dlq_approximate = rule_queue_dlq_approximate"

definition definitionForAlertRule :: "alertRuleId \<Rightarrow> alertRuleDefinition" where
  "definitionForAlertRule r = ALERT_RULE_DEFINITIONS r"

subsection \<open>The policy\<close>

record alertRulePolicy =
  clearConsecutive :: int
  cooldownMs :: int
  criticalConsecutive :: int
  criticalReminderMs :: int
  warningConsecutive :: int
  warningReminderMs :: int

definition ALERT_RULE_POLICY :: alertRulePolicy where
  "ALERT_RULE_POLICY =
     \<lparr>clearConsecutive = 5, cooldownMs = 30 * 60000, criticalConsecutive = 2,
      criticalReminderMs = 15 * 60000, warningConsecutive = 2, warningReminderMs = 60 * 60000\<rparr>"

subsection \<open>Facts about the table\<close>

lemma ruleId_definition [simp]: "ruleId (ALERT_RULE_DEFINITIONS r) = r"
  by (cases r) (simp_all add: rule_defs)

text \<open>Only the fan-out gap has to be resolved by hand.\<close>

lemma manual_iff: "resolutionMode (ALERT_RULE_DEFINITIONS r) = Manual \<longleftrightarrow> r = Security_fanout_gap"
  by (cases r) (simp_all add: rule_defs)

text \<open>The thresholds alone, which is all that evaluation reads.\<close>

lemma ruleDimensions_definition [rule_simps]:
  "ruleDimensions (ALERT_RULE_DEFINITIONS r) =
     (case r of
        Restricted_sensitive_denied \<Rightarrow> [KHashed Subject_hmac]
      | Recovery_passkey_failure \<Rightarrow> [KGlobal, KHashed Subject_hmac]
      | Passkey_step_up_failure \<Rightarrow> [KGlobal, KHashed Subject_hmac]
      | Oauth_client_report \<Rightarrow> [KHashed Client_hmac]
      | Admin_sensitive_activity \<Rightarrow> [KHashed Actor_hmac]
      | Admin_directory_volume \<Rightarrow> [KHashed Actor_hmac]
      | Logout_delivery_health \<Rightarrow> [KGlobal, KHashed Client_hmac]
      | Queue_dlq_approximate \<Rightarrow> [KQueue]
      | _ \<Rightarrow> [KGlobal])"
  by (cases r) (simp_all add: rule_defs)

text \<open>The threshold expressions that occur in the table, per severity and window.\<close>

definition ruleThreshold :: "alertRuleId \<Rightarrow> alertWindowKey \<Rightarrow> activeSeverity \<Rightarrow> thresholdExpression option" where
  "ruleThreshold r k s = thresholdFor (atWindow (thresholds (ALERT_RULE_DEFINITIONS r)) k) s"

end
