(* ===== verification/Alert_Observation.thy ===== *)
theory Alert_Observation
  imports Alert_Rule_Table
begin

section \<open>Parsing what the sources report\<close>

text \<open>
  The parsers of \<^verbatim>\<open>apps/sso/worker/alert-rules.ts\<close>: references, dimensions, the
  metrics of each rule family, the nested windows, the runtime source and the whole observation.
\<close>

subsection \<open>Scalars\<close>

definition canonicalTimestamp :: "js \<Rightarrow> string \<Rightarrow> string result" where
  "canonicalTimestamp value name =
     (let bad = Inl (Error (name @ '' must be a canonical UTC ISO timestamp'')) in
      case value of
        JStr s \<Rightarrow> (if canonical s then Inr s else bad)
      | _ \<Rightarrow> bad)"

lemma canonicalTimestamp_Inr_iff [js_simps]:
  "canonicalTimestamp v name = Inr s \<longleftrightarrow> v = JStr s \<and> canonical s"
  by (auto simp: canonicalTimestamp_def Let_def split: js.splits)

definition integerUpTo :: "int \<Rightarrow> js \<Rightarrow> string \<Rightarrow> int result" where
  "integerUpTo maximum value name =
     (case safeInteger value of
        Some n \<Rightarrow>
          if n < 0 \<or> n > maximum
          then Inl (Error (name @ '' must be an integer in the persistence domain''))
          else Inr n
      | None \<Rightarrow> Inl (Error (name @ '' must be an integer in the persistence domain'')))"

abbreviation integerValue :: "js \<Rightarrow> string \<Rightarrow> int result" where
  "integerValue \<equiv> integerUpTo MAX_EVIDENCE_VALUE"

lemma integerUpTo_Inr_iff [js_simps]:
  "integerUpTo m v name = Inr n \<longleftrightarrow> v = JInt n \<and> 0 \<le> n \<and> n \<le> m \<and> n \<le> MAX_SAFE_INTEGER"
  by (auto simp: integerUpTo_def safeInteger_Some_iff split: option.splits)

definition nullableInteger :: "js \<Rightarrow> string \<Rightarrow> int option result" where
  "nullableInteger value name =
     (if value = JNull then Inr None
      else and_then (integerValue value name) (\<lambda>n. Inr (Some n)))"

definition nullableIntegerUpTo :: "int \<Rightarrow> js \<Rightarrow> string \<Rightarrow> int option result" where
  "nullableIntegerUpTo maximum value name =
     (if value = JNull then Inr None
      else and_then (integerUpTo maximum value name) (\<lambda>n. Inr (Some n)))"

lemma nullableInteger_eq: "nullableInteger = nullableIntegerUpTo MAX_EVIDENCE_VALUE"
  by (simp add: fun_eq_iff nullableInteger_def nullableIntegerUpTo_def)

fun jsOfIntOption :: "int option \<Rightarrow> js" where
  "jsOfIntOption None = JNull"
| "jsOfIntOption (Some n) = JInt n"

fun jsOfStringOption :: "string option \<Rightarrow> js" where
  "jsOfStringOption None = JNull"
| "jsOfStringOption (Some s) = JStr s"

lemma nullableIntegerUpTo_Inr_iff [js_simps]:
  "nullableIntegerUpTo m v name = Inr n \<longleftrightarrow>
     v = jsOfIntOption n \<and> (\<forall>k. n = Some k \<longrightarrow> 0 \<le> k \<and> k \<le> m \<and> k \<le> MAX_SAFE_INTEGER)"
  by (cases n) (auto simp: nullableIntegerUpTo_def result_simps js_simps)

subsection \<open>Windows of time\<close>

record alertWindowDescriptor =
  endExclusive :: string
  windowKey :: alertWindowKey
  minutes :: int
  startInclusive :: string

definition alertWindowAt :: "string \<Rightarrow> alertWindowKey \<Rightarrow> alertWindowDescriptor result" where
  "alertWindowAt asOf key =
     and_then (toISOString (getTime asOf - ALERT_WINDOW_SECONDS key * 1000)) (\<lambda>start.
       Inr \<lparr>endExclusive = asOf, windowKey = key, minutes = ALERT_WINDOW_SECONDS key div 60,
            startInclusive = start\<rparr>)"

definition alertWindowsAt :: "string \<Rightarrow> alertWindowDescriptor list result" where
  "alertWindowsAt asOf =
     and_then (canonicalTimestamp (JStr asOf) ''asOf'') (\<lambda>c.
       map_result (alertWindowAt c) ALERT_WINDOW_KEYS)"

subsection \<open>Identifiers, references and dimensions\<close>

definition ruleIdOfString :: "string \<Rightarrow> alertRuleId option" where
  "ruleIdOfString s = find (\<lambda>r. ruleIdString r = s) ALERT_RULE_IDS"

definition parseAlertRuleId :: "js \<Rightarrow> alertRuleId result" where
  "parseAlertRuleId value =
     (let bad = Inl (Error ''alert rule id is not supported'') in
      case value of
        JStr s \<Rightarrow> (case ruleIdOfString s of None \<Rightarrow> bad | Some r \<Rightarrow> Inr r)
      | _ \<Rightarrow> bad)"

definition parseHashedReference :: "js \<Rightarrow> hashedAlertReference result" where
  "parseHashedReference value =
     and_then (exactRecord value [''keyVersion'', ''value''] ''alert reference'') (\<lambda>record.
       if field_of record ''keyVersion'' \<noteq> JInt 1
       then Inl (Error ''alert reference key version must be 1'')
       else let bad = Inl (Error ''alert reference must be a canonical unpadded base64url HMAC'') in
         case field_of record ''value'' of
           JStr s \<Rightarrow>
             (if \<not> isCanonicalBase64Url32 s then bad else Inr \<lparr>keyVersion = 1, refValue = s\<rparr>)
         | _ \<Rightarrow> bad)"

definition isHashedAlertReference :: "js \<Rightarrow> bool" where
  "isHashedAlertReference value = is_ok (parseHashedReference value)"

definition queueOfString :: "string \<Rightarrow> alertQueueName option" where
  "queueOfString s = find (\<lambda>q. queueNameString q = s) ALERT_QUEUE_NAMES"

definition hashedKindOfString :: "string \<Rightarrow> hashedDimensionKind option" where
  "hashedKindOfString s = find (\<lambda>k. hashedKindString k = s) ALERT_HASHED_DIMENSION_KINDS"

definition parseAlertDimension :: "js \<Rightarrow> dimensionKind list \<Rightarrow> alertDimension result" where
  "parseAlertDimension value allowed =
     and_then (recordValue value ''alert dimension'') (\<lambda>record.
       let kind = field_of record ''kind'';
           notAllowed = Inl (Error ''alert dimension is not allowed'')
       in if kind = JStr ''global'' then
            and_then (exactRecord value [''kind''] ''global alert dimension'') (\<lambda>_.
              if KGlobal \<notin> set allowed then notAllowed else Inr Global)
          else if kind = JStr ''queue'' then
            and_then (exactRecord value [''kind'', ''queue''] ''Queue alert dimension'') (\<lambda>exact.
              if KQueue \<notin> set allowed then notAllowed
              else let bad = Inl (Error ''alert Queue name is not supported'') in
                case field_of exact ''queue'' of
                  JStr s \<Rightarrow> (case queueOfString s of None \<Rightarrow> bad | Some q \<Rightarrow> Inr (QueueDimension q))
                | _ \<Rightarrow> bad)
          else
            let unsupported = Inl (Error ''alert dimension kind is not supported'') in
            case kind of
              JStr s \<Rightarrow>
                (case hashedKindOfString s of
                   None \<Rightarrow> unsupported
                 | Some k \<Rightarrow>
                     and_then (exactRecord value [''kind'', ''reference''] ''hashed alert dimension'')
                       (\<lambda>exact.
                          if KHashed k \<notin> set allowed then notAllowed
                          else and_then (parseHashedReference (field_of exact ''reference''))
                            (\<lambda>ref. Inr (Hashed k ref))))
            | _ \<Rightarrow> unsupported)"

subsection \<open>HMAC references\<close>

text \<open>
  \<open>deriveAlertReferenceV1\<close>. The platform's HMAC-SHA-256 is the parameter \<open>hmac\<close> (key bytes,
  then message bytes). A message is the UTF-8 encoding of a string with code units below 256.
\<close>

fun utf8 :: "string \<Rightarrow> bytes" where
  "utf8 [] = []"
| "utf8 (c # cs) =
     (let n = of_char c :: nat in
      if n < 128 then word_of_nat n # utf8 cs
      else word_of_nat (192 + n div 64) # word_of_nat (128 + n mod 64) # utf8 cs)"

definition hmacSignInput :: "string \<Rightarrow> string \<Rightarrow> bytes" where
  "hmacSignInput kind raw =
     utf8 (''pgid-alert-v1'' @ [CHR 0x00] @ kind @ [CHR 0x00] @ raw)"

definition deriveAlertReferenceV1 ::
  "(bytes \<Rightarrow> bytes \<Rightarrow> bytes) \<Rightarrow> string \<Rightarrow> string \<Rightarrow> string \<Rightarrow> hashedAlertReference result" where
  "deriveAlertReferenceV1 hmac keyBase64Url kind raw =
     (if kind \<notin> set ALERT_HMAC_REFERENCE_DOMAINS
      then Inl (Error ''alert HMAC kind is not supported'')
      else if length raw < 1 \<or> length raw > 512
      then Inl (Error ''alert HMAC input must contain 1 to 512 characters'')
      else and_then (decodeHmacKey keyBase64Url) (\<lambda>keyBytes.
        Inr \<lparr>keyVersion = 1, refValue = base64Url (hmac keyBytes (hmacSignInput kind raw))\<rparr>))"

subsection \<open>Metrics of each rule family\<close>

record countWindowMetrics =
  cw_count :: int

record ratioWindowMetrics =
  rw_denominator :: int
  rw_numerator :: int

record restrictedDenialWindowMetrics =
  rd_count :: int
  rd_knownSurfaces :: int

record recoveryEntryWindowMetrics =
  re_denied :: int
  re_rateLimited :: int
  re_started :: int

record oauthClientReportWindowMetrics =
  oc_count :: int
  oc_distinctReporters :: "int option"
  oc_highRiskCount :: int

record adminSensitiveWindowMetrics =
  as_protectedDenials :: int
  as_successes :: int

record fanoutGapSnapshot =
  fg_missingOlderThan15mCount :: int
  fg_missingOlderThan5mCount :: int

record logoutDeliveryCurrentSnapshot =
  ld_currentDead :: int
  ld_currentUnresolved :: int
  ld_oldestUnresolvedAgeSeconds :: "int option"

record logoutDeliveryWindowMetrics =
  lw_eligible :: int
  lw_leaseExpired :: int
  lw_unresolved :: int

record alertRuntimeSnapshot =
  rs_deadOutbox :: int
  rs_evaluatorAgeSeconds :: "int option"
  rs_outboxDueAgeSeconds :: "int option"

record queueDepthSnapshot =
  qs_backlogBytes :: "int option"
  qs_backlogCount :: "int option"
  qs_consecutiveNonzeroSamples :: "int option"
  qs_nonzeroSinceAt :: "string option"
  qs_oldestMessageTimestamp :: "string option"
  qs_sampledAt :: "string option"

definition parseCountMetrics :: "js \<Rightarrow> countWindowMetrics result" where
  "parseCountMetrics value =
     and_then (exactRecord value [''count''] ''count metrics'') (\<lambda>record.
     and_then (integerValue (field_of record ''count'') ''count'') (\<lambda>count.
       Inr \<lparr>cw_count = count\<rparr>))"

definition parseRatioMetrics :: "js \<Rightarrow> ratioWindowMetrics result" where
  "parseRatioMetrics value =
     and_then (exactRecord value [''denominator'', ''numerator''] ''ratio metrics'') (\<lambda>record.
     and_then (integerUpTo MAX_RATIO_FIELD (field_of record ''denominator'') ''denominator'') (\<lambda>denominator.
     and_then (integerUpTo MAX_RATIO_FIELD (field_of record ''numerator'') ''numerator'') (\<lambda>numerator.
       if numerator > denominator then Inl (Error ''numerator cannot exceed denominator'')
       else Inr \<lparr>rw_denominator = denominator, rw_numerator = numerator\<rparr>)))"

definition parseRestrictedMetrics :: "js \<Rightarrow> restrictedDenialWindowMetrics result" where
  "parseRestrictedMetrics value =
     and_then (exactRecord value [''count'', ''knownSurfaces''] ''restricted metrics'') (\<lambda>record.
     and_then (integerValue (field_of record ''count'') ''count'') (\<lambda>count.
     and_then (integerValue (field_of record ''knownSurfaces'') ''known surfaces'') (\<lambda>knownSurfaces.
       if knownSurfaces > count \<or> knownSurfaces > int (length RESTRICTED_ALERT_SURFACES)
       then Inl (Error ''known surfaces exceed the canonical denied-event domain'')
       else Inr \<lparr>rd_count = count, rd_knownSurfaces = knownSurfaces\<rparr>)))"

definition parseRecoveryEntryMetrics :: "js \<Rightarrow> recoveryEntryWindowMetrics result" where
  "parseRecoveryEntryMetrics value =
     and_then (exactRecord value [''denied'', ''rateLimited'', ''started''] ''recovery entry metrics'') (\<lambda>record.
     and_then (integerUpTo MAX_RATIO_FIELD (field_of record ''denied'') ''denied'') (\<lambda>denied.
     and_then (integerValue (field_of record ''rateLimited'') ''rate limited'') (\<lambda>rateLimited.
     and_then (integerUpTo MAX_RATIO_FIELD (field_of record ''started'') ''started'') (\<lambda>started.
       if denied + started > MAX_RATIO_FIELD
       then Inl (Error ''recovery denominator exceeds the persistence domain'')
       else Inr \<lparr>re_denied = denied, re_rateLimited = rateLimited, re_started = started\<rparr>))))"

definition parseOAuthMetrics :: "js \<Rightarrow> oauthClientReportWindowMetrics result" where
  "parseOAuthMetrics value =
     and_then (exactRecord value [''count'', ''distinctReporters'', ''highRiskCount''] ''OAuth report metrics'') (\<lambda>record.
     and_then (integerValue (field_of record ''count'') ''report count'') (\<lambda>count.
     and_then (nullableInteger (field_of record ''distinctReporters'') ''distinct reporters'') (\<lambda>distinctReporters.
     and_then (integerValue (field_of record ''highRiskCount'') ''high-risk count'') (\<lambda>highRiskCount.
       if (case distinctReporters of None \<Rightarrow> False | Some d \<Rightarrow> d > count) \<or> highRiskCount > count
       then Inl (Error ''OAuth report subsets cannot exceed total reports'')
       else Inr \<lparr>oc_count = count, oc_distinctReporters = distinctReporters,
                 oc_highRiskCount = highRiskCount\<rparr>))))"

definition parseAdminSensitiveMetrics :: "js \<Rightarrow> adminSensitiveWindowMetrics result" where
  "parseAdminSensitiveMetrics value =
     and_then (exactRecord value [''protectedDenials'', ''successes''] ''admin-sensitive metrics'') (\<lambda>record.
     and_then (integerValue (field_of record ''protectedDenials'') ''protected denials'') (\<lambda>protectedDenials.
     and_then (integerValue (field_of record ''successes'') ''sensitive successes'') (\<lambda>successes.
       if protectedDenials + successes > MAX_EVIDENCE_VALUE
       then Inl (Error ''admin-sensitive total exceeds the persistence domain'')
       else Inr \<lparr>as_protectedDenials = protectedDenials, as_successes = successes\<rparr>)))"

definition parseLogoutCurrentSnapshot :: "js \<Rightarrow> logoutDeliveryCurrentSnapshot result" where
  "parseLogoutCurrentSnapshot value =
     and_then (exactRecord value [''currentDead'', ''currentUnresolved'', ''oldestUnresolvedAgeSeconds'']
       ''logout-delivery current snapshot'') (\<lambda>record.
     and_then (integerValue (field_of record ''currentDead'') ''current dead deliveries'') (\<lambda>currentDead.
     and_then (integerValue (field_of record ''currentUnresolved'') ''current unresolved deliveries'') (\<lambda>currentUnresolved.
     and_then (nullableInteger (field_of record ''oldestUnresolvedAgeSeconds'') ''oldest unresolved age'') (\<lambda>oldest.
       if currentDead > currentUnresolved
       then Inl (Error ''current dead deliveries cannot exceed current unresolved deliveries'')
       else if (currentUnresolved = 0) \<noteq> (oldest = None)
       then Inl (Error ''current unresolved count and oldest age must agree'')
       else Inr \<lparr>ld_currentDead = currentDead, ld_currentUnresolved = currentUnresolved,
                 ld_oldestUnresolvedAgeSeconds = oldest\<rparr>))))"

definition parseLogoutMetrics :: "js \<Rightarrow> logoutDeliveryWindowMetrics result" where
  "parseLogoutMetrics value =
     and_then (exactRecord value [''eligible'', ''leaseExpired'', ''unresolved'']
       ''logout-delivery window metrics'') (\<lambda>record.
     and_then (integerUpTo MAX_RATIO_FIELD (field_of record ''eligible'') ''eligible deliveries'') (\<lambda>eligible.
     and_then (integerValue (field_of record ''leaseExpired'') ''expired leases'') (\<lambda>leaseExpired.
     and_then (integerUpTo MAX_RATIO_FIELD (field_of record ''unresolved'') ''unresolved deliveries'') (\<lambda>unresolved.
       if unresolved > eligible
       then Inl (Error ''logout unresolved deliveries cannot exceed their window cohort'')
       else Inr \<lparr>lw_eligible = eligible, lw_leaseExpired = leaseExpired,
                 lw_unresolved = unresolved\<rparr>))))"

definition parseWindows :: "(js \<Rightarrow> 'a result) \<Rightarrow> js \<Rightarrow> 'a windowed result" where
  "parseWindows parser value =
     and_then (exactRecord value (map windowKeyString ALERT_WINDOW_KEYS) ''alert windows'') (\<lambda>record.
     and_then (parser (field_of record ''5m'')) (\<lambda>a.
     and_then (parser (field_of record ''15m'')) (\<lambda>b.
     and_then (parser (field_of record ''60m'')) (\<lambda>c.
       Inr \<lparr>w5m = a, w15m = b, w60m = c\<rparr>))))"

subsection \<open>Nested windows\<close>

text \<open>
  A longer window contains the shorter ones, so its counters cannot be smaller. The array walks
  of the code, on the values in the order 5m, 15m, 60m.
\<close>

fun nondecreasing :: "int list \<Rightarrow> string \<Rightarrow> unit result" where
  "nondecreasing (a # b # rest) name =
     (if b < a then Inl (Error (name @ '' must be nondecreasing across nested windows''))
      else nondecreasing (b # rest) name)"
| "nondecreasing _ name = Inr ()"

fun nullableCountLoop :: "int option \<Rightarrow> bool \<Rightarrow> int option list \<Rightarrow> string \<Rightarrow> unit result" where
  "nullableCountLoop previous unknownSeen [] name = Inr ()"
| "nullableCountLoop previous unknownSeen (None # rest) name =
     nullableCountLoop previous True rest name"
| "nullableCountLoop previous unknownSeen (Some value # rest) name =
     (if unknownSeen \<or> (case previous of None \<Rightarrow> False | Some p \<Rightarrow> value < p)
      then Inl (Error (name @ '' must be nondecreasing or remain unknown across windows''))
      else nullableCountLoop (Some value) unknownSeen rest name)"

definition nullableCountNondecreasing :: "int option list \<Rightarrow> string \<Rightarrow> unit result" where
  "nullableCountNondecreasing values name = nullableCountLoop None False values name"

text \<open>
  The metrics of one windowed rule. The switch of \<open>validateNestedWindows\<close> on the rule is a case
  distinction on the family the rule's windows were parsed as.
\<close>

datatype ruleWindows =
    CountWindows "countWindowMetrics windowed"
  | RatioWindows "ratioWindowMetrics windowed"
  | RestrictedWindows "restrictedDenialWindowMetrics windowed"
  | RecoveryWindows "recoveryEntryWindowMetrics windowed"
  | OAuthWindows "oauthClientReportWindowMetrics windowed"
  | AdminWindows "adminSensitiveWindowMetrics windowed"
  | LogoutWindows "logoutDeliveryWindowMetrics windowed"

definition windowEntries :: "('a \<Rightarrow> 'b) \<Rightarrow> 'a windowed \<Rightarrow> 'b list" where
  "windowEntries f w = map (\<lambda>key. f (atWindow w key)) ALERT_WINDOW_KEYS"

fun validateNestedWindows :: "ruleWindows \<Rightarrow> unit result" where
  "validateNestedWindows (CountWindows w) = nondecreasing (windowEntries cw_count w) ''count''"
| "validateNestedWindows (RatioWindows w) =
     and_then (nondecreasing (windowEntries rw_numerator w) ''numerator'') (\<lambda>_.
       nondecreasing (windowEntries rw_denominator w) ''denominator'')"
| "validateNestedWindows (RestrictedWindows w) =
     and_then (nondecreasing (windowEntries rd_count w) ''count'') (\<lambda>_.
       nondecreasing (windowEntries rd_knownSurfaces w) ''known surfaces'')"
| "validateNestedWindows (RecoveryWindows w) =
     and_then (nondecreasing (windowEntries re_denied w) ''denied'') (\<lambda>_.
     and_then (nondecreasing (windowEntries re_rateLimited w) ''rateLimited'') (\<lambda>_.
       nondecreasing (windowEntries re_started w) ''started''))"
| "validateNestedWindows (OAuthWindows w) =
     and_then (nondecreasing (windowEntries oc_count w) ''count'') (\<lambda>_.
     and_then (nondecreasing (windowEntries oc_highRiskCount w) ''highRiskCount'') (\<lambda>_.
       nullableCountNondecreasing (windowEntries oc_distinctReporters w) ''distinct reporters''))"
| "validateNestedWindows (AdminWindows w) =
     and_then (nondecreasing (windowEntries as_protectedDenials w) ''protectedDenials'') (\<lambda>_.
       nondecreasing (windowEntries as_successes w) ''successes'')"
| "validateNestedWindows (LogoutWindows w) =
     and_then (nondecreasing (windowEntries lw_eligible w) ''eligible'') (\<lambda>_.
     and_then (nondecreasing (windowEntries lw_leaseExpired w) ''leaseExpired'') (\<lambda>_.
       nondecreasing (windowEntries lw_unresolved w) ''unresolved''))"

subsection \<open>Observations\<close>

datatype observationBody =
    WindowsBody ruleWindows
  | LogoutBody logoutDeliveryCurrentSnapshot "logoutDeliveryWindowMetrics windowed"
  | FanoutBody fanoutGapSnapshot
  | RuntimeBody alertRuntimeSnapshot
  | QueueBody queueDepthSnapshot

record alertRuleObservation =
  obs_asOf :: string
  obs_dimension :: alertDimension
  obs_ruleId :: alertRuleId
  obs_body :: observationBody

definition observationBase :: "js_record \<Rightarrow> alertRuleId \<Rightarrow> (string \<times> alertDimension) result" where
  "observationBase record r =
     and_then (canonicalTimestamp (field_of record ''asOf'') ''asOf'') (\<lambda>asOf.
     and_then (parseAlertDimension (field_of record ''dimension'')
         (ruleDimensions (ALERT_RULE_DEFINITIONS r))) (\<lambda>dimension.
       Inr (asOf, dimension)))"

definition parseFanoutObservation :: "js \<Rightarrow> alertRuleObservation result" where
  "parseFanoutObservation value =
     and_then (exactRecord value [''asOf'', ''dimension'', ''ruleId'', ''snapshot''] ''fan-out observation'') (\<lambda>record.
     and_then (observationBase record Security_fanout_gap) (\<lambda>(asOf, dimension).
       if kindOf dimension \<noteq> KGlobal
       then Inl (Error ''fan-out alert dimension must be global'')
       else
         and_then (exactRecord (field_of record ''snapshot'')
           [''missingOlderThan15mCount'', ''missingOlderThan5mCount''] ''fan-out snapshot'') (\<lambda>snap.
         and_then (integerValue (field_of snap ''missingOlderThan15mCount'') ''missing older than 15 minutes'') (\<lambda>m15.
         and_then (integerValue (field_of snap ''missingOlderThan5mCount'') ''missing older than 5 minutes'') (\<lambda>m5.
           if m15 > m5 then Inl (Error ''fan-out age cohorts are inconsistent'')
           else Inr \<lparr>obs_asOf = asOf, obs_dimension = dimension, obs_ruleId = Security_fanout_gap,
             obs_body = FanoutBody \<lparr>fg_missingOlderThan15mCount = m15,
               fg_missingOlderThan5mCount = m5\<rparr>\<rparr>)))))"

definition parseRuntimeObservation :: "js \<Rightarrow> alertRuleObservation result" where
  "parseRuntimeObservation value =
     and_then (exactRecord value [''asOf'', ''dimension'', ''ruleId'', ''snapshot''] ''runtime observation'') (\<lambda>record.
     and_then (observationBase record Alert_runtime_health) (\<lambda>(asOf, dimension).
       if kindOf dimension \<noteq> KGlobal
       then Inl (Error ''runtime alert dimension must be global'')
       else
         and_then (exactRecord (field_of record ''snapshot'')
           [''deadOutbox'', ''evaluatorAgeSeconds'', ''outboxDueAgeSeconds''] ''runtime snapshot'') (\<lambda>snap.
         and_then (integerValue (field_of snap ''deadOutbox'') ''dead alert outbox'') (\<lambda>dead.
         and_then (nullableInteger (field_of snap ''evaluatorAgeSeconds'') ''evaluator age'') (\<lambda>age.
         and_then (nullableInteger (field_of snap ''outboxDueAgeSeconds'') ''outbox due age'') (\<lambda>due.
           Inr \<lparr>obs_asOf = asOf, obs_dimension = dimension, obs_ruleId = Alert_runtime_health,
             obs_body = RuntimeBody \<lparr>rs_deadOutbox = dead, rs_evaluatorAgeSeconds = age,
               rs_outboxDueAgeSeconds = due\<rparr>\<rparr>))))))"

text \<open>Queue metrics come from a binding outside the program; a bad one is a missing one.\<close>

definition queueBindingInteger :: "js \<Rightarrow> int \<Rightarrow> bool \<times> int option" where
  "queueBindingInteger value maximum =
     (case safeInteger value of
        Some n \<Rightarrow> if n < 0 \<or> n > maximum then (False, None) else (True, Some n)
      | None \<Rightarrow> (False, None))"

definition queueBindingTimestamp :: "js \<Rightarrow> bool \<times> string option" where
  "queueBindingTimestamp value =
     (case value of
        JUndefined \<Rightarrow> (True, None)
      | JNull \<Rightarrow> (True, None)
      | JDate (Some t) \<Rightarrow>
          if time_in_range t then (True, Some (iso_of_time t)) else (False, None)
      | JDate None \<Rightarrow> (False, None)
      | _ \<Rightarrow>
          (case canonicalTimestamp value ''oldestMessageTimestamp'' of
             Inr s \<Rightarrow> (True, Some s)
           | Inl _ \<Rightarrow> (False, None)))"

definition queueSnapshotKeys :: "string list" where
  "queueSnapshotKeys =
     [''backlogBytes'', ''backlogCount'', ''consecutiveNonzeroSamples'', ''nonzeroSinceAt'',
      ''oldestMessageTimestamp'', ''sampledAt'']"

definition nullableTimestampField :: "js \<Rightarrow> string \<Rightarrow> string option result" where
  "nullableTimestampField value name =
     (if value = JNull then Inr None
      else and_then (canonicalTimestamp value name) (\<lambda>s. Inr (Some s)))"

definition parseQueueSnapshot :: "js \<Rightarrow> queueDepthSnapshot result" where
  "parseQueueSnapshot value =
     and_then (recordValue value ''Queue snapshot'') (\<lambda>snap.
       if list_ex (\<lambda>key. key \<notin> set queueSnapshotKeys) (map fst snap)
       then Inl (Error ''Queue snapshot must contain only the canonical keys'')
       else
         let backlogBytes = queueBindingInteger (field_of snap ''backlogBytes'') MAX_QUEUE_BACKLOG_BYTES;
             backlogCount = queueBindingInteger (field_of snap ''backlogCount'') MAX_EVIDENCE_VALUE;
             oldest = queueBindingTimestamp (field_of snap ''oldestMessageTimestamp'');
             valid = fst backlogBytes \<and> fst backlogCount \<and> fst oldest
         in and_then (nullableIntegerUpTo MAX_RATIO_FIELD (field_of snap ''consecutiveNonzeroSamples'')
              ''consecutive Queue samples'') (\<lambda>samples.
            and_then (nullableTimestampField (field_of snap ''nonzeroSinceAt'') ''nonzeroSinceAt'') (\<lambda>since.
            and_then (nullableTimestampField (field_of snap ''sampledAt'') ''sampledAt'') (\<lambda>sampled.
              Inr \<lparr>qs_backlogBytes = (if valid then snd backlogBytes else None),
                   qs_backlogCount = (if valid then snd backlogCount else None),
                   qs_consecutiveNonzeroSamples = samples,
                   qs_nonzeroSinceAt = since,
                   qs_oldestMessageTimestamp = (if valid then snd oldest else None),
                   qs_sampledAt = sampled\<rparr>))))"


definition parseQueueObservation :: "js \<Rightarrow> alertRuleObservation result" where
  "parseQueueObservation value =
     and_then (exactRecord value [''asOf'', ''dimension'', ''ruleId'', ''snapshot''] ''Queue observation'') (\<lambda>record.
     and_then (observationBase record Queue_dlq_approximate) (\<lambda>(asOf, dimension).
       if kindOf dimension \<noteq> KQueue
       then Inl (Error ''Queue alert dimension must name a Queue'')
       else and_then (parseQueueSnapshot (field_of record ''snapshot'')) (\<lambda>snapshot.
         Inr \<lparr>obs_asOf = asOf, obs_dimension = dimension, obs_ruleId = Queue_dlq_approximate,
              obs_body = QueueBody snapshot\<rparr>)))"

definition parseLogoutObservation :: "js \<Rightarrow> alertRuleObservation result" where
  "parseLogoutObservation value =
     and_then (exactRecord value [''asOf'', ''current'', ''dimension'', ''ruleId'', ''windows'']
       ''logout-delivery observation'') (\<lambda>record.
     and_then (observationBase record Logout_delivery_health) (\<lambda>(asOf, dimension).
       if kindOf dimension \<noteq> KGlobal \<and> kindOf dimension \<noteq> KHashed Client_hmac
       then Inl (Error ''logout-delivery alert dimension must be global or client HMAC'')
       else
         and_then (parseLogoutCurrentSnapshot (field_of record ''current'')) (\<lambda>current.
         and_then (parseWindows parseLogoutMetrics (field_of record ''windows'')) (\<lambda>windows.
         and_then (validateNestedWindows (LogoutWindows windows)) (\<lambda>_.
           Inr \<lparr>obs_asOf = asOf, obs_dimension = dimension, obs_ruleId = Logout_delivery_health,
                obs_body = LogoutBody current windows\<rparr>)))))"

definition parsedWindows :: "('a windowed \<Rightarrow> ruleWindows) \<Rightarrow> 'a windowed result \<Rightarrow> ruleWindows result" where
  "parsedWindows family parsed =
     and_then parsed (\<lambda>windows.
     and_then (validateNestedWindows (family windows)) (\<lambda>_. Inr (family windows)))"

fun parseRuleWindows :: "alertRuleId \<Rightarrow> js \<Rightarrow> ruleWindows result" where
  "parseRuleWindows Registration_rate_limited v = parsedWindows CountWindows (parseWindows parseCountMetrics v)"
| "parseRuleWindows Registration_denied v = parsedWindows CountWindows (parseWindows parseCountMetrics v)"
| "parseRuleWindows Registration_restricted_created v = parsedWindows CountWindows (parseWindows parseCountMetrics v)"
| "parseRuleWindows Admin_directory_volume v = parsedWindows CountWindows (parseWindows parseCountMetrics v)"
| "parseRuleWindows Registration_challenge_unavailable v = parsedWindows RatioWindows (parseWindows parseRatioMetrics v)"
| "parseRuleWindows Recovery_passkey_failure v = parsedWindows RatioWindows (parseWindows parseRatioMetrics v)"
| "parseRuleWindows Passkey_step_up_failure v = parsedWindows RatioWindows (parseWindows parseRatioMetrics v)"
| "parseRuleWindows Restricted_sensitive_denied v = parsedWindows RestrictedWindows (parseWindows parseRestrictedMetrics v)"
| "parseRuleWindows Recovery_entry_abuse v = parsedWindows RecoveryWindows (parseWindows parseRecoveryEntryMetrics v)"
| "parseRuleWindows Oauth_client_report v = parsedWindows OAuthWindows (parseWindows parseOAuthMetrics v)"
| "parseRuleWindows Admin_sensitive_activity v = parsedWindows AdminWindows (parseWindows parseAdminSensitiveMetrics v)"
| "parseRuleWindows r v = Inl (Error (''unsupported alert observation: '' @ ruleIdString r))"

definition parseWindowedObservation :: "alertRuleId \<Rightarrow> js \<Rightarrow> alertRuleObservation result" where
  "parseWindowedObservation r value =
     and_then (exactRecord value [''asOf'', ''dimension'', ''ruleId'', ''windows'']
       ''windowed alert observation'') (\<lambda>record.
     and_then (observationBase record r) (\<lambda>(asOf, dimension).
     and_then (parseRuleWindows r (field_of record ''windows'')) (\<lambda>windows.
       Inr \<lparr>obs_asOf = asOf, obs_dimension = dimension, obs_ruleId = r,
            obs_body = WindowsBody windows\<rparr>)))"

definition parseAlertObservation :: "js \<Rightarrow> alertRuleObservation result" where
  "parseAlertObservation value =
     and_then (recordValue value ''alert observation'') (\<lambda>loose.
     and_then (parseAlertRuleId (field_of loose ''ruleId'')) (\<lambda>r.
       case r of
         Security_fanout_gap \<Rightarrow> parseFanoutObservation value
       | Alert_runtime_health \<Rightarrow> parseRuntimeObservation value
       | Queue_dlq_approximate \<Rightarrow> parseQueueObservation value
       | Logout_delivery_health \<Rightarrow> parseLogoutObservation value
       | _ \<Rightarrow> parseWindowedObservation r value))"

end
