(* ===== verification/Alert_Evaluation.thy ===== *)
theory Alert_Evaluation
  imports Alert_Observation
begin

section \<open>Evaluating a rule on an observation\<close>

text \<open>
  The second half of \<^verbatim>\<open>apps/sso/worker/alert-rules.ts\<close>: the queue sample that can be
  trusted, the metrics of an observation, threshold expressions, and \<open>evaluateAlertRule\<close>.
  A bag of metrics is a partial function; a metric missing from the bag makes an expression unknown.
\<close>

type_synonym metricBag = "internalMetricName \<Rightarrow> int option"

subsection \<open>Metrics of an observation\<close>

record knownQueue =
  kq_backlogBytes :: int
  kq_consecutiveNonzeroSamples :: int
  kq_depth :: int
  kq_oldestMessageAgeSeconds :: int

definition knownNonzeroQueue ::
  "int \<Rightarrow> int \<Rightarrow> int \<Rightarrow> string \<Rightarrow> string \<Rightarrow> string \<Rightarrow> knownQueue option" where
  "knownNonzeroQueue backlogBytes backlogCount samples nonzeroSinceAt oldestMessageTimestamp sampled =
     (let sampledAt = getTime sampled;
          oldestAgeMilliseconds = sampledAt - getTime oldestMessageTimestamp;
          oldestAgeSeconds = oldestAgeMilliseconds div 1000;
          elapsed = sampledAt - getTime nonzeroSinceAt
      in if oldestAgeMilliseconds < 0 then None
         else if oldestAgeSeconds > MAX_EVIDENCE_VALUE then None
         else if elapsed < 0 then None
         else if elapsed < (samples - 1) * 60000 \<or> elapsed > samples * 60000 then None
         else Some \<lparr>kq_backlogBytes = backlogBytes,
                    kq_consecutiveNonzeroSamples = min samples (elapsed div 60000),
                    kq_depth = backlogCount,
                    kq_oldestMessageAgeSeconds = oldestAgeSeconds\<rparr>)"

definition knownQueueSnapshot :: "queueDepthSnapshot \<Rightarrow> string \<Rightarrow> knownQueue option" where
  "knownQueueSnapshot snapshot asOf =
     (case (qs_backlogBytes snapshot, qs_backlogCount snapshot, qs_sampledAt snapshot,
            qs_consecutiveNonzeroSamples snapshot) of
        (Some backlogBytes, Some backlogCount, Some sampledAt, Some samples) \<Rightarrow>
          if sampledAt \<noteq> asOf then None
          else if backlogCount = 0 then
            (if qs_nonzeroSinceAt snapshot = None \<and> samples = 0 \<and> backlogBytes = 0 \<and>
                qs_oldestMessageTimestamp snapshot = None
             then Some \<lparr>kq_backlogBytes = 0, kq_consecutiveNonzeroSamples = 0, kq_depth = 0,
                        kq_oldestMessageAgeSeconds = 0\<rparr>
             else None)
          else
            (case (qs_nonzeroSinceAt snapshot, qs_oldestMessageTimestamp snapshot) of
               (Some since, Some oldest) \<Rightarrow>
                 if samples < 1 then None
                 else knownNonzeroQueue backlogBytes backlogCount samples since oldest sampledAt
             | _ \<Rightarrow> None)
      | _ \<Rightarrow> None)"

definition emptyBag :: metricBag where
  "emptyBag = (\<lambda>_. None)"

definition countBag :: "countWindowMetrics \<Rightarrow> metricBag" where
  "countBag m = emptyBag(Count := Some (cw_count m))"

definition ratioBag :: "ratioWindowMetrics \<Rightarrow> metricBag" where
  "ratioBag m = emptyBag(Denominator := Some (rw_denominator m), Numerator := Some (rw_numerator m))"

definition restrictedBag :: "restrictedDenialWindowMetrics \<Rightarrow> metricBag" where
  "restrictedBag m = emptyBag(Count := Some (rd_count m), KnownSurfaces := Some (rd_knownSurfaces m))"

definition recoveryBag :: "recoveryEntryWindowMetrics \<Rightarrow> metricBag" where
  "recoveryBag m = emptyBag(Denominator := Some (re_denied m + re_started m),
     Numerator := Some (re_denied m), RateLimited := Some (re_rateLimited m))"

definition oauthBag :: "oauthClientReportWindowMetrics \<Rightarrow> metricBag" where
  "oauthBag m = emptyBag(Count := Some (oc_count m), DistinctReporters := oc_distinctReporters m,
     HighRiskCount := Some (oc_highRiskCount m))"

definition adminBag :: "adminSensitiveWindowMetrics \<Rightarrow> metricBag" where
  "adminBag m = emptyBag(Count := Some (as_successes m + as_protectedDenials m),
     ProtectedDenials := Some (as_protectedDenials m), Successes := Some (as_successes m))"

definition orZero :: "int option \<Rightarrow> int" where
  "orZero v = (case v of None \<Rightarrow> 0 | Some n \<Rightarrow> n)"

definition logoutBag ::
  "logoutDeliveryCurrentSnapshot \<Rightarrow> logoutDeliveryWindowMetrics \<Rightarrow> metricBag" where
  "logoutBag current m = emptyBag(Dead := Some (ld_currentDead current),
     Denominator := Some (lw_eligible m), LeaseExpired := Some (lw_leaseExpired m),
     Numerator := Some (lw_unresolved m),
     OldestUnresolvedAgeSeconds := Some (orZero (ld_oldestUnresolvedAgeSeconds current)))"

definition runtimeBag :: "alertRuntimeSnapshot \<Rightarrow> metricBag" where
  "runtimeBag s = emptyBag(DeadOutbox := Some (rs_deadOutbox s),
     EvaluatorAgeSeconds := Some (orZero (rs_evaluatorAgeSeconds s)),
     EvaluatorMissing := Some (if rs_evaluatorAgeSeconds s = None then 1 else 0),
     OutboxDueAgeSeconds := Some (orZero (rs_outboxDueAgeSeconds s)))"

definition queueBag :: "knownQueue \<Rightarrow> metricBag" where
  "queueBag q = emptyBag(ConsecutiveNonzeroSamples := Some (kq_consecutiveNonzeroSamples q),
     Depth := Some (kq_depth q))"

lemmas bag_defs = emptyBag_def countBag_def ratioBag_def restrictedBag_def recoveryBag_def
  oauthBag_def adminBag_def logoutBag_def runtimeBag_def queueBag_def

fun windowsMetrics :: "ruleWindows \<Rightarrow> metricBag windowed" where
  "windowsMetrics (CountWindows w) = mapWindows countBag w"
| "windowsMetrics (RatioWindows w) = mapWindows ratioBag w"
| "windowsMetrics (RestrictedWindows w) = mapWindows restrictedBag w"
| "windowsMetrics (RecoveryWindows w) = mapWindows recoveryBag w"
| "windowsMetrics (OAuthWindows w) = mapWindows oauthBag w"
| "windowsMetrics (AdminWindows w) = mapWindows adminBag w"
| "windowsMetrics (LogoutWindows w) =
     mapWindows (\<lambda>m. emptyBag(Denominator := Some (lw_eligible m),
       LeaseExpired := Some (lw_leaseExpired m), Numerator := Some (lw_unresolved m))) w"

fun metricsForObservation :: "observationBody \<Rightarrow> knownQueue option \<Rightarrow> metricBag windowed" where
  "metricsForObservation (WindowsBody w) _ = windowsMetrics w"
| "metricsForObservation (FanoutBody s) _ =
     \<lparr>w5m = emptyBag(MissingOlderThan5mCount := Some (fg_missingOlderThan5mCount s)),
      w15m = emptyBag(MissingOlderThan15mCount := Some (fg_missingOlderThan15mCount s)),
      w60m = emptyBag(MissingOlderThan5mCount := Some (fg_missingOlderThan5mCount s))\<rparr>"
| "metricsForObservation (LogoutBody current w) _ = mapWindows (logoutBag current) w"
| "metricsForObservation (RuntimeBody s) _ =
     \<lparr>w5m = runtimeBag s, w15m = runtimeBag s, w60m = runtimeBag s\<rparr>"
| "metricsForObservation (QueueBody _) None = \<lparr>w5m = emptyBag, w15m = emptyBag, w60m = emptyBag\<rparr>"
| "metricsForObservation (QueueBody _) (Some q) =
     \<lparr>w5m = queueBag q, w15m = queueBag q, w60m = queueBag q\<rparr>"

subsection \<open>Evidence\<close>

datatype evidenceMetricKind = AgeSeconds | Boolean | Consecutive | CountKind | Ratio

datatype evidenceUnit = BasisPoints | Events | Samples | Seconds | State

record alertMetricEvidence =
  ev_kind :: evidenceMetricKind
  ev_metricName :: alertMetricName
  ev_minimumNumeratorCount :: "int option"
  ev_minimumSampleCount :: int
  ev_observedDenominator :: "int option"
  ev_observedNumerator :: "int option"
  ev_observedValue :: int
  ev_threshold :: int
  ev_unit :: evidenceUnit

record alertSelectedEvidence = alertMetricEvidence +
  sel_secondary :: "alertMetricEvidence option"
  sel_severity :: activeSeverity
  sel_windowSeconds :: int

fun evidenceDomain :: "internalMetricName \<Rightarrow> evidenceMetricKind \<times> evidenceUnit" where
  "evidenceDomain EvaluatorAgeSeconds = (AgeSeconds, Seconds)"
| "evidenceDomain OldestUnresolvedAgeSeconds = (AgeSeconds, Seconds)"
| "evidenceDomain OutboxDueAgeSeconds = (AgeSeconds, Seconds)"
| "evidenceDomain ConsecutiveNonzeroSamples = (Consecutive, Samples)"
| "evidenceDomain EvaluatorMissing = (Boolean, State)"
| "evidenceDomain _ = (CountKind, Events)"

definition scalarEvidence :: "internalMetricName \<Rightarrow> int \<Rightarrow> int \<Rightarrow> alertMetricEvidence" where
  "scalarEvidence metric observedValue threshold =
     \<lparr>ev_kind = fst (evidenceDomain metric), ev_metricName = METRIC_NAMES metric,
      ev_minimumNumeratorCount = None, ev_minimumSampleCount = 0,
      ev_observedDenominator = None, ev_observedNumerator = None,
      ev_observedValue = observedValue, ev_threshold = threshold,
      ev_unit = snd (evidenceDomain metric)\<rparr>"

definition ratioEvidence :: "int \<Rightarrow> int \<Rightarrow> int \<Rightarrow> int \<Rightarrow> int \<Rightarrow> alertMetricEvidence" where
  "ratioEvidence numerator denominator basisPoints minDenominator minNumerator =
     \<lparr>ev_kind = Ratio, ev_metricName = M_ratio, ev_minimumNumeratorCount = Some minNumerator,
      ev_minimumSampleCount = minDenominator, ev_observedDenominator = Some denominator,
      ev_observedNumerator = Some numerator,
      ev_observedValue = numerator * 10000 div denominator, ev_threshold = basisPoints,
      ev_unit = BasisPoints\<rparr>"

subsection \<open>Threshold expressions\<close>

datatype expressionEvaluation =
    Breached "alertMetricEvidence list"
  | Clear
  | UnknownResult

definition evaluateGte :: "internalMetricName \<Rightarrow> int \<Rightarrow> metricBag \<Rightarrow> expressionEvaluation" where
  "evaluateGte metric value metrics =
     (case metrics metric of
        None \<Rightarrow> UnknownResult
      | Some observed \<Rightarrow>
          if observed < value then Clear else Breached [scalarEvidence metric observed value])"

definition evaluateRatio :: "int \<Rightarrow> int \<Rightarrow> int \<Rightarrow> metricBag \<Rightarrow> expressionEvaluation" where
  "evaluateRatio basisPoints minDenominator minNumerator metrics =
     (case (metrics Numerator, metrics Denominator) of
        (Some numerator, Some denominator) \<Rightarrow>
          if numerator < minNumerator \<or> denominator < minDenominator \<or> denominator = 0 \<or>
             numerator * 10000 < denominator * basisPoints
          then Clear
          else Breached [ratioEvidence numerator denominator basisPoints minDenominator minNumerator]
      | _ \<Rightarrow> UnknownResult)"

fun evaluateExpression :: "thresholdExpression \<Rightarrow> metricBag \<Rightarrow> expressionEvaluation result"
and evaluateAll ::
  "thresholdExpression list \<Rightarrow> metricBag \<Rightarrow> alertMetricEvidence list \<Rightarrow> bool \<Rightarrow> expressionEvaluation result"
and evaluateAny :: "thresholdExpression list \<Rightarrow> metricBag \<Rightarrow> bool \<Rightarrow> expressionEvaluation result"
where
  "evaluateExpression (Gte metric value) metrics = Inr (evaluateGte metric value metrics)"
| "evaluateExpression (Ratio_gte bp minDenominator minNumerator) metrics =
     Inr (evaluateRatio bp minDenominator minNumerator metrics)"
| "evaluateExpression (All clauses) metrics = evaluateAll clauses metrics [] False"
| "evaluateExpression (Any clauses) metrics = evaluateAny clauses metrics False"
| "evaluateAll [] metrics components unknown =
     (if unknown then Inr UnknownResult
      else if length components > 2
      then Inl (Error ''alert v1 evidence exceeds its two-component schema'')
      else Inr (Breached components))"
| "evaluateAll (clause # clauses) metrics components unknown =
     and_then (evaluateExpression clause metrics) (\<lambda>result.
       case result of
         Clear \<Rightarrow> Inr Clear
       | UnknownResult \<Rightarrow> evaluateAll clauses metrics components True
       | Breached cs \<Rightarrow> evaluateAll clauses metrics (components @ cs) unknown)"
| "evaluateAny [] metrics unknown = Inr (if unknown then UnknownResult else Clear)"
| "evaluateAny (clause # clauses) metrics unknown =
     and_then (evaluateExpression clause metrics) (\<lambda>result.
       case result of
         Breached cs \<Rightarrow> Inr (Breached cs)
       | UnknownResult \<Rightarrow> evaluateAny clauses metrics True
       | Clear \<Rightarrow> evaluateAny clauses metrics unknown)"

subsection \<open>Thresholds of one severity over the windows\<close>

type_synonym windowMatch = "alertMetricEvidence list \<times> alertWindowKey"

fun windowThresholdLoop ::
  "alertRuleDefinition \<Rightarrow> metricBag windowed \<Rightarrow> activeSeverity \<Rightarrow> alertWindowKey list \<Rightarrow>
   windowMatch list \<Rightarrow> bool \<Rightarrow> (windowMatch list \<times> bool) result" where
  "windowThresholdLoop definition metrics severity [] matches unknown = Inr (matches, unknown)"
| "windowThresholdLoop definition metrics severity (window # rest) matches unknown =
     (case thresholdFor (atWindow (thresholds definition) window) severity of
        None \<Rightarrow> windowThresholdLoop definition metrics severity rest matches unknown
      | Some threshold \<Rightarrow>
          and_then (evaluateExpression threshold (atWindow metrics window)) (\<lambda>result.
            case result of
              Breached cs \<Rightarrow>
                windowThresholdLoop definition metrics severity rest (matches @ [(cs, window)]) unknown
            | UnknownResult \<Rightarrow>
                windowThresholdLoop definition metrics severity rest matches True
            | Clear \<Rightarrow> windowThresholdLoop definition metrics severity rest matches unknown))"

definition evaluateWindowThresholds ::
  "alertRuleDefinition \<Rightarrow> metricBag windowed \<Rightarrow> activeSeverity \<Rightarrow> (windowMatch list \<times> bool) result" where
  "evaluateWindowThresholds definition metrics severity =
     windowThresholdLoop definition metrics severity ALERT_EVIDENCE_WINDOW_ORDER [] False"

fun selectedEvidence ::
  "alertMetricEvidence list \<Rightarrow> activeSeverity \<Rightarrow> alertWindowKey \<Rightarrow> alertSelectedEvidence result" where
  "selectedEvidence [] severity window =
     Inl (Error ''alert evidence must contain one or two components'')"
| "selectedEvidence (primary # rest) severity window =
     (if length rest > 1
      then Inl (Error ''alert evidence must contain one or two components'')
      else Inr (alertMetricEvidence.extend primary
             \<lparr>sel_secondary = (case rest of [] \<Rightarrow> None | s # _ \<Rightarrow> Some s),
              sel_severity = severity, sel_windowSeconds = ALERT_WINDOW_SECONDS window\<rparr>))"

definition isImmediateCriticalEvidence :: "alertRuleId \<Rightarrow> alertMetricEvidence list \<Rightarrow> bool" where
  "isImmediateCriticalEvidence r evidence =
     (let metricName = (case evidence of [] \<Rightarrow> None | e # _ \<Rightarrow> Some (ev_metricName e)) in
      if r = Logout_delivery_health then metricName = Some M_dead
      else r = Alert_runtime_health \<and>
        (metricName = Some M_evaluator_missing \<or> metricName = Some M_dead_outbox))"

subsection \<open>The evaluation of a rule\<close>

record alertRuleEvaluation =
  eval_asOf :: string
  eval_breachedWindows :: "alertWindowKey list"
  eval_dimension :: alertDimension
  eval_evidence :: alertEvidenceStatus
  eval_immediateCritical :: bool
  eval_ruleId :: alertRuleId
  eval_selectedEvidence :: "alertSelectedEvidence option"
  eval_severity :: alertSeverity

definition unknownEvaluation :: "alertRuleObservation \<Rightarrow> alertRuleEvaluation" where
  "unknownEvaluation observation =
     \<lparr>eval_asOf = obs_asOf observation, eval_breachedWindows = [],
      eval_dimension = obs_dimension observation, eval_evidence = Unknown,
      eval_immediateCritical = False, eval_ruleId = obs_ruleId observation,
      eval_selectedEvidence = None, eval_severity = None\<rparr>"

definition criticalEvaluation ::
  "alertRuleObservation \<Rightarrow> windowMatch list \<Rightarrow> alertRuleEvaluation result" where
  "criticalEvaluation observation criticalMatches =
     (let immediate = find (\<lambda>(components, _).
            isImmediateCriticalEvidence (obs_ruleId observation) components) criticalMatches;
          selected = (case immediate of None \<Rightarrow> hd criticalMatches | Some m \<Rightarrow> m)
      in and_then (selectedEvidence (fst selected) Critical (snd selected)) (\<lambda>evidence.
           Inr \<lparr>eval_asOf = obs_asOf observation, eval_breachedWindows = map snd criticalMatches,
                eval_dimension = obs_dimension observation, eval_evidence = Known,
                eval_immediateCritical = (immediate \<noteq> None), eval_ruleId = obs_ruleId observation,
                eval_selectedEvidence = Some evidence, eval_severity = Some Critical\<rparr>))"

definition warningEvaluation ::
  "alertRuleObservation \<Rightarrow> bool \<Rightarrow> windowMatch list \<Rightarrow> bool \<Rightarrow> alertRuleEvaluation result" where
  "warningEvaluation observation criticalUnknown warningMatches warningUnknown =
     (case warningMatches of
        [] \<Rightarrow>
          Inr \<lparr>eval_asOf = obs_asOf observation, eval_breachedWindows = [],
               eval_dimension = obs_dimension observation,
               eval_evidence = (if criticalUnknown \<or> warningUnknown then Unknown else Known),
               eval_immediateCritical = False, eval_ruleId = obs_ruleId observation,
               eval_selectedEvidence = None, eval_severity = None\<rparr>
      | selected # _ \<Rightarrow>
          and_then (selectedEvidence (fst selected) Warning (snd selected)) (\<lambda>evidence.
            Inr \<lparr>eval_asOf = obs_asOf observation, eval_breachedWindows = map snd warningMatches,
                 eval_dimension = obs_dimension observation, eval_evidence = Known,
                 eval_immediateCritical = False, eval_ruleId = obs_ruleId observation,
                 eval_selectedEvidence = Some evidence, eval_severity = Some Warning\<rparr>))"

definition queueSnapshotOf :: "alertRuleObservation \<Rightarrow> knownQueue option" where
  "queueSnapshotOf observation =
     (case obs_body observation of
        QueueBody snapshot \<Rightarrow> knownQueueSnapshot snapshot (obs_asOf observation)
      | _ \<Rightarrow> None)"

definition evaluateObservation :: "alertRuleObservation \<Rightarrow> alertRuleEvaluation result" where
  "evaluateObservation observation =
     and_then (alertWindowsAt (obs_asOf observation)) (\<lambda>_.
       let queueSnapshot = queueSnapshotOf observation in
       if obs_ruleId observation = Queue_dlq_approximate \<and> queueSnapshot = None
       then Inr (unknownEvaluation observation)
       else
         let metrics = metricsForObservation (obs_body observation) queueSnapshot;
             definition = ALERT_RULE_DEFINITIONS (obs_ruleId observation)
         in and_then (evaluateWindowThresholds definition metrics Critical) (\<lambda>(criticalMatches, criticalUnknown).
              if criticalMatches \<noteq> [] then criticalEvaluation observation criticalMatches
              else and_then (evaluateWindowThresholds definition metrics Warning) (\<lambda>(warningMatches, warningUnknown).
                warningEvaluation observation criticalUnknown warningMatches warningUnknown)))"

definition evaluateAlertRule :: "js \<Rightarrow> alertRuleEvaluation result" where
  "evaluateAlertRule value = and_then (parseAlertObservation value) evaluateObservation"

end
