(* ===== verification/Codec.thy ===== *)
theory Codec
  imports Js_Values
begin

section \<open>The contract between a parser and the values the program builds\<close>

text \<open>
  The alert modules hand typed values to each other through parsers that take \<open>unknown\<close>: an
  observation is parsed when a source returns it, again by \<open>evaluateAlertRule\<close> and again by
  \<open>advanceAlertLifecycle\<close>. That only works if a parser accepts, unchanged, every value the
  program built. The locale states this contract for one type: \<open>enc\<close> is the JavaScript
  value of a typed one, \<open>dec\<close> the parser, \<open>valid\<close> what the parser guarantees.
\<close>

locale codec =
  fixes enc :: "'a \<Rightarrow> js"
    and dec :: "js \<Rightarrow> 'a result"
    and valid :: "'a \<Rightarrow> bool"
  assumes dec_enc: "valid x \<Longrightarrow> dec (enc x) = Inr x"
    and dec_valid: "dec v = Inr x \<Longrightarrow> valid x"
begin

lemma dec_idem: "dec v = Inr x \<Longrightarrow> dec (enc x) = Inr x"
  by (rule dec_enc) (rule dec_valid)

lemma enc_inj: "valid x \<Longrightarrow> valid y \<Longrightarrow> enc x = enc y \<longleftrightarrow> x = y"
  by (metis dec_enc sum.inject(2))

lemma valid_iff: "valid x \<longleftrightarrow> dec (enc x) = Inr x"
  using dec_enc dec_valid by blast

lemma valid_range: "valid x \<longleftrightarrow> (\<exists>v. dec v = Inr x)"
  using valid_iff dec_valid by blast

end

text \<open>A nullable field: null is the absent value, anything else goes to the parser.\<close>

definition encNullable :: "('a \<Rightarrow> js) \<Rightarrow> 'a option \<Rightarrow> js" where
  "encNullable enc x = (case x of None \<Rightarrow> JNull | Some y \<Rightarrow> enc y)"

definition decNullable :: "(js \<Rightarrow> 'a result) \<Rightarrow> js \<Rightarrow> 'a option result" where
  "decNullable dec v =
     (if v = JNull then Inr None else and_then (dec v) (\<lambda>x. Inr (Some x)))"

locale nonnull_codec = codec +
  assumes enc_nonnull: "valid x \<Longrightarrow> enc x \<noteq> JNull"
begin

lemma nullable_codec:
  "codec (encNullable enc) (decNullable dec) (pred_option valid)"
proof
  show "pred_option valid x \<Longrightarrow> decNullable dec (encNullable enc x) = Inr x" for x
    by (cases x) (auto simp: decNullable_def encNullable_def dec_enc enc_nonnull)
  show "decNullable dec v = Inr x \<Longrightarrow> pred_option valid x" for v x
    by (auto simp: decNullable_def and_then_eq_Inr dest: dec_valid split: if_splits)
qed

end

end
