(* ===== verification/Alert_Observation_Codec.thy ===== *)
theory Alert_Observation_Codec
  imports Alert_Observation Codec
begin

section \<open>Observations the program builds parse back unchanged\<close>

text \<open>
  For every type of \<open>Alert_Observation\<close>: its JavaScript value, the conditions its parser
  establishes, and the proof that the two meet the contract of the locale \<open>codec\<close>.
\<close>

subsection \<open>Facts the proofs share\<close>

definition inDomain :: "int \<Rightarrow> int \<Rightarrow> bool" where
  "inDomain maximum n \<longleftrightarrow> 0 \<le> n \<and> n \<le> maximum"

lemma integerUpTo_domain [codec_simps]:
  "m \<le> MAX_SAFE_INTEGER \<Longrightarrow> integerUpTo m v name = Inr n \<longleftrightarrow> v = JInt n \<and> inDomain m n"
  by (auto simp: integerUpTo_Inr_iff inDomain_def)

lemma nullableIntegerUpTo_domain [codec_simps]:
  "m \<le> MAX_SAFE_INTEGER \<Longrightarrow>
   nullableIntegerUpTo m v name = Inr n \<longleftrightarrow> v = jsOfIntOption n \<and> pred_option (inDomain m) n"
  by (cases n) (auto simp: nullableIntegerUpTo_Inr_iff inDomain_def)

lemma integerUpTo_built [codec_simps]:
  "m \<le> MAX_SAFE_INTEGER \<Longrightarrow> inDomain m n \<Longrightarrow> integerUpTo m (JInt n) name = Inr n"
  by (simp add: integerUpTo_domain)

lemma nullableIntegerUpTo_built [codec_simps]:
  "m \<le> MAX_SAFE_INTEGER \<Longrightarrow> pred_option (inDomain m) n \<Longrightarrow>
   nullableIntegerUpTo m (jsOfIntOption n) name = Inr n"
  by (simp add: nullableIntegerUpTo_domain)

lemma maxima_safe [simp]:
  "MAX_EVIDENCE_VALUE \<le> MAX_SAFE_INTEGER" "MAX_RATIO_FIELD \<le> MAX_SAFE_INTEGER"
  "MAX_QUEUE_BACKLOG_BYTES \<le> MAX_SAFE_INTEGER"
  by (simp_all add: bound_defs)

lemma ruleIdOfString_Some_iff: "ruleIdOfString s = Some r \<longleftrightarrow> s = ruleIdString r"
proof
  show "ruleIdOfString s = Some r \<Longrightarrow> s = ruleIdString r"
    by (auto simp: ruleIdOfString_def find_Some_iff)
  show "s = ruleIdString r \<Longrightarrow> ruleIdOfString s = Some r"
    by (cases r) (simp_all add: ruleIdOfString_def ALERT_RULE_IDS_def)
qed

lemma ruleIdOfString_ruleIdString [simp]: "ruleIdOfString (ruleIdString r) = Some r"
  by (simp add: ruleIdOfString_Some_iff)

lemma parseAlertRuleId_Inr_iff [codec_simps]:
  "parseAlertRuleId v = Inr r \<longleftrightarrow> v = JStr (ruleIdString r)"
  by (cases v) (auto simp: parseAlertRuleId_def Let_def ruleIdOfString_Some_iff ruleIdString_inj
      split: option.splits)

lemma parseAlertRuleId_built [codec_simps]: "parseAlertRuleId (JStr (ruleIdString r)) = Inr r"
  by (simp add: parseAlertRuleId_Inr_iff)

lemma queueOfString_Some_iff: "queueOfString s = Some q \<longleftrightarrow> s = queueNameString q"
proof
  show "queueOfString s = Some q \<Longrightarrow> s = queueNameString q"
    by (auto simp: queueOfString_def find_Some_iff)
  show "s = queueNameString q \<Longrightarrow> queueOfString s = Some q"
    by (cases q) (simp_all add: queueOfString_def ALERT_QUEUE_NAMES_def)
qed

lemma queueOfString_queueNameString [simp]: "queueOfString (queueNameString q) = Some q"
  by (simp add: queueOfString_Some_iff)

lemma hashedKindOfString_Some_iff: "hashedKindOfString s = Some k \<longleftrightarrow> s = hashedKindString k"
proof
  show "hashedKindOfString s = Some k \<Longrightarrow> s = hashedKindString k"
    by (auto simp: hashedKindOfString_def find_Some_iff)
  show "s = hashedKindString k \<Longrightarrow> hashedKindOfString s = Some k"
    by (cases k) (simp_all add: hashedKindOfString_def ALERT_HASHED_DIMENSION_KINDS_def)
qed

lemma hashedKindOfString_hashedKindString [simp]: "hashedKindOfString (hashedKindString k) = Some k"
  by (simp add: hashedKindOfString_Some_iff)

subsection \<open>References and dimensions\<close>

definition jsOfReference :: "hashedAlertReference \<Rightarrow> js" where
  "jsOfReference ref = JObj [(''keyVersion'', JInt (keyVersion ref)), (''value'', JStr (refValue ref))]"

definition validReference :: "hashedAlertReference \<Rightarrow> bool" where
  "validReference ref \<longleftrightarrow> keyVersion ref = 1 \<and> isCanonicalBase64Url32 (refValue ref)"

interpretation reference: codec jsOfReference parseHashedReference validReference
proof
  fix x v
  show "validReference x \<Longrightarrow> parseHashedReference (jsOfReference x) = Inr x"
    by (cases x) (simp add: parseHashedReference_def jsOfReference_def validReference_def)
  show "parseHashedReference v = Inr x \<Longrightarrow> validReference x"
    by (auto simp: parseHashedReference_def validReference_def and_then_eq_Inr Let_def
        split: if_splits js.splits)
qed

fun jsOfDimension :: "alertDimension \<Rightarrow> js" where
  "jsOfDimension Global = JObj [(''kind'', JStr ''global'')]"
| "jsOfDimension (QueueDimension q) =
     JObj [(''kind'', JStr ''queue''), (''queue'', JStr (queueNameString q))]"
| "jsOfDimension (Hashed k ref) =
     JObj [(''kind'', JStr (hashedKindString k)), (''reference'', jsOfReference ref)]"

fun validDimension :: "dimensionKind list \<Rightarrow> alertDimension \<Rightarrow> bool" where
  "validDimension allowed d \<longleftrightarrow>
     kindOf d \<in> set allowed \<and> (case d of Hashed _ ref \<Rightarrow> validReference ref | _ \<Rightarrow> True)"

lemma hashedKind_not_other [simp]:
  "hashedKindString k \<noteq> ''global''" "hashedKindString k \<noteq> ''queue''"
  by (cases k; simp)+

lemma dimension_codec: "codec jsOfDimension (\<lambda>v. parseAlertDimension v allowed) (validDimension allowed)"
proof
  fix x v
  show "validDimension allowed x \<Longrightarrow> parseAlertDimension (jsOfDimension x) allowed = Inr x"
    by (cases x) (auto simp: parseAlertDimension_def reference.dec_enc)
  show "parseAlertDimension v allowed = Inr x \<Longrightarrow> validDimension allowed x"
    by (auto simp: parseAlertDimension_def Let_def and_then_eq_Inr reference.dec_valid
        split: if_splits js.splits option.splits)
qed

subsection \<open>Metrics\<close>

lemmas metric_simps = and_then_eq_Inr nullableInteger_eq
  integerUpTo_domain nullableIntegerUpTo_domain

definition jsOfCount :: "countWindowMetrics \<Rightarrow> js" where
  "jsOfCount m =
     JObj [(''count'', JInt (cw_count m))]"

definition validCount :: "countWindowMetrics \<Rightarrow> bool" where
  "validCount m \<longleftrightarrow>
     inDomain MAX_EVIDENCE_VALUE (cw_count m)"

interpretation countMetrics: codec jsOfCount parseCountMetrics validCount
proof
  fix m v
  show "validCount m \<Longrightarrow> parseCountMetrics (jsOfCount m) = Inr m"
    by (cases m) (auto simp: jsOfCount_def parseCountMetrics_def validCount_def codec_simps nullableInteger_eq split: option.splits)
  show "parseCountMetrics v = Inr m \<Longrightarrow> validCount m"
    by (auto simp: parseCountMetrics_def validCount_def metric_simps not_less
        split: if_splits option.splits)
qed

definition jsOfRatio :: "ratioWindowMetrics \<Rightarrow> js" where
  "jsOfRatio m =
     JObj [(''denominator'', JInt (rw_denominator m)),
      (''numerator'', JInt (rw_numerator m))]"

definition validRatio :: "ratioWindowMetrics \<Rightarrow> bool" where
  "validRatio m \<longleftrightarrow>
     inDomain MAX_RATIO_FIELD (rw_denominator m) \<and> inDomain MAX_RATIO_FIELD (rw_numerator m) \<and>
     rw_numerator m \<le> rw_denominator m"

interpretation ratioMetrics: codec jsOfRatio parseRatioMetrics validRatio
proof
  fix m v
  show "validRatio m \<Longrightarrow> parseRatioMetrics (jsOfRatio m) = Inr m"
    by (cases m) (auto simp: jsOfRatio_def parseRatioMetrics_def validRatio_def codec_simps nullableInteger_eq split: option.splits)
  show "parseRatioMetrics v = Inr m \<Longrightarrow> validRatio m"
    by (auto simp: parseRatioMetrics_def validRatio_def metric_simps not_less
        split: if_splits option.splits)
qed

definition jsOfRestricted :: "restrictedDenialWindowMetrics \<Rightarrow> js" where
  "jsOfRestricted m =
     JObj [(''count'', JInt (rd_count m)),
      (''knownSurfaces'', JInt (rd_knownSurfaces m))]"

definition validRestricted :: "restrictedDenialWindowMetrics \<Rightarrow> bool" where
  "validRestricted m \<longleftrightarrow>
     inDomain MAX_EVIDENCE_VALUE (rd_count m) \<and> inDomain MAX_EVIDENCE_VALUE (rd_knownSurfaces m) \<and>
     rd_knownSurfaces m \<le> rd_count m \<and>
     rd_knownSurfaces m \<le> int (length RESTRICTED_ALERT_SURFACES)"

interpretation restrictedMetrics: codec jsOfRestricted parseRestrictedMetrics validRestricted
proof
  fix m v
  show "validRestricted m \<Longrightarrow> parseRestrictedMetrics (jsOfRestricted m) = Inr m"
    by (cases m) (auto simp: jsOfRestricted_def parseRestrictedMetrics_def validRestricted_def codec_simps nullableInteger_eq split: option.splits)
  show "parseRestrictedMetrics v = Inr m \<Longrightarrow> validRestricted m"
    by (auto simp: parseRestrictedMetrics_def validRestricted_def metric_simps not_less
        split: if_splits option.splits)
qed

definition jsOfRecovery :: "recoveryEntryWindowMetrics \<Rightarrow> js" where
  "jsOfRecovery m =
     JObj [(''denied'', JInt (re_denied m)),
      (''rateLimited'', JInt (re_rateLimited m)),
      (''started'', JInt (re_started m))]"

definition validRecovery :: "recoveryEntryWindowMetrics \<Rightarrow> bool" where
  "validRecovery m \<longleftrightarrow>
     inDomain MAX_RATIO_FIELD (re_denied m) \<and> inDomain MAX_EVIDENCE_VALUE (re_rateLimited m) \<and>
     inDomain MAX_RATIO_FIELD (re_started m) \<and> re_denied m + re_started m \<le> MAX_RATIO_FIELD"

interpretation recoveryMetrics: codec jsOfRecovery parseRecoveryEntryMetrics validRecovery
proof
  fix m v
  show "validRecovery m \<Longrightarrow> parseRecoveryEntryMetrics (jsOfRecovery m) = Inr m"
    by (cases m) (auto simp: jsOfRecovery_def parseRecoveryEntryMetrics_def validRecovery_def codec_simps nullableInteger_eq split: option.splits)
  show "parseRecoveryEntryMetrics v = Inr m \<Longrightarrow> validRecovery m"
    by (auto simp: parseRecoveryEntryMetrics_def validRecovery_def metric_simps not_less
        split: if_splits option.splits)
qed

definition jsOfOAuth :: "oauthClientReportWindowMetrics \<Rightarrow> js" where
  "jsOfOAuth m =
     JObj [(''count'', JInt (oc_count m)),
      (''distinctReporters'', jsOfIntOption (oc_distinctReporters m)),
      (''highRiskCount'', JInt (oc_highRiskCount m))]"

definition validOAuth :: "oauthClientReportWindowMetrics \<Rightarrow> bool" where
  "validOAuth m \<longleftrightarrow>
     inDomain MAX_EVIDENCE_VALUE (oc_count m) \<and>
     pred_option (inDomain MAX_EVIDENCE_VALUE) (oc_distinctReporters m) \<and>
     inDomain MAX_EVIDENCE_VALUE (oc_highRiskCount m) \<and>
     pred_option (\<lambda>d. d \<le> oc_count m) (oc_distinctReporters m) \<and>
     oc_highRiskCount m \<le> oc_count m"

interpretation oauthMetrics: codec jsOfOAuth parseOAuthMetrics validOAuth
proof
  fix m v
  show "validOAuth m \<Longrightarrow> parseOAuthMetrics (jsOfOAuth m) = Inr m"
    by (cases m) (auto simp: jsOfOAuth_def parseOAuthMetrics_def validOAuth_def codec_simps nullableInteger_eq split: option.splits)
  show "parseOAuthMetrics v = Inr m \<Longrightarrow> validOAuth m"
    by (auto simp: parseOAuthMetrics_def validOAuth_def metric_simps not_less
        split: if_splits option.splits)
qed

definition jsOfAdmin :: "adminSensitiveWindowMetrics \<Rightarrow> js" where
  "jsOfAdmin m =
     JObj [(''protectedDenials'', JInt (as_protectedDenials m)),
      (''successes'', JInt (as_successes m))]"

definition validAdmin :: "adminSensitiveWindowMetrics \<Rightarrow> bool" where
  "validAdmin m \<longleftrightarrow>
     inDomain MAX_EVIDENCE_VALUE (as_protectedDenials m) \<and> inDomain MAX_EVIDENCE_VALUE (as_successes m) \<and>
     as_protectedDenials m + as_successes m \<le> MAX_EVIDENCE_VALUE"

interpretation adminMetrics: codec jsOfAdmin parseAdminSensitiveMetrics validAdmin
proof
  fix m v
  show "validAdmin m \<Longrightarrow> parseAdminSensitiveMetrics (jsOfAdmin m) = Inr m"
    by (cases m) (auto simp: jsOfAdmin_def parseAdminSensitiveMetrics_def validAdmin_def codec_simps nullableInteger_eq split: option.splits)
  show "parseAdminSensitiveMetrics v = Inr m \<Longrightarrow> validAdmin m"
    by (auto simp: parseAdminSensitiveMetrics_def validAdmin_def metric_simps not_less
        split: if_splits option.splits)
qed

definition jsOfLogoutCurrent :: "logoutDeliveryCurrentSnapshot \<Rightarrow> js" where
  "jsOfLogoutCurrent m =
     JObj [(''currentDead'', JInt (ld_currentDead m)),
      (''currentUnresolved'', JInt (ld_currentUnresolved m)),
      (''oldestUnresolvedAgeSeconds'', jsOfIntOption (ld_oldestUnresolvedAgeSeconds m))]"

definition validLogoutCurrent :: "logoutDeliveryCurrentSnapshot \<Rightarrow> bool" where
  "validLogoutCurrent m \<longleftrightarrow>
     inDomain MAX_EVIDENCE_VALUE (ld_currentUnresolved m) \<and>
     inDomain MAX_EVIDENCE_VALUE (ld_currentDead m) \<and>
     ld_currentDead m \<le> ld_currentUnresolved m \<and>
     pred_option (inDomain MAX_EVIDENCE_VALUE) (ld_oldestUnresolvedAgeSeconds m) \<and>
     (ld_currentUnresolved m = 0 \<longleftrightarrow> ld_oldestUnresolvedAgeSeconds m = None)"

interpretation logoutCurrent: codec jsOfLogoutCurrent parseLogoutCurrentSnapshot validLogoutCurrent
proof
  fix m v
  show "validLogoutCurrent m \<Longrightarrow> parseLogoutCurrentSnapshot (jsOfLogoutCurrent m) = Inr m"
    by (cases m) (auto simp: jsOfLogoutCurrent_def parseLogoutCurrentSnapshot_def validLogoutCurrent_def codec_simps nullableInteger_eq split: option.splits)
  show "parseLogoutCurrentSnapshot v = Inr m \<Longrightarrow> validLogoutCurrent m"
    by (auto simp: parseLogoutCurrentSnapshot_def validLogoutCurrent_def metric_simps not_less
        split: if_splits option.splits)
qed

definition jsOfLogout :: "logoutDeliveryWindowMetrics \<Rightarrow> js" where
  "jsOfLogout m =
     JObj [(''eligible'', JInt (lw_eligible m)),
      (''leaseExpired'', JInt (lw_leaseExpired m)),
      (''unresolved'', JInt (lw_unresolved m))]"

definition validLogout :: "logoutDeliveryWindowMetrics \<Rightarrow> bool" where
  "validLogout m \<longleftrightarrow>
     inDomain MAX_RATIO_FIELD (lw_eligible m) \<and> inDomain MAX_EVIDENCE_VALUE (lw_leaseExpired m) \<and>
     inDomain MAX_RATIO_FIELD (lw_unresolved m) \<and> lw_unresolved m \<le> lw_eligible m"

interpretation logoutMetrics: codec jsOfLogout parseLogoutMetrics validLogout
proof
  fix m v
  show "validLogout m \<Longrightarrow> parseLogoutMetrics (jsOfLogout m) = Inr m"
    by (cases m) (auto simp: jsOfLogout_def parseLogoutMetrics_def validLogout_def codec_simps nullableInteger_eq split: option.splits)
  show "parseLogoutMetrics v = Inr m \<Longrightarrow> validLogout m"
    by (auto simp: parseLogoutMetrics_def validLogout_def metric_simps not_less
        split: if_splits option.splits)
qed

subsection \<open>Windows\<close>

definition jsOfWindows :: "('a \<Rightarrow> js) \<Rightarrow> 'a windowed \<Rightarrow> js" where
  "jsOfWindows enc w =
     JObj [(''5m'', enc (w5m w)), (''15m'', enc (w15m w)), (''60m'', enc (w60m w))]"

definition validWindows :: "('a \<Rightarrow> bool) \<Rightarrow> 'a windowed \<Rightarrow> bool" where
  "validWindows valid w \<longleftrightarrow> valid (w5m w) \<and> valid (w15m w) \<and> valid (w60m w)"

context codec
begin

lemma windows_codec: "codec (jsOfWindows enc) (parseWindows dec) (validWindows valid)"
proof
  fix w v
  show "validWindows valid w \<Longrightarrow> parseWindows dec (jsOfWindows enc w) = Inr w"
    by (cases w) (simp add: parseWindows_def jsOfWindows_def validWindows_def dec_enc ALERT_WINDOW_KEYS_def)
  show "parseWindows dec v = Inr w \<Longrightarrow> validWindows valid w"
    by (auto simp: parseWindows_def validWindows_def and_then_eq_Inr dest: dec_valid)
qed

end

interpretation countWindows: codec "jsOfWindows jsOfCount" "parseWindows parseCountMetrics"
    "validWindows validCount"
  by (rule countMetrics.windows_codec)

interpretation ratioWindows: codec "jsOfWindows jsOfRatio" "parseWindows parseRatioMetrics"
    "validWindows validRatio"
  by (rule ratioMetrics.windows_codec)

interpretation restrictedWindows: codec "jsOfWindows jsOfRestricted" "parseWindows parseRestrictedMetrics"
    "validWindows validRestricted"
  by (rule restrictedMetrics.windows_codec)

interpretation recoveryWindows: codec "jsOfWindows jsOfRecovery" "parseWindows parseRecoveryEntryMetrics"
    "validWindows validRecovery"
  by (rule recoveryMetrics.windows_codec)

interpretation oauthWindows: codec "jsOfWindows jsOfOAuth" "parseWindows parseOAuthMetrics"
    "validWindows validOAuth"
  by (rule oauthMetrics.windows_codec)

interpretation adminWindows: codec "jsOfWindows jsOfAdmin" "parseWindows parseAdminSensitiveMetrics"
    "validWindows validAdmin"
  by (rule adminMetrics.windows_codec)

interpretation logoutWindows: codec "jsOfWindows jsOfLogout" "parseWindows parseLogoutMetrics"
    "validWindows validLogout"
  by (rule logoutMetrics.windows_codec)

text \<open>The windows of a rule: valid metrics of the family of the rule, nested consistently.\<close>

fun jsOfRuleWindows :: "ruleWindows \<Rightarrow> js" where
  "jsOfRuleWindows (CountWindows w) = jsOfWindows jsOfCount w"
| "jsOfRuleWindows (RatioWindows w) = jsOfWindows jsOfRatio w"
| "jsOfRuleWindows (RestrictedWindows w) = jsOfWindows jsOfRestricted w"
| "jsOfRuleWindows (RecoveryWindows w) = jsOfWindows jsOfRecovery w"
| "jsOfRuleWindows (OAuthWindows w) = jsOfWindows jsOfOAuth w"
| "jsOfRuleWindows (AdminWindows w) = jsOfWindows jsOfAdmin w"
| "jsOfRuleWindows (LogoutWindows w) = jsOfWindows jsOfLogout w"

fun validMetrics :: "ruleWindows \<Rightarrow> bool" where
  "validMetrics (CountWindows w) = validWindows validCount w"
| "validMetrics (RatioWindows w) = validWindows validRatio w"
| "validMetrics (RestrictedWindows w) = validWindows validRestricted w"
| "validMetrics (RecoveryWindows w) = validWindows validRecovery w"
| "validMetrics (OAuthWindows w) = validWindows validOAuth w"
| "validMetrics (AdminWindows w) = validWindows validAdmin w"
| "validMetrics (LogoutWindows w) = validWindows validLogout w"

fun familyOf :: "alertRuleId \<Rightarrow> ruleWindows \<Rightarrow> bool" where
  "familyOf r (CountWindows _) =
     (r \<in> {Registration_rate_limited, Registration_denied, Registration_restricted_created,
           Admin_directory_volume})"
| "familyOf r (RatioWindows _) =
     (r \<in> {Registration_challenge_unavailable, Recovery_passkey_failure, Passkey_step_up_failure})"
| "familyOf r (RestrictedWindows _) = (r = Restricted_sensitive_denied)"
| "familyOf r (RecoveryWindows _) = (r = Recovery_entry_abuse)"
| "familyOf r (OAuthWindows _) = (r = Oauth_client_report)"
| "familyOf r (AdminWindows _) = (r = Admin_sensitive_activity)"
| "familyOf r (LogoutWindows _) = False"

definition validRuleWindows :: "alertRuleId \<Rightarrow> ruleWindows \<Rightarrow> bool" where
  "validRuleWindows r w \<longleftrightarrow> familyOf r w \<and> validMetrics w \<and> is_ok (validateNestedWindows w)"

lemmas family_codecs = countWindows.dec_enc ratioWindows.dec_enc restrictedWindows.dec_enc
  recoveryWindows.dec_enc oauthWindows.dec_enc adminWindows.dec_enc logoutWindows.dec_enc

lemmas family_valid = countWindows.dec_valid ratioWindows.dec_valid restrictedWindows.dec_valid
  recoveryWindows.dec_valid oauthWindows.dec_valid adminWindows.dec_valid logoutWindows.dec_valid

lemma is_ok_unit: "is_ok (m :: unit result) \<longleftrightarrow> m = Inr ()"
  by (cases m) simp_all

lemma parsedWindows_Inr_iff:
  "parsedWindows family p = Inr w \<longleftrightarrow>
     (\<exists>x. p = Inr x \<and> w = family x \<and> is_ok (validateNestedWindows w))"
  by (auto simp: parsedWindows_def and_then_eq_Inr is_ok_unit simp del: validateNestedWindows.simps)

lemma ruleWindows_codec: "codec jsOfRuleWindows (parseRuleWindows r) (validRuleWindows r)"
proof
  fix w v
  show "validRuleWindows r w \<Longrightarrow> parseRuleWindows r (jsOfRuleWindows w) = Inr w"
    by (cases w) (auto simp: validRuleWindows_def family_codecs parsedWindows_Inr_iff
        simp del: validateNestedWindows.simps)
  show "parseRuleWindows r v = Inr w \<Longrightarrow> validRuleWindows r w"
    by (cases r) (auto simp: validRuleWindows_def parsedWindows_Inr_iff family_valid
        simp del: validateNestedWindows.simps)
qed

subsection \<open>Queue snapshots\<close>

text \<open>
  The parser of a queue snapshot never fails on a bad binding metric: it drops all three of
  them together. So in a parsed snapshot the two backlog fields are both present or, with the
  timestamp of the oldest message, all absent.
\<close>

definition jsOfQueueSnapshot :: "queueDepthSnapshot \<Rightarrow> js" where
  "jsOfQueueSnapshot s =
     JObj [(''backlogBytes'', jsOfIntOption (qs_backlogBytes s)),
       (''backlogCount'', jsOfIntOption (qs_backlogCount s)),
       (''consecutiveNonzeroSamples'', jsOfIntOption (qs_consecutiveNonzeroSamples s)),
       (''nonzeroSinceAt'', jsOfStringOption (qs_nonzeroSinceAt s)),
       (''oldestMessageTimestamp'', jsOfStringOption (qs_oldestMessageTimestamp s)),
       (''sampledAt'', jsOfStringOption (qs_sampledAt s))]"

definition validBinding :: "queueDepthSnapshot \<Rightarrow> bool" where
  "validBinding s \<longleftrightarrow>
     (case (qs_backlogBytes s, qs_backlogCount s) of
        (Some b, Some c) \<Rightarrow> inDomain MAX_QUEUE_BACKLOG_BYTES b \<and> inDomain MAX_EVIDENCE_VALUE c
      | (None, None) \<Rightarrow> qs_oldestMessageTimestamp s = None
      | _ \<Rightarrow> False)"

definition validQueueSnapshot :: "queueDepthSnapshot \<Rightarrow> bool" where
  "validQueueSnapshot s \<longleftrightarrow>
     validBinding s \<and> pred_option (inDomain MAX_RATIO_FIELD) (qs_consecutiveNonzeroSamples s) \<and>
     pred_option canonical (qs_nonzeroSinceAt s) \<and>
     pred_option canonical (qs_oldestMessageTimestamp s) \<and> pred_option canonical (qs_sampledAt s)"

lemma queueBindingInteger_True [codec_simps]:
  "queueBindingInteger v m = (True, n) \<longleftrightarrow>
     (\<exists>k. n = Some k \<and> v = JInt k \<and> inDomain m k \<and> k \<le> MAX_SAFE_INTEGER)"
  by (auto simp: queueBindingInteger_def safeInteger_Some_iff inDomain_def split: option.splits)

lemma queueBindingInteger_built [codec_simps]:
  "m \<le> MAX_SAFE_INTEGER \<Longrightarrow> inDomain m k \<Longrightarrow> queueBindingInteger (JInt k) m = (True, Some k)"
  by (simp add: queueBindingInteger_True) (simp add: inDomain_def)

lemma queueBindingInteger_null [codec_simps]: "queueBindingInteger JNull m = (False, None)"
  by (simp add: queueBindingInteger_def)

lemma canonicalTimestamp_built [codec_simps]:
  "canonical s \<Longrightarrow> canonicalTimestamp (JStr s) name = Inr s"
  by (simp add: canonicalTimestamp_Inr_iff)

lemma queueBindingTimestamp_built [codec_simps]:
  "pred_option canonical s \<Longrightarrow> queueBindingTimestamp (jsOfStringOption s) = (True, s)"
  by (cases s) (simp_all add: queueBindingTimestamp_def codec_simps)

lemma queueBindingTimestamp_valid:
  "queueBindingTimestamp v = (ok, s) \<Longrightarrow> pred_option canonical s"
  by (auto simp: queueBindingTimestamp_def canonicalTimestamp_Inr_iff
      split: js.splits option.splits if_splits sum.splits)

lemma nullableTimestampField_built [codec_simps]:
  "pred_option canonical s \<Longrightarrow> nullableTimestampField (jsOfStringOption s) name = Inr s"
  by (cases s) (simp_all add: nullableTimestampField_def codec_simps)

lemma nullableTimestampField_valid:
  "nullableTimestampField v name = Inr s \<Longrightarrow> pred_option canonical s"
  by (auto simp: nullableTimestampField_def and_then_eq_Inr canonicalTimestamp_Inr_iff split: if_splits)

lemma queueBindingInteger_ok:
  "fst (queueBindingInteger v m) \<Longrightarrow> \<exists>k. queueBindingInteger v m = (True, Some k) \<and> inDomain m k"
  by (auto simp: queueBindingInteger_def safeInteger_Some_iff inDomain_def split: option.splits if_splits)

interpretation queueSnapshot: codec jsOfQueueSnapshot parseQueueSnapshot validQueueSnapshot
proof
  fix s v
  show "validQueueSnapshot s \<Longrightarrow> parseQueueSnapshot (jsOfQueueSnapshot s) = Inr s"
    by (cases s) (auto simp: validQueueSnapshot_def validBinding_def parseQueueSnapshot_def
        jsOfQueueSnapshot_def queueSnapshotKeys_def codec_simps split: option.splits)
  assume "parseQueueSnapshot v = Inr s"
  then obtain snap samples since sampled where
    samples: "nullableIntegerUpTo MAX_RATIO_FIELD samples ''consecutive Queue samples''
        = Inr (qs_consecutiveNonzeroSamples s)"
    and since: "nullableTimestampField since ''nonzeroSinceAt'' = Inr (qs_nonzeroSinceAt s)"
    and sampled: "nullableTimestampField sampled ''sampledAt'' = Inr (qs_sampledAt s)"
    and binding: "(let b = queueBindingInteger (field_of snap ''backlogBytes'') MAX_QUEUE_BACKLOG_BYTES;
        c = queueBindingInteger (field_of snap ''backlogCount'') MAX_EVIDENCE_VALUE;
        old = queueBindingTimestamp (field_of snap ''oldestMessageTimestamp'');
        ok = fst b \<and> fst c \<and> fst old
      in qs_backlogBytes s = (if ok then snd b else None) \<and>
         qs_backlogCount s = (if ok then snd c else None) \<and>
         qs_oldestMessageTimestamp s = (if ok then snd old else None))"
    by (simp add: parseQueueSnapshot_def and_then_eq_Inr Let_def throw_if_eq_Inr) fastforce
  have "validBinding s \<and> pred_option canonical (qs_oldestMessageTimestamp s)"
    using binding
    by (auto simp: Let_def validBinding_def dest!: queueBindingInteger_ok split: if_splits
        intro: queueBindingTimestamp_valid[OF surjective_pairing])
  then show "validQueueSnapshot s"
    using samples since sampled
    by (simp add: validQueueSnapshot_def nullableTimestampField_valid nullableIntegerUpTo_domain)
qed

subsection \<open>Observations\<close>

definition jsOfFanout :: "fanoutGapSnapshot \<Rightarrow> js" where
  "jsOfFanout s =
     JObj [(''missingOlderThan15mCount'', JInt (fg_missingOlderThan15mCount s)),
       (''missingOlderThan5mCount'', JInt (fg_missingOlderThan5mCount s))]"

definition validFanout :: "fanoutGapSnapshot \<Rightarrow> bool" where
  "validFanout s \<longleftrightarrow>
     inDomain MAX_EVIDENCE_VALUE (fg_missingOlderThan15mCount s) \<and>
     inDomain MAX_EVIDENCE_VALUE (fg_missingOlderThan5mCount s) \<and>
     fg_missingOlderThan15mCount s \<le> fg_missingOlderThan5mCount s"

definition jsOfRuntime :: "alertRuntimeSnapshot \<Rightarrow> js" where
  "jsOfRuntime s =
     JObj [(''deadOutbox'', JInt (rs_deadOutbox s)),
       (''evaluatorAgeSeconds'', jsOfIntOption (rs_evaluatorAgeSeconds s)),
       (''outboxDueAgeSeconds'', jsOfIntOption (rs_outboxDueAgeSeconds s))]"

definition validRuntime :: "alertRuntimeSnapshot \<Rightarrow> bool" where
  "validRuntime s \<longleftrightarrow>
     inDomain MAX_EVIDENCE_VALUE (rs_deadOutbox s) \<and>
     pred_option (inDomain MAX_EVIDENCE_VALUE) (rs_evaluatorAgeSeconds s) \<and>
     pred_option (inDomain MAX_EVIDENCE_VALUE) (rs_outboxDueAgeSeconds s)"

definition observationFields :: "alertRuleObservation \<Rightarrow> js_record" where
  "observationFields obs =
     [(''asOf'', JStr (obs_asOf obs)), (''dimension'', jsOfDimension (obs_dimension obs)),
      (''ruleId'', JStr (ruleIdString (obs_ruleId obs)))]"

fun jsOfBody :: "observationBody \<Rightarrow> js_record" where
  "jsOfBody (WindowsBody w) = [(''windows'', jsOfRuleWindows w)]"
| "jsOfBody (LogoutBody current w) =
     [(''current'', jsOfLogoutCurrent current), (''windows'', jsOfWindows jsOfLogout w)]"
| "jsOfBody (FanoutBody s) = [(''snapshot'', jsOfFanout s)]"
| "jsOfBody (RuntimeBody s) = [(''snapshot'', jsOfRuntime s)]"
| "jsOfBody (QueueBody s) = [(''snapshot'', jsOfQueueSnapshot s)]"

definition jsOfObservation :: "alertRuleObservation \<Rightarrow> js" where
  "jsOfObservation obs = JObj (observationFields obs @ jsOfBody (obs_body obs))"

fun validBody :: "alertRuleId \<Rightarrow> observationBody \<Rightarrow> bool" where
  "validBody r (WindowsBody w) = validRuleWindows r w"
| "validBody r (LogoutBody current w) =
     (r = Logout_delivery_health \<and> validLogoutCurrent current \<and> validWindows validLogout w \<and>
      is_ok (validateNestedWindows (LogoutWindows w)))"
| "validBody r (FanoutBody s) = (r = Security_fanout_gap \<and> validFanout s)"
| "validBody r (RuntimeBody s) = (r = Alert_runtime_health \<and> validRuntime s)"
| "validBody r (QueueBody s) = (r = Queue_dlq_approximate \<and> validQueueSnapshot s)"

definition validObservation :: "alertRuleObservation \<Rightarrow> bool" where
  "validObservation obs \<longleftrightarrow>
     canonical (obs_asOf obs) \<and>
     validDimension (ruleDimensions (ALERT_RULE_DEFINITIONS (obs_ruleId obs))) (obs_dimension obs) \<and>
     validBody (obs_ruleId obs) (obs_body obs)"

definition windowedRule :: "alertRuleId \<Rightarrow> bool" where
  "windowedRule r \<longleftrightarrow>
     r \<notin> {Security_fanout_gap, Alert_runtime_health, Queue_dlq_approximate, Logout_delivery_health}"

lemma observationBase_Inr_iff:
  "observationBase r rule = Inr (asOf, d) \<longleftrightarrow>
     field_of r ''asOf'' = JStr asOf \<and> canonical asOf \<and>
     parseAlertDimension (field_of r ''dimension'') (ruleDimensions (ALERT_RULE_DEFINITIONS rule)) = Inr d"
  by (auto simp: observationBase_def and_then_eq_Inr canonicalTimestamp_Inr_iff)

lemma observationBase_built:
  assumes "validObservation obs" and "field_of r ''asOf'' = JStr (obs_asOf obs)"
    and "field_of r ''dimension'' = jsOfDimension (obs_dimension obs)"
  shows "observationBase r (obs_ruleId obs) = Inr (obs_asOf obs, obs_dimension obs)"
  using assms codec.dec_enc[OF dimension_codec]
  by (simp add: observationBase_Inr_iff validObservation_def)

lemmas observation_dec_simps = and_then_eq_Inr throw_if_eq_Inr observationBase_Inr_iff
  not_less validObservation_def

lemmas dimension_valid = codec.dec_valid[OF dimension_codec]

lemma fanout_dec:
  "parseFanoutObservation v = Inr obs \<Longrightarrow> validObservation obs \<and> obs_ruleId obs = Security_fanout_gap"
  by (auto simp: parseFanoutObservation_def observation_dec_simps validFanout_def integerUpTo_domain
      dest!: dimension_valid)

lemma runtime_dec:
  "parseRuntimeObservation v = Inr obs \<Longrightarrow> validObservation obs \<and> obs_ruleId obs = Alert_runtime_health"
  by (auto simp: parseRuntimeObservation_def observation_dec_simps validRuntime_def metric_simps
      dest!: dimension_valid)

lemma queue_dec:
  "parseQueueObservation v = Inr obs \<Longrightarrow> validObservation obs \<and> obs_ruleId obs = Queue_dlq_approximate"
  by (auto simp: parseQueueObservation_def observation_dec_simps queueSnapshot.dec_valid
      dest!: dimension_valid)

lemma logout_dec:
  "parseLogoutObservation v = Inr obs \<Longrightarrow> validObservation obs \<and> obs_ruleId obs = Logout_delivery_health"
  by (auto simp: parseLogoutObservation_def observation_dec_simps logoutCurrent.dec_valid
      logoutWindows.dec_valid is_ok_unit simp del: validateNestedWindows.simps dest!: dimension_valid)

lemma windowed_dec:
  "parseWindowedObservation r v = Inr obs \<Longrightarrow> validObservation obs \<and> obs_ruleId obs = r"
  by (auto simp: parseWindowedObservation_def observation_dec_simps
      codec.dec_valid[OF ruleWindows_codec] dest!: dimension_valid)

lemmas built_simps = jsOfObservation_def observationFields_def codec_simps nullableInteger_eq

text \<open>The body a valid observation has is the one of its rule.\<close>

lemma familyOf_windowed: "familyOf r w \<Longrightarrow> windowedRule r"
  by (cases w) (auto simp: windowedRule_def)

lemma validBody_cases:
  assumes "validBody r b"
  obtains (windows) w where "b = WindowsBody w" "windowedRule r" "validRuleWindows r w"
  | (logout) c w where "b = LogoutBody c w" "r = Logout_delivery_health"
  | (fanout) s where "b = FanoutBody s" "r = Security_fanout_gap"
  | (runtime) s where "b = RuntimeBody s" "r = Alert_runtime_health"
  | (queue) s where "b = QueueBody s" "r = Queue_dlq_approximate"
  using assms by (cases b) (auto simp: validRuleWindows_def dest: familyOf_windowed)

lemma rule_dimension_kinds:
  assumes "validObservation obs"
  shows "obs_ruleId obs \<in> {Security_fanout_gap, Alert_runtime_health} \<Longrightarrow> kindOf (obs_dimension obs) = KGlobal"
    and "obs_ruleId obs = Queue_dlq_approximate \<Longrightarrow> kindOf (obs_dimension obs) = KQueue"
    and "obs_ruleId obs = Logout_delivery_health \<Longrightarrow>
      kindOf (obs_dimension obs) = KGlobal \<or> kindOf (obs_dimension obs) = KHashed Client_hmac"
  using assms by (auto simp: validObservation_def rule_defs)

lemma fanout_built:
  assumes valid: "validObservation obs" and body: "obs_body obs = FanoutBody s"
  shows "parseFanoutObservation (jsOfObservation obs) = Inr obs"
proof -
  have rule: "obs_ruleId obs = Security_fanout_gap" and s: "validFanout s"
    using valid body by (auto simp: validObservation_def)
  show ?thesis
    using rule_dimension_kinds(1)[OF valid] s rule body
    by (auto simp: parseFanoutObservation_def jsOfFanout_def validFanout_def observationBase_built[OF valid, unfolded rule]
        built_simps)
qed

lemma runtime_built:
  assumes valid: "validObservation obs" and body: "obs_body obs = RuntimeBody s"
  shows "parseRuntimeObservation (jsOfObservation obs) = Inr obs"
proof -
  have rule: "obs_ruleId obs = Alert_runtime_health" and s: "validRuntime s"
    using valid body by (auto simp: validObservation_def)
  show ?thesis
    using rule_dimension_kinds(1)[OF valid] s rule body
    by (auto simp: parseRuntimeObservation_def jsOfRuntime_def validRuntime_def observationBase_built[OF valid, unfolded rule]
        built_simps)
qed

lemma queue_built:
  assumes valid: "validObservation obs" and body: "obs_body obs = QueueBody s"
  shows "parseQueueObservation (jsOfObservation obs) = Inr obs"
proof -
  have rule: "obs_ruleId obs = Queue_dlq_approximate" and s: "validQueueSnapshot s"
    using valid body by (auto simp: validObservation_def)
  show ?thesis
    using rule_dimension_kinds(2)[OF valid] s rule body
    by (auto simp: parseQueueObservation_def queueSnapshot.dec_enc observationBase_built[OF valid, unfolded rule]
        built_simps)
qed

lemma exactRecord_permuted:
  "length r = length keys \<Longrightarrow> set keys \<subseteq> set (map fst r) \<Longrightarrow> exactRecord (JObj r) keys name = Inr r"
  by (simp add: exactRecord_Inr_iff)

lemma logout_built:
  assumes valid: "validObservation obs" and body: "obs_body obs = LogoutBody c w"
  shows "parseLogoutObservation (jsOfObservation obs) = Inr obs"
proof -
  have rule: "obs_ruleId obs = Logout_delivery_health" and c: "validLogoutCurrent c"
    and w: "validWindows validLogout w" and nested: "validateNestedWindows (LogoutWindows w) = Inr ()"
    using valid body by (simp_all add: validObservation_def is_ok_unit del: validateNestedWindows.simps)
  show ?thesis
    using rule_dimension_kinds(3)[OF valid] c w nested rule body
    by (auto simp: parseLogoutObservation_def exactRecord_permuted logoutCurrent.dec_enc logoutWindows.dec_enc
        observationBase_built[OF valid, unfolded rule] built_simps simp del: validateNestedWindows.simps)
qed

lemma windowed_built:
  assumes valid: "validObservation obs" and body: "obs_body obs = WindowsBody w"
  shows "parseWindowedObservation (obs_ruleId obs) (jsOfObservation obs) = Inr obs"
proof -
  have "validRuleWindows (obs_ruleId obs) w"
    using valid body by (simp add: validObservation_def)
  then show ?thesis
    using observationBase_built[OF valid] body codec.dec_enc[OF ruleWindows_codec]
    by (simp add: parseWindowedObservation_def built_simps)
qed

lemma parseAlertObservation_built:
  assumes "obs_ruleId obs = r"
  shows "parseAlertObservation (jsOfObservation obs) =
     (case r of
         Security_fanout_gap \<Rightarrow> parseFanoutObservation (jsOfObservation obs)
       | Alert_runtime_health \<Rightarrow> parseRuntimeObservation (jsOfObservation obs)
       | Queue_dlq_approximate \<Rightarrow> parseQueueObservation (jsOfObservation obs)
       | Logout_delivery_health \<Rightarrow> parseLogoutObservation (jsOfObservation obs)
       | _ \<Rightarrow> parseWindowedObservation r (jsOfObservation obs))"
proof -
  have "recordValue (jsOfObservation obs) ''alert observation''
      = Inr (observationFields obs @ jsOfBody (obs_body obs))"
    by (simp add: jsOfObservation_def)
  moreover have "field_of (observationFields obs @ jsOfBody (obs_body obs)) ''ruleId''
      = JStr (ruleIdString r)"
    using assms by (simp add: observationFields_def)
  ultimately show ?thesis
    by (simp add: parseAlertObservation_def codec_simps)
qed

lemma parseAlertObservation_enc:
  assumes valid: "validObservation obs"
  shows "parseAlertObservation (jsOfObservation obs) = Inr obs"
proof -
  have "validBody (obs_ruleId obs) (obs_body obs)"
    using valid by (simp add: validObservation_def)
  then show ?thesis
  proof (cases rule: validBody_cases)
    case (windows w)
    then show ?thesis
      using windowed_built[OF valid windows(1)]
      by (cases "obs_ruleId obs") (simp_all add: parseAlertObservation_built windowedRule_def)
  qed (simp_all add: parseAlertObservation_built fanout_built[OF valid] queue_built[OF valid]
      runtime_built[OF valid] logout_built[OF valid])
qed

lemma parseAlertObservation_valid:
  "parseAlertObservation v = Inr obs \<Longrightarrow> validObservation obs"
  unfolding parseAlertObservation_def and_then_eq_Inr
  by (elim exE conjE, split alertRuleId.splits(2))
    (auto dest: fanout_dec runtime_dec queue_dec logout_dec windowed_dec)

interpretation observation: codec jsOfObservation parseAlertObservation validObservation
  by unfold_locales (rule parseAlertObservation_enc parseAlertObservation_valid; assumption)+

end
