(* ===== verification/Alert_Kleene.thy ===== *)
theory Alert_Kleene
  imports Alert_Evaluation Alert_Observation_Codec
begin

section \<open>What evaluating a rule means\<close>

text \<open>
  A specification of the evaluator that mentions neither evidence nor loops: a threshold
  expression over partly known metrics has one of the three values of Kleene's strong logic.
  \<open>evaluateExpression\<close> computes that value, and the evaluation of a rule is determined by
  the values of its thresholds.
\<close>

subsection \<open>Strong Kleene values\<close>

definition kleeneAnd :: "bool option list \<Rightarrow> bool option" where
  "kleeneAnd vs = (if Some False \<in> set vs then Some False
     else if None \<in> set vs then None else Some True)"

definition kleeneOr :: "bool option list \<Rightarrow> bool option" where
  "kleeneOr vs = (if Some True \<in> set vs then Some True
     else if None \<in> set vs then None else Some False)"

definition ratioBreached :: "int \<Rightarrow> int \<Rightarrow> int \<Rightarrow> int \<Rightarrow> int \<Rightarrow> bool" where
  "ratioBreached basisPoints minDenominator minNumerator numerator denominator \<longleftrightarrow>
     minNumerator \<le> numerator \<and> minDenominator \<le> denominator \<and> denominator \<noteq> 0 \<and>
     denominator * basisPoints \<le> numerator * 10000"

fun kleeneValue :: "thresholdExpression \<Rightarrow> metricBag \<Rightarrow> bool option" where
  "kleeneValue (Gte metric value) m = map_option (\<lambda>observed. value \<le> observed) (m metric)"
| "kleeneValue (Ratio_gte bp minD minN) m =
     (case (m Numerator, m Denominator) of
        (Some n, Some d) \<Rightarrow> Some (ratioBreached bp minD minN n d)
      | _ \<Rightarrow> None)"
| "kleeneValue (All es) m = kleeneAnd (map (\<lambda>e. kleeneValue e m) es)"
| "kleeneValue (Any es) m = kleeneOr (map (\<lambda>e. kleeneValue e m) es)"

fun verdict :: "expressionEvaluation \<Rightarrow> bool option" where
  "verdict (Breached _) = Some True"
| "verdict Clear = Some False"
| "verdict UnknownResult = None"

lemma verdict_iffs [simp]:
  "verdict r = Some True \<longleftrightarrow> (\<exists>cs. r = Breached cs)"
  "verdict r = Some False \<longleftrightarrow> r = Clear"
  "verdict r = None \<longleftrightarrow> r = UnknownResult"
  by (cases r; simp)+

lemma kleeneAnd_Cons:
  "kleeneAnd (v # vs) =
     (case v of Some False \<Rightarrow> Some False
      | Some True \<Rightarrow> kleeneAnd vs
      | None \<Rightarrow> (if kleeneAnd vs = Some False then Some False else None))"
  by (auto simp: kleeneAnd_def split: option.splits bool.splits)

lemma kleeneOr_Cons:
  "kleeneOr (v # vs) =
     (case v of Some True \<Rightarrow> Some True
      | Some False \<Rightarrow> kleeneOr vs
      | None \<Rightarrow> (if kleeneOr vs = Some True then Some True else None))"
  by (auto simp: kleeneOr_def split: option.splits bool.splits)

subsection \<open>The evaluator computes the Kleene value\<close>

lemma verdict_evaluateGte: "verdict (evaluateGte metric value m) = kleeneValue (Gte metric value) m"
  by (auto simp: evaluateGte_def split: option.splits)

lemma verdict_evaluateRatio:
  "verdict (evaluateRatio bp minD minN m) = kleeneValue (Ratio_gte bp minD minN) m"
  by (auto simp: evaluateRatio_def ratioBreached_def split: option.splits)

text \<open>
  The two clause loops, for clauses whose own evaluation is known to agree. \<open>unknown\<close> records
  that an undecided clause was met.
\<close>

definition pending :: "bool \<Rightarrow> bool option list" where
  "pending unknown = (if unknown then [None] else [])"

lemma kleeneAnd_pending:
  "kleeneAnd (pending u @ vs) = (if u \<and> kleeneAnd vs \<noteq> Some False then None else kleeneAnd vs)"
  by (auto simp: pending_def kleeneAnd_Cons)

lemma kleeneOr_pending:
  "kleeneOr (pending u @ vs) = (if u \<and> kleeneOr vs \<noteq> Some True then None else kleeneOr vs)"
  by (auto simp: pending_def kleeneOr_Cons)

lemma evaluateAll_verdict:
  assumes "\<And>e r. e \<in> set es \<Longrightarrow> evaluateExpression e m = Inr r \<Longrightarrow> verdict r = kleeneValue e m"
    and "evaluateAll es m cs u = Inr r"
  shows "verdict r = kleeneAnd (pending u @ map (\<lambda>e. kleeneValue e m) es)"
  using assms
proof (induction es arbitrary: cs u)
  case Nil
  then show ?case
    by (auto simp: kleeneAnd_def pending_def split: if_splits)
next
  case (Cons e es)
  then obtain x where x: "evaluateExpression e m = Inr x"
    and rest: "(case x of Clear \<Rightarrow> Inr Clear
         | UnknownResult \<Rightarrow> evaluateAll es m cs True
         | Breached cs' \<Rightarrow> evaluateAll es m (cs @ cs') u) = Inr r"
    by (auto simp: and_then_eq_Inr)
  have "kleeneValue e m = verdict x"
    using Cons.prems(1)[OF _ x] by simp
  then show ?case
    using rest Cons.IH[OF Cons.prems(1)]
    by (cases x) (auto simp: kleeneAnd_Cons kleeneAnd_pending split: if_splits)
qed

lemma evaluateAny_verdict:
  assumes "\<And>e r. e \<in> set es \<Longrightarrow> evaluateExpression e m = Inr r \<Longrightarrow> verdict r = kleeneValue e m"
    and "evaluateAny es m u = Inr r"
  shows "verdict r = kleeneOr (pending u @ map (\<lambda>e. kleeneValue e m) es)"
  using assms
proof (induction es arbitrary: u)
  case Nil
  then show ?case
    by (auto simp: kleeneOr_def pending_def split: if_splits)
next
  case (Cons e es)
  then obtain x where x: "evaluateExpression e m = Inr x"
    and rest: "(case x of Breached cs \<Rightarrow> Inr (Breached cs)
         | UnknownResult \<Rightarrow> evaluateAny es m True
         | Clear \<Rightarrow> evaluateAny es m u) = Inr r"
    by (auto simp: and_then_eq_Inr)
  have "kleeneValue e m = verdict x"
    using Cons.prems(1)[OF _ x] by simp
  then show ?case
    using rest Cons.IH[OF Cons.prems(1)]
    by (cases x) (auto simp: kleeneOr_Cons kleeneOr_pending split: if_splits)
qed

lemma evaluateExpression_verdict:
  "evaluateExpression e m = Inr r \<Longrightarrow> verdict r = kleeneValue e m"
proof (induction e arbitrary: r)
  case (All es)
  then show ?case
    using evaluateAll_verdict[of es m "[]" False r] by (simp add: pending_def)
next
  case (Any es)
  then show ?case
    using evaluateAny_verdict[of es m False r] by (simp add: pending_def)
qed (auto simp: verdict_evaluateGte verdict_evaluateRatio simp del: kleeneValue.simps)

subsection \<open>No expression of the table has evidence of more than two components\<close>

fun maxComponents :: "thresholdExpression \<Rightarrow> nat" where
  "maxComponents (Gte _ _) = 1"
| "maxComponents (Ratio_gte _ _ _) = 1"
| "maxComponents (All es) = sum_list (map maxComponents es)"
| "maxComponents (Any es) = foldr max (map maxComponents es) 0"

fun smallClauses :: "thresholdExpression \<Rightarrow> bool" where
  "smallClauses (All es) = (sum_list (map maxComponents es) \<le> 2 \<and> list_all smallClauses es)"
| "smallClauses (Any es) = list_all smallClauses es"
| "smallClauses _ = True"

lemma foldr_max_ge: "(x :: nat) \<in> set xs \<Longrightarrow> x \<le> foldr max xs y"
  by (induction xs) (auto simp: le_max_iff_disj)

lemma evaluateAll_length:
  assumes "\<And>e cs. e \<in> set es \<Longrightarrow> evaluateExpression e m = Inr (Breached cs) \<Longrightarrow> length cs \<le> maxComponents e"
    and "evaluateAll es m acc u = Inr (Breached cs)"
  shows "length cs \<le> length acc + sum_list (map maxComponents es)"
  using assms
proof (induction es arbitrary: acc u)
  case (Cons e es)
  then obtain x where x: "evaluateExpression e m = Inr x"
    and rest: "(case x of Clear \<Rightarrow> Inr Clear
         | UnknownResult \<Rightarrow> evaluateAll es m acc True
         | Breached cs' \<Rightarrow> evaluateAll es m (acc @ cs') u) = Inr (Breached cs)"
    by (auto simp: and_then_eq_Inr)
  show ?case
  proof (cases x)
    case (Breached cs')
    then show ?thesis
      using Cons.IH[of "acc @ cs'" u] Cons.prems(1)[of e cs'] Cons.prems(1) rest x by fastforce
  next
    case UnknownResult
    then show ?thesis
      using Cons.IH[of acc True] Cons.prems(1) rest by fastforce
  qed (use rest in simp)
qed (auto split: if_splits)

lemma evaluateAll_unknown: "evaluateAll es m acc True \<noteq> Inr (Breached cs)"
proof (induction es arbitrary: acc)
  case (Cons e es)
  show ?case
  proof (cases "evaluateExpression e m")
    case (Inr x)
    then show ?thesis
      using Cons.IH by (cases x) simp_all
  qed simp
qed simp

lemma evaluateAny_Breached:
  "evaluateAny es m u = Inr (Breached cs) \<Longrightarrow> \<exists>e \<in> set es. evaluateExpression e m = Inr (Breached cs)"
proof (induction es arbitrary: u)
  case (Cons e es)
  then obtain x where "evaluateExpression e m = Inr x"
    and "(case x of Breached cs \<Rightarrow> Inr (Breached cs)
         | UnknownResult \<Rightarrow> evaluateAny es m True
         | Clear \<Rightarrow> evaluateAny es m u) = Inr (Breached cs)"
    by (auto simp: and_then_eq_Inr)
  then show ?case
    using Cons.IH by (cases x) auto
qed (simp split: if_splits)

lemma Breached_length:
  "evaluateExpression e m = Inr (Breached cs) \<Longrightarrow> length cs \<le> maxComponents e"
proof (induction e arbitrary: cs)
  case (All es)
  then show ?case
    using evaluateAll_length[of es m "[]" False cs] by simp
next
  case (Any es)
  then obtain e where "e \<in> set es" "evaluateExpression e m = Inr (Breached cs)"
    using evaluateAny_Breached[of es m False cs] by auto
  moreover from this have "maxComponents e \<le> foldr max (map maxComponents es) 0"
    by (intro foldr_max_ge) simp
  ultimately show ?case
    using Any.IH[of e cs] by simp
qed (auto simp: evaluateGte_def evaluateRatio_def split: option.splits if_splits)

lemma evaluateAll_ok:
  assumes "\<And>e. e \<in> set es \<Longrightarrow> is_ok (evaluateExpression e m)"
    and "length acc + sum_list (map maxComponents es) \<le> 2"
  shows "is_ok (evaluateAll es m acc u)"
  using assms
proof (induction es arbitrary: acc u)
  case (Cons e es)
  obtain x where x: "evaluateExpression e m = Inr x"
    using Cons.prems(1)[of e] by (auto elim: is_okE)
  show ?case
  proof (cases x)
    case (Breached cs)
    then show ?thesis
      using Cons.IH[of "acc @ cs" u] Cons.prems Breached_length[of e m cs] x by simp
  next
    case UnknownResult
    then show ?thesis
      using Cons.IH[of acc True] Cons.prems x by simp
  qed (simp add: x)
qed simp

lemma evaluateAny_ok:
  "(\<And>e. e \<in> set es \<Longrightarrow> is_ok (evaluateExpression e m)) \<Longrightarrow> is_ok (evaluateAny es m u)"
proof (induction es arbitrary: u)
  case (Cons e es)
  obtain x where "evaluateExpression e m = Inr x"
    using Cons.prems[of e] by (auto elim: is_okE)
  then show ?case
    using Cons.IH Cons.prems by (cases x) simp_all
qed simp

lemma evaluateExpression_ok: "smallClauses e \<Longrightarrow> is_ok (evaluateExpression e m)"
  by (induction e) (auto simp: list_all_iff intro: evaluateAll_ok evaluateAny_ok)

subsection \<open>Learning more never overturns a verdict\<close>

lemma kleeneAnd_mono:
  assumes "list_all2 (\<lambda>v v'. v = None \<or> v = v') vs vs'" and "kleeneAnd vs = Some b"
  shows "kleeneAnd vs' = Some b"
  using assms
  by (induction vs vs' arbitrary: b rule: list_all2_induct)
    (auto simp: kleeneAnd_Cons split: option.splits bool.splits if_splits)

lemma kleeneOr_mono:
  assumes "list_all2 (\<lambda>v v'. v = None \<or> v = v') vs vs'" and "kleeneOr vs = Some b"
  shows "kleeneOr vs' = Some b"
  using assms
  by (induction vs vs' arbitrary: b rule: list_all2_induct)
    (auto simp: kleeneOr_Cons split: option.splits bool.splits if_splits)

lemma kleeneValue_mono:
  assumes "m \<subseteq>\<^sub>m m'" and "kleeneValue e m = Some b"
  shows "kleeneValue e m' = Some b"
  using assms(2)
proof (induction e arbitrary: b)
  case (All es)
  have "list_all2 (\<lambda>v v'. v = None \<or> v = v')
      (map (\<lambda>e. kleeneValue e m) es) (map (\<lambda>e. kleeneValue e m') es)"
    unfolding list_all2_map1 list_all2_map2
    by (rule list.rel_refl_strong) (metis All.IH option.exhaust)
  with All.prems show ?case
    by (auto intro: kleeneAnd_mono)
next
  case (Any es)
  have "list_all2 (\<lambda>v v'. v = None \<or> v = v')
      (map (\<lambda>e. kleeneValue e m) es) (map (\<lambda>e. kleeneValue e m') es)"
    unfolding list_all2_map1 list_all2_map2
    by (rule list.rel_refl_strong) (metis Any.IH option.exhaust)
  with Any.prems show ?case
    by (auto intro: kleeneOr_mono)
qed (use assms(1) in \<open>auto simp: map_le_def dom_def split: option.splits\<close>)

subsection \<open>The evaluation of a rule\<close>

definition thresholdValue ::
  "alertRuleId \<Rightarrow> metricBag windowed \<Rightarrow> activeSeverity \<Rightarrow> alertWindowKey \<Rightarrow> bool option" where
  "thresholdValue r bags s w =
     (case ruleThreshold r w s of None \<Rightarrow> Some False | Some e \<Rightarrow> kleeneValue e (atWindow bags w))"

definition breachedWindows ::
  "alertRuleId \<Rightarrow> metricBag windowed \<Rightarrow> activeSeverity \<Rightarrow> alertWindowKey list" where
  "breachedWindows r bags s = filter (\<lambda>w. thresholdValue r bags s w = Some True) ALERT_WINDOW_KEYS"

definition undecided :: "alertRuleId \<Rightarrow> metricBag windowed \<Rightarrow> activeSeverity \<Rightarrow> bool" where
  "undecided r bags s \<longleftrightarrow> list_ex (\<lambda>w. thresholdValue r bags s w = None) ALERT_WINDOW_KEYS"

definition specSeverity :: "alertRuleId \<Rightarrow> metricBag windowed \<Rightarrow> alertSeverity" where
  "specSeverity r bags =
     (if breachedWindows r bags Critical \<noteq> [] then Some Critical
      else if breachedWindows r bags Warning \<noteq> [] then Some Warning else None)"

definition specEvidence :: "alertRuleId \<Rightarrow> metricBag windowed \<Rightarrow> alertEvidenceStatus" where
  "specEvidence r bags =
     (if specSeverity r bags = None \<and> (undecided r bags Critical \<or> undecided r bags Warning)
      then Unknown else Known)"

definition specWindows :: "alertRuleId \<Rightarrow> metricBag windowed \<Rightarrow> alertWindowKey list" where
  "specWindows r bags =
     (case specSeverity r bags of None \<Rightarrow> [] | Some s \<Rightarrow> breachedWindows r bags s)"

definition observationBags :: "alertRuleObservation \<Rightarrow> metricBag windowed" where
  "observationBags obs = metricsForObservation (obs_body obs) (queueSnapshotOf obs)"

lemma windowThresholdLoop_spec:
  assumes "windowThresholdLoop (ALERT_RULE_DEFINITIONS r) bags s ws matches u = Inr (matches', u')"
  shows "map snd matches' = map snd matches @ filter (\<lambda>w. thresholdValue r bags s w = Some True) ws \<and>
    (u' \<longleftrightarrow> u \<or> (\<exists>w \<in> set ws. thresholdValue r bags s w = None)) \<and>
    (\<forall>(cs, w) \<in> set matches'. (cs, w) \<in> set matches \<or>
       (\<exists>e. ruleThreshold r w s = Some e \<and> evaluateExpression e (atWindow bags w) = Inr (Breached cs)))"
  using assms
proof (induction ws arbitrary: matches u)
  case (Cons w ws)
  show ?case
  proof (cases "ruleThreshold r w s")
    case None
    then show ?thesis
      using Cons.IH[of matches u] Cons.prems
      by (simp add: thresholdValue_def ruleThreshold_def)
  next
    case (Some e)
    then obtain x where x: "evaluateExpression e (atWindow bags w) = Inr x"
      and rest: "(case x of
          Breached cs \<Rightarrow> windowThresholdLoop (ALERT_RULE_DEFINITIONS r) bags s ws (matches @ [(cs, w)]) u
        | UnknownResult \<Rightarrow> windowThresholdLoop (ALERT_RULE_DEFINITIONS r) bags s ws matches True
        | Clear \<Rightarrow> windowThresholdLoop (ALERT_RULE_DEFINITIONS r) bags s ws matches u) = Inr (matches', u')"
      using Cons.prems by (auto simp: ruleThreshold_def and_then_eq_Inr)
    have v: "thresholdValue r bags s w = verdict x"
      using evaluateExpression_verdict[OF x] Some by (simp add: thresholdValue_def)
    show ?thesis
    proof (cases x)
      case (Breached cs)
      then show ?thesis
        using v rest Some x Cons.IH[of "matches @ [(cs, w)]" u] by auto
    next
      case Clear
      then show ?thesis
        using v rest Cons.IH[of matches u] by simp
    next
      case UnknownResult
      then show ?thesis
        using v rest Cons.IH[of matches True] by simp
    qed
  qed
qed auto

lemma evaluateWindowThresholds_spec:
  assumes "evaluateWindowThresholds (ALERT_RULE_DEFINITIONS r) bags s = Inr (matches, u)"
  shows "map snd matches = breachedWindows r bags s"
    and "u = undecided r bags s"
    and "(cs, w) \<in> set matches \<Longrightarrow>
      \<exists>e. ruleThreshold r w s = Some e \<and> evaluateExpression e (atWindow bags w) = Inr (Breached cs)"
  using windowThresholdLoop_spec[OF assms[unfolded evaluateWindowThresholds_def]]
  by (auto simp: breachedWindows_def undecided_def list_ex_iff ALERT_EVIDENCE_WINDOW_ORDER_def)

lemma table_smallClauses:
  "ruleThreshold r w s = Some e \<Longrightarrow> smallClauses e \<and> maxComponents e \<le> 2"
  unfolding ruleThreshold_def
  by (cases r; cases w; cases s) (auto simp: rule_defs rule_simps)

lemma windowThresholdLoop_ok:
  "is_ok (windowThresholdLoop (ALERT_RULE_DEFINITIONS r) bags s ws matches u)"
proof (induction ws arbitrary: matches u)
  case (Cons w ws)
  show ?case
  proof (cases "ruleThreshold r w s")
    case (Some e)
    then obtain x where "evaluateExpression e (atWindow bags w) = Inr x"
      using table_smallClauses evaluateExpression_ok by (meson is_okE)
    then show ?thesis
      using Some Cons.IH by (cases x) (simp_all add: ruleThreshold_def)
  qed (simp add: ruleThreshold_def Cons.IH)
qed simp

lemma evaluateWindowThresholds_ok:
  obtains matches u where
    "evaluateWindowThresholds (ALERT_RULE_DEFINITIONS r) bags s = Inr (matches, u)"
  using windowThresholdLoop_ok[of r bags s ALERT_EVIDENCE_WINDOW_ORDER "[]" False]
  by (auto simp: evaluateWindowThresholds_def elim: is_okE)

end
