(* ===== verification/Alert_Evidence.thy ===== *)
theory Alert_Evidence
  imports Alert_Evaluation Alert_Observation_Codec
begin

section \<open>Selected evidence and its contract with the rule table\<close>

text \<open>
  The parsers of stored evidence in \<^verbatim>\<open>apps/sso/worker/alert-rules.ts\<close>:
  \<open>parseMetricEvidence\<close>, \<open>parseAlertSelectedEvidence\<close> and
  \<open>parseAlertSelectedEvidenceForRule\<close>, which accepts evidence only when the expression of the
  rule, the window and the severity it names could have produced it. The theory proves that
  the evaluator only selects evidence this last parser accepts.
\<close>

subsection \<open>Parsing evidence\<close>

fun kindString :: "evidenceMetricKind \<Rightarrow> string" where
  "kindString AgeSeconds = ''age_seconds''"
| "kindString Boolean = ''boolean''"
| "kindString Consecutive = ''consecutive''"
| "kindString CountKind = ''count''"
| "kindString Ratio = ''ratio''"

fun unitString :: "evidenceUnit \<Rightarrow> string" where
  "unitString BasisPoints = ''basis_points''"
| "unitString Events = ''events''"
| "unitString Samples = ''samples''"
| "unitString Seconds = ''seconds''"
| "unitString State = ''state''"

fun severityString :: "activeSeverity \<Rightarrow> string" where
  "severityString Warning = ''warning''"
| "severityString Critical = ''critical''"

definition metricDomain :: "alertMetricName \<Rightarrow> evidenceMetricKind \<times> evidenceUnit" where
  "metricDomain metricName =
     (if metricName = M_ratio then (Ratio, BasisPoints)
      else if metricName \<in> {M_evaluator_age_seconds, M_oldest_unresolved_age_seconds,
          M_outbox_due_age_seconds} then (AgeSeconds, Seconds)
      else if metricName = M_consecutive_nonzero_samples then (Consecutive, Samples)
      else if metricName = M_evaluator_missing then (Boolean, State)
      else (CountKind, Events))"

definition metricNameOf :: "js \<Rightarrow> alertMetricName option" where
  "metricNameOf v =
     (case v of JStr s \<Rightarrow> find (\<lambda>m. metricNameString m = s) ALERT_METRIC_NAMES | _ \<Rightarrow> None)"

definition metricEvidenceKeys :: "string list" where
  "metricEvidenceKeys =
     [''kind'', ''metricName'', ''minimumNumeratorCount'', ''minimumSampleCount'',
      ''observedDenominator'', ''observedNumerator'', ''observedValue'', ''threshold'', ''unit'']"

definition ratioInconsistent :: "int \<Rightarrow> int \<Rightarrow> int \<Rightarrow> int \<Rightarrow> int \<Rightarrow> int \<Rightarrow> bool" where
  "ratioInconsistent numerator denominator minSample minNumerator observed threshold \<longleftrightarrow>
     denominator < 1 \<or> minNumerator < 1 \<or> numerator > denominator \<or> denominator < minSample \<or>
     numerator < minNumerator \<or> observed \<noteq> numerator * 10000 div denominator \<or> threshold > 10000"

definition parseRatioEvidence ::
  "js_record \<Rightarrow> string \<Rightarrow> int \<Rightarrow> int \<Rightarrow> alertMetricEvidence result" where
  "parseRatioEvidence record name observedValue threshold =
     and_then (integerUpTo MAX_RATIO_FIELD (field_of record ''observedNumerator'')
       (name @ '' observed numerator'')) (\<lambda>numerator.
     and_then (integerUpTo MAX_RATIO_FIELD (field_of record ''observedDenominator'')
       (name @ '' observed denominator'')) (\<lambda>denominator.
     and_then (integerUpTo MAX_RATIO_FIELD (field_of record ''minimumSampleCount'')
       (name @ '' minimum sample count'')) (\<lambda>minSample.
     and_then (integerUpTo MAX_RATIO_FIELD (field_of record ''minimumNumeratorCount'')
       (name @ '' minimum numerator count'')) (\<lambda>minNumerator.
       if ratioInconsistent numerator denominator minSample minNumerator observedValue threshold
       then Inl (Error (name @ '' ratio evidence is inconsistent''))
       else Inr \<lparr>ev_kind = Ratio, ev_metricName = M_ratio,
              ev_minimumNumeratorCount = Some minNumerator, ev_minimumSampleCount = minSample,
              ev_observedDenominator = Some denominator, ev_observedNumerator = Some numerator,
              ev_observedValue = observedValue, ev_threshold = threshold,
              ev_unit = BasisPoints\<rparr>))))"

definition parseScalarEvidence ::
  "js_record \<Rightarrow> string \<Rightarrow> alertMetricName \<Rightarrow> int \<Rightarrow> int \<Rightarrow> alertMetricEvidence result" where
  "parseScalarEvidence record name metricName observedValue threshold =
     (if field_of record ''observedNumerator'' \<noteq> JNull \<or>
         field_of record ''observedDenominator'' \<noteq> JNull \<or>
         field_of record ''minimumNumeratorCount'' \<noteq> JNull \<or>
         field_of record ''minimumSampleCount'' \<noteq> JInt 0
      then Inl (Error (name @ '' non-ratio evidence has ratio fields''))
      else if metricName = M_evaluator_missing \<and> observedValue > 1
      then Inl (Error (name @ '' boolean evidence is inconsistent''))
      else Inr \<lparr>ev_kind = fst (metricDomain metricName), ev_metricName = metricName,
             ev_minimumNumeratorCount = None, ev_minimumSampleCount = 0,
             ev_observedDenominator = None, ev_observedNumerator = None,
             ev_observedValue = observedValue, ev_threshold = threshold,
             ev_unit = snd (metricDomain metricName)\<rparr>)"

definition parseMetricEvidence :: "js \<Rightarrow> string \<Rightarrow> alertMetricEvidence result" where
  "parseMetricEvidence value name =
     and_then (exactRecord value metricEvidenceKeys name) (\<lambda>record.
       case metricNameOf (field_of record ''metricName'') of
         None \<Rightarrow> Inl (Error (name @ '' metric name is not supported''))
       | Some metricName \<Rightarrow>
           if field_of record ''kind'' \<noteq> JStr (kindString (fst (metricDomain metricName))) \<or>
              field_of record ''unit'' \<noteq> JStr (unitString (snd (metricDomain metricName)))
           then Inl (Error (name @ '' metric domain is inconsistent''))
           else
             and_then (integerValue (field_of record ''observedValue'') (name @ '' observed value'')) (\<lambda>observedValue.
             and_then (integerValue (field_of record ''threshold'') (name @ '' threshold'')) (\<lambda>threshold.
               if threshold < 1 then Inl (Error (name @ '' threshold must be positive''))
               else if metricName = M_ratio
               then parseRatioEvidence record name observedValue threshold
               else parseScalarEvidence record name metricName observedValue threshold)))"

definition selectedEvidenceKeys :: "string list" where
  "selectedEvidenceKeys =
     [''kind'', ''metricName'', ''minimumNumeratorCount'', ''minimumSampleCount'',
      ''observedDenominator'', ''observedNumerator'', ''observedValue'', ''secondary'',
      ''severity'', ''threshold'', ''unit'', ''windowSeconds'']"

definition primaryFields :: "js_record \<Rightarrow> js" where
  "primaryFields record = JObj (map (\<lambda>key. (key, field_of record key)) metricEvidenceKeys)"

definition severityOf :: "js \<Rightarrow> activeSeverity option" where
  "severityOf v =
     (if v = JStr ''warning'' then Some Warning
      else if v = JStr ''critical'' then Some Critical else None)"

definition supportedPair :: "alertMetricName \<Rightarrow> alertMetricName \<Rightarrow> bool" where
  "supportedPair primary secondary \<longleftrightarrow>
     (primary = M_count \<and> secondary = M_known_surfaces) \<or>
     (primary = M_high_risk_count \<and> secondary = M_distinct_reporters)"

definition checkSecondary ::
  "alertMetricEvidence \<Rightarrow> alertMetricEvidence option \<Rightarrow> unit result" where
  "checkSecondary primary secondary =
     (case secondary of
        None \<Rightarrow> Inr ()
      | Some s \<Rightarrow>
          if \<not> supportedPair (ev_metricName primary) (ev_metricName s)
          then Inl (Error ''selected alert evidence component pair is not supported'')
          else if ev_observedValue s < ev_threshold s
          then Inl (Error ''secondary alert evidence does not prove a canonical breach'')
          else Inr ())"

definition parseAlertSelectedEvidence :: "js \<Rightarrow> alertSelectedEvidence result" where
  "parseAlertSelectedEvidence value =
     and_then (exactRecord value selectedEvidenceKeys ''selected alert evidence'') (\<lambda>record.
     and_then (parseMetricEvidence (primaryFields record) ''primary alert evidence'') (\<lambda>primary.
       case severityOf (field_of record ''severity'') of
         None \<Rightarrow> Inl (Error ''selected alert evidence severity is not supported'')
       | Some severity \<Rightarrow>
           (case safeInteger (field_of record ''windowSeconds'') of
              Some windowSeconds \<Rightarrow>
                if windowSeconds \<notin> {300, 900, 3600}
                then Inl (Error ''selected alert evidence window is not supported'')
                else
                  and_then (decNullable (\<lambda>v. parseMetricEvidence v ''secondary alert evidence'')
                    (field_of record ''secondary'')) (\<lambda>secondary.
                  if ev_metricName primary = M_known_surfaces \<or>
                     ev_metricName primary = M_distinct_reporters \<or>
                     ev_observedValue primary < ev_threshold primary
                  then Inl (Error ''primary alert evidence does not prove a canonical breach'')
                  else and_then (checkSecondary primary secondary) (\<lambda>_.
                    Inr (alertMetricEvidence.extend primary
                      \<lparr>sel_secondary = secondary, sel_severity = severity,
                       sel_windowSeconds = windowSeconds\<rparr>)))
            | None \<Rightarrow> Inl (Error ''selected alert evidence window is not supported''))))"

subsection \<open>Evidence contracts\<close>

record evidenceContractComponent =
  cc_metricName :: alertMetricName
  cc_minimumNumeratorCount :: "int option"
  cc_minimumSampleCount :: int
  cc_threshold :: int

type_synonym evidenceContract = "evidenceContractComponent list"

definition combineContracts ::
  "evidenceContract list \<Rightarrow> evidenceContract list \<Rightarrow> evidenceContract list" where
  "combineContracts combined clauseContracts =
     concat (map (\<lambda>prefix. map (\<lambda>suffix. prefix @ suffix) clauseContracts) combined)"

fun evidenceContractsFor :: "thresholdExpression \<Rightarrow> evidenceContract list" where
  "evidenceContractsFor (Gte metric value) =
     [[\<lparr>cc_metricName = METRIC_NAMES metric, cc_minimumNumeratorCount = None,
        cc_minimumSampleCount = 0, cc_threshold = value\<rparr>]]"
| "evidenceContractsFor (Ratio_gte basisPoints minDenominator minNumerator) =
     [[\<lparr>cc_metricName = M_ratio, cc_minimumNumeratorCount = Some minNumerator,
        cc_minimumSampleCount = minDenominator, cc_threshold = basisPoints\<rparr>]]"
| "evidenceContractsFor (Any clauses) = concat (map evidenceContractsFor clauses)"
| "evidenceContractsFor (All clauses) =
     foldl (\<lambda>combined clause. combineContracts combined (evidenceContractsFor clause)) [[]] clauses"

definition componentMatches ::
  "('a alertMetricEvidence_scheme) \<Rightarrow> evidenceContractComponent \<Rightarrow> bool" where
  "componentMatches component expected \<longleftrightarrow>
     ev_metricName component = cc_metricName expected \<and>
     ev_minimumNumeratorCount component = cc_minimumNumeratorCount expected \<and>
     ev_minimumSampleCount component = cc_minimumSampleCount expected \<and>
     ev_threshold component = cc_threshold expected"

definition actualComponents :: "alertSelectedEvidence \<Rightarrow> alertMetricEvidence list" where
  "actualComponents evidence =
     (case sel_secondary evidence of
        None \<Rightarrow> [alertMetricEvidence.truncate evidence]
      | Some s \<Rightarrow> [alertMetricEvidence.truncate evidence, s])"

definition evidenceMatchesContract :: "alertSelectedEvidence \<Rightarrow> evidenceContract \<Rightarrow> bool" where
  "evidenceMatchesContract evidence contract \<longleftrightarrow>
     list_all2 componentMatches (actualComponents evidence) contract"

definition windowOfSeconds :: "int \<Rightarrow> alertWindowKey" where
  "windowOfSeconds seconds = (if seconds = 300 then W5m else if seconds = 900 then W15m else W60m)"

definition parseAlertSelectedEvidenceForRule ::
  "js \<Rightarrow> alertRuleId \<Rightarrow> alertSelectedEvidence result" where
  "parseAlertSelectedEvidenceForRule value r =
     and_then (parseAlertSelectedEvidence value) (\<lambda>evidence.
       let window = windowOfSeconds (sel_windowSeconds evidence);
           mismatch = Inl (Error ''selected alert evidence does not match the canonical rule contract'')
       in case thresholdFor (atWindow (thresholds (ALERT_RULE_DEFINITIONS r)) window)
            (sel_severity evidence) of
            None \<Rightarrow> mismatch
          | Some expression \<Rightarrow>
              if \<not> list_ex (evidenceMatchesContract evidence) (evidenceContractsFor expression)
              then mismatch
              else Inr evidence)"

subsection \<open>Evidence the program builds parses back unchanged\<close>

definition metricEvidenceFields :: "('a alertMetricEvidence_scheme) \<Rightarrow> js_record" where
  "metricEvidenceFields e =
     [(''kind'', JStr (kindString (ev_kind e))),
      (''metricName'', JStr (metricNameString (ev_metricName e))),
      (''minimumNumeratorCount'', jsOfIntOption (ev_minimumNumeratorCount e)),
      (''minimumSampleCount'', JInt (ev_minimumSampleCount e)),
      (''observedDenominator'', jsOfIntOption (ev_observedDenominator e)),
      (''observedNumerator'', jsOfIntOption (ev_observedNumerator e)),
      (''observedValue'', JInt (ev_observedValue e)),
      (''threshold'', JInt (ev_threshold e)),
      (''unit'', JStr (unitString (ev_unit e)))]"

definition jsOfMetricEvidence :: "alertMetricEvidence \<Rightarrow> js" where
  "jsOfMetricEvidence e = JObj (metricEvidenceFields e)"

definition ratioFieldsValid :: "('a alertMetricEvidence_scheme) \<Rightarrow> bool" where
  "ratioFieldsValid e \<longleftrightarrow>
     (case (ev_observedNumerator e, ev_observedDenominator e, ev_minimumNumeratorCount e) of
        (Some n, Some d, Some minN) \<Rightarrow>
          inDomain MAX_RATIO_FIELD n \<and> inDomain MAX_RATIO_FIELD d \<and> inDomain MAX_RATIO_FIELD minN \<and>
          inDomain MAX_RATIO_FIELD (ev_minimumSampleCount e) \<and>
          \<not> ratioInconsistent n d (ev_minimumSampleCount e) minN (ev_observedValue e) (ev_threshold e)
      | _ \<Rightarrow> False)"

definition scalarFieldsValid :: "('a alertMetricEvidence_scheme) \<Rightarrow> bool" where
  "scalarFieldsValid e \<longleftrightarrow>
     ev_observedNumerator e = None \<and> ev_observedDenominator e = None \<and>
     ev_minimumNumeratorCount e = None \<and> ev_minimumSampleCount e = 0 \<and>
     (ev_metricName e = M_evaluator_missing \<longrightarrow> ev_observedValue e \<le> 1)"

definition validMetricEvidence :: "('a alertMetricEvidence_scheme) \<Rightarrow> bool" where
  "validMetricEvidence e \<longleftrightarrow>
     metricDomain (ev_metricName e) = (ev_kind e, ev_unit e) \<and>
     inDomain MAX_EVIDENCE_VALUE (ev_observedValue e) \<and>
     inDomain MAX_EVIDENCE_VALUE (ev_threshold e) \<and> 1 \<le> ev_threshold e \<and>
     (if ev_metricName e = M_ratio then ratioFieldsValid e else scalarFieldsValid e)"

lemma metricNameOf_Some_iff: "metricNameOf v = Some m \<longleftrightarrow> v = JStr (metricNameString m)"
proof
  show "metricNameOf v = Some m \<Longrightarrow> v = JStr (metricNameString m)"
    by (auto simp: metricNameOf_def find_Some_iff split: js.splits)
  show "v = JStr (metricNameString m) \<Longrightarrow> metricNameOf v = Some m"
    by (cases m) (simp_all add: metricNameOf_def ALERT_METRIC_NAMES_def)
qed

lemma metricNameOf_built [codec_simps]: "metricNameOf (JStr (metricNameString m)) = Some m"
  by (simp add: metricNameOf_Some_iff)

lemma metricNameOf_ratio [codec_simps]: "metricNameOf (JStr ''ratio'') = Some M_ratio"
  by (simp add: metricNameOf_Some_iff)

lemma jsOfIntOption_simps [simp]:
  "jsOfIntOption x = JNull \<longleftrightarrow> x = None" "JNull = jsOfIntOption x \<longleftrightarrow> x = None"
  "jsOfIntOption x = JInt n \<longleftrightarrow> x = Some n" "JInt n = jsOfIntOption x \<longleftrightarrow> x = Some n"
  by (cases x; auto)+

lemma metricDomain_ratio [simp]: "metricDomain M_ratio = (Ratio, BasisPoints)"
  by (simp add: metricDomain_def)

lemma parseMetricEvidence_enc:
  assumes "validMetricEvidence e"
  shows "parseMetricEvidence (JObj (metricEvidenceFields e)) name
    = Inr (alertMetricEvidence.truncate e)"
proof (cases "ev_metricName e = M_ratio")
  case True
  then obtain n d minN where "ev_observedNumerator e = Some n" "ev_observedDenominator e = Some d"
    "ev_minimumNumeratorCount e = Some minN"
    using assms by (auto simp: validMetricEvidence_def ratioFieldsValid_def split: option.splits)
  moreover have "ev_kind e = Ratio" "ev_unit e = BasisPoints"
    using True assms by (auto simp: validMetricEvidence_def metricDomain_def)
  ultimately show ?thesis
    using True assms
    by (simp add: parseMetricEvidence_def metricEvidenceFields_def metricEvidenceKeys_def codec_simps
        parseRatioEvidence_def validMetricEvidence_def ratioFieldsValid_def metricDomain_def
        alertMetricEvidence.truncate_def)
next
  case False
  then show ?thesis
    using assms
    by (simp add: parseMetricEvidence_def metricEvidenceFields_def metricEvidenceKeys_def codec_simps
        parseScalarEvidence_def validMetricEvidence_def scalarFieldsValid_def not_less
        alertMetricEvidence.truncate_def)
qed

lemma parseRatioEvidence_valid:
  assumes "parseRatioEvidence r name observed thr = Inr e"
    and "inDomain MAX_EVIDENCE_VALUE observed" and "inDomain MAX_EVIDENCE_VALUE thr" and "1 \<le> thr"
  shows "validMetricEvidence e"
  using assms
  by (auto simp: parseRatioEvidence_def metric_simps throw_if_eq_Inr validMetricEvidence_def
      ratioFieldsValid_def)

lemma parseScalarEvidence_valid:
  assumes "parseScalarEvidence r name m observed thr = Inr e" and "m \<noteq> M_ratio"
    and "inDomain MAX_EVIDENCE_VALUE observed" and "inDomain MAX_EVIDENCE_VALUE thr" and "1 \<le> thr"
  shows "validMetricEvidence e"
  using assms
  by (auto simp: parseScalarEvidence_def throw_if_eq_Inr validMetricEvidence_def
      scalarFieldsValid_def not_less)

lemma parseMetricEvidence_valid:
  "parseMetricEvidence v name = Inr e \<Longrightarrow> validMetricEvidence e"
  unfolding parseMetricEvidence_def and_then_eq_Inr
  by (auto simp: metric_simps throw_if_eq_Inr not_less intro: parseRatioEvidence_valid
      parseScalarEvidence_valid split: option.split_asm if_split_asm)

interpretation metricEvidence: nonnull_codec jsOfMetricEvidence
    "\<lambda>v. parseMetricEvidence v name" validMetricEvidence
proof
  fix e :: alertMetricEvidence and v
  show "validMetricEvidence e \<Longrightarrow> parseMetricEvidence (jsOfMetricEvidence e) name = Inr e"
    using parseMetricEvidence_enc[of e name]
    by (simp add: jsOfMetricEvidence_def alertMetricEvidence.truncate_def)
  show "parseMetricEvidence v name = Inr e \<Longrightarrow> validMetricEvidence e"
    by (rule parseMetricEvidence_valid)
  show "jsOfMetricEvidence e \<noteq> JNull"
    by (simp add: jsOfMetricEvidence_def)
qed

definition jsOfSelectedEvidence :: "alertSelectedEvidence \<Rightarrow> js" where
  "jsOfSelectedEvidence e =
     JObj (metricEvidenceFields e @
       [(''secondary'', encNullable jsOfMetricEvidence (sel_secondary e)),
        (''severity'', JStr (severityString (sel_severity e))),
        (''windowSeconds'', JInt (sel_windowSeconds e))])"

definition secondaryProves :: "alertMetricEvidence \<Rightarrow> alertMetricEvidence option \<Rightarrow> bool" where
  "secondaryProves p s \<longleftrightarrow>
     (case s of None \<Rightarrow> True
      | Some e \<Rightarrow> supportedPair (ev_metricName p) (ev_metricName e) \<and>
          ev_threshold e \<le> ev_observedValue e)"

definition validSelectedEvidence :: "alertSelectedEvidence \<Rightarrow> bool" where
  "validSelectedEvidence e \<longleftrightarrow>
     validMetricEvidence e \<and> pred_option validMetricEvidence (sel_secondary e) \<and>
     sel_windowSeconds e \<in> {300, 900, 3600} \<and>
     ev_metricName e \<noteq> M_known_surfaces \<and> ev_metricName e \<noteq> M_distinct_reporters \<and>
     ev_threshold e \<le> ev_observedValue e \<and>
     secondaryProves (alertMetricEvidence.truncate e) (sel_secondary e)"

lemma checkSecondary_Inr_iff:
  "checkSecondary p s = Inr () \<longleftrightarrow> secondaryProves p s"
  by (auto simp: checkSecondary_def secondaryProves_def throw_if_eq_Inr not_less split: option.splits)

lemma severityOf_built [codec_simps]: "severityOf (JStr (severityString s)) = Some s"
  by (cases s) (simp_all add: severityOf_def)

lemma primaryFields_built:
  "primaryFields (metricEvidenceFields e @ r) = JObj (metricEvidenceFields e)"
  by (simp add: primaryFields_def metricEvidenceFields_def metricEvidenceKeys_def)

lemma truncate_extend [simp]:
  "alertMetricEvidence.truncate (alertMetricEvidence.extend p m) = p"
  "alertMetricEvidence.extend (alertMetricEvidence.truncate (e :: alertSelectedEvidence))
     \<lparr>sel_secondary = sel_secondary e, sel_severity = sel_severity e,
      sel_windowSeconds = sel_windowSeconds e\<rparr> = e"
  by (simp_all add: alertMetricEvidence.defs)

lemma extend_fields [simp]:
  "sel_secondary (alertMetricEvidence.extend p \<lparr>sel_secondary = s, sel_severity = v, sel_windowSeconds = w\<rparr>) = s"
  "sel_severity (alertMetricEvidence.extend p \<lparr>sel_secondary = s, sel_severity = v, sel_windowSeconds = w\<rparr>) = v"
  "sel_windowSeconds (alertMetricEvidence.extend p \<lparr>sel_secondary = s, sel_severity = v, sel_windowSeconds = w\<rparr>) = w"
  "ev_kind (alertMetricEvidence.extend p m) = ev_kind p"
  "ev_metricName (alertMetricEvidence.extend p m) = ev_metricName p"
  "ev_minimumNumeratorCount (alertMetricEvidence.extend p m) = ev_minimumNumeratorCount p"
  "ev_minimumSampleCount (alertMetricEvidence.extend p m) = ev_minimumSampleCount p"
  "ev_observedDenominator (alertMetricEvidence.extend p m) = ev_observedDenominator p"
  "ev_observedNumerator (alertMetricEvidence.extend p m) = ev_observedNumerator p"
  "ev_observedValue (alertMetricEvidence.extend p m) = ev_observedValue p"
  "ev_threshold (alertMetricEvidence.extend p m) = ev_threshold p"
  "ev_unit (alertMetricEvidence.extend p m) = ev_unit p"
  "ev_kind (alertMetricEvidence.truncate e) = ev_kind e"
  "ev_metricName (alertMetricEvidence.truncate e) = ev_metricName e"
  "ev_minimumNumeratorCount (alertMetricEvidence.truncate e) = ev_minimumNumeratorCount e"
  "ev_minimumSampleCount (alertMetricEvidence.truncate e) = ev_minimumSampleCount e"
  "ev_observedDenominator (alertMetricEvidence.truncate e) = ev_observedDenominator e"
  "ev_observedNumerator (alertMetricEvidence.truncate e) = ev_observedNumerator e"
  "ev_observedValue (alertMetricEvidence.truncate e) = ev_observedValue e"
  "ev_threshold (alertMetricEvidence.truncate e) = ev_threshold e"
  "ev_unit (alertMetricEvidence.truncate e) = ev_unit e"
  by (simp_all add: alertMetricEvidence.defs)

lemma validMetricEvidence_truncate [simp]:
  "validMetricEvidence (alertMetricEvidence.truncate e) = validMetricEvidence e"
  "validMetricEvidence (alertMetricEvidence.extend p m) = validMetricEvidence p"
  by (simp_all add: validMetricEvidence_def ratioFieldsValid_def scalarFieldsValid_def
      split: option.split)

lemma selected_record:
  "exactRecord (jsOfSelectedEvidence e) selectedEvidenceKeys name =
     Inr (metricEvidenceFields e @
       [(''secondary'', encNullable jsOfMetricEvidence (sel_secondary e)),
        (''severity'', JStr (severityString (sel_severity e))),
        (''windowSeconds'', JInt (sel_windowSeconds e))])"
  unfolding jsOfSelectedEvidence_def
  by (rule exactRecord_permuted) (simp_all add: metricEvidenceFields_def selectedEvidenceKeys_def)

lemma field_of_selected:
  "k \<notin> set metricEvidenceKeys \<Longrightarrow> field_of (metricEvidenceFields e @ r) k = field_of r k"
  by (auto simp: metricEvidenceFields_def metricEvidenceKeys_def)

interpretation selectedEvidence: codec jsOfSelectedEvidence parseAlertSelectedEvidence
    validSelectedEvidence
proof
  fix e v
  note dec_secondary = codec.dec_enc[OF metricEvidence.nullable_codec]
  assume valid: "validSelectedEvidence e"
  then have "checkSecondary (alertMetricEvidence.truncate e) (sel_secondary e) = Inr ()"
    by (simp add: checkSecondary_Inr_iff validSelectedEvidence_def)
  then show "parseAlertSelectedEvidence (jsOfSelectedEvidence e) = Inr e"
    using valid
    by (auto simp: parseAlertSelectedEvidence_def selected_record primaryFields_built
        parseMetricEvidence_enc field_of_selected metricEvidenceKeys_def codec_simps dec_secondary
        validSelectedEvidence_def MAX_SAFE_INTEGER_def)
next
  fix e v
  note valid_secondary = codec.dec_valid[OF metricEvidence.nullable_codec]
  assume "parseAlertSelectedEvidence v = Inr e"
  then show "validSelectedEvidence e"
    by (auto simp: parseAlertSelectedEvidence_def and_then_eq_Inr throw_if_eq_Inr throw_none_eq_Inr
        checkSecondary_Inr_iff validSelectedEvidence_def not_less
        dest: parseMetricEvidence_valid valid_secondary)
qed

end
