(* ===== verification/Alert_Selection.thy ===== *)
theory Alert_Selection
  imports Alert_Kleene Alert_Evidence
begin

section \<open>The evidence the evaluator selects\<close>

text \<open>
  Two halves meet here: evaluating an expression yields, when it is breached, a list of
  components that fits one of the contracts \<open>evidenceContractsFor\<close> derives from the same
  expression; and every contract of the rule table, on metrics of a parsed observation, gives
  evidence the parsers accept.
\<close>

subsection \<open>Components come from a contract of the expression\<close>

definition scalarFrom :: "metricBag \<Rightarrow> alertMetricEvidence \<Rightarrow> bool" where
  "scalarFrom m c \<longleftrightarrow>
     (\<exists>metric observed value. m metric = Some observed \<and> value \<le> observed \<and>
        c = scalarEvidence metric observed value)"

definition ratioFrom :: "metricBag \<Rightarrow> alertMetricEvidence \<Rightarrow> bool" where
  "ratioFrom m c \<longleftrightarrow>
     (\<exists>n d bp minD minN. m Numerator = Some n \<and> m Denominator = Some d \<and>
        ratioBreached bp minD minN n d \<and> c = ratioEvidence n d bp minD minN)"

definition componentFrom :: "metricBag \<Rightarrow> alertMetricEvidence \<Rightarrow> evidenceContractComponent \<Rightarrow> bool" where
  "componentFrom m c k \<longleftrightarrow> componentMatches c k \<and> (scalarFrom m c \<or> ratioFrom m c)"

definition fitsContract :: "metricBag \<Rightarrow> alertMetricEvidence list \<Rightarrow> evidenceContract list \<Rightarrow> bool" where
  "fitsContract m cs ks \<longleftrightarrow> (\<exists>k \<in> set ks. list_all2 (componentFrom m) cs k)"

lemma fits_combine:
  "fitsContract m acc combined \<Longrightarrow> fitsContract m cs ks \<Longrightarrow>
   fitsContract m (acc @ cs) (combineContracts combined ks)"
  by (auto simp: fitsContract_def combineContracts_def intro: list_all2_appendI)

lemma evaluateAll_fits:
  assumes "\<And>e cs. e \<in> set es \<Longrightarrow> evaluateExpression e m = Inr (Breached cs) \<Longrightarrow>
      fitsContract m cs (evidenceContractsFor e)"
    and "fitsContract m acc combined" and "evaluateAll es m acc u = Inr (Breached cs)"
  shows "fitsContract m cs
    (foldl (\<lambda>combined clause. combineContracts combined (evidenceContractsFor clause)) combined es)"
  using assms
proof (induction es arbitrary: acc combined u)
  case (Cons e es)
  then obtain x where x: "evaluateExpression e m = Inr x"
    and rest: "(case x of Clear \<Rightarrow> Inr Clear
         | UnknownResult \<Rightarrow> evaluateAll es m acc True
         | Breached cs' \<Rightarrow> evaluateAll es m (acc @ cs') u) = Inr (Breached cs)"
    by (auto simp: and_then_eq_Inr)
  show ?case
  proof (cases x)
    case (Breached cs')
    then have "fitsContract m (acc @ cs') (combineContracts combined (evidenceContractsFor e))"
      using Cons.prems(1)[of e cs'] x fits_combine[OF Cons.prems(2)] by simp
    then show ?thesis
      using Breached rest Cons.IH[of "acc @ cs'" _ u] Cons.prems(1) by simp
  qed (use rest evaluateAll_unknown in simp_all)
qed (auto split: if_splits)

lemma Breached_fits:
  "evaluateExpression e m = Inr (Breached cs) \<Longrightarrow> fitsContract m cs (evidenceContractsFor e)"
proof (induction e arbitrary: cs)
  case (Gte metric v)
  then show ?case
    by (auto simp: evaluateGte_def fitsContract_def componentFrom_def componentMatches_def
        scalarFrom_def scalarEvidence_def not_less split: option.splits if_splits)
next
  case (Ratio_gte bp minD minN)
  then show ?case
    by (auto simp: evaluateRatio_def fitsContract_def componentFrom_def componentMatches_def
        ratioFrom_def ratioEvidence_def ratioBreached_def not_less split: option.splits if_splits)
next
  case (All es)
  moreover have "fitsContract m [] [[]]"
    by (simp add: fitsContract_def)
  ultimately show ?case
    using evaluateAll_fits[of es m "[]" "[[]]" False cs] by simp
next
  case (Any es)
  then obtain e where "e \<in> set es" "evaluateExpression e m = Inr (Breached cs)"
    using evaluateAny_Breached[of es m False cs] by auto
  then show ?case
    using Any.IH[of e cs] by (auto simp: fitsContract_def)
qed

subsection \<open>The contracts of the rule table\<close>

definition okComponent :: "evidenceContractComponent \<Rightarrow> bool" where
  "okComponent k \<longleftrightarrow>
     1 \<le> cc_threshold k \<and> cc_threshold k \<le> MAX_EVIDENCE_VALUE \<and>
     (if cc_metricName k = M_ratio
      then cc_threshold k \<le> 10000 \<and> inDomain MAX_RATIO_FIELD (cc_minimumSampleCount k) \<and>
        (case cc_minimumNumeratorCount k of None \<Rightarrow> False
         | Some n \<Rightarrow> 1 \<le> n \<and> n \<le> MAX_RATIO_FIELD)
      else cc_minimumNumeratorCount k = None)"

fun okContract :: "evidenceContract \<Rightarrow> bool" where
  "okContract [k] =
     (okComponent k \<and> cc_metricName k \<notin> {M_known_surfaces, M_distinct_reporters})"
| "okContract [k, l] =
     (okComponent k \<and> okComponent l \<and> supportedPair (cc_metricName k) (cc_metricName l))"
| "okContract _ = False"

lemma table_contracts:
  "ruleThreshold r w s = Some e \<Longrightarrow> list_all okContract (evidenceContractsFor e)"
  unfolding ruleThreshold_def
  by (cases r; cases w; cases s)
    (auto simp: rule_defs rule_simps combineContracts_def okComponent_def supportedPair_def
      inDomain_def bound_defs)

lemma okContract_length: "okContract k \<Longrightarrow> length k = 1 \<or> length k = 2"
  by (cases k rule: okContract.cases) auto

lemma table_Breached_length:
  assumes "ruleThreshold r w s = Some e" and "evaluateExpression e m = Inr (Breached cs)"
  shows "length cs = 1 \<or> length cs = 2"
proof -
  obtain k where "k \<in> set (evidenceContractsFor e)" "length cs = length k"
    using Breached_fits[OF assms(2)] by (auto simp: fitsContract_def dest: list_all2_lengthD)
  then show ?thesis
    using table_contracts[OF assms(1)] okContract_length by (auto simp: list_all_iff)
qed

subsection \<open>Metrics of a parsed observation\<close>

definition goodBag :: "metricBag \<Rightarrow> bool" where
  "goodBag m \<longleftrightarrow>
     (\<forall>metric n. m metric = Some n \<longrightarrow> inDomain MAX_EVIDENCE_VALUE n) \<and>
     (\<forall>n. m EvaluatorMissing = Some n \<longrightarrow> n \<le> 1) \<and>
     (\<forall>n d. m Numerator = Some n \<longrightarrow> m Denominator = Some d \<longrightarrow>
        inDomain MAX_RATIO_FIELD n \<and> inDomain MAX_RATIO_FIELD d \<and> n \<le> d)"

lemma goodBag_update:
  "goodBag m \<Longrightarrow> inDomain MAX_EVIDENCE_VALUE n \<Longrightarrow> k \<notin> {EvaluatorMissing, Numerator, Denominator} \<Longrightarrow>
   goodBag (m(k := Some n))"
  by (auto simp: goodBag_def)

lemma goodBag_none: "goodBag m \<Longrightarrow> goodBag (m(k := None))"
  by (auto simp: goodBag_def)

lemma goodBag_empty: "goodBag emptyBag"
  by (simp add: goodBag_def emptyBag_def)

lemma domain_ratio_evidence: "inDomain MAX_RATIO_FIELD n \<Longrightarrow> inDomain MAX_EVIDENCE_VALUE n"
  by (simp add: inDomain_def bound_defs)

lemma goodBag_ratio:
  "goodBag m \<Longrightarrow> inDomain MAX_RATIO_FIELD n \<Longrightarrow> inDomain MAX_RATIO_FIELD d \<Longrightarrow> n \<le> d \<Longrightarrow>
   goodBag (m(Denominator := Some d, Numerator := Some n))"
  by (auto simp: goodBag_def domain_ratio_evidence)

lemma goodBag_missing: "goodBag m \<Longrightarrow> 0 \<le> n \<Longrightarrow> n \<le> 1 \<Longrightarrow> goodBag (m(EvaluatorMissing := Some n))"
  by (auto simp: goodBag_def inDomain_def bound_defs)

lemmas goodBag_intros = goodBag_update goodBag_none goodBag_empty goodBag_ratio goodBag_missing

lemma orZero_domain: "0 \<le> m \<Longrightarrow> pred_option (inDomain m) n \<Longrightarrow> inDomain m (orZero n)"
  by (cases n) (simp_all add: orZero_def inDomain_def)

lemma MAX_EVIDENCE_nonneg [simp]: "0 \<le> MAX_EVIDENCE_VALUE"
  by (simp add: bound_defs)

lemma bags_good:
  "validCount a \<Longrightarrow> goodBag (countBag a)"
  "validRatio b \<Longrightarrow> goodBag (ratioBag b)"
  "validRestricted c \<Longrightarrow> goodBag (restrictedBag c)"
  "validAdmin g \<Longrightarrow> goodBag (adminBag g)"
  "validRuntime i \<Longrightarrow> goodBag (runtimeBag i)"
  unfolding countBag_def ratioBag_def restrictedBag_def adminBag_def runtimeBag_def
  by (intro goodBag_intros orZero_domain; simp add: validCount_def validRatio_def validRestricted_def
      validAdmin_def validRuntime_def inDomain_def)+

lemma recoveryBag_good: "validRecovery m \<Longrightarrow> goodBag (recoveryBag m)"
  unfolding recoveryBag_def
  by (intro goodBag_intros) (simp_all add: validRecovery_def inDomain_def)

lemma oauthBag_good: "validOAuth m \<Longrightarrow> goodBag (oauthBag m)"
  unfolding oauthBag_def
  by (cases "oc_distinctReporters m")
    (auto intro!: goodBag_intros simp: validOAuth_def)

lemma logoutWindowBag_good:
  assumes "validLogout m"
  shows "goodBag (emptyBag(Denominator := Some (lw_eligible m),
       LeaseExpired := Some (lw_leaseExpired m), Numerator := Some (lw_unresolved m)))"
    and "validLogoutCurrent c \<Longrightarrow> goodBag (logoutBag c m)"
proof -
  have swap: "f(Denominator := d, LeaseExpired := l, Numerator := n)
      = f(LeaseExpired := l, Denominator := d, Numerator := n)" for f :: metricBag and d l n
    by (rule ext) simp
  show "goodBag (emptyBag(Denominator := Some (lw_eligible m),
       LeaseExpired := Some (lw_leaseExpired m), Numerator := Some (lw_unresolved m)))"
    unfolding swap by (intro goodBag_intros) (use assms in \<open>simp_all add: validLogout_def\<close>)
  show "validLogoutCurrent c \<Longrightarrow> goodBag (logoutBag c m)"
    unfolding logoutBag_def swap
    by (intro goodBag_intros orZero_domain)
      (use assms in \<open>simp_all add: validLogout_def validLogoutCurrent_def\<close>)
qed

lemma queueBag_good:
  assumes "validQueueSnapshot s" and "knownQueueSnapshot s asOf = Some q"
  shows "goodBag (queueBag q)"
proof -
  have "inDomain MAX_EVIDENCE_VALUE (kq_depth q) \<and>
      inDomain MAX_EVIDENCE_VALUE (kq_consecutiveNonzeroSamples q)"
    using assms
    by (auto simp: knownQueueSnapshot_def knownNonzeroQueue_def validQueueSnapshot_def
        validBinding_def Let_def inDomain_def bound_defs split: option.splits if_splits)
  then show ?thesis
    unfolding queueBag_def by (intro goodBag_intros) simp_all
qed

lemma windowsMetrics_good:
  "validMetrics w \<Longrightarrow> goodBag (atWindow (windowsMetrics w) k)"
  by (cases w; cases k)
    (auto simp: validWindows_def bags_good recoveryBag_good oauthBag_good logoutWindowBag_good
      mapWindows_def)

lemma observationBags_good:
  assumes "validObservation obs"
  shows "goodBag (atWindow (observationBags obs) k)"
proof (cases "obs_body obs")
  case (WindowsBody w)
  then show ?thesis
    using assms
    by (auto simp: validObservation_def observationBags_def validRuleWindows_def windowsMetrics_good)
next
  case (LogoutBody c w)
  then have "validWindows validLogout w" "validLogoutCurrent c"
    using assms by (simp_all add: validObservation_def)
  then show ?thesis
    using LogoutBody
    by (cases k) (auto simp: observationBags_def mapWindows_def validWindows_def logoutWindowBag_good)
next
  case (FanoutBody s)
  then show ?thesis
    using assms
    by (cases k) (auto simp: observationBags_def validObservation_def validFanout_def intro!: goodBag_intros)
next
  case (RuntimeBody s)
  then show ?thesis
    using assms
    by (cases k) (auto simp: observationBags_def validObservation_def intro: bags_good)
next
  case (QueueBody s)
  then show ?thesis
    using assms queueBag_good[of s "obs_asOf obs"]
    by (cases k; cases "queueSnapshotOf obs")
      (auto simp: observationBags_def validObservation_def queueSnapshotOf_def goodBag_empty)
qed

subsection \<open>Every component the evaluator emits parses\<close>

lemma scalar_domain: "metricDomain (METRIC_NAMES m) = evidenceDomain m"
  by (cases m) (simp_all add: metricDomain_def)

lemma scalar_not_ratio: "METRIC_NAMES m \<noteq> M_ratio"
  by (cases m) simp_all

lemma scalar_missing: "METRIC_NAMES m = M_evaluator_missing \<longleftrightarrow> m = EvaluatorMissing"
  by (cases m) simp_all

lemma scalarEvidence_valid:
  assumes "goodBag m" and "m metric = Some observed" and "v \<le> observed" and "1 \<le> v"
  shows "validMetricEvidence (scalarEvidence metric observed v)"
proof -
  have "inDomain MAX_EVIDENCE_VALUE observed" and "metric = EvaluatorMissing \<Longrightarrow> observed \<le> 1"
    using assms(1,2) by (auto simp: goodBag_def)
  moreover from this assms(3,4) have "inDomain MAX_EVIDENCE_VALUE v"
    by (auto simp: inDomain_def)
  ultimately show ?thesis
    using assms(3,4)
    by (simp add: validMetricEvidence_def scalarEvidence_def scalarFieldsValid_def scalar_domain
        scalar_not_ratio scalar_missing)
qed

lemma scalarFrom_valid:
  assumes "goodBag m" and "scalarFrom m c" and "componentMatches c k" and "okComponent k"
  shows "validMetricEvidence c \<and> ev_threshold c \<le> ev_observedValue c"
proof -
  obtain metric observed v where o: "m metric = Some observed" "v \<le> observed"
    and c: "c = scalarEvidence metric observed v"
    using assms(2) by (auto simp: scalarFrom_def)
  have "1 \<le> v"
    using assms(3,4) by (simp add: c scalarEvidence_def componentMatches_def okComponent_def)
  then show ?thesis
    using scalarEvidence_valid[OF assms(1) o] o by (simp add: c scalarEvidence_def)
qed

lemma ratio_basis_points:
  assumes "0 < (d :: int)" and "d * bp \<le> n * 10000"
  shows "bp \<le> n * 10000 div d"
  using zdiv_mono1[OF assms(2,1)] assms(1) by simp

lemma ratioFrom_valid:
  assumes "goodBag m" and "ratioFrom m c" and "componentMatches c k" and "okComponent k"
  shows "validMetricEvidence c \<and> ev_threshold c \<le> ev_observedValue c"
proof -
  obtain n d bp minD minN where m: "m Numerator = Some n" "m Denominator = Some d"
    and breach: "ratioBreached bp minD minN n d" and c: "c = ratioEvidence n d bp minD minN"
    using assms(2) by (auto simp: ratioFrom_def)
  have domain: "inDomain MAX_RATIO_FIELD n" "inDomain MAX_RATIO_FIELD d" "n \<le> d"
    using assms(1) m by (auto simp: goodBag_def)
  have pos: "0 < d" and le: "minN \<le> n" "minD \<le> d" "d * bp \<le> n * 10000"
    using breach domain by (auto simp: ratioBreached_def inDomain_def)
  have "n * 10000 div d \<le> d * 10000 div d"
    using pos domain by (intro zdiv_mono1) simp_all
  then have "n * 10000 div d \<le> 10000" and "0 \<le> n * 10000 div d"
    using pos domain by (simp_all add: pos_imp_zdiv_nonneg_iff inDomain_def)
  then have "inDomain MAX_EVIDENCE_VALUE (n * 10000 div d)"
    by (simp add: inDomain_def bound_defs)
  moreover have "bp \<le> n * 10000 div d"
    using pos le(3) by (rule ratio_basis_points)
  moreover have "1 \<le> bp" "bp \<le> 10000" "inDomain MAX_RATIO_FIELD minD" "1 \<le> minN" "minN \<le> MAX_RATIO_FIELD"
    using assms(3,4) by (auto simp: c ratioEvidence_def componentMatches_def okComponent_def split: option.splits)
  ultimately show ?thesis
    using domain pos le
    by (simp add: c ratioEvidence_def validMetricEvidence_def ratioFieldsValid_def
        ratioInconsistent_def inDomain_def bound_defs)
qed

lemma componentFrom_valid:
  "goodBag m \<Longrightarrow> componentFrom m c k \<Longrightarrow> okComponent k \<Longrightarrow>
   validMetricEvidence c \<and> ev_threshold c \<le> ev_observedValue c"
  by (auto simp: componentFrom_def dest: scalarFrom_valid ratioFrom_valid)

subsection \<open>Selected evidence satisfies the contract of its rule\<close>

lemma windowOfSeconds_ALERT_WINDOW_SECONDS [simp]: "windowOfSeconds (ALERT_WINDOW_SECONDS w) = w"
  by (cases w) (simp_all add: windowOfSeconds_def)

lemma ALERT_WINDOW_SECONDS_range: "ALERT_WINDOW_SECONDS w \<in> {300, 900, 3600}"
  by (cases w) simp_all

lemma selectedEvidence_ok: "length cs = 1 \<or> length cs = 2 \<Longrightarrow> is_ok (selectedEvidence cs s w)"
  by (cases cs) auto

definition provesBreach :: "alertMetricEvidence list \<Rightarrow> bool" where
  "provesBreach cs \<longleftrightarrow>
     (case cs of
        [c] \<Rightarrow> ev_metricName c \<notin> {M_known_surfaces, M_distinct_reporters}
      | [c, d] \<Rightarrow> supportedPair (ev_metricName c) (ev_metricName d)
      | _ \<Rightarrow> False) \<and>
     (\<forall>c \<in> set cs. validMetricEvidence c \<and> ev_threshold c \<le> ev_observedValue c)"

lemma componentFrom_name: "componentFrom m c k \<Longrightarrow> ev_metricName c = cc_metricName k"
  by (simp add: componentFrom_def componentMatches_def)

lemma contract_proves:
  assumes "okContract k" and "list_all2 (componentFrom m) cs k" and "goodBag m"
  shows "provesBreach cs"
  using assms
proof (cases k rule: okContract.cases)
  case (1 x)
  then obtain c where "cs = [c]" and "componentFrom m c x"
    using assms(2) by (auto simp: list_all2_Cons2)
  then show ?thesis
    using 1 assms(1) componentFrom_valid[OF assms(3)] componentFrom_name[of m c x]
    by (simp add: provesBreach_def)
next
  case (2 x y)
  then obtain c d where "cs = [c, d]" and "componentFrom m c x" and "componentFrom m d y"
    using assms(2) by (auto simp: list_all2_Cons2)
  then show ?thesis
    using 2 assms(1) componentFrom_valid[OF assms(3)] componentFrom_name[of m c x]
      componentFrom_name[of m d y]
    by (simp add: provesBreach_def)
qed simp_all

lemma selectedEvidence_parts:
  assumes "provesBreach cs" and "selectedEvidence cs s w = Inr evidence"
  shows "validSelectedEvidence evidence" and "actualComponents evidence = cs"
    and "sel_severity evidence = s" and "sel_windowSeconds evidence = ALERT_WINDOW_SECONDS w"
proof -
  consider (one) c where "cs = [c]" | (two) c d where "cs = [c, d]"
    using assms(1) by (auto simp: provesBreach_def split: list.splits)
  then have "validSelectedEvidence evidence \<and> actualComponents evidence = cs \<and>
    sel_severity evidence = s \<and> sel_windowSeconds evidence = ALERT_WINDOW_SECONDS w"
  proof cases
    case one
    then show ?thesis
      using assms ALERT_WINDOW_SECONDS_range[of w]
      by (auto simp: provesBreach_def validSelectedEvidence_def secondaryProves_def
          actualComponents_def)
  next
    case two
    then show ?thesis
      using assms ALERT_WINDOW_SECONDS_range[of w]
      by (auto simp: provesBreach_def validSelectedEvidence_def secondaryProves_def
          actualComponents_def supportedPair_def)
  qed
  then show "validSelectedEvidence evidence" and "actualComponents evidence = cs"
    and "sel_severity evidence = s" and "sel_windowSeconds evidence = ALERT_WINDOW_SECONDS w"
    by simp_all
qed

lemma selected_evidence_contract:
  assumes table: "ruleThreshold r w s = Some e" and good: "goodBag m"
    and breached: "evaluateExpression e m = Inr (Breached cs)"
    and selected: "selectedEvidence cs s w = Inr evidence"
  shows "parseAlertSelectedEvidenceForRule (jsOfSelectedEvidence evidence) r = Inr evidence"
proof -
  obtain k where k: "k \<in> set (evidenceContractsFor e)" "list_all2 (componentFrom m) cs k"
    using Breached_fits[OF breached] by (auto simp: fitsContract_def)
  have "okContract k"
    using table_contracts[OF table] k(1) by (simp add: list_all_iff)
  then have proves: "provesBreach cs"
    using k(2) good by (rule contract_proves)
  note parts = selectedEvidence_parts[OF proves selected]
  have "list_all2 componentMatches cs k"
    using k(2) by (rule list_all2_mono) (simp add: componentFrom_def)
  then have matches: "evidenceMatchesContract evidence k"
    by (simp add: evidenceMatchesContract_def parts)
  have "parseAlertSelectedEvidence (jsOfSelectedEvidence evidence) = Inr evidence"
    using parts(1) by (rule selectedEvidence.dec_enc)
  then show ?thesis
    using matches k(1) table parts(3,4)
    by (auto simp: parseAlertSelectedEvidenceForRule_def ruleThreshold_def list_ex_iff Let_def)
qed

subsection \<open>The evaluation of an observation\<close>

text \<open>
  The windows of an evaluation reach back one hour; only in the first hour of the time line of
  \<open>Date\<close> can that fail.
\<close>

definition hourBeforeExists :: "string \<Rightarrow> bool" where
  "hourBeforeExists asOf \<longleftrightarrow> time_in_range (getTime asOf - 3600000)"

lemma canonical_in_range: "canonical s \<Longrightarrow> time_in_range (getTime s)"
  by (simp add: canonical_iff canonical_time_Some_iff)

lemma alertWindowsAt_ok: "is_ok (alertWindowsAt s) \<longleftrightarrow> canonical s \<and> hourBeforeExists s"
proof -
  have "is_ok (toISOString t) \<longleftrightarrow> time_in_range t" for t
    by (simp add: toISOString_def)
  then have *: "is_ok (alertWindowAt s k) \<longleftrightarrow> time_in_range (getTime s - ALERT_WINDOW_SECONDS k * 1000)" for k
    by (simp add: alertWindowAt_def is_ok_and_then) (metis is_ok_simps(1) is_okE)
  have "is_ok (alertWindowsAt s) \<longleftrightarrow> canonical s \<and> (\<forall>k \<in> set ALERT_WINDOW_KEYS. is_ok (alertWindowAt s k))"
    by (simp add: alertWindowsAt_def is_ok_and_then canonicalTimestamp_Inr_iff is_ok_map_result)
  then show ?thesis
    by (auto simp: * ALERT_WINDOW_KEYS_def hourBeforeExists_def time_in_range_def
        dest: canonical_in_range)
qed

definition meansObservation :: "alertRuleObservation \<Rightarrow> alertRuleEvaluation \<Rightarrow> bool" where
  "meansObservation obs e \<longleftrightarrow>
     (let r = obs_ruleId obs; bags = observationBags obs in
      eval_severity e = specSeverity r bags \<and> eval_evidence e = specEvidence r bags \<and>
      eval_breachedWindows e = specWindows r bags \<and> eval_asOf e = obs_asOf obs \<and>
      eval_dimension e = obs_dimension obs \<and> eval_ruleId e = r)"

definition evidenceAgrees :: "alertRuleEvaluation \<Rightarrow> bool" where
  "evidenceAgrees e \<longleftrightarrow>
     (case eval_selectedEvidence e of
        None \<Rightarrow> eval_severity e = None
      | Some s \<Rightarrow>
          eval_severity e = Some (sel_severity s) \<and>
          windowOfSeconds (sel_windowSeconds s) \<in> set (eval_breachedWindows e) \<and>
          parseAlertSelectedEvidenceForRule (jsOfSelectedEvidence s) (eval_ruleId e) = Inr s)"

lemma match_selected:
  assumes valid: "validObservation obs"
    and "evaluateWindowThresholds (ALERT_RULE_DEFINITIONS (obs_ruleId obs)) (observationBags obs) s
      = Inr (matches, u)"
    and mem: "(cs, w) \<in> set matches"
  obtains evidence where "selectedEvidence cs s w = Inr evidence"
    and "parseAlertSelectedEvidenceForRule (jsOfSelectedEvidence evidence) (obs_ruleId obs) = Inr evidence"
    and "sel_severity evidence = s" and "windowOfSeconds (sel_windowSeconds evidence) = w"
proof -
  obtain e where e: "ruleThreshold (obs_ruleId obs) w s = Some e"
    and b: "evaluateExpression e (atWindow (observationBags obs) w) = Inr (Breached cs)"
    using evaluateWindowThresholds_spec(3)[OF assms(2) mem] by blast
  obtain evidence where ev: "selectedEvidence cs s w = Inr evidence"
    using table_Breached_length[OF e b] selectedEvidence_ok is_okE by meson
  moreover have "sel_severity evidence = s" "sel_windowSeconds evidence = ALERT_WINDOW_SECONDS w"
    using ev by (cases cs; force split: if_splits)+
  ultimately show ?thesis
    using that selected_evidence_contract[OF e observationBags_good[OF valid] b ev] by simp
qed

lemma criticalEvaluation_spec:
  assumes valid: "validObservation obs"
    and matches: "evaluateWindowThresholds (ALERT_RULE_DEFINITIONS (obs_ruleId obs)) (observationBags obs) Critical
      = Inr (matches, u)" and nonempty: "matches \<noteq> []"
  obtains e where "criticalEvaluation obs matches = Inr e" and "meansObservation obs e"
    and "evidenceAgrees e"
    and "eval_immediateCritical e \<longleftrightarrow>
      list_ex (\<lambda>(cs, w). isImmediateCriticalEvidence (obs_ruleId obs) cs) matches"
proof -
  let ?P = "\<lambda>(cs, w). isImmediateCriticalEvidence (obs_ruleId obs) cs"
  obtain cs w where sel: "(case find ?P matches of None \<Rightarrow> hd matches | Some m \<Rightarrow> m) = (cs, w)"
    by fastforce
  then have mem: "(cs, w) \<in> set matches"
    by (cases "find ?P matches")
      (use hd_in_set[OF nonempty] in \<open>auto simp: find_Some_iff dest: nth_mem\<close>)
  obtain evidence where ev: "selectedEvidence cs Critical w = Inr evidence"
    "parseAlertSelectedEvidenceForRule (jsOfSelectedEvidence evidence) (obs_ruleId obs) = Inr evidence"
    "sel_severity evidence = Critical" "windowOfSeconds (sel_windowSeconds evidence) = w"
    using match_selected[OF valid matches mem] .
  have windows: "map snd matches = breachedWindows (obs_ruleId obs) (observationBags obs) Critical"
    using evaluateWindowThresholds_spec(1)[OF matches] .
  with nonempty have sev: "specSeverity (obs_ruleId obs) (observationBags obs) = Some Critical"
    by (auto simp: specSeverity_def)
  have "find ?P matches \<noteq> None \<longleftrightarrow> list_ex ?P matches"
    by (auto simp: find_None_iff list_ex_iff)
  moreover have "w \<in> set (breachedWindows (obs_ruleId obs) (observationBags obs) Critical)"
    unfolding windows[symmetric] using mem by force
  ultimately show ?thesis
    using sel ev windows sev
    by (intro that[of "\<lparr>eval_asOf = obs_asOf obs, eval_breachedWindows = map snd matches,
                eval_dimension = obs_dimension obs, eval_evidence = Known,
                eval_immediateCritical = (find ?P matches \<noteq> None), eval_ruleId = obs_ruleId obs,
                eval_selectedEvidence = Some evidence, eval_severity = Some Critical\<rparr>"])
      (auto simp: criticalEvaluation_def meansObservation_def evidenceAgrees_def Let_def specEvidence_def
        specWindows_def)
qed

lemma warningEvaluation_spec:
  assumes valid: "validObservation obs"
    and matches: "evaluateWindowThresholds (ALERT_RULE_DEFINITIONS (obs_ruleId obs)) (observationBags obs) Warning
      = Inr (matches, u)"
    and critical: "breachedWindows (obs_ruleId obs) (observationBags obs) Critical = []"
  obtains e where
    "warningEvaluation obs (undecided (obs_ruleId obs) (observationBags obs) Critical) matches u = Inr e"
    and "meansObservation obs e" and "evidenceAgrees e" and "\<not> eval_immediateCritical e"
proof -
  have windows: "map snd matches = breachedWindows (obs_ruleId obs) (observationBags obs) Warning"
    and u: "u = undecided (obs_ruleId obs) (observationBags obs) Warning"
    using evaluateWindowThresholds_spec[OF matches] by simp_all
  show ?thesis
  proof (cases matches)
    case Nil
    then show ?thesis
      using windows critical
      by (intro that) (auto simp: warningEvaluation_def meansObservation_def evidenceAgrees_def Let_def
          specEvidence_def specWindows_def specSeverity_def u)
  next
    case (Cons m ms)
    obtain cs w where m: "m = (cs, w)"
      by (cases m)
    obtain evidence where "selectedEvidence cs Warning w = Inr evidence"
      "parseAlertSelectedEvidenceForRule (jsOfSelectedEvidence evidence) (obs_ruleId obs) = Inr evidence"
      "sel_severity evidence = Warning" "windowOfSeconds (sel_windowSeconds evidence) = w"
      using match_selected[OF valid matches, of cs w] Cons m by auto
    moreover have "w \<in> set (breachedWindows (obs_ruleId obs) (observationBags obs) Warning)"
      using windows[symmetric] Cons m by simp
    ultimately show ?thesis
      using windows critical Cons m
      by (intro that) (auto simp: warningEvaluation_def meansObservation_def evidenceAgrees_def Let_def
          specEvidence_def specWindows_def specSeverity_def)
  qed
qed

text \<open>
  An untrusted queue sample leaves every metric of the queue rule unknown; the early return of
  the code gives what the thresholds would give.
\<close>

lemma unknown_queue:
  assumes "validObservation obs" and "obs_ruleId obs = Queue_dlq_approximate"
    and "queueSnapshotOf obs = None"
  shows "meansObservation obs (unknownEvaluation obs)"
proof -
  obtain s where "obs_body obs = QueueBody s"
    using assms(1,2) by (cases "obs_body obs")
      (auto simp: validObservation_def validRuleWindows_def windowedRule_def dest!: familyOf_windowed)
  then have bags: "observationBags obs = \<lparr>w5m = emptyBag, w15m = emptyBag, w60m = emptyBag\<rparr>"
    using assms(3) by (simp add: observationBags_def)
  show ?thesis
    by (simp add: meansObservation_def unknownEvaluation_def assms(2) bags specSeverity_def
        specEvidence_def specWindows_def breachedWindows_def undecided_def thresholdValue_def
        ruleThreshold_def ALERT_WINDOW_KEYS_def rule_defs rule_simps emptyBag_def kleeneOr_def)
qed

definition immediateCritical :: "alertRuleObservation \<Rightarrow> bool" where
  "immediateCritical obs \<longleftrightarrow>
     (case obs_body obs of
        LogoutBody current _ \<Rightarrow> 1 \<le> ld_currentDead current
      | RuntimeBody s \<Rightarrow> rs_evaluatorAgeSeconds s = None \<or> 1 \<le> rs_deadOutbox s
      | _ \<Rightarrow> False)"

lemma immediate_logout:
  assumes "evaluateWindowThresholds (ALERT_RULE_DEFINITIONS Logout_delivery_health)
      (mapWindows (logoutBag c) w) Critical = Inr (matches, u)"
  shows "list_ex (\<lambda>(cs, w). isImmediateCriticalEvidence Logout_delivery_health cs) matches \<longleftrightarrow>
    1 \<le> ld_currentDead c"
proof (cases "1 \<le> ld_currentDead c")
  case True
  then show ?thesis
    using assms
    by (auto simp: evaluateWindowThresholds_def ALERT_EVIDENCE_WINDOW_ORDER_def ALERT_WINDOW_KEYS_def
        rule_defs rule_simps mapWindows_def logoutBag_def emptyBag_def evaluateGte_def
        isImmediateCriticalEvidence_def scalarEvidence_def)
next
  case False
  have "ev_metricName (hd cs) \<noteq> M_dead" if "(cs, k) \<in> set matches" for cs k
    using evaluateWindowThresholds_spec(3)[OF assms that] False
    by (cases k) (auto simp: ruleThreshold_def rule_defs rule_simps mapWindows_def logoutBag_def
        emptyBag_def evaluateGte_def evaluateRatio_def scalarEvidence_def ratioEvidence_def
        split: if_splits)
  then show ?thesis
    using False
    by (fastforce simp: list_ex_iff isImmediateCriticalEvidence_def split: list.splits)
qed

lemma immediate_runtime:
  assumes "evaluateWindowThresholds (ALERT_RULE_DEFINITIONS Alert_runtime_health)
      \<lparr>w5m = runtimeBag s, w15m = runtimeBag s, w60m = runtimeBag s\<rparr> Critical = Inr (matches, u)"
  shows "list_ex (\<lambda>(cs, w). isImmediateCriticalEvidence Alert_runtime_health cs) matches \<longleftrightarrow>
    rs_evaluatorAgeSeconds s = None \<or> 1 \<le> rs_deadOutbox s"
  using assms
  by (auto simp: evaluateWindowThresholds_def ALERT_EVIDENCE_WINDOW_ORDER_def ALERT_WINDOW_KEYS_def
      rule_defs rule_simps runtimeBag_def emptyBag_def evaluateGte_def orZero_def
      isImmediateCriticalEvidence_def scalarEvidence_def split: if_splits option.splits)

lemma immediate_only:
  "validObservation obs \<Longrightarrow> obs_ruleId obs \<notin> {Logout_delivery_health, Alert_runtime_health} \<Longrightarrow>
   \<not> immediateCritical obs"
  by (auto simp: immediateCritical_def validObservation_def split: observationBody.splits)

lemma immediate_spec:
  assumes valid: "validObservation obs"
    and matches: "evaluateWindowThresholds (ALERT_RULE_DEFINITIONS (obs_ruleId obs)) (observationBags obs) Critical
      = Inr (matches, u)"
  shows "list_ex (\<lambda>(cs, w). isImmediateCriticalEvidence (obs_ruleId obs) cs) matches \<longleftrightarrow>
    immediateCritical obs"
proof -
  have "validBody (obs_ruleId obs) (obs_body obs)"
    using valid by (simp add: validObservation_def)
  then show ?thesis
  proof (cases rule: validBody_cases)
    case (logout c w)
    then show ?thesis
      using matches immediate_logout[of c w]
      by (simp add: observationBags_def immediateCritical_def del: ALERT_RULE_DEFINITIONS.simps)
  next
    case (runtime s)
    then show ?thesis
      using matches immediate_runtime[of s]
      by (simp add: observationBags_def immediateCritical_def del: ALERT_RULE_DEFINITIONS.simps)
  qed (auto simp: immediateCritical_def isImmediateCriticalEvidence_def list_ex_iff windowedRule_def)
qed

lemma evaluateObservation_meaning:
  assumes valid: "validObservation obs" and hour: "hourBeforeExists (obs_asOf obs)"
  obtains e where "evaluateObservation obs = Inr e" and "meansObservation obs e" and "evidenceAgrees e"
    and "eval_immediateCritical e \<longleftrightarrow> immediateCritical obs"
proof -
  let ?def = "ALERT_RULE_DEFINITIONS (obs_ruleId obs)" and ?bags = "observationBags obs"
  obtain ws where ws: "alertWindowsAt (obs_asOf obs) = Inr ws"
    using alertWindowsAt_ok valid hour by (auto simp: validObservation_def elim: is_okE)
  obtain cms cu where c: "evaluateWindowThresholds ?def ?bags Critical = Inr (cms, cu)"
    using evaluateWindowThresholds_ok .
  obtain wms wu where w: "evaluateWindowThresholds ?def ?bags Warning = Inr (wms, wu)"
    using evaluateWindowThresholds_ok .
  note cspec = evaluateWindowThresholds_spec(1,2)[OF c]
  show ?thesis
  proof (cases "obs_ruleId obs = Queue_dlq_approximate \<and> queueSnapshotOf obs = None")
    case True
    then show ?thesis
      using ws unknown_queue[OF valid]
      by (intro that[of "unknownEvaluation obs"])
        (simp_all add: evaluateObservation_def evidenceAgrees_def unknownEvaluation_def
          immediate_only[OF valid])
  next
    case False
    then have eval: "evaluateObservation obs = (if cms \<noteq> [] then criticalEvaluation obs cms
        else warningEvaluation obs cu wms wu)"
      using ws c w by (auto simp: evaluateObservation_def observationBags_def)
    show ?thesis
    proof (cases "cms = []")
      case True
      then have "breachedWindows (obs_ruleId obs) ?bags Critical = []"
        using cspec(1) by simp
      then obtain e where "warningEvaluation obs cu wms wu = Inr e" "meansObservation obs e"
        "evidenceAgrees e" "\<not> eval_immediateCritical e"
        by (rule warningEvaluation_spec[OF valid w, folded cspec(2)])
      then show ?thesis
        using eval True that immediate_spec[OF valid c] by simp
    next
      case False
      obtain e where "criticalEvaluation obs cms = Inr e" "meansObservation obs e" "evidenceAgrees e"
        "eval_immediateCritical e \<longleftrightarrow>
          list_ex (\<lambda>(cs, w). isImmediateCriticalEvidence (obs_ruleId obs) cs) cms"
        using criticalEvaluation_spec[OF valid c False] .
      then show ?thesis
        using eval False that immediate_spec[OF valid c] by simp
    qed
  qed
qed

end
