(* ===== verification/Alert_Rule_Properties.thy ===== *)
theory Alert_Rule_Properties
  imports Alert_Selection
begin

section \<open>Properties of the alert rules\<close>

text \<open>The properties of \<^verbatim>\<open>apps/sso/worker/alert-rules.ts\<close>, each with a witness on a concrete observation.\<close>

definition sampleFanout :: js where
  "sampleFanout = JObj
     [(''asOf'', JStr ''2026-03-01T12:00:00.000Z''), (''dimension'', JObj [(''kind'', JStr ''global'')]),
      (''ruleId'', JStr ''pgid.security.fanout_gap.v1''),
      (''snapshot'', JObj [(''missingOlderThan15mCount'', JInt 0), (''missingOlderThan5mCount'', JInt 3)])]"

definition sampleFanoutObservation :: alertRuleObservation where
  "sampleFanoutObservation =
     \<lparr>obs_asOf = ''2026-03-01T12:00:00.000Z'', obs_dimension = Global, obs_ruleId = Security_fanout_gap,
      obs_body = FanoutBody \<lparr>fg_missingOlderThan15mCount = 0, fg_missingOlderThan5mCount = 3\<rparr>\<rparr>"

lemma parse_sampleFanout: "parseAlertObservation sampleFanout = Inr sampleFanoutObservation"
  unfolding sampleFanout_def sampleFanoutObservation_def by code_simp

lemma hour_sampleFanout: "hourBeforeExists (obs_asOf sampleFanoutObservation)"
  unfolding sampleFanoutObservation_def by code_simp

text \<open>
  C1. Evaluating a rule means what its thresholds say. For every observation the parser accepts
  (and unless its instant lies in the first hour \<open>Date\<close> can represent) \<open>evaluateAlertRule\<close>
  returns; the severity is critical exactly if some window's critical expression is true in
  Kleene's three-valued logic, otherwise warning exactly if some warning expression is; the
  evidence is unknown exactly if nothing is true and something is undecided; and an immediate
  critical is a dead logout delivery, a missing evaluator or a dead outbox entry.
\<close>

theorem evaluateAlertRule_meaning:
  assumes "parseAlertObservation v = Inr obs" and "hourBeforeExists (obs_asOf obs)"
  shows "\<exists>e. evaluateAlertRule v = Inr e \<and> meansObservation obs e \<and>
    (eval_immediateCritical e \<longleftrightarrow> immediateCritical obs)"
  using evaluateObservation_meaning[OF parseAlertObservation_valid[OF assms(1)] assms(2)] assms(1)
  by (auto simp: evaluateAlertRule_def)

theorem evaluateAlertRule_meaning_witness:
  "\<exists>e. evaluateAlertRule sampleFanout = Inr e \<and> meansObservation sampleFanoutObservation e \<and>
    (eval_immediateCritical e \<longleftrightarrow> immediateCritical sampleFanoutObservation)"
  by (rule evaluateAlertRule_meaning[OF parse_sampleFanout hour_sampleFanout])

text \<open>
  C10. Whatever evidence \<open>evaluateAlertRule\<close> selects is accepted unchanged by
  \<open>parseAlertSelectedEvidenceForRule\<close> for its own rule, names a breached window and carries the
  severity of the evaluation; there is none exactly when the severity is "none".
\<close>

theorem selected_evidence_accepted:
  assumes "evaluateAlertRule v = Inr e"
  shows "case eval_selectedEvidence e of
      None \<Rightarrow> eval_severity e = None
    | Some s \<Rightarrow> eval_severity e = Some (sel_severity s) \<and>
        windowOfSeconds (sel_windowSeconds s) \<in> set (eval_breachedWindows e) \<and>
        parseAlertSelectedEvidenceForRule (jsOfSelectedEvidence s) (eval_ruleId e) = Inr s"
proof -
  obtain obs where obs: "parseAlertObservation v = Inr obs" "evaluateObservation obs = Inr e"
    using assms by (auto simp: evaluateAlertRule_def and_then_eq_Inr)
  then have "is_ok (alertWindowsAt (obs_asOf obs))"
    by (auto simp: evaluateObservation_def and_then_eq_Inr)
  then show ?thesis
    using evaluateObservation_meaning[OF parseAlertObservation_valid[OF obs(1)]] obs(2)
    by (auto simp: alertWindowsAt_ok evidenceAgrees_def)
qed

definition sampleFanoutEvaluation :: alertRuleEvaluation where
  "sampleFanoutEvaluation =
     \<lparr>eval_asOf = ''2026-03-01T12:00:00.000Z'', eval_breachedWindows = [W5m], eval_dimension = Global,
      eval_evidence = Known, eval_immediateCritical = False, eval_ruleId = Security_fanout_gap,
      eval_selectedEvidence = Some
        \<lparr>ev_kind = CountKind, ev_metricName = M_missing, ev_minimumNumeratorCount = None,
         ev_minimumSampleCount = 0, ev_observedDenominator = None, ev_observedNumerator = None,
         ev_observedValue = 3, ev_threshold = 1, ev_unit = Events,
         sel_secondary = None, sel_severity = Warning, sel_windowSeconds = 300\<rparr>,
      eval_severity = Some Warning\<rparr>"

lemma evaluate_sampleFanout: "evaluateAlertRule sampleFanout = Inr sampleFanoutEvaluation"
  unfolding sampleFanout_def sampleFanoutEvaluation_def by code_simp

theorem selected_evidence_accepted_witness:
  "case eval_selectedEvidence sampleFanoutEvaluation of
      None \<Rightarrow> eval_severity sampleFanoutEvaluation = None
    | Some s \<Rightarrow> eval_severity sampleFanoutEvaluation = Some (sel_severity s) \<and>
        windowOfSeconds (sel_windowSeconds s) \<in> set (eval_breachedWindows sampleFanoutEvaluation) \<and>
        parseAlertSelectedEvidenceForRule (jsOfSelectedEvidence s) (eval_ruleId sampleFanoutEvaluation)
          = Inr s"
  by (rule selected_evidence_accepted[OF evaluate_sampleFanout])

end
