(* ===== verification/Alert_Lifecycle.thy ===== *)
theory Alert_Lifecycle
  imports Alert_Selection
begin

section \<open>The lifecycle of an alert\<close>

text \<open>
  \<^verbatim>\<open>apps/sso/worker/alert-evaluator.ts\<close>: the state kept for each rule and dimension, its
  parser, and \<open>advanceAlertLifecycle\<close>, which takes the stored state and a new observation to an
  intent (open, escalate, remind, resolve, or none) and the next state.

  The file has its own copies of \<open>exactRecord\<close> and \<open>timestamp\<close>, with the bodies of
  \<open>exactRecord\<close> and \<open>canonicalTimestamp\<close> of the rules; the model uses those. A parsed
  timestamp is canonical, so \<open>timestampMs\<close> on it cannot throw and is \<open>getTime\<close>.
\<close>

subsection \<open>State and intents\<close>

datatype alertLifecyclePhase = Active | Inactive | Pending

record alertLifecycleIdentity =
  id_dimension :: alertDimension
  id_ruleId :: alertRuleId

record alertLifecycleState =
  activeEvidence :: "alertSelectedEvidence option"
  breachEvidence :: "alertSelectedEvidence option"
  breachSeverity :: "activeSeverity option"
  consecutiveBreaches :: int
  consecutiveClears :: int
  cooldownUntil :: "string option"
  identity :: "alertLifecycleIdentity option"
  lastEvaluatedAt :: "string option"
  lastNotificationAt :: "string option"
  openedAt :: "string option"
  phase :: alertLifecyclePhase
  status :: alertSeverity

record intentBase =
  int_at :: string
  int_dimension :: alertDimension
  int_ruleId :: alertRuleId

text \<open>The mode of every intent is "observe_only"; an escalation is from warning to critical.\<close>

datatype alertActionIntent =
    OpenIntent intentBase alertSelectedEvidence activeSeverity
  | EscalateIntent intentBase alertSelectedEvidence
  | RemindIntent intentBase alertSelectedEvidence activeSeverity
  | ResolveIntent intentBase activeSeverity

type_synonym alertLifecycleResult = "alertActionIntent option \<times> alertLifecycleState"

definition inactiveAlertState :: alertLifecycleState where
  "inactiveAlertState =
     \<lparr>activeEvidence = None, breachEvidence = None, breachSeverity = None,
      consecutiveBreaches = 0, consecutiveClears = 0, cooldownUntil = None, identity = None,
      lastEvaluatedAt = None, lastNotificationAt = None, openedAt = None, phase = Inactive,
      status = None\<rparr>"

subsection \<open>Parsing a stored state\<close>

definition addMilliseconds :: "string \<Rightarrow> int \<Rightarrow> string result" where
  "addMilliseconds value milliseconds = toISOString (getTime value + milliseconds)"

text \<open>\<open>String(n)\<close> for a number below ten, which the bounds of the two counters are.\<close>

definition counter :: "js \<Rightarrow> string \<Rightarrow> int \<Rightarrow> int result" where
  "counter value name maximum =
     (let bad = Inl (Error (name @ '' must be an integer between 0 and '' @ digits 1 maximum)) in
      case safeInteger value of
        Some n \<Rightarrow> if n < 0 \<or> n > maximum then bad else Inr n
      | None \<Rightarrow> bad)"

definition parseActiveSeverity :: "js \<Rightarrow> string \<Rightarrow> activeSeverity option result" where
  "parseActiveSeverity value name =
     (if value = JNull then Inr None
      else if value = JStr ''warning'' then Inr (Some Warning)
      else if value = JStr ''critical'' then Inr (Some Critical)
      else Inl (Error (name @ '' is not supported'')))"

definition parsePhase :: "js \<Rightarrow> alertLifecyclePhase result" where
  "parsePhase value =
     (if value = JStr ''active'' then Inr Active
      else if value = JStr ''inactive'' then Inr Inactive
      else if value = JStr ''pending'' then Inr Pending
      else Inl (Error ''alert lifecycle phase is not supported''))"

definition parseSeverity :: "js \<Rightarrow> alertSeverity result" where
  "parseSeverity value =
     (if value = JStr ''none'' then Inr None
      else if value = JStr ''warning'' then Inr (Some Warning)
      else if value = JStr ''critical'' then Inr (Some Critical)
      else Inl (Error ''alert lifecycle severity is not supported''))"

definition parseIdentity :: "js \<Rightarrow> alertLifecycleIdentity result" where
  "parseIdentity value =
     and_then (exactRecord value [''dimension'', ''ruleId''] ''alert lifecycle identity'') (\<lambda>record.
     and_then (parseAlertRuleId (field_of record ''ruleId'')) (\<lambda>r.
     and_then (parseAlertDimension (field_of record ''dimension'')
         (ruleDimensions (ALERT_RULE_DEFINITIONS r))) (\<lambda>d.
       Inr \<lparr>id_dimension = d, id_ruleId = r\<rparr>)))"

definition parseBoundEvidence ::
  "alertLifecycleIdentity option \<Rightarrow> js \<Rightarrow> alertSelectedEvidence option result" where
  "parseBoundEvidence ident evidence =
     (if evidence = JNull then Inr None
      else case ident of
        None \<Rightarrow> Inl (Error ''alert lifecycle evidence requires a bound identity'')
      | Some i \<Rightarrow>
          and_then (parseAlertSelectedEvidenceForRule evidence (id_ruleId i)) (\<lambda>e. Inr (Some e)))"

definition stateKeys :: "string list" where
  "stateKeys =
     [''activeEvidence'', ''breachEvidence'', ''breachSeverity'', ''consecutiveBreaches'',
      ''consecutiveClears'', ''cooldownUntil'', ''identity'', ''lastEvaluatedAt'',
      ''lastNotificationAt'', ''openedAt'', ''phase'', ''status'']"

definition parseStateFields :: "js \<Rightarrow> alertLifecycleState result" where
  "parseStateFields value =
     and_then (exactRecord value stateKeys ''alert lifecycle state'') (\<lambda>record.
     and_then (decNullable parseIdentity (field_of record ''identity'')) (\<lambda>ident.
     and_then (parseBoundEvidence ident (field_of record ''activeEvidence'')) (\<lambda>active.
     and_then (parseBoundEvidence ident (field_of record ''breachEvidence'')) (\<lambda>breach.
     and_then (parseActiveSeverity (field_of record ''breachSeverity'') ''breach severity'') (\<lambda>breachSev.
     and_then (counter (field_of record ''consecutiveBreaches'') ''consecutive breaches'' 1) (\<lambda>breaches.
     and_then (counter (field_of record ''consecutiveClears'') ''consecutive clears'' 4) (\<lambda>clears.
     and_then (nullableTimestampField (field_of record ''cooldownUntil'') ''cooldownUntil'') (\<lambda>cooldown.
     and_then (nullableTimestampField (field_of record ''lastEvaluatedAt'') ''lastEvaluatedAt'') (\<lambda>evaluated.
     and_then (nullableTimestampField (field_of record ''lastNotificationAt'') ''lastNotificationAt'') (\<lambda>notified.
     and_then (nullableTimestampField (field_of record ''openedAt'') ''openedAt'') (\<lambda>opened.
     and_then (parsePhase (field_of record ''phase'')) (\<lambda>p.
     and_then (parseSeverity (field_of record ''status'')) (\<lambda>s.
       Inr \<lparr>activeEvidence = active, breachEvidence = breach, breachSeverity = breachSev,
            consecutiveBreaches = breaches, consecutiveClears = clears, cooldownUntil = cooldown,
            identity = ident, lastEvaluatedAt = evaluated, lastNotificationAt = notified,
            openedAt = opened, phase = p, status = s\<rparr>)))))))))))))"

text \<open>The checks of \<open>parseState\<close>, in order; each names what makes it fail.\<close>

definition breachCountMismatch :: "alertLifecycleState \<Rightarrow> bool" where
  "breachCountMismatch s \<longleftrightarrow> (breachSeverity s = None) \<noteq> (consecutiveBreaches s = 0)"

definition breachEvidenceMismatch :: "alertLifecycleState \<Rightarrow> bool" where
  "breachEvidenceMismatch s \<longleftrightarrow>
     (breachEvidence s = None) \<noteq> (breachSeverity s = None) \<or>
     (case breachEvidence s of None \<Rightarrow> False | Some e \<Rightarrow> Some (sel_severity e) \<noteq> breachSeverity s)"

definition cooldownTooLong :: "alertLifecycleState \<Rightarrow> bool" where
  "cooldownTooLong s \<longleftrightarrow>
     (case cooldownUntil s of
        None \<Rightarrow> False
      | Some until \<Rightarrow>
          (case lastEvaluatedAt s of
             None \<Rightarrow> True
           | Some evaluated \<Rightarrow> getTime until - getTime evaluated > cooldownMs ALERT_RULE_POLICY))"

definition inactiveInconsistent :: "alertLifecycleState \<Rightarrow> bool" where
  "inactiveInconsistent s \<longleftrightarrow>
     status s \<noteq> None \<or> activeEvidence s \<noteq> None \<or> breachEvidence s \<noteq> None \<or> openedAt s \<noteq> None \<or>
     lastNotificationAt s \<noteq> None \<or> breachSeverity s \<noteq> None \<or> consecutiveBreaches s \<noteq> 0 \<or>
     consecutiveClears s \<noteq> 0 \<or> (identity s = None \<and> cooldownUntil s \<noteq> None)"

definition pendingInconsistent :: "alertLifecycleState \<Rightarrow> bool" where
  "pendingInconsistent s \<longleftrightarrow>
     status s \<noteq> None \<or> activeEvidence s \<noteq> None \<or> breachEvidence s = None \<or> identity s = None \<or>
     openedAt s \<noteq> None \<or> lastNotificationAt s \<noteq> None \<or> breachSeverity s = None \<or>
     consecutiveBreaches s = 0 \<or> consecutiveClears s \<noteq> 0"

definition activeInconsistent :: "alertLifecycleState \<Rightarrow> bool" where
  "activeInconsistent s \<longleftrightarrow>
     status s = None \<or>
     (case activeEvidence s of None \<Rightarrow> True | Some e \<Rightarrow> Some (sel_severity e) \<noteq> status s) \<or>
     identity s = None \<or> openedAt s = None \<or> lastNotificationAt s = None \<or> cooldownUntil s \<noteq> None"

definition badPendingCritical :: "alertLifecycleState \<Rightarrow> bool" where
  "badPendingCritical s \<longleftrightarrow>
     breachSeverity s \<noteq> None \<and> \<not> (status s = Some Warning \<and> breachSeverity s = Some Critical)"

definition phaseError :: "alertLifecycleState \<Rightarrow> string option" where
  "phaseError s =
     (case phase s of
        Inactive \<Rightarrow>
          if inactiveInconsistent s
          then Some ''inactive alert state cannot carry active evidence'' else None
      | Pending \<Rightarrow>
          if pendingInconsistent s
          then Some ''pending alert state requires only an unconfirmed breach'' else None
      | Active \<Rightarrow>
          if activeInconsistent s then Some ''active alert state is inconsistent''
          else if badPendingCritical s
          then Some ''only an active warning may carry a pending critical breach'' else None)"

definition after :: "string option \<Rightarrow> int \<Rightarrow> bool" where
  "after t limit \<longleftrightarrow> (case t of None \<Rightarrow> False | Some s \<Rightarrow> getTime s > limit)"

definition beyondWatermark :: "alertLifecycleState \<Rightarrow> bool" where
  "beyondWatermark s \<longleftrightarrow>
     (case lastEvaluatedAt s of
        None \<Rightarrow> False
      | Some e \<Rightarrow> after (openedAt s) (getTime e) \<or> after (lastNotificationAt s) (getTime e))"

definition notifiedBeforeOpened :: "alertLifecycleState \<Rightarrow> bool" where
  "notifiedBeforeOpened s \<longleftrightarrow>
     (case (openedAt s, lastNotificationAt s) of
        (Some opened, Some notified) \<Rightarrow> getTime notified < getTime opened
      | _ \<Rightarrow> False)"

definition stateError :: "alertLifecycleState \<Rightarrow> int \<Rightarrow> string option" where
  "stateError s asOfMs =
     (if breachCountMismatch s then Some ''breach severity and consecutive breach count must agree''
      else if breachEvidenceMismatch s
      then Some ''breach evidence must match the pending breach severity''
      else if consecutiveBreaches s > 0 \<and> consecutiveClears s > 0
      then Some ''breach and clear counters cannot both be active''
      else if (identity s = None) \<noteq> (lastEvaluatedAt s = None)
      then Some ''alert lifecycle identity and evaluation watermark must agree''
      else if cooldownTooLong s
      then Some ''alert lifecycle cooldown exceeds the canonical interval''
      else case phaseError s of
        Some message \<Rightarrow> Some message
      | None \<Rightarrow>
          if after (openedAt s) asOfMs then Some ''openedAt cannot be in the future''
          else if after (lastEvaluatedAt s) asOfMs then Some ''lastEvaluatedAt cannot be in the future''
          else if after (lastNotificationAt s) asOfMs
          then Some ''lastNotificationAt cannot be in the future''
          else if beyondWatermark s
          then Some ''alert lifecycle timestamps cannot exceed its watermark''
          else if notifiedBeforeOpened s then Some ''lastNotificationAt cannot precede openedAt''
          else None)"

definition parseState :: "js \<Rightarrow> int \<Rightarrow> alertLifecycleState result" where
  "parseState value asOfMs =
     and_then (parseStateFields value) (\<lambda>s.
       case stateError s asOfMs of Some message \<Rightarrow> Inl (Error message) | None \<Rightarrow> Inr s)"

subsection \<open>Identities and intents\<close>

fun sameDimension :: "alertDimension \<Rightarrow> alertDimension \<Rightarrow> bool" where
  "sameDimension Global Global = True"
| "sameDimension (QueueDimension q) (QueueDimension q') = (q = q')"
| "sameDimension (Hashed k r) (Hashed k' r') =
     (k = k' \<and> keyVersion r = keyVersion r' \<and> refValue r = refValue r')"
| "sameDimension _ _ = False"

definition identityFor :: "alertRuleEvaluation \<Rightarrow> alertLifecycleIdentity" where
  "identityFor evaluation =
     \<lparr>id_dimension = eval_dimension evaluation, id_ruleId = eval_ruleId evaluation\<rparr>"

definition assertSameIdentity ::
  "alertLifecycleIdentity \<Rightarrow> alertLifecycleIdentity \<Rightarrow> unit result" where
  "assertSameIdentity previous current =
     (if id_ruleId previous \<noteq> id_ruleId current \<or>
         \<not> sameDimension (id_dimension previous) (id_dimension current)
      then Inl (Error ''alert lifecycle identity does not match the observation'')
      else Inr ())"

definition activeIntentBase :: "alertRuleEvaluation \<Rightarrow> string \<Rightarrow> intentBase" where
  "activeIntentBase evaluation asOf =
     \<lparr>int_at = asOf, int_dimension = eval_dimension evaluation, int_ruleId = eval_ruleId evaluation\<rparr>"

definition selectedEvidenceFor :: "alertRuleEvaluation \<Rightarrow> alertSelectedEvidence result" where
  "selectedEvidenceFor evaluation =
     (case eval_selectedEvidence evaluation of
        None \<Rightarrow> Inl (Error ''active alert intent requires selected evidence'')
      | Some e \<Rightarrow> Inr e)"

definition reminderInterval :: "activeSeverity \<Rightarrow> int" where
  "reminderInterval s =
     (case s of Critical \<Rightarrow> criticalReminderMs ALERT_RULE_POLICY
      | Warning \<Rightarrow> warningReminderMs ALERT_RULE_POLICY)"

definition reminderDue :: "alertLifecycleState \<Rightarrow> int \<Rightarrow> bool" where
  "reminderDue s asOfMs =
     (case status s of
        None \<Rightarrow> False
      | Some severity \<Rightarrow>
          (case (case lastNotificationAt s of Some n \<Rightarrow> Some n | None \<Rightarrow> openedAt s) of
             None \<Rightarrow> True
           | Some notified \<Rightarrow> asOfMs - getTime notified \<ge> reminderInterval severity))"

definition clearedBreach :: "alertLifecycleState \<Rightarrow> alertLifecycleState" where
  "clearedBreach s =
     s\<lparr>breachEvidence := None, breachSeverity := None, consecutiveBreaches := 0,
       consecutiveClears := 0\<rparr>"

definition stableActiveResult ::
  "alertRuleEvaluation \<Rightarrow> alertLifecycleState \<Rightarrow> string \<Rightarrow> int \<Rightarrow> bool \<Rightarrow> alertLifecycleResult result" where
  "stableActiveResult evaluation s asOf asOfMs refreshEvidence =
     (case (status s, activeEvidence s) of
        (Some severity, Some active) \<Rightarrow>
          and_then (if refreshEvidence then selectedEvidenceFor evaluation else Inr active) (\<lambda>evidence.
            if sel_severity evidence \<noteq> severity
            then Inl (Error ''active evidence must match the incident severity'')
            else
              let stable = (clearedBreach s)\<lparr>activeEvidence := Some evidence, phase := Active\<rparr> in
              if \<not> reminderDue stable asOfMs then Inr (None, stable)
              else Inr (Some (RemindIntent (activeIntentBase evaluation asOf) evidence severity),
                        stable\<lparr>lastNotificationAt := Some asOf\<rparr>))
      | _ \<Rightarrow> Inl (Error ''stable active result requires an active state''))"

definition startOrContinueBreach :: "alertLifecycleState \<Rightarrow> activeSeverity \<Rightarrow> int" where
  "startOrContinueBreach s candidate =
     (if breachSeverity s = Some candidate then consecutiveBreaches s + 1 else 1)"

subsection \<open>One evaluation of the lifecycle\<close>

text \<open>The three parts of \<open>advanceAlertLifecycle\<close> after the guards, by what was observed.\<close>

definition advanceUnknown :: "alertLifecycleState \<Rightarrow> alertLifecycleResult" where
  "advanceUnknown s =
     (None, (clearedBreach s)\<lparr>phase := (if status s = None then Inactive else Active)\<rparr>)"

definition advanceClear ::
  "alertRuleEvaluation \<Rightarrow> alertLifecycleState \<Rightarrow> string \<Rightarrow> alertLifecycleResult result" where
  "advanceClear evaluation s asOf =
     (case status s of
        None \<Rightarrow>
          Inr (None, inactiveAlertState\<lparr>cooldownUntil := cooldownUntil s, identity := identity s,
            lastEvaluatedAt := Some asOf\<rparr>)
      | Some from_severity \<Rightarrow>
          if resolutionMode (ALERT_RULE_DEFINITIONS (eval_ruleId evaluation)) = Manual
          then stableActiveResult evaluation s asOf (getTime asOf) False
          else
            let clears = consecutiveClears s + 1 in
            if clears < clearConsecutive ALERT_RULE_POLICY
            then Inr (None, (clearedBreach s)\<lparr>consecutiveClears := clears\<rparr>)
            else
              and_then (addMilliseconds asOf (cooldownMs ALERT_RULE_POLICY)) (\<lambda>until.
                Inr (Some (ResolveIntent (activeIntentBase evaluation asOf) from_severity),
                     inactiveAlertState\<lparr>cooldownUntil := Some until, identity := identity s,
                       lastEvaluatedAt := Some asOf\<rparr>)))"

definition requiredBreaches :: "bool \<Rightarrow> activeSeverity \<Rightarrow> int" where
  "requiredBreaches immediate candidate =
     (if immediate then 1
      else case candidate of
        Critical \<Rightarrow> criticalConsecutive ALERT_RULE_POLICY
      | Warning \<Rightarrow> warningConsecutive ALERT_RULE_POLICY)"

definition activated ::
  "alertLifecycleState \<Rightarrow> alertSelectedEvidence \<Rightarrow> string \<Rightarrow> activeSeverity \<Rightarrow> alertLifecycleState" where
  "activated pendingState evidence asOf severity =
     pendingState\<lparr>activeEvidence := Some evidence, breachEvidence := None, breachSeverity := None,
       consecutiveBreaches := 0, lastNotificationAt := Some asOf, phase := Active,
       status := Some severity\<rparr>"

definition advanceCandidate ::
  "alertRuleEvaluation \<Rightarrow> alertLifecycleState \<Rightarrow> string \<Rightarrow> activeSeverity \<Rightarrow> alertLifecycleResult result" where
  "advanceCandidate evaluation s asOf candidate =
     and_then (selectedEvidenceFor evaluation) (\<lambda>evidence.
       let breaches = startOrContinueBreach s candidate;
           required = requiredBreaches (eval_immediateCritical evaluation) candidate;
           pendingState = s\<lparr>breachEvidence := Some evidence, breachSeverity := Some candidate,
             consecutiveBreaches := breaches, consecutiveClears := 0,
             phase := (if status s = None then Pending else Active)\<rparr>
       in if breaches < required then Inr (None, pendingState)
          else if status s = Some Warning \<and> candidate = Critical
          then Inr (Some (EscalateIntent (activeIntentBase evaluation asOf) evidence),
                    activated pendingState evidence asOf Critical)
          else if status s = None then
            (if cooldownUntil s \<noteq> None \<and> candidate = Warning
             then Inr (None, pendingState\<lparr>consecutiveBreaches := required - 1\<rparr>)
             else Inr (Some (OpenIntent (activeIntentBase evaluation asOf) evidence candidate),
                       (activated pendingState evidence asOf candidate)
                         \<lparr>cooldownUntil := None, openedAt := Some asOf\<rparr>))
          else stableActiveResult evaluation s asOf (getTime asOf) False)"

definition advanceBreach ::
  "alertRuleEvaluation \<Rightarrow> alertLifecycleState \<Rightarrow> string \<Rightarrow> activeSeverity \<Rightarrow> alertLifecycleResult result" where
  "advanceBreach evaluation s asOf candidate =
     (if status s = Some Critical
      then stableActiveResult evaluation s asOf (getTime asOf) (candidate = Critical)
      else if status s = Some Warning \<and> candidate = Warning
      then stableActiveResult evaluation s asOf (getTime asOf) True
      else advanceCandidate evaluation s asOf candidate)"

definition advanceBound ::
  "alertRuleEvaluation \<Rightarrow> alertLifecycleState \<Rightarrow> string \<Rightarrow> alertLifecycleResult result" where
  "advanceBound evaluation s asOf =
     (if eval_evidence evaluation = Unknown then Inr (advanceUnknown s)
      else case eval_severity evaluation of
        None \<Rightarrow> advanceClear evaluation s asOf
      | Some candidate \<Rightarrow> advanceBreach evaluation s asOf candidate)"

text \<open>The state the transition starts from: an expired cooldown dropped, the identity bound.\<close>

definition boundState :: "alertRuleEvaluation \<Rightarrow> alertLifecycleState \<Rightarrow> string \<Rightarrow> alertLifecycleState" where
  "boundState evaluation previous asOf =
     previous\<lparr>
       cooldownUntil := (case cooldownUntil previous of
           None \<Rightarrow> None
         | Some until \<Rightarrow> if getTime until \<le> getTime asOf then None else Some until),
       identity := (case identity previous of None \<Rightarrow> Some (identityFor evaluation) | Some i \<Rightarrow> Some i),
       lastEvaluatedAt := Some asOf\<rparr>"

definition advanceEvaluated ::
  "alertRuleEvaluation \<Rightarrow> alertLifecycleState \<Rightarrow> string \<Rightarrow> alertLifecycleResult result" where
  "advanceEvaluated evaluation previous asOf =
     (case identity previous of
        None \<Rightarrow>
          if eval_evidence evaluation = Unknown \<or> eval_severity evaluation = None
          then Inr (None, previous)
          else advanceBound evaluation (boundState evaluation previous asOf) asOf
      | Some ident \<Rightarrow>
          and_then (assertSameIdentity ident (identityFor evaluation)) (\<lambda>_.
            if (case lastEvaluatedAt previous of
                  None \<Rightarrow> True
                | Some evaluated \<Rightarrow> getTime evaluated \<ge> getTime asOf)
            then Inl (Error ''alert lifecycle evaluations must be strictly increasing'')
            else advanceBound evaluation (boundState evaluation previous asOf) asOf))"

definition advanceAlertLifecycle :: "js \<Rightarrow> alertLifecycleResult result" where
  "advanceAlertLifecycle input =
     and_then (exactRecord input [''asOf'', ''observation'', ''previous''] ''alert lifecycle input'') (\<lambda>record.
     and_then (canonicalTimestamp (field_of record ''asOf'') ''asOf'') (\<lambda>asOf.
     and_then (alertWindowsAt asOf) (\<lambda>_.
     and_then (evaluateAlertRule (field_of record ''observation'')) (\<lambda>evaluation.
       if eval_asOf evaluation \<noteq> asOf
       then Inl (Error ''lifecycle asOf must exactly match observation.asOf'')
       else and_then (parseState (field_of record ''previous'') (getTime asOf)) (\<lambda>previous.
         advanceEvaluated evaluation previous asOf)))))"

end
