(* ===== verification/Alert_Lifecycle_Invariant.thy ===== *)
theory Alert_Lifecycle_Invariant
  imports Alert_Lifecycle
begin

section \<open>The invariant of the lifecycle state\<close>

text \<open>
  \<open>parseState\<close> is the invariant of the lifecycle, written as a run-time check. This theory
  restates it as a predicate, proves the parser and the predicate agree through the \<open>codec\<close>
  contract, and proves that \<open>advanceAlertLifecycle\<close> only produces states that satisfy it.
\<close>

subsection \<open>The state as a JavaScript value\<close>

definition jsOfIdentity :: "alertLifecycleIdentity \<Rightarrow> js" where
  "jsOfIdentity i =
     JObj [(''dimension'', jsOfDimension (id_dimension i)), (''ruleId'', JStr (ruleIdString (id_ruleId i)))]"

fun jsOfActiveSeverity :: "activeSeverity option \<Rightarrow> js" where
  "jsOfActiveSeverity None = JNull"
| "jsOfActiveSeverity (Some s) = JStr (severityString s)"

fun jsOfPhase :: "alertLifecyclePhase \<Rightarrow> js" where
  "jsOfPhase Active = JStr ''active''"
| "jsOfPhase Inactive = JStr ''inactive''"
| "jsOfPhase Pending = JStr ''pending''"

fun jsOfSeverity :: "alertSeverity \<Rightarrow> js" where
  "jsOfSeverity None = JStr ''none''"
| "jsOfSeverity (Some s) = JStr (severityString s)"

definition jsOfState :: "alertLifecycleState \<Rightarrow> js" where
  "jsOfState s = JObj
     [(''activeEvidence'', encNullable jsOfSelectedEvidence (activeEvidence s)),
      (''breachEvidence'', encNullable jsOfSelectedEvidence (breachEvidence s)),
      (''breachSeverity'', jsOfActiveSeverity (breachSeverity s)),
      (''consecutiveBreaches'', JInt (consecutiveBreaches s)),
      (''consecutiveClears'', JInt (consecutiveClears s)),
      (''cooldownUntil'', jsOfStringOption (cooldownUntil s)),
      (''identity'', encNullable jsOfIdentity (identity s)),
      (''lastEvaluatedAt'', jsOfStringOption (lastEvaluatedAt s)),
      (''lastNotificationAt'', jsOfStringOption (lastNotificationAt s)),
      (''openedAt'', jsOfStringOption (openedAt s)),
      (''phase'', jsOfPhase (phase s)),
      (''status'', jsOfSeverity (status s))]"

subsection \<open>Validity of the fields\<close>

definition validIdentity :: "alertLifecycleIdentity \<Rightarrow> bool" where
  "validIdentity i \<longleftrightarrow> validDimension (ruleDimensions (ALERT_RULE_DEFINITIONS (id_ruleId i))) (id_dimension i)"

interpretation identity: nonnull_codec jsOfIdentity parseIdentity validIdentity
proof
  fix i v
  show "validIdentity i \<Longrightarrow> parseIdentity (jsOfIdentity i) = Inr i"
    by (simp add: parseIdentity_def jsOfIdentity_def validIdentity_def codec_simps
        codec.dec_enc[OF dimension_codec])
  show "parseIdentity v = Inr i \<Longrightarrow> validIdentity i"
    by (auto simp: parseIdentity_def validIdentity_def and_then_eq_Inr dest: dimension_valid)
  show "jsOfIdentity i \<noteq> JNull"
    by (simp add: jsOfIdentity_def)
qed

definition evidenceForRule :: "alertRuleId \<Rightarrow> alertSelectedEvidence \<Rightarrow> bool" where
  "evidenceForRule r e \<longleftrightarrow> parseAlertSelectedEvidenceForRule (jsOfSelectedEvidence e) r = Inr e"

lemma parse_for_rule_idem:
  assumes "parseAlertSelectedEvidenceForRule v r = Inr e"
  shows "parseAlertSelectedEvidenceForRule (jsOfSelectedEvidence e) r = Inr e"
proof -
  obtain e' where e': "parseAlertSelectedEvidence v = Inr e'"
    using assms by (auto simp: parseAlertSelectedEvidenceForRule_def and_then_eq_Inr)
  then have "e' = e"
    using assms by (auto simp: parseAlertSelectedEvidenceForRule_def Let_def throw_if_eq_Inr
        throw_none_eq_Inr)
  then show ?thesis
    using assms e' selectedEvidence.dec_idem[OF e'] by (simp add: parseAlertSelectedEvidenceForRule_def)
qed

interpretation ruleEvidence: nonnull_codec jsOfSelectedEvidence
    "\<lambda>v. parseAlertSelectedEvidenceForRule v r" "evidenceForRule r"
  by unfold_locales
    (auto simp: evidenceForRule_def jsOfSelectedEvidence_def dest: parse_for_rule_idem)

definition boundEvidence :: "alertLifecycleState \<Rightarrow> alertSelectedEvidence option \<Rightarrow> bool" where
  "boundEvidence s e \<longleftrightarrow>
     (case e of None \<Rightarrow> True
      | Some x \<Rightarrow> (case identity s of None \<Rightarrow> False | Some i \<Rightarrow> evidenceForRule (id_ruleId i) x))"

definition validFields :: "alertLifecycleState \<Rightarrow> bool" where
  "validFields s \<longleftrightarrow>
     pred_option validIdentity (identity s) \<and>
     boundEvidence s (activeEvidence s) \<and> boundEvidence s (breachEvidence s) \<and>
     inDomain 1 (consecutiveBreaches s) \<and> inDomain 4 (consecutiveClears s) \<and>
     pred_option canonical (cooldownUntil s) \<and> pred_option canonical (lastEvaluatedAt s) \<and>
     pred_option canonical (lastNotificationAt s) \<and> pred_option canonical (openedAt s)"

definition validState :: "int \<Rightarrow> alertLifecycleState \<Rightarrow> bool" where
  "validState now s \<longleftrightarrow> validFields s \<and> stateError s now = None"

subsection \<open>The parser and the predicate agree\<close>

lemma counter_built [codec_simps]:
  "m \<le> MAX_SAFE_INTEGER \<Longrightarrow> inDomain m n \<Longrightarrow> counter (JInt n) name m = Inr n"
  by (simp add: counter_def inDomain_def)

lemma counter_valid: "counter v name m = Inr n \<Longrightarrow> inDomain m n"
  by (auto simp: counter_def inDomain_def Let_def throw_if_eq_Inr split: option.splits if_splits)

lemma severityString_simps [simp]:
  "severityString s = ''warning'' \<longleftrightarrow> s = Warning" "severityString s = ''critical'' \<longleftrightarrow> s = Critical"
  "severityString s \<noteq> ''none''"
  by (cases s; simp)+

lemma parseActiveSeverity_built [codec_simps]: "parseActiveSeverity (jsOfActiveSeverity b) name = Inr b"
  by (cases b rule: jsOfActiveSeverity.cases)
    (auto simp: parseActiveSeverity_def, metis activeSeverity.exhaust)

lemma parsePhase_built [codec_simps]: "parsePhase (jsOfPhase p) = Inr p"
  by (cases p) (simp_all add: parsePhase_def)

lemma parseSeverity_built [codec_simps]: "parseSeverity (jsOfSeverity b) = Inr b"
  by (cases b rule: jsOfSeverity.cases)
    (auto simp: parseSeverity_def, metis activeSeverity.exhaust)

lemma parseBoundEvidence_built:
  "boundEvidence s e \<Longrightarrow>
   parseBoundEvidence (identity s) (encNullable jsOfSelectedEvidence e) = Inr e"
  by (cases e; cases "identity s")
    (simp_all add: parseBoundEvidence_def boundEvidence_def encNullable_def ruleEvidence.dec_enc
      ruleEvidence.enc_nonnull)

lemma parseBoundEvidence_valid:
  "parseBoundEvidence (identity s) v = Inr e \<Longrightarrow> boundEvidence s e"
  by (auto simp: parseBoundEvidence_def boundEvidence_def and_then_eq_Inr throw_none_eq_Inr
      dest: ruleEvidence.dec_valid split: if_splits)

lemma parseStateFields_enc: "validFields s \<Longrightarrow> parseStateFields (jsOfState s) = Inr s"
  by (simp add: validFields_def parseStateFields_def jsOfState_def stateKeys_def codec_simps
      parseBoundEvidence_built MAX_SAFE_INTEGER_def codec.dec_enc[OF identity.nullable_codec])

lemma parseStateFields_valid:
  assumes "parseStateFields v = Inr s"
  shows "validFields s"
proof -
  obtain r where
    "decNullable parseIdentity (field_of r ''identity'') = Inr (identity s)"
    "parseBoundEvidence (identity s) (field_of r ''activeEvidence'') = Inr (activeEvidence s)"
    "parseBoundEvidence (identity s) (field_of r ''breachEvidence'') = Inr (breachEvidence s)"
    "counter (field_of r ''consecutiveBreaches'') ''consecutive breaches'' 1 = Inr (consecutiveBreaches s)"
    "counter (field_of r ''consecutiveClears'') ''consecutive clears'' 4 = Inr (consecutiveClears s)"
    "nullableTimestampField (field_of r ''cooldownUntil'') ''cooldownUntil'' = Inr (cooldownUntil s)"
    "nullableTimestampField (field_of r ''lastEvaluatedAt'') ''lastEvaluatedAt'' = Inr (lastEvaluatedAt s)"
    "nullableTimestampField (field_of r ''lastNotificationAt'') ''lastNotificationAt'' = Inr (lastNotificationAt s)"
    "nullableTimestampField (field_of r ''openedAt'') ''openedAt'' = Inr (openedAt s)"
    using assms by (auto simp: parseStateFields_def and_then_eq_Inr)
  moreover from this(1) have "pred_option validIdentity (identity s)"
    by (rule codec.dec_valid[OF identity.nullable_codec])
  ultimately show ?thesis
    by (simp add: validFields_def parseBoundEvidence_valid counter_valid nullableTimestampField_valid)
qed

interpretation lifecycleState: codec jsOfState "\<lambda>v. parseState v now" "validState now"
  by unfold_locales
    (auto simp: parseState_def validState_def parseStateFields_enc and_then_eq_Inr
      dest: parseStateFields_valid split: option.splits)

subsection \<open>The checks, one conjunct each\<close>

lemma stateError_None_iff:
  "stateError s now = None \<longleftrightarrow>
     \<not> breachCountMismatch s \<and> \<not> breachEvidenceMismatch s \<and>
     \<not> (consecutiveBreaches s > 0 \<and> consecutiveClears s > 0) \<and>
     (identity s = None \<longleftrightarrow> lastEvaluatedAt s = None) \<and> \<not> cooldownTooLong s \<and> phaseError s = None \<and>
     \<not> after (openedAt s) now \<and> \<not> after (lastEvaluatedAt s) now \<and> \<not> after (lastNotificationAt s) now \<and>
     \<not> beyondWatermark s \<and> \<not> notifiedBeforeOpened s"
  by (auto simp: stateError_def split: option.splits)

lemma phaseError_None_iff:
  "phaseError s = None \<longleftrightarrow>
     (case phase s of Inactive \<Rightarrow> \<not> inactiveInconsistent s | Pending \<Rightarrow> \<not> pendingInconsistent s
      | Active \<Rightarrow> \<not> activeInconsistent s \<and> \<not> badPendingCritical s)"
  by (auto simp: phaseError_def split: alertLifecyclePhase.splits)

lemma after_antimono: "after t n \<Longrightarrow> m \<le> n \<Longrightarrow> after t m"
  by (auto simp: after_def split: option.splits)

lemma validState_mono: "validState m s \<Longrightarrow> m \<le> n \<Longrightarrow> validState n s"
  unfolding validState_def stateError_None_iff by (meson after_antimono)

lemma sameDimension_iff [simp]: "sameDimension d d' \<longleftrightarrow> d = d'"
  by (cases d; cases d') auto

lemma validState_phase:
  assumes "validState now s"
  shows "phase s = Active \<longleftrightarrow> status s \<noteq> None"
  using assms
  by (auto simp: validState_def stateError_None_iff phaseError_None_iff inactiveInconsistent_def
      pendingInconsistent_def activeInconsistent_def split: alertLifecyclePhase.splits)

text \<open>
  What is left of the checks for a state just evaluated at \<open>asOf\<close>, by whether an alert is
  active. These are the facts the transitions need and establish.
\<close>

definition noTimes :: "alertLifecycleState \<Rightarrow> bool" where
  "noTimes s \<longleftrightarrow> openedAt s = None \<and> lastNotificationAt s = None"

definition cooldownWithin :: "alertLifecycleState \<Rightarrow> string \<Rightarrow> bool" where
  "cooldownWithin s asOf \<longleftrightarrow>
     (case cooldownUntil s of None \<Rightarrow> True
      | Some until \<Rightarrow> canonical until \<and> getTime until - getTime asOf \<le> cooldownMs ALERT_RULE_POLICY)"

definition noBreach :: "alertLifecycleState \<Rightarrow> bool" where
  "noBreach s \<longleftrightarrow> breachEvidence s = None \<and> breachSeverity s = None \<and> consecutiveBreaches s = 0"

definition breachAt :: "alertLifecycleState \<Rightarrow> activeSeverity \<Rightarrow> bool" where
  "breachAt s sev \<longleftrightarrow>
     (\<exists>e i. breachEvidence s = Some e \<and> identity s = Some i \<and> evidenceForRule (id_ruleId i) e \<and>
        sel_severity e = sev) \<and>
     breachSeverity s = Some sev \<and> consecutiveBreaches s = 1 \<and> consecutiveClears s = 0"

definition activeTimes :: "alertLifecycleState \<Rightarrow> string \<Rightarrow> bool" where
  "activeTimes s asOf \<longleftrightarrow>
     (\<exists>opened notified. openedAt s = Some opened \<and> lastNotificationAt s = Some notified \<and>
        canonical opened \<and> canonical notified \<and>
        getTime opened \<le> getTime notified \<and> getTime notified \<le> getTime asOf)"

definition activeWith :: "alertLifecycleState \<Rightarrow> activeSeverity \<Rightarrow> bool" where
  "activeWith s sev \<longleftrightarrow>
     (\<exists>e i. activeEvidence s = Some e \<and> identity s = Some i \<and> evidenceForRule (id_ruleId i) e \<and>
        sel_severity e = sev) \<and> cooldownUntil s = None"

definition evaluatedState :: "string \<Rightarrow> alertLifecycleIdentity \<Rightarrow> alertLifecycleState \<Rightarrow> bool" where
  "evaluatedState asOf i s \<longleftrightarrow>
     identity s = Some i \<and> lastEvaluatedAt s = Some asOf \<and> inDomain 4 (consecutiveClears s) \<and>
     (case phase s of
        Inactive \<Rightarrow> status s = None \<and> activeEvidence s = None \<and> noTimes s \<and> noBreach s \<and>
          consecutiveClears s = 0 \<and> cooldownWithin s asOf
      | Pending \<Rightarrow> status s = None \<and> activeEvidence s = None \<and> noTimes s \<and>
          (\<exists>sev. breachAt s sev) \<and> cooldownWithin s asOf
      | Active \<Rightarrow> activeTimes s asOf \<and> (\<exists>sev. status s = Some sev \<and> activeWith s sev) \<and>
          (noBreach s \<or> status s = Some Warning \<and> breachAt s Critical))"

lemmas state_checks = validState_def validFields_def stateError_None_iff phaseError_None_iff
  breachCountMismatch_def breachEvidenceMismatch_def cooldownTooLong_def after_def beyondWatermark_def
  notifiedBeforeOpened_def boundEvidence_def

lemmas evaluated_defs = evaluatedState_def noTimes_def cooldownWithin_def noBreach_def breachAt_def
  activeTimes_def activeWith_def

lemma validState_inactive:
  assumes "canonical asOf" and "validIdentity i" and "identity s = Some i"
    and "lastEvaluatedAt s = Some asOf" and "phase s = Inactive"
  shows "validState (getTime asOf) s \<longleftrightarrow> evaluatedState asOf i s"
  using assms
  by (cases "cooldownUntil s")
    (auto simp: state_checks inactiveInconsistent_def evaluated_defs inDomain_def)

lemma validState_pending:
  assumes "canonical asOf" and "validIdentity i" and "identity s = Some i"
    and "lastEvaluatedAt s = Some asOf" and "phase s = Pending"
  shows "validState (getTime asOf) s \<longleftrightarrow> evaluatedState asOf i s"
  using assms
  by (cases "cooldownUntil s"; cases "breachEvidence s"; cases "breachSeverity s")
    (auto simp: state_checks pendingInconsistent_def evaluated_defs inDomain_def)

lemma validState_active:
  assumes "canonical asOf" and "validIdentity i" and "identity s = Some i"
    and "lastEvaluatedAt s = Some asOf" and "phase s = Active"
  shows "validState (getTime asOf) s \<longleftrightarrow> evaluatedState asOf i s"
  using assms
  by (cases "activeEvidence s"; cases "breachEvidence s"; cases "breachSeverity s"; cases "openedAt s";
      cases "lastNotificationAt s")
    (auto simp: state_checks activeInconsistent_def badPendingCritical_def evaluated_defs inDomain_def)

lemma validState_evaluated_iff:
  assumes "canonical asOf" and "validIdentity i" and "identity s = Some i"
    and "lastEvaluatedAt s = Some asOf"
  shows "validState (getTime asOf) s \<longleftrightarrow> evaluatedState asOf i s"
  using assms validState_inactive validState_pending validState_active by (cases "phase s") simp_all

subsection \<open>What the lifecycle relies on in an evaluation\<close>

definition soundEvaluation :: "alertRuleEvaluation \<Rightarrow> bool" where
  "soundEvaluation e \<longleftrightarrow>
     canonical (eval_asOf e) \<and> validIdentity (identityFor e) \<and>
     (eval_evidence e = Unknown \<longrightarrow> eval_severity e = None) \<and>
     (eval_immediateCritical e \<longrightarrow> eval_severity e = Some Critical) \<and>
     (case eval_selectedEvidence e of
        None \<Rightarrow> eval_severity e = None
      | Some x \<Rightarrow> eval_severity e = Some (sel_severity x) \<and> evidenceForRule (eval_ruleId e) x)"

lemma criticalEvaluation_severity:
  "criticalEvaluation obs matches = Inr e \<Longrightarrow> eval_severity e = Some Critical"
  by (auto simp: criticalEvaluation_def Let_def and_then_eq_Inr)

lemma warningEvaluation_immediate:
  "warningEvaluation obs u matches v = Inr e \<Longrightarrow> \<not> eval_immediateCritical e"
  by (cases matches) (auto simp: warningEvaluation_def and_then_eq_Inr)

lemma evaluateObservation_immediate:
  "evaluateObservation obs = Inr e \<Longrightarrow> eval_immediateCritical e \<Longrightarrow> eval_severity e = Some Critical"
  by (auto simp: evaluateObservation_def and_then_eq_Inr unknownEvaluation_def Let_def
      split: if_split_asm dest: criticalEvaluation_severity warningEvaluation_immediate)

lemma evaluateAlertRule_sound:
  assumes "evaluateAlertRule v = Inr e"
  shows "soundEvaluation e"
proof -
  obtain obs where obs: "parseAlertObservation v = Inr obs" and e: "evaluateObservation obs = Inr e"
    using assms by (auto simp: evaluateAlertRule_def and_then_eq_Inr)
  have valid: "validObservation obs"
    using obs by (rule parseAlertObservation_valid)
  have "is_ok (alertWindowsAt (obs_asOf obs))"
    using e by (auto simp: evaluateObservation_def and_then_eq_Inr)
  then obtain "meansObservation obs e" and "evidenceAgrees e"
    using evaluateObservation_meaning[OF valid] e by (auto simp: alertWindowsAt_ok)
  then show ?thesis
    using valid evaluateObservation_immediate[OF e]
    by (auto simp: soundEvaluation_def meansObservation_def evidenceAgrees_def Let_def
        validObservation_def validIdentity_def identityFor_def specEvidence_def evidenceForRule_def
        split: option.splits if_splits)
qed

lemma soundEvaluation_candidate:
  assumes "soundEvaluation e" and "eval_severity e = Some sev"
  obtains x where "eval_selectedEvidence e = Some x" and "selectedEvidenceFor e = Inr x"
    and "sel_severity x = sev" and "evidenceForRule (eval_ruleId e) x"
  using assms by (auto simp: soundEvaluation_def selectedEvidenceFor_def split: option.splits)

subsection \<open>Every transition keeps the invariant\<close>

lemma boundState_evaluated:
  assumes valid: "validState (getTime asOf) p" and e: "soundEvaluation e" and asOf: "canonical asOf"
    and ident: "identity p = None \<or>
      identity p = Some (identityFor e) \<and> (\<exists>t. lastEvaluatedAt p = Some t \<and> getTime t < getTime asOf)"
  shows "evaluatedState asOf (identityFor e) (boundState e p asOf)"
proof -
  have i: "validIdentity (identityFor e)"
    using e by (simp add: soundEvaluation_def)
  have "validState (getTime asOf) (boundState e p asOf)"
    using valid ident asOf i
    by (cases "phase p"; cases "cooldownUntil p"; cases "identity p"; cases "lastEvaluatedAt p")
      (auto simp: state_checks boundState_def inactiveInconsistent_def pendingInconsistent_def
        activeInconsistent_def badPendingCritical_def split: option.splits if_splits)
  moreover have "identity (boundState e p asOf) = Some (identityFor e)"
    using ident by (auto simp: boundState_def)
  ultimately show ?thesis
    using validState_evaluated_iff[OF asOf i] by (simp add: boundState_def)
qed

lemma clearedBreach_simps [simp]:
  "identity (clearedBreach s) = identity s" "lastEvaluatedAt (clearedBreach s) = lastEvaluatedAt s"
  "status (clearedBreach s) = status s" "activeEvidence (clearedBreach s) = activeEvidence s"
  "openedAt (clearedBreach s) = openedAt s" "phase (clearedBreach s) = phase s"
  "lastNotificationAt (clearedBreach s) = lastNotificationAt s"
  "cooldownUntil (clearedBreach s) = cooldownUntil s" "consecutiveClears (clearedBreach s) = 0"
  "breachEvidence (clearedBreach s) = None" "breachSeverity (clearedBreach s) = None"
  "consecutiveBreaches (clearedBreach s) = 0"
  by (simp_all add: clearedBreach_def)

lemma evaluated_status:
  "evaluatedState asOf i s \<Longrightarrow> status s \<noteq> None \<longleftrightarrow> phase s = Active"
  by (auto simp: evaluatedState_def split: alertLifecyclePhase.splits)

lemma advanceUnknown_evaluated:
  assumes "evaluatedState asOf i s" and "advanceUnknown s = (intent, s')"
  shows "evaluatedState asOf i s'"
  using assms
  by (cases "phase s")
    (auto simp: advanceUnknown_def evaluated_defs inDomain_def split: if_splits)

lemma stableActiveResult_evaluated:
  assumes s: "evaluatedState asOf i s" and e: "soundEvaluation e" and rule: "id_ruleId i = eval_ruleId e"
    and asOf: "canonical asOf" and r: "stableActiveResult e s asOf (getTime asOf) refresh = Inr (intent, s')"
  shows "evaluatedState asOf i s'"
proof -
  obtain sev active where active: "status s = Some sev" "activeEvidence s = Some active" "phase s = Active"
    using s r evaluated_status[OF s] by (auto simp: stableActiveResult_def split: option.splits)
  obtain x where x: "(if refresh then selectedEvidenceFor e else Inr active) = Inr x" "sel_severity x = sev"
    and s': "s' = (clearedBreach s)\<lparr>activeEvidence := Some x, phase := Active\<rparr> \<or>
      s' = (clearedBreach s)\<lparr>activeEvidence := Some x, phase := Active, lastNotificationAt := Some asOf\<rparr>"
    using r active
    by (auto simp: stableActiveResult_def and_then_eq_Inr throw_if_eq_Inr Let_def split: if_splits)
  have "evidenceForRule (id_ruleId i) x"
  proof (cases refresh)
    case True
    then show ?thesis
      using x e rule by (auto simp: selectedEvidenceFor_def soundEvaluation_def split: option.splits)
  next
    case False
    then show ?thesis
      using x s active by (auto simp: evaluated_defs)
  qed
  then show ?thesis
    using s' s active x asOf by (auto simp: evaluated_defs inDomain_def)
qed

lemma advanceClear_evaluated:
  assumes s: "evaluatedState asOf i s" and e: "soundEvaluation e" and rule: "id_ruleId i = eval_ruleId e"
    and asOf: "canonical asOf" and r: "advanceClear e s asOf = Inr (intent, s')"
  shows "evaluatedState asOf i s'"
proof (cases "status s")
  case None
  then show ?thesis
    using s r by (cases "phase s")
      (auto simp: advanceClear_def inactiveAlertState_def evaluated_defs inDomain_def)
next
  case (Some sev)
  then have active: "phase s = Active"
    using evaluated_status[OF s] by simp
  consider (manual) "stableActiveResult e s asOf (getTime asOf) False = Inr (intent, s')"
    | (count) "consecutiveClears s + 1 < clearConsecutive ALERT_RULE_POLICY"
        "s' = (clearedBreach s)\<lparr>consecutiveClears := consecutiveClears s + 1\<rparr>"
    | (resolve) until where "addMilliseconds asOf (cooldownMs ALERT_RULE_POLICY) = Inr until"
        "s' = inactiveAlertState\<lparr>cooldownUntil := Some until, identity := identity s,
          lastEvaluatedAt := Some asOf\<rparr>"
    using r Some by (auto simp: advanceClear_def Let_def and_then_eq_Inr split: if_splits)
  then show ?thesis
  proof cases
    case manual
    then show ?thesis
      using stableActiveResult_evaluated[OF s e rule asOf] by blast
  next
    case count
    then show ?thesis
      using s active by (auto simp: evaluated_defs inDomain_def ALERT_RULE_POLICY_def)
  next
    case (resolve until)
    then have "canonical until" "getTime until = getTime asOf + cooldownMs ALERT_RULE_POLICY"
      by (auto simp: addMilliseconds_def toISOString_Inr_iff canonical_def getTime_canonical)
    then show ?thesis
      using s resolve(2) by (auto simp: evaluated_defs inactiveAlertState_def inDomain_def)
  qed
qed

text \<open>
  The outcomes of a breach the alert does not already carry: it is counted, it escalates a
  warning, it opens an alert, or the cooldown holds it back one short of the required count.
\<close>

lemma advanceCandidate_cases:
  assumes "advanceCandidate e s asOf sev = Inr (intent, s')" and "eval_selectedEvidence e = Some x"
    and "status s \<noteq> Some Critical" and "status s = Some Warning \<Longrightarrow> sev = Critical"
    and pending: "pendingState = s\<lparr>breachEvidence := Some x, breachSeverity := Some sev,
             consecutiveBreaches := startOrContinueBreach s sev, consecutiveClears := 0,
             phase := (if status s = None then Pending else Active)\<rparr>"
    and required: "required = requiredBreaches (eval_immediateCritical e) sev"
  obtains
    (wait) "startOrContinueBreach s sev < required" "intent = None" "s' = pendingState"
  | (escalate) "required \<le> startOrContinueBreach s sev" "status s = Some Warning" "sev = Critical"
      "intent = Some (EscalateIntent (activeIntentBase e asOf) x)"
      "s' = activated pendingState x asOf Critical"
  | (hold) "required \<le> startOrContinueBreach s sev" "status s = None" "cooldownUntil s \<noteq> None"
      "sev = Warning" "intent = None" "s' = pendingState\<lparr>consecutiveBreaches := required - 1\<rparr>"
  | (open_alert) "required \<le> startOrContinueBreach s sev" "status s = None"
      "cooldownUntil s = None \<or> sev = Critical"
      "intent = Some (OpenIntent (activeIntentBase e asOf) x sev)"
      "s' = (activated pendingState x asOf sev)\<lparr>cooldownUntil := None, openedAt := Some asOf\<rparr>"
proof -
  have "(if startOrContinueBreach s sev < required then Inr (None, pendingState)
      else if status s = Some Warning \<and> sev = Critical
      then Inr (Some (EscalateIntent (activeIntentBase e asOf) x), activated pendingState x asOf Critical)
      else if status s = None then
        (if cooldownUntil s \<noteq> None \<and> sev = Warning
         then Inr (None, pendingState\<lparr>consecutiveBreaches := required - 1\<rparr>)
         else Inr (Some (OpenIntent (activeIntentBase e asOf) x sev),
                   (activated pendingState x asOf sev)\<lparr>cooldownUntil := None, openedAt := Some asOf\<rparr>))
      else stableActiveResult e s asOf (getTime asOf) False) = Inr (intent, s')"
    using assms(1)
    by (simp only: advanceCandidate_def selectedEvidenceFor_def assms(2) option.case and_then_Inr
        Let_def pending required)
  moreover have "status s = None \<or> status s = Some Warning \<and> sev = Critical"
    using assms(3,4) by (metis activeSeverity.exhaust option.exhaust)
  moreover have "sev = Warning \<or> sev = Critical"
    by (cases sev) simp_all
  ultimately show thesis
    using that by (auto split: if_splits)
qed

lemma requiredBreaches_range:
  "requiredBreaches immediate sev = 1 \<or> requiredBreaches immediate sev = 2 \<and> \<not> immediate"
  by (auto simp: requiredBreaches_def ALERT_RULE_POLICY_def split: activeSeverity.splits)

lemma startOrContinueBreach_range:
  assumes "evaluatedState asOf i s"
  shows "startOrContinueBreach s sev \<in> {1, 2}"
    and "startOrContinueBreach s sev = 2 \<longleftrightarrow> breachSeverity s = Some sev"
  using assms
  by (auto simp: startOrContinueBreach_def evaluated_defs split: alertLifecyclePhase.splits)

lemma activated_simps [simp]:
  "identity (activated s x asOf sev) = identity s" "lastEvaluatedAt (activated s x asOf sev) = lastEvaluatedAt s"
  "status (activated s x asOf sev) = Some sev" "activeEvidence (activated s x asOf sev) = Some x"
  "openedAt (activated s x asOf sev) = openedAt s" "phase (activated s x asOf sev) = Active"
  "lastNotificationAt (activated s x asOf sev) = Some asOf"
  "cooldownUntil (activated s x asOf sev) = cooldownUntil s"
  "consecutiveClears (activated s x asOf sev) = consecutiveClears s"
  "breachEvidence (activated s x asOf sev) = None" "breachSeverity (activated s x asOf sev) = None"
  "consecutiveBreaches (activated s x asOf sev) = 0"
  by (simp_all add: activated_def)

lemma advanceCandidate_evaluated:
  assumes s: "evaluatedState asOf i s" and e: "soundEvaluation e" and rule: "id_ruleId i = eval_ruleId e"
    and asOf: "canonical asOf" and sev: "eval_severity e = Some sev" and st: "status s \<noteq> Some Critical"
    and w: "status s = Some Warning \<Longrightarrow> sev = Critical"
    and r: "advanceCandidate e s asOf sev = Inr (intent, s')"
  shows "evaluatedState asOf i s'"
proof -
  obtain x where x: "eval_selectedEvidence e = Some x" "sel_severity x = sev"
    and ev: "evidenceForRule (eval_ruleId e) x"
    using soundEvaluation_candidate[OF e sev] by metis
  note range = startOrContinueBreach_range[OF s, of sev]
    requiredBreaches_range[of "eval_immediateCritical e" sev]
  have phases: "phase s = Active \<longleftrightarrow> status s \<noteq> None"
    using evaluated_status[OF s] by simp
  have st_sev: "status s = None \<or> status s = Some Warning \<and> sev = Critical"
    using st w by (metis activeSeverity.exhaust option.exhaust)
  show ?thesis
  proof (cases rule: advanceCandidate_cases[OF r x(1) st w refl refl])
    case 2
    have "startOrContinueBreach s sev = 1"
      using range 2(1) by auto
    then show ?thesis
      using st_sev s 2(3) x ev rule phases
      by (elim disjE; cases "phase s") (auto simp: evaluated_defs inDomain_def)
  next
    case 3
    then show ?thesis
      using s x ev rule phases asOf by (auto simp: evaluated_defs inDomain_def)
  next
    case 4
    have "requiredBreaches (eval_immediateCritical e) sev = 2"
      using e sev 4(4) by (auto simp: soundEvaluation_def requiredBreaches_def ALERT_RULE_POLICY_def)
    then show ?thesis
      using s 4 x ev rule phases by (cases "phase s") (auto simp: evaluated_defs inDomain_def)
  next
    case 5
    then show ?thesis
      using s x ev rule phases asOf
      by (cases "phase s") (auto simp: evaluated_defs inDomain_def)
  qed (use st w in auto)
qed

lemma advanceBound_evaluated:
  assumes s: "evaluatedState asOf i s" and e: "soundEvaluation e" and rule: "id_ruleId i = eval_ruleId e"
    and asOf: "canonical asOf" and r: "advanceBound e s asOf = Inr (intent, s')"
  shows "evaluatedState asOf i s'"
proof (cases "eval_evidence e = Unknown")
  case True
  then show ?thesis
    using r advanceUnknown_evaluated[OF s] by (simp add: advanceBound_def)
next
  case False
  show ?thesis
  proof (cases "eval_severity e")
    case None
    then show ?thesis
      using r False advanceClear_evaluated[OF s e rule asOf] by (simp add: advanceBound_def)
  next
    case (Some sev)
    then have r': "advanceBreach e s asOf sev = Inr (intent, s')"
      using r False by (simp add: advanceBound_def)
    show ?thesis
    proof (cases "status s = Some Critical \<or> status s = Some Warning \<and> sev = Warning")
      case True
      then have "\<exists>refresh. stableActiveResult e s asOf (getTime asOf) refresh = Inr (intent, s')"
        using r' unfolding advanceBreach_def by (metis option.inject activeSeverity.distinct(1))
      then show ?thesis
        using stableActiveResult_evaluated[OF s e rule asOf] by blast
    next
      case False
      then have "advanceCandidate e s asOf sev = Inr (intent, s')"
        using r' unfolding advanceBreach_def by (auto split: if_splits)
      then show ?thesis
        using advanceCandidate_evaluated[OF s e rule asOf Some] False by (metis activeSeverity.exhaust)
    qed
  qed
qed

text \<open>
  \<open>advanceEvaluated\<close> either leaves an unbound state as it is, or runs \<open>advanceBound\<close> on the
  bound state; in the second case its identity is the one observed and time has moved on.
\<close>

lemma advanceEvaluated_cases:
  assumes "advanceEvaluated e p asOf = Inr (intent, s')"
  obtains (idle) "identity p = None" "eval_evidence e = Unknown \<or> eval_severity e = None"
      "intent = None" "s' = p"
  | (bound) "identity p = None \<or> identity p = Some (identityFor e) \<and>
        (\<exists>t. lastEvaluatedAt p = Some t \<and> getTime t < getTime asOf)"
      "advanceBound e (boundState e p asOf) asOf = Inr (intent, s')"
proof (cases "identity p")
  case None
  then have "(eval_evidence e = Unknown \<or> eval_severity e = None) \<and> intent = None \<and> s' = p \<or>
      advanceBound e (boundState e p asOf) asOf = Inr (intent, s')"
    using assms by (auto simp: advanceEvaluated_def split: if_splits)
  then show ?thesis
    using that None by blast
next
  case (Some i)
  then have "i = identityFor e" "\<exists>t. lastEvaluatedAt p = Some t \<and> getTime t < getTime asOf"
    "advanceBound e (boundState e p asOf) asOf = Inr (intent, s')"
    using assms
    by (auto simp: advanceEvaluated_def assertSameIdentity_def identityFor_def and_then_eq_Inr
        throw_if_eq_Inr not_le split: option.splits)
  then show ?thesis
    using that(2) Some by blast
qed

lemma advanceEvaluated_valid:
  assumes valid: "validState (getTime asOf) p" and e: "soundEvaluation e" and asOf: "canonical asOf"
    and r: "advanceEvaluated e p asOf = Inr (intent, s')"
  shows "validState (getTime asOf) s'"
  using r
proof (cases rule: advanceEvaluated_cases)
  case idle
  then show ?thesis using valid by simp
next
  case bound
  have i: "validIdentity (identityFor e)"
    using e by (simp add: soundEvaluation_def)
  have "evaluatedState asOf (identityFor e) s'"
    using boundState_evaluated[OF valid e asOf bound(1)] e _ asOf bound(2)
    by (rule advanceBound_evaluated) (simp add: identityFor_def)
  then show ?thesis
    using validState_evaluated_iff[OF asOf i] by (simp add: evaluatedState_def)
qed

text \<open>The parts of a successful call.\<close>

lemma advanceAlertLifecycle_parts:
  assumes "advanceAlertLifecycle input = Inr (intent, s')"
  obtains r e p where "input = JObj r"
    and "field_of r ''asOf'' = JStr (eval_asOf e)" and "canonical (eval_asOf e)"
    and "evaluateAlertRule (field_of r ''observation'') = Inr e" and "soundEvaluation e"
    and "parseState (field_of r ''previous'') (getTime (eval_asOf e)) = Inr p"
    and "validState (getTime (eval_asOf e)) p"
    and "advanceEvaluated e p (eval_asOf e) = Inr (intent, s')"
proof -
  obtain r e p where parts: "exactRecord input [''asOf'', ''observation'', ''previous''] ''alert lifecycle input'' = Inr r"
    "field_of r ''asOf'' = JStr (eval_asOf e)" "canonical (eval_asOf e)"
    "evaluateAlertRule (field_of r ''observation'') = Inr e"
    "parseState (field_of r ''previous'') (getTime (eval_asOf e)) = Inr p"
    "advanceEvaluated e p (eval_asOf e) = Inr (intent, s')"
    using assms
    by (auto simp: advanceAlertLifecycle_def and_then_eq_Inr throw_if_eq_Inr canonicalTimestamp_Inr_iff)
  then show thesis
    using that[of r e p] evaluateAlertRule_sound[OF parts(4)] lifecycleState.dec_valid[OF parts(5)]
    by (simp add: exactRecord_nonempty_Inr_iff)
qed

lemma advanceAlertLifecycle_valid:
  assumes "advanceAlertLifecycle (JObj r) = Inr (intent, s')" and "field_of r ''asOf'' = JStr asOf"
  shows "validState (getTime asOf) s'"
  using advanceAlertLifecycle_parts[OF assms(1)] assms(2) advanceEvaluated_valid
  by (metis js.inject(3,5))

end
