(* ===== verification/Step_System.thy ===== *)
theory Step_System
  imports Prelude
begin

section \<open>Runs of a fallible step function\<close>

text \<open>
  Several components advance a stored state by one call per event: the alert lifecycle, the
  delivery state machines, the recovery sessions. A run feeds a list of inputs to the step
  function and collects the outputs; it stops at the first exception. The locales state what a
  component has to show of one step, and give the consequence for whole runs.
\<close>

fun runSteps :: "('s \<Rightarrow> 'i \<Rightarrow> ('o \<times> 's) result) \<Rightarrow> 's \<Rightarrow> 'i list \<Rightarrow> ('o list \<times> 's) result" where
  "runSteps step s [] = Inr ([], s)"
| "runSteps step s (i # is) =
     and_then (step s i) (\<lambda>(out, s').
     and_then (runSteps step s' is) (\<lambda>(outs, s'').
       Inr (out # outs, s'')))"

lemma runSteps_Cons_Inr [result_simps]:
  "runSteps step s (i # is) = Inr (outs, s'') \<longleftrightarrow>
     (\<exists>out s' rest. step s i = Inr (out, s') \<and> runSteps step s' is = Inr (rest, s'') \<and>
        outs = out # rest)"
  by (auto simp: and_then_eq_Inr)

text \<open>An invariant of the step function.\<close>

locale step_system =
  fixes step :: "'s \<Rightarrow> 'i \<Rightarrow> ('o \<times> 's) result"
    and inv :: "'s \<Rightarrow> bool"
  assumes step_inv: "inv s \<Longrightarrow> step s i = Inr (out, s') \<Longrightarrow> inv s'"
begin

lemma run_inv: "inv s \<Longrightarrow> runSteps step s is = Inr (outs, s') \<Longrightarrow> inv s'"
  by (induction "is" arbitrary: s outs) (auto simp: runSteps_Cons_Inr simp del: runSteps.simps(2)
      dest: step_inv)

end

text \<open>
  An abstract log of the outputs: \<open>replay\<close> accepts or rejects the next output in a log state,
  \<open>rel\<close> relates the concrete state to the log state. Every run is then accepted by the log.
\<close>

fun replayAll :: "('l \<Rightarrow> 'o \<Rightarrow> 'l option) \<Rightarrow> 'l \<Rightarrow> 'o list \<Rightarrow> 'l option" where
  "replayAll replay l [] = Some l"
| "replayAll replay l (out # outs) =
     (case replay l out of None \<Rightarrow> None | Some l' \<Rightarrow> replayAll replay l' outs)"

locale logged_system = step_system step inv
  for step :: "'s \<Rightarrow> 'i \<Rightarrow> ('o \<times> 's) result" and inv :: "'s \<Rightarrow> bool" +
  fixes replay :: "'l \<Rightarrow> 'o \<Rightarrow> 'l option"
    and rel :: "'s \<Rightarrow> 'l \<Rightarrow> bool"
  assumes step_replay:
    "inv s \<Longrightarrow> rel s l \<Longrightarrow> step s i = Inr (out, s') \<Longrightarrow> \<exists>l'. replay l out = Some l' \<and> rel s' l'"
begin

lemma run_replay:
  assumes "inv s" and "rel s l" and "runSteps step s is = Inr (outs, s')"
  shows "\<exists>l'. replayAll replay l outs = Some l' \<and> rel s' l'"
  using assms
proof (induction "is" arbitrary: s l outs)
  case (Cons i "is")
  then obtain out s1 rest where 1: "step s i = Inr (out, s1)" "runSteps step s1 is = Inr (rest, s')"
    "outs = out # rest"
    by (auto simp: runSteps_Cons_Inr simp del: runSteps.simps(2))
  then obtain l1 where "replay l out = Some l1" "rel s1 l1"
    using step_replay Cons.prems by blast
  then show ?case
    using Cons.IH[of s1 l1 rest] step_inv[OF Cons.prems(1) 1(1)] 1 by auto
qed auto

end

text \<open>
  An invariant that relates what was accepted so far to the state it led to, for the other
  direction: what an accepted log is like.
\<close>

lemma replayAll_append:
  "replayAll replay l (xs @ ys) = (case replayAll replay l xs of None \<Rightarrow> None | Some l' \<Rightarrow> replayAll replay l' ys)"
  by (induction xs arbitrary: l) (auto split: option.splits)

lemma replayAll_snoc:
  "replayAll replay l xs = Some l' \<Longrightarrow> replayAll replay l (xs @ [out]) = replay l' out"
  by (simp add: replayAll_append split: option.splits)

locale log_history =
  fixes replay :: "'l \<Rightarrow> 'o \<Rightarrow> 'l option"
    and start :: 'l
    and history :: "'o list \<Rightarrow> 'l \<Rightarrow> bool"
  assumes history_start: "history [] start"
    and history_step: "history outs l \<Longrightarrow> replay l out = Some l' \<Longrightarrow> history (outs @ [out]) l'"
begin

lemma accepted_history: "replayAll replay start outs = Some l \<Longrightarrow> history outs l"
proof (induction outs arbitrary: l rule: rev_induct)
  case (snoc out outs)
  then obtain l0 where "replayAll replay start outs = Some l0"
    by (cases "replayAll replay start outs") (auto simp: replayAll_append)
  with snoc show ?case
    using history_step by (auto simp: replayAll_snoc)
qed (simp add: history_start)

end

end
