(* ===== verification/Alert_Lifecycle_Log.thy ===== *)
theory Alert_Lifecycle_Log
  imports Alert_Lifecycle_Invariant Step_System
begin

section \<open>The incident log of an alert\<close>

text \<open>
  What a consumer of the intents can rely on. An incident record keeps what the intents alone
  tell: the severity, when the alert was opened and last notified, and until when a warning may
  not open again. \<open>replayIntent\<close> is the contract of the intents; the lifecycle meets it on every
  run, and its state agrees with the replayed record.
\<close>

record incident =
  inc_status :: alertSeverity
  inc_openedAt :: "string option"
  inc_notifiedAt :: "string option"
  inc_cooldown :: "int option"

definition noIncident :: incident where
  "noIncident = \<lparr>inc_status = None, inc_openedAt = None, inc_notifiedAt = None, inc_cooldown = None\<rparr>"

text \<open>
  An alert opens only when none is open, and during a cooldown only as critical; only a warning
  escalates, to critical; a reminder repeats the severity, at least the interval after the last
  notification; only the open severity is resolved, which starts a cooldown of thirty minutes.
\<close>

definition mayOpen :: "incident \<Rightarrow> string \<Rightarrow> activeSeverity \<Rightarrow> bool" where
  "mayOpen l at sev \<longleftrightarrow>
     inc_status l = None \<and>
     (sev = Critical \<or> (case inc_cooldown l of None \<Rightarrow> True | Some c \<Rightarrow> c \<le> getTime at))"

definition mayRemind :: "incident \<Rightarrow> string \<Rightarrow> activeSeverity \<Rightarrow> bool" where
  "mayRemind l at sev \<longleftrightarrow>
     inc_status l = Some sev \<and>
     (case inc_notifiedAt l of None \<Rightarrow> False
      | Some n \<Rightarrow> reminderInterval sev \<le> getTime at - getTime n)"

fun replayIntent :: "incident \<Rightarrow> alertActionIntent option \<Rightarrow> incident option" where
  "replayIntent l None = Some l"
| "replayIntent l (Some (OpenIntent b x sev)) =
     (if mayOpen l (int_at b) sev \<and> sel_severity x = sev
      then Some \<lparr>inc_status = Some sev, inc_openedAt = Some (int_at b),
        inc_notifiedAt = Some (int_at b), inc_cooldown = None\<rparr>
      else None)"
| "replayIntent l (Some (EscalateIntent b x)) =
     (if inc_status l = Some Warning \<and> sel_severity x = Critical
      then Some (l\<lparr>inc_status := Some Critical, inc_notifiedAt := Some (int_at b)\<rparr>)
      else None)"
| "replayIntent l (Some (RemindIntent b x sev)) =
     (if mayRemind l (int_at b) sev \<and> sel_severity x = sev
      then Some (l\<lparr>inc_notifiedAt := Some (int_at b)\<rparr>) else None)"
| "replayIntent l (Some (ResolveIntent b sev)) =
     (if inc_status l = Some sev
      then Some \<lparr>inc_status = None, inc_openedAt = None, inc_notifiedAt = None,
        inc_cooldown = Some (getTime (int_at b) + cooldownMs ALERT_RULE_POLICY)\<rparr>
      else None)"

definition cooldownAgrees :: "alertLifecycleState \<Rightarrow> int option \<Rightarrow> bool" where
  "cooldownAgrees s c \<longleftrightarrow>
     (case c of
        None \<Rightarrow> cooldownUntil s = None
      | Some until \<Rightarrow>
          (case cooldownUntil s of
             Some u \<Rightarrow> getTime u = until
           | None \<Rightarrow> (\<exists>t. lastEvaluatedAt s = Some t \<and> until \<le> getTime t)))"

definition logAgrees :: "alertLifecycleState \<Rightarrow> incident \<Rightarrow> bool" where
  "logAgrees s l \<longleftrightarrow>
     inc_status l = status s \<and> inc_openedAt l = openedAt s \<and> inc_notifiedAt l = lastNotificationAt s \<and>
     (status s = None \<longrightarrow> cooldownAgrees s (inc_cooldown l)) \<and>
     (status s \<noteq> None \<longrightarrow> inc_cooldown l = None)"

subsection \<open>One evaluation\<close>

lemma boundState_logAgrees:
  assumes "logAgrees p l"
    and "identity p = None \<Longrightarrow> cooldownUntil p = None"
    and "identity p = None \<or> (\<exists>t. lastEvaluatedAt p = Some t \<and> getTime t < getTime asOf)"
    and "identity p = None \<longleftrightarrow> lastEvaluatedAt p = None"
  shows "logAgrees (boundState e p asOf) l"
  using assms
  by (cases "inc_cooldown l"; cases "cooldownUntil p"; cases "lastEvaluatedAt p")
    (auto simp: logAgrees_def boundState_def cooldownAgrees_def)

lemma advanceUnknown_log:
  assumes "evaluatedState asOf i s" and "logAgrees s l" and "advanceUnknown s = (intent, s')"
  shows "replayIntent l intent = Some l \<and> logAgrees s' l"
  using assms by (auto simp: advanceUnknown_def logAgrees_def cooldownAgrees_def split: option.splits)

lemma stableActiveResult_log:
  assumes s: "evaluatedState asOf i s" and l: "logAgrees s l"
    and r: "stableActiveResult e s asOf (getTime asOf) refresh = Inr (intent, s')"
  shows "\<exists>l'. replayIntent l intent = Some l' \<and> logAgrees s' l'"
proof -
  obtain sev active where active: "status s = Some sev" "activeEvidence s = Some active"
    using r by (auto simp: stableActiveResult_def split: option.splits)
  obtain n where n: "lastNotificationAt s = Some n"
    using s active evaluated_status[OF s] by (auto simp: evaluated_defs)
  obtain x where x: "sel_severity x = sev"
    and s': "intent = None \<and> s' = (clearedBreach s)\<lparr>activeEvidence := Some x, phase := Active\<rparr> \<or>
      reminderDue s (getTime asOf) \<and> intent = Some (RemindIntent (activeIntentBase e asOf) x sev) \<and>
      s' = (clearedBreach s)\<lparr>activeEvidence := Some x, phase := Active, lastNotificationAt := Some asOf\<rparr>"
    using r active n
    by (auto simp: stableActiveResult_def and_then_eq_Inr throw_if_eq_Inr Let_def reminderDue_def
        split: if_splits)
  have "reminderDue s (getTime asOf) \<Longrightarrow> mayRemind l asOf sev"
    using l active n by (auto simp: reminderDue_def mayRemind_def logAgrees_def)
  then show ?thesis
    using s' l active x by (auto simp: logAgrees_def activeIntentBase_def)
qed

lemma advanceClear_log:
  assumes s: "evaluatedState asOf i s" and l: "logAgrees s l"
    and r: "advanceClear e s asOf = Inr (intent, s')"
  shows "\<exists>l'. replayIntent l intent = Some l' \<and> logAgrees s' l'"
proof (cases "status s")
  case None
  then have "noTimes s"
    using s by (auto simp: evaluatedState_def split: alertLifecyclePhase.splits)
  then show ?thesis
    using s l r None
    by (auto simp: advanceClear_def logAgrees_def inactiveAlertState_def cooldownAgrees_def
        evaluatedState_def noTimes_def split: option.splits)
next
  case (Some sev)
  show ?thesis
  proof (cases "stableActiveResult e s asOf (getTime asOf) False = Inr (intent, s')")
    case True
    then show ?thesis
      by (rule stableActiveResult_log[OF s l])
  next
    case False
    then show ?thesis
      using r Some l
      by (auto simp: advanceClear_def Let_def and_then_eq_Inr addMilliseconds_def toISOString_Inr_iff
          getTime_canonical logAgrees_def inactiveAlertState_def cooldownAgrees_def activeIntentBase_def
          split: if_splits)
  qed
qed

lemma advanceCandidate_log:
  assumes s: "evaluatedState asOf i s" and e: "soundEvaluation e" and l: "logAgrees s l"
    and sev: "eval_severity e = Some sev" and st: "status s \<noteq> Some Critical"
    and w: "status s = Some Warning \<Longrightarrow> sev = Critical"
    and r: "advanceCandidate e s asOf sev = Inr (intent, s')"
    and cooldown: "status s = None \<Longrightarrow> cooldownUntil s = None \<Longrightarrow> \<exists>t. lastEvaluatedAt s = Some t \<and> getTime t \<le> getTime asOf"
  shows "\<exists>l'. replayIntent l intent = Some l' \<and> logAgrees s' l'"
proof -
  obtain x where x: "eval_selectedEvidence e = Some x" "sel_severity x = sev"
    using soundEvaluation_candidate[OF e sev] by metis
  show ?thesis
  proof (cases rule: advanceCandidate_cases[OF r x(1) st w refl refl])
    case 2
    then show ?thesis
      using l by (auto simp: logAgrees_def cooldownAgrees_def split: option.splits)
  next
    case 3
    then show ?thesis
      using l x by (auto simp: logAgrees_def activeIntentBase_def)
  next
    case 4
    then show ?thesis
      using l by (auto simp: logAgrees_def cooldownAgrees_def split: option.splits)
  next
    case 5
    then have "mayOpen l asOf sev"
      using l cooldown by (auto simp: mayOpen_def logAgrees_def cooldownAgrees_def split: option.splits)
    then show ?thesis
      using 5 x by (auto simp: logAgrees_def cooldownAgrees_def activeIntentBase_def)
  qed (use st w in auto)
qed

lemma advanceBound_log:
  assumes s: "evaluatedState asOf i s" and e: "soundEvaluation e" and l: "logAgrees s l"
    and r: "advanceBound e s asOf = Inr (intent, s')"
  shows "\<exists>l'. replayIntent l intent = Some l' \<and> logAgrees s' l'"
proof (cases "eval_evidence e = Unknown")
  case True
  then show ?thesis
    using r advanceUnknown_log[OF s l] by (simp add: advanceBound_def)
next
  case False
  show ?thesis
  proof (cases "eval_severity e")
    case None
    then show ?thesis
      using r False advanceClear_log[OF s l] by (simp add: advanceBound_def)
  next
    case (Some sev)
    then have r': "advanceBreach e s asOf sev = Inr (intent, s')"
      using r False by (simp add: advanceBound_def)
    show ?thesis
    proof (cases "status s = Some Critical \<or> status s = Some Warning \<and> sev = Warning")
      case True
      then have "\<exists>refresh. stableActiveResult e s asOf (getTime asOf) refresh = Inr (intent, s')"
        using r' unfolding advanceBreach_def by (metis option.inject activeSeverity.distinct(1))
      then show ?thesis
        using stableActiveResult_log[OF s l] by blast
    next
      case False
      then have c: "advanceCandidate e s asOf sev = Inr (intent, s')"
        using r' unfolding advanceBreach_def by (auto split: if_splits)
      have t: "\<exists>t. lastEvaluatedAt s = Some t \<and> getTime t \<le> getTime asOf"
        using s by (simp add: evaluatedState_def)
      show ?thesis
        by (rule advanceCandidate_log[OF s e l Some _ _ c t]) (use False in \<open>auto intro: activeSeverity.exhaust\<close>)
    qed
  qed
qed

lemma validState_unbound:
  assumes "validState now s" and "identity s = None"
  shows "cooldownUntil s = None" and "lastEvaluatedAt s = None"
  using assms
  by (auto simp: validState_def stateError_None_iff cooldownTooLong_def split: option.splits)

lemma advanceEvaluated_log:
  assumes valid: "validState (getTime asOf) p" and e: "soundEvaluation e" and asOf: "canonical asOf"
    and l: "logAgrees p l" and r: "advanceEvaluated e p asOf = Inr (intent, s')"
  shows "\<exists>l'. replayIntent l intent = Some l' \<and> logAgrees s' l'"
  using r
proof (cases rule: advanceEvaluated_cases)
  case idle
  then show ?thesis using l by simp
next
  case bound
  have "identity p = None \<longleftrightarrow> lastEvaluatedAt p = None"
    using valid by (simp add: validState_def stateError_None_iff)
  then have "logAgrees (boundState e p asOf) l"
    using bound(1) validState_unbound[OF valid] by (intro boundState_logAgrees[OF l]) auto
  then show ?thesis
    using advanceBound_log[OF boundState_evaluated[OF valid e asOf bound(1)] e _ bound(2)] by blast
qed

subsection \<open>Runs\<close>

text \<open>The next call: the state of the last one is stored and parsed again.\<close>

definition lifecycleInput :: "string \<Rightarrow> js \<Rightarrow> js \<Rightarrow> js" where
  "lifecycleInput asOf observation previous =
     JObj [(''asOf'', JStr asOf), (''observation'', observation), (''previous'', previous)]"

definition lifecycleStep :: "alertLifecycleState \<Rightarrow> string \<times> js \<Rightarrow> alertLifecycleResult result" where
  "lifecycleStep s input =
     advanceAlertLifecycle (lifecycleInput (fst input) (snd input) (jsOfState s))"

definition storedState :: "alertLifecycleState \<Rightarrow> bool" where
  "storedState s \<longleftrightarrow> (\<exists>now. validState now s)"

lemma lifecycleStep_parts:
  assumes "storedState s" and "lifecycleStep s input = Inr (intent, s')"
  obtains e where "evaluateAlertRule (snd input) = Inr e" and "soundEvaluation e"
    and "eval_asOf e = fst input" and "validState (getTime (fst input)) s"
    and "advanceEvaluated e s (fst input) = Inr (intent, s')"
proof -
  obtain r e p where *: "JObj r = lifecycleInput (fst input) (snd input) (jsOfState s)"
    "field_of r ''asOf'' = JStr (eval_asOf e)" "evaluateAlertRule (field_of r ''observation'') = Inr e"
    "soundEvaluation e" "parseState (field_of r ''previous'') (getTime (eval_asOf e)) = Inr p"
    "validState (getTime (eval_asOf e)) p" "advanceEvaluated e p (eval_asOf e) = Inr (intent, s')"
    using advanceAlertLifecycle_parts[OF assms(2)[unfolded lifecycleStep_def]] by metis
  then have fields: "fst input = eval_asOf e" "field_of r ''observation'' = snd input"
    "field_of r ''previous'' = jsOfState s"
    by (auto simp: lifecycleInput_def)
  have "parseStateFields (jsOfState s) = Inr s"
    using assms(1) by (auto simp: storedState_def validState_def intro: parseStateFields_enc)
  then have "p = s"
    using *(5) fields by (auto simp: parseState_def split: option.splits)
  then show thesis
    using that[of e] * fields by simp
qed

lemma storedState_step:
  assumes "storedState s" and "lifecycleStep s input = Inr (intent, s')"
  shows "storedState s'"
proof -
  obtain e where "soundEvaluation e" "eval_asOf e = fst input" "validState (getTime (fst input)) s"
    "advanceEvaluated e s (fst input) = Inr (intent, s')"
    using lifecycleStep_parts[OF assms] .
  then show ?thesis
    using advanceEvaluated_valid by (metis soundEvaluation_def storedState_def)
qed

interpretation lifecycle: logged_system lifecycleStep storedState replayIntent logAgrees
proof
  show "storedState s \<Longrightarrow> lifecycleStep s input = Inr (out, s') \<Longrightarrow> storedState s'"
    for s s' input out by (rule storedState_step)
  show "\<exists>l'. replayIntent l out = Some l' \<and> logAgrees s' l'"
    if s: "storedState s" and l: "logAgrees s l" and step: "lifecycleStep s input = Inr (out, s')"
    for s l input out s'
  proof -
    obtain e where "soundEvaluation e" "eval_asOf e = fst input" "validState (getTime (fst input)) s"
      "advanceEvaluated e s (fst input) = Inr (out, s')"
      using lifecycleStep_parts[OF s step] .
    then show ?thesis
      using advanceEvaluated_log[OF _ _ _ l] by (metis soundEvaluation_def)
  qed
qed

lemma inactive_stored: "storedState inactiveAlertState"
proof -
  have "validState 0 inactiveAlertState"
    by (simp add: validState_def validFields_def boundEvidence_def inactiveAlertState_def inDomain_def
        stateError_def breachCountMismatch_def breachEvidenceMismatch_def cooldownTooLong_def
        phaseError_def inactiveInconsistent_def after_def beyondWatermark_def notifiedBeforeOpened_def)
  then show ?thesis
    by (auto simp: storedState_def)
qed

lemma inactive_logAgrees: "logAgrees inactiveAlertState noIncident"
  by (simp add: logAgrees_def inactiveAlertState_def noIncident_def cooldownAgrees_def)

end
