(* ===== verification/Alert_Lifecycle_Outcome.thy ===== *)
theory Alert_Lifecycle_Outcome
  imports Alert_Lifecycle_Log
begin

section \<open>The lifecycle as a transition relation\<close>

text \<open>
  The outcomes one evaluation can have, as an inductive relation from the bound state to the
  intent and the next state. It leaves open what does not matter to a reader of the stored
  state (which evidence is carried); \<open>advanceBound\<close> refines it.
\<close>

definition countersReset :: "alertLifecycleState \<Rightarrow> bool" where
  "countersReset s \<longleftrightarrow> noBreach s \<and> consecutiveClears s = 0"

definition confirms :: "alertRuleEvaluation \<Rightarrow> alertLifecycleState \<Rightarrow> activeSeverity \<Rightarrow> bool" where
  "confirms e s sev \<longleftrightarrow>
     eval_severity e = Some sev \<and>
     (breachSeverity s = Some sev \<and> consecutiveBreaches s = 1 \<or> eval_immediateCritical e)"

definition clearSample :: "alertRuleEvaluation \<Rightarrow> bool" where
  "clearSample e \<longleftrightarrow> eval_evidence e = Known \<and> eval_severity e = None"

definition automaticRule :: "alertRuleEvaluation \<Rightarrow> bool" where
  "automaticRule e \<longleftrightarrow> resolutionMode (ALERT_RULE_DEFINITIONS (eval_ruleId e)) = Automatic"

inductive alertStep ::
  "alertRuleEvaluation \<Rightarrow> string \<Rightarrow> alertLifecycleState \<Rightarrow> alertActionIntent option \<Rightarrow> alertLifecycleState \<Rightarrow> bool"
  for e :: alertRuleEvaluation and asOf :: string
where
  quiet: "status s = None \<Longrightarrow> eval_severity e = None \<Longrightarrow>
     status s' = None \<Longrightarrow> countersReset s' \<Longrightarrow> cooldownUntil s' = cooldownUntil s \<Longrightarrow>
     lastNotificationAt s' = None \<Longrightarrow> alertStep e asOf s None s'"
| suspect: "status s = None \<Longrightarrow> eval_severity e = Some sev \<Longrightarrow>
     \<not> confirms e s sev \<or> sev = Warning \<and> cooldownUntil s \<noteq> None \<Longrightarrow>
     status s' = None \<Longrightarrow> breachAt s' sev \<Longrightarrow> breachEvidence s' = eval_selectedEvidence e \<Longrightarrow>
     cooldownUntil s' = cooldownUntil s \<Longrightarrow>
     lastNotificationAt s' = None \<Longrightarrow> alertStep e asOf s None s'"
| opens: "status s = None \<Longrightarrow> confirms e s sev \<Longrightarrow> sev = Critical \<or> cooldownUntil s = None \<Longrightarrow>
     eval_selectedEvidence e = Some x \<Longrightarrow>
     status s' = Some sev \<Longrightarrow> activeEvidence s' = Some x \<Longrightarrow> countersReset s' \<Longrightarrow>
     cooldownUntil s' = None \<Longrightarrow> lastNotificationAt s' = Some asOf \<Longrightarrow> openedAt s' = Some asOf \<Longrightarrow>
     alertStep e asOf s (Some (OpenIntent (activeIntentBase e asOf) x sev)) s'"
| stays: "status s = Some sev \<Longrightarrow>
     eval_severity e = None \<and> (eval_evidence e = Unknown \<or> \<not> automaticRule e) \<or>
       eval_severity e = Some sev \<or> sev = Critical \<and> eval_severity e = Some Warning \<Longrightarrow>
     status s' = Some sev \<Longrightarrow> countersReset s' \<Longrightarrow> cooldownUntil s' = None \<Longrightarrow>
     activeEvidence s' = (if eval_severity e = Some sev then eval_selectedEvidence e else activeEvidence s) \<Longrightarrow>
     intent = None \<and> lastNotificationAt s' = lastNotificationAt s \<or>
       (\<exists>x. intent = Some (RemindIntent (activeIntentBase e asOf) x sev) \<and> activeEvidence s' = Some x) \<and>
       lastNotificationAt s' = Some asOf \<Longrightarrow>
     openedAt s' = openedAt s \<Longrightarrow> alertStep e asOf s intent s'"
| counts: "status s = Some sev \<Longrightarrow> clearSample e \<Longrightarrow> automaticRule e \<Longrightarrow> consecutiveClears s < 4 \<Longrightarrow>
     status s' = Some sev \<Longrightarrow> noBreach s' \<Longrightarrow> consecutiveClears s' = consecutiveClears s + 1 \<Longrightarrow>
     cooldownUntil s' = None \<Longrightarrow> lastNotificationAt s' = lastNotificationAt s \<Longrightarrow>
     activeEvidence s' = activeEvidence s \<Longrightarrow> openedAt s' = openedAt s \<Longrightarrow> alertStep e asOf s None s'"
| resolves: "status s = Some sev \<Longrightarrow> clearSample e \<Longrightarrow> automaticRule e \<Longrightarrow> consecutiveClears s = 4 \<Longrightarrow>
     status s' = None \<Longrightarrow> countersReset s' \<Longrightarrow> cooldownUntil s' = Some until \<Longrightarrow>
     canonical_time until = Some (getTime asOf + cooldownMs ALERT_RULE_POLICY) \<Longrightarrow>
     lastNotificationAt s' = None \<Longrightarrow>
     alertStep e asOf s (Some (ResolveIntent (activeIntentBase e asOf) sev)) s'"
| worsens: "status s = Some Warning \<Longrightarrow> eval_severity e = Some Critical \<Longrightarrow> \<not> confirms e s Critical \<Longrightarrow>
     status s' = Some Warning \<Longrightarrow> breachAt s' Critical \<Longrightarrow> breachEvidence s' = eval_selectedEvidence e \<Longrightarrow>
     cooldownUntil s' = None \<Longrightarrow>
     lastNotificationAt s' = lastNotificationAt s \<Longrightarrow> activeEvidence s' = activeEvidence s \<Longrightarrow>
     openedAt s' = openedAt s \<Longrightarrow> alertStep e asOf s None s'"
| escalates: "status s = Some Warning \<Longrightarrow> confirms e s Critical \<Longrightarrow> eval_selectedEvidence e = Some x \<Longrightarrow>
     status s' = Some Critical \<Longrightarrow> activeEvidence s' = Some x \<Longrightarrow> countersReset s' \<Longrightarrow>
     cooldownUntil s' = None \<Longrightarrow> lastNotificationAt s' = Some asOf \<Longrightarrow> openedAt s' = openedAt s \<Longrightarrow>
     alertStep e asOf s (Some (EscalateIntent (activeIntentBase e asOf) x)) s'"

inductive_cases alertStep_openE: "alertStep e asOf s (Some (OpenIntent b x sev)) s'"
inductive_cases alertStep_resolveE: "alertStep e asOf s (Some (ResolveIntent b sev)) s'"
inductive_cases alertStep_escalateE: "alertStep e asOf s (Some (EscalateIntent b x)) s'"
inductive_cases alertStep_remindE: "alertStep e asOf s (Some (RemindIntent b x sev)) s'"

subsection \<open>The code refines the relation\<close>

lemma evaluated_active:
  assumes "evaluatedState asOf i s" and "status s = Some sev"
  shows "cooldownUntil s = None" and "\<exists>x. activeEvidence s = Some x \<and> sel_severity x = sev"
    and "\<exists>n. lastNotificationAt s = Some n" and "inDomain 4 (consecutiveClears s)"
  using assms by (auto simp: evaluated_defs split: alertLifecyclePhase.splits)

lemma evaluated_none:
  assumes "evaluatedState asOf i s" and "status s = None"
  shows "lastNotificationAt s = None" and "consecutiveClears s = 0"
    and "noBreach s \<or> (\<exists>sev. breachAt s sev)"
  using assms by (auto simp: evaluated_defs split: alertLifecyclePhase.splits)

lemma advanceUnknown_step:
  assumes s: "evaluatedState asOf i s" and e: "soundEvaluation e" "eval_evidence e = Unknown"
    and r: "advanceUnknown s = (intent, s')"
  shows "alertStep e asOf s intent s'"
proof -
  have sev: "eval_severity e = None"
    using e by (simp add: soundEvaluation_def)
  show ?thesis
  proof (cases "status s")
    case None
    then show ?thesis
      using r evaluated_none[OF s None]
      by (auto simp: advanceUnknown_def countersReset_def noBreach_def sev intro!: quiet)
  next
    case (Some v)
    then show ?thesis
      using r evaluated_active[OF s Some] e(2)
      by (auto simp: advanceUnknown_def countersReset_def noBreach_def sev intro!: stays[OF Some])
  qed
qed

lemma stableActiveResult_step:
  assumes s: "evaluatedState asOf i s" and e: "soundEvaluation e" and st: "status s = Some sev"
    and why: "eval_severity e = None \<and> (eval_evidence e = Unknown \<or> \<not> automaticRule e) \<or>
       eval_severity e = Some sev \<or> sev = Critical \<and> eval_severity e = Some Warning"
    and refresh: "refresh \<longleftrightarrow> eval_severity e = Some sev"
    and r: "stableActiveResult e s asOf (getTime asOf) refresh = Inr (intent, s')"
  shows "alertStep e asOf s intent s'"
proof -
  obtain a where active: "activeEvidence s = Some a"
    using evaluated_active(2)[OF s st] by blast
  obtain x where x: "(if refresh then selectedEvidenceFor e else Inr a) = Inr x"
    and s': "intent = None \<and> s' = (clearedBreach s)\<lparr>activeEvidence := Some x, phase := Active\<rparr> \<or>
      intent = Some (RemindIntent (activeIntentBase e asOf) x sev) \<and>
      s' = (clearedBreach s)\<lparr>activeEvidence := Some x, phase := Active, lastNotificationAt := Some asOf\<rparr>"
    using r active st
    by (auto simp: stableActiveResult_def and_then_eq_Inr throw_if_eq_Inr Let_def split: if_splits)
  have "Some x = (if eval_severity e = Some sev then eval_selectedEvidence e else activeEvidence s)"
    using x active refresh by (auto simp: selectedEvidenceFor_def split: option.splits if_splits)
  then show ?thesis
    using s' evaluated_active(1)[OF s st] st
    by (intro stays[OF st why]) (auto simp: countersReset_def noBreach_def)
qed

lemma automaticRule_iff: "automaticRule e \<longleftrightarrow> resolutionMode (ALERT_RULE_DEFINITIONS (eval_ruleId e)) \<noteq> Manual"
  unfolding automaticRule_def by (metis alertResolutionMode.exhaust alertResolutionMode.distinct(1))

lemma advanceClear_step:
  assumes s: "evaluatedState asOf i s" and e: "soundEvaluation e" and clear: "clearSample e"
    and r: "advanceClear e s asOf = Inr (intent, s')"
  shows "alertStep e asOf s intent s'"
proof (cases "status s")
  case None
  then show ?thesis
    using r clear
    by (auto simp: advanceClear_def clearSample_def inactiveAlertState_def countersReset_def noBreach_def
        intro!: quiet[OF None])
next
  case (Some sev)
  show ?thesis
  proof (cases "automaticRule e")
    case False
    then have "stableActiveResult e s asOf (getTime asOf) False = Inr (intent, s')"
      using r Some by (simp add: advanceClear_def automaticRule_iff)
    then show ?thesis
      using False clear by (intro stableActiveResult_step[OF s e Some]) (auto simp: clearSample_def)
  next
    case True
    note active = evaluated_active[OF s Some]
    consider (count) "consecutiveClears s < 4" "intent = None"
        "s' = (clearedBreach s)\<lparr>consecutiveClears := consecutiveClears s + 1\<rparr>"
      | (resolve) until where "4 \<le> consecutiveClears s"
        "addMilliseconds asOf (cooldownMs ALERT_RULE_POLICY) = Inr until"
        "intent = Some (ResolveIntent (activeIntentBase e asOf) sev)"
        "s' = inactiveAlertState\<lparr>cooldownUntil := Some until, identity := identity s,
          lastEvaluatedAt := Some asOf\<rparr>"
      using r Some True
      by (auto simp: advanceClear_def automaticRule_iff Let_def and_then_eq_Inr ALERT_RULE_POLICY_def
          split: if_splits)
    then show ?thesis
    proof cases
      case count
      then show ?thesis
        using active Some by (auto simp: noBreach_def intro!: counts[OF Some clear True])
    next
      case (resolve until)
      then have "consecutiveClears s = 4"
        using active by (simp add: inDomain_def)
      then show ?thesis
        using resolve unfolding resolve(3)
        by (intro resolves[OF Some clear True])
          (auto simp: inactiveAlertState_def countersReset_def noBreach_def addMilliseconds_def
            toISOString_Inr_iff)
    qed
  qed
qed

lemma evaluated_breach:
  assumes "evaluatedState asOf i s"
  shows "consecutiveBreaches s = 1 \<or> breachSeverity s = None"
  using assms by (auto simp: evaluated_defs split: alertLifecyclePhase.splits)

lemma requiredBreaches_eq: "requiredBreaches immediate sev = (if immediate then 1 else 2)"
  by (cases sev) (simp_all add: requiredBreaches_def ALERT_RULE_POLICY_def)

lemma confirms_iff:
  assumes s: "evaluatedState asOf i s" and e: "soundEvaluation e" and sev: "eval_severity e = Some sev"
  shows "requiredBreaches (eval_immediateCritical e) sev \<le> startOrContinueBreach s sev \<longleftrightarrow> confirms e s sev"
  using startOrContinueBreach_range[OF s, of sev] requiredBreaches_range[of "eval_immediateCritical e" sev]
    evaluated_breach[OF s] sev
  by (auto simp: confirms_def requiredBreaches_eq startOrContinueBreach_def)

lemma advanceCandidate_step:
  assumes s: "evaluatedState asOf i s" and e: "soundEvaluation e" and rule: "id_ruleId i = eval_ruleId e"
    and asOf: "canonical asOf" and sev: "eval_severity e = Some sev" and st: "status s \<noteq> Some Critical"
    and w: "status s = Some Warning \<Longrightarrow> sev = Critical"
    and r: "advanceCandidate e s asOf sev = Inr (intent, s')"
  shows "alertStep e asOf s intent s'"
proof -
  obtain x where x: "eval_selectedEvidence e = Some x" "sel_severity x = sev"
    using soundEvaluation_candidate[OF e sev] by metis
  have s': "evaluatedState asOf i s'"
    by (rule advanceCandidate_evaluated[OF s e rule asOf sev st w r])
  note confirm = confirms_iff[OF s e sev]
  have st_sev: "status s = None \<or> status s = Some Warning \<and> sev = Critical"
    using st w by (metis activeSeverity.exhaust option.exhaust)
  show ?thesis
  proof (cases rule: advanceCandidate_cases[OF r x(1) st w refl refl])
    case 2
    then have no: "\<not> confirms e s sev"
      using confirm by simp
    have b: "breachAt s' sev"
      using 2 s' x st_sev by (auto simp: evaluated_defs split: alertLifecyclePhase.splits if_splits)
    show ?thesis
    proof (cases "status s")
      case None
      then show ?thesis
        using 2 b no sev x evaluated_none(1)[OF s None]
        by (auto intro!: suspect[OF None sev])
    next
      case (Some v)
      then show ?thesis
        using 2 b no sev x st_sev evaluated_active(1)[OF s Some]
        by (auto intro!: worsens)
    qed
  next
    case 3
    then show ?thesis
      using confirm x evaluated_active(1)[OF s 3(2)]
      by (auto intro!: escalates simp: countersReset_def noBreach_def)
  next
    case 4
    then have "breachAt s' sev"
      using s' x by (auto simp: evaluated_defs split: alertLifecyclePhase.splits if_splits)
    then show ?thesis
      using 4 sev x evaluated_none(1)[OF s 4(2)]
      by (auto intro!: suspect[OF 4(2) sev])
  next
    case 5
    then show ?thesis
      using confirm x
      by (auto intro!: opens simp: countersReset_def noBreach_def)
  qed (use st w in auto)
qed

lemma advanceBound_step:
  assumes s: "evaluatedState asOf i s" and e: "soundEvaluation e" and rule: "id_ruleId i = eval_ruleId e"
    and asOf: "canonical asOf" and r: "advanceBound e s asOf = Inr (intent, s')"
  shows "alertStep e asOf s intent s'"
proof (cases "eval_evidence e = Unknown")
  case True
  then show ?thesis
    using r advanceUnknown_step[OF s e True] by (simp add: advanceBound_def)
next
  case False
  then have known: "eval_evidence e = Known"
    by (cases "eval_evidence e") simp_all
  show ?thesis
  proof (cases "eval_severity e")
    case None
    then show ?thesis
      using r False advanceClear_step[OF s e] known by (simp add: advanceBound_def clearSample_def)
  next
    case (Some sev)
    then have r': "advanceBreach e s asOf sev = Inr (intent, s')"
      using r False by (simp add: advanceBound_def)
    show ?thesis
    proof (cases "status s = Some Critical \<or> status s = Some Warning \<and> sev = Warning")
      case True
      then obtain v where v: "status s = Some v" "v = Critical \<or> sev = Warning \<and> v = Warning"
        by auto
      then have "stableActiveResult e s asOf (getTime asOf) (sev = v) = Inr (intent, s')"
        using r' by (cases v; cases sev) (auto simp: advanceBreach_def)
      moreover have "eval_severity e = Some v \<or> v = Critical \<and> eval_severity e = Some Warning"
        using v(2) Some by (cases sev; cases v) auto
      ultimately show ?thesis
        using Some by (intro stableActiveResult_step[OF s e v(1)]) auto
    next
      case False
      then have "advanceCandidate e s asOf sev = Inr (intent, s')"
        using r' unfolding advanceBreach_def by (auto split: if_splits)
      then show ?thesis
        using False by (intro advanceCandidate_step[OF s e rule asOf Some]) (auto, metis activeSeverity.exhaust)
    qed
  qed
qed

end
