(* ===== verification/Alert_Lifecycle_Total.thy ===== *)
theory Alert_Lifecycle_Total
  imports Alert_Lifecycle_Outcome
begin

section \<open>When the lifecycle throws\<close>

text \<open>
  On a stored state, \<open>advanceAlertLifecycle\<close> throws for exactly the reasons its messages name: the
  observation is not accepted, its instant is not the instant of the call, the state is not yet
  valid at that instant, belongs to another rule or dimension, or was evaluated at or after it;
  and, at the end of the range of \<open>Date\<close>, if the cooldown to be written does not exist.
\<close>

definition cooldownOverflows :: "alertRuleEvaluation \<Rightarrow> alertLifecycleState \<Rightarrow> string \<Rightarrow> bool" where
  "cooldownOverflows e s asOf \<longleftrightarrow>
     clearSample e \<and> automaticRule e \<and> status s \<noteq> None \<and> consecutiveClears s = 4 \<and>
     \<not> time_in_range (getTime asOf + cooldownMs ALERT_RULE_POLICY)"

definition admits :: "alertRuleEvaluation \<Rightarrow> alertLifecycleState \<Rightarrow> string \<Rightarrow> bool" where
  "admits e s asOf \<longleftrightarrow>
     (case identity s of
        None \<Rightarrow> True
      | Some i \<Rightarrow> i = identityFor e \<and>
          (\<exists>t. lastEvaluatedAt s = Some t \<and> getTime t < getTime asOf) \<and>
          \<not> cooldownOverflows e s asOf)"

lemma stableActiveResult_ok:
  assumes s: "evaluatedState asOf i s" and "status s = Some sev" and e: "soundEvaluation e"
    and "refresh \<Longrightarrow> eval_severity e = Some sev"
  shows "is_ok (stableActiveResult e s asOf (getTime asOf) refresh)"
proof -
  obtain a where a: "activeEvidence s = Some a" "sel_severity a = sev"
    using evaluated_active(2)[OF s assms(2)] by blast
  have "\<exists>x. (if refresh then selectedEvidenceFor e else Inr a) = Inr x \<and> sel_severity x = sev"
  proof (cases refresh)
    case True
    then show ?thesis
      using soundEvaluation_candidate[OF e assms(4)] by metis
  qed (use a in simp)
  then obtain x where "(if refresh then selectedEvidenceFor e else Inr a) = Inr x" "sel_severity x = sev"
    by blast
  then show ?thesis
    using a assms(2) by (simp add: stableActiveResult_def is_ok_and_then Let_def)
qed

lemma advanceClear_ok:
  assumes s: "evaluatedState asOf i s" and e: "soundEvaluation e" and "clearSample e"
  shows "is_ok (advanceClear e s asOf) \<longleftrightarrow> \<not> cooldownOverflows e s asOf"
proof (cases "status s")
  case None
  then show ?thesis
    by (simp add: advanceClear_def cooldownOverflows_def)
next
  case (Some sev)
  show ?thesis
  proof (cases "automaticRule e")
    case False
    then show ?thesis
      using Some stableActiveResult_ok[OF s Some e]
      by (simp add: advanceClear_def automaticRule_iff cooldownOverflows_def)
  next
    case True
    have "consecutiveClears s \<le> 4"
      using evaluated_active(4)[OF s Some] by (simp add: inDomain_def)
    then show ?thesis
      using Some True assms(3)
      by (auto simp: advanceClear_def automaticRule_iff Let_def ALERT_RULE_POLICY_def
          cooldownOverflows_def addMilliseconds_def toISOString_def is_ok_and_then)
  qed
qed

lemma advanceCandidate_ok:
  assumes "eval_severity e = Some sev" and e: "soundEvaluation e"
    and "status s = None \<or> status s = Some Warning \<and> sev = Critical"
  shows "is_ok (advanceCandidate e s asOf sev)"
proof -
  obtain x where "selectedEvidenceFor e = Inr x"
    using soundEvaluation_candidate[OF e assms(1)] by metis
  then show ?thesis
    using assms(3) by (auto simp: advanceCandidate_def Let_def)
qed

lemma advanceBound_ok:
  assumes s: "evaluatedState asOf i s" and e: "soundEvaluation e"
  shows "is_ok (advanceBound e s asOf) \<longleftrightarrow> \<not> cooldownOverflows e s asOf"
proof (cases "eval_severity e")
  case None
  then show ?thesis
    using advanceClear_ok[OF s e]
    by (cases "eval_evidence e") (auto simp: advanceBound_def clearSample_def cooldownOverflows_def)
next
  case (Some sev)
  then have "eval_evidence e \<noteq> Unknown"
    using e by (auto simp: soundEvaluation_def)
  moreover have "is_ok (advanceBreach e s asOf sev)"
  proof (cases "status s = Some Critical \<or> status s = Some Warning \<and> sev = Warning")
    case True
    then obtain v where v: "status s = Some v" "v = Critical \<or> sev = Warning \<and> v = Warning"
      by auto
    then show ?thesis
      using stableActiveResult_ok[OF s v(1) e] Some by (cases v) (auto simp: advanceBreach_def)
  next
    case False
    then have "status s = None \<or> status s = Some Warning \<and> sev = Critical"
      by (metis activeSeverity.exhaust option.exhaust)
    then show ?thesis
      using advanceCandidate_ok[OF Some e] False by (auto simp: advanceBreach_def)
  qed
  ultimately show ?thesis
    using Some by (auto simp: advanceBound_def cooldownOverflows_def clearSample_def)
qed

lemma cooldownOverflows_bound [simp]:
  "cooldownOverflows e (boundState e p asOf) asOf \<longleftrightarrow> cooldownOverflows e p asOf"
  by (simp add: cooldownOverflows_def boundState_def)

lemma advanceEvaluated_ok:
  assumes valid: "validState (getTime asOf) p" and e: "soundEvaluation e" and asOf: "canonical asOf"
  shows "is_ok (advanceEvaluated e p asOf) \<longleftrightarrow> admits e p asOf"
proof (cases "identity p")
  case None
  have "status p = None"
    using valid None
    by (auto simp: state_checks phaseError_def inactiveInconsistent_def pendingInconsistent_def
        activeInconsistent_def split: alertLifecyclePhase.splits if_splits option.splits)
  then have "\<not> cooldownOverflows e p asOf"
    by (simp add: cooldownOverflows_def)
  then show ?thesis
    using advanceBound_ok[OF boundState_evaluated[OF valid e asOf] e] None
    by (auto simp: advanceEvaluated_def admits_def)
next
  case (Some i)
  then obtain t where t: "lastEvaluatedAt p = Some t"
    using valid by (cases "lastEvaluatedAt p") (auto simp: validState_def stateError_None_iff)
  have same: "assertSameIdentity i (identityFor e) = (if i = identityFor e then Inr ()
      else Inl (Error ''alert lifecycle identity does not match the observation''))"
    by (auto simp: assertSameIdentity_def)
  show ?thesis
    using advanceBound_ok[OF boundState_evaluated[OF valid e asOf] e] Some t
    by (auto simp: advanceEvaluated_def admits_def same)
qed

lemma parseState_stored:
  assumes "storedState s"
  shows "parseState (jsOfState s) now = (case stateError s now of Some m \<Rightarrow> Inl (Error m) | None \<Rightarrow> Inr s)"
  using assms by (auto simp: storedState_def validState_def parseState_def parseStateFields_enc)

lemma validState_stored: "storedState s \<Longrightarrow> validState now s \<longleftrightarrow> stateError s now = None"
  by (auto simp: storedState_def validState_def)

text \<open>A stored state is valid from its own watermark on.\<close>

lemma storedState_valid_from:
  assumes "storedState s" and "\<And>t. lastEvaluatedAt s = Some t \<Longrightarrow> getTime t \<le> now"
  shows "validState now s"
proof -
  obtain n where n: "validState n s"
    using assms(1) by (auto simp: storedState_def)
  have "\<not> after (openedAt s) now" "\<not> after (lastNotificationAt s) now" "\<not> after (lastEvaluatedAt s) now"
    using n assms(2)
    by (cases "phase s"; cases "lastEvaluatedAt s"; fastforce simp: state_checks phaseError_def inactiveInconsistent_def
        pendingInconsistent_def activeInconsistent_def split: if_splits option.splits)+
  then show ?thesis
    using n by (simp add: validState_def stateError_None_iff)
qed

lemma admits_valid: "storedState s \<Longrightarrow> admits e s asOf \<Longrightarrow> validState (getTime asOf) s"
proof (rule storedState_valid_from)
  fix t
  assume s: "storedState s" and a: "admits e s asOf" and t: "lastEvaluatedAt s = Some t"
  have "identity s \<noteq> None"
    using s t validState_unbound(2) by (fastforce simp: storedState_def)
  then show "getTime t \<le> getTime asOf"
    using a t by (auto simp: admits_def)
qed

lemma criticalEvaluation_asOf: "criticalEvaluation obs ms = Inr e \<Longrightarrow> eval_asOf e = obs_asOf obs"
  by (auto simp: criticalEvaluation_def and_then_eq_Inr Let_def)

lemma warningEvaluation_asOf: "warningEvaluation obs u ms v = Inr e \<Longrightarrow> eval_asOf e = obs_asOf obs"
  by (auto simp: warningEvaluation_def and_then_eq_Inr split: list.split_asm)

lemma evaluateObservation_asOf:
  "evaluateObservation obs = Inr e \<Longrightarrow> eval_asOf e = obs_asOf obs"
  by (auto simp: evaluateObservation_def and_then_eq_Inr unknownEvaluation_def Let_def
      split: if_split_asm dest: criticalEvaluation_asOf warningEvaluation_asOf)

lemma evaluateAlertRule_windows:
  assumes "evaluateAlertRule v = Inr e"
  shows "is_ok (alertWindowsAt (eval_asOf e))"
proof -
  obtain obs where "evaluateObservation obs = Inr e"
    using assms by (auto simp: evaluateAlertRule_def and_then_eq_Inr)
  moreover from this have "is_ok (alertWindowsAt (obs_asOf obs))"
    by (auto simp: evaluateObservation_def and_then_eq_Inr)
  ultimately show ?thesis
    by (simp add: evaluateObservation_asOf)
qed

lemma evaluateAlertRule_hour:
  assumes "evaluateAlertRule v = Inr e"
  shows "time_in_range (getTime (eval_asOf e) - 1)"
proof -
  have "canonical (eval_asOf e)" "hourBeforeExists (eval_asOf e)"
    using evaluateAlertRule_windows[OF assms] by (simp_all add: alertWindowsAt_ok)
  then show ?thesis
    using canonical_in_range[of "eval_asOf e"] by (auto simp: hourBeforeExists_def time_in_range_def)
qed

text \<open>One call, on the state as it was stored.\<close>

lemma lifecycleStep_ok:
  assumes s: "storedState s"
  shows "is_ok (lifecycleStep s (asOf, observation)) \<longleftrightarrow>
    (\<exists>e. evaluateAlertRule observation = Inr e \<and> eval_asOf e = asOf \<and> admits e s asOf)"
    (is "_ \<longleftrightarrow> ?right")
proof
  assume "is_ok (lifecycleStep s (asOf, observation))"
  then obtain intent s' where "lifecycleStep s (asOf, observation) = Inr (intent, s')"
    by (metis is_okE prod.exhaust)
  then obtain e where e: "evaluateAlertRule observation = Inr e" "soundEvaluation e" "eval_asOf e = asOf"
      "validState (getTime asOf) s" "advanceEvaluated e s asOf = Inr (intent, s')"
    using lifecycleStep_parts[OF s, of "(asOf, observation)"] by (metis fst_conv snd_conv)
  then have "canonical asOf" "is_ok (advanceEvaluated e s asOf)"
    by (auto simp: soundEvaluation_def)
  then show ?right
    using e advanceEvaluated_ok[OF e(4,2)] validState_stored[OF s] by blast
next
  assume ?right
  then obtain e where e: "evaluateAlertRule observation = Inr e" "eval_asOf e = asOf"
      "admits e s asOf"
    by blast
  have valid: "validState (getTime asOf) s"
    by (rule admits_valid[OF s e(3)])
  have sound: "soundEvaluation e"
    using e(1) by (rule evaluateAlertRule_sound)
  then have canon: "canonical asOf"
    using e(2) by (simp add: soundEvaluation_def)
  obtain ws where "alertWindowsAt asOf = Inr ws"
    using evaluateAlertRule_windows[OF e(1)] e(2) by (auto elim: is_okE)
  moreover have "is_ok (advanceEvaluated e s asOf)"
    using advanceEvaluated_ok[OF valid sound canon] e by blast
  moreover have "canonicalTimestamp (JStr asOf) ''asOf'' = Inr asOf"
    using canon by (simp add: canonicalTimestamp_Inr_iff)
  ultimately show "is_ok (lifecycleStep s (asOf, observation))"
    using e valid by (simp add: lifecycleStep_def lifecycleInput_def advanceAlertLifecycle_def
        parseState_stored[OF s] validState_stored[OF s])
qed

subsection \<open>Five clear observations resolve an alert\<close>

text \<open>Observations of one alert, in order of time, each known and without a breach.\<close>

fun clearSeries :: "alertLifecycleIdentity \<Rightarrow> int \<Rightarrow> (string \<times> js) list \<Rightarrow> bool" where
  "clearSeries i t [] = True"
| "clearSeries i t ((asOf, observation) # rest) =
     (t < getTime asOf \<and>
      (case evaluateAlertRule observation of
         Inl _ \<Rightarrow> False
       | Inr e \<Rightarrow> eval_asOf e = asOf \<and> identityFor e = i \<and> clearSample e) \<and>
      clearSeries i (getTime asOf) rest)"

lemma clear_step:
  assumes s: "storedState s" "identity s = Some i" "lastEvaluatedAt s = Some t" "status s = Some sev"
    and rule: "id_ruleId i \<noteq> Security_fanout_gap"
    and obs: "evaluateAlertRule observation = Inr e" "eval_asOf e = asOf" "identityFor e = i" "clearSample e"
    and time: "getTime t < getTime asOf"
    and range: "consecutiveClears s = 4 \<Longrightarrow> time_in_range (getTime asOf + 1800000)"
  shows "\<exists>intent s'. lifecycleStep s (asOf, observation) = Inr (intent, s') \<and> storedState s' \<and>
    identity s' = Some i \<and> lastEvaluatedAt s' = Some asOf \<and> inDomain 4 (consecutiveClears s) \<and>
    (consecutiveClears s < 4 \<longrightarrow>
      intent = None \<and> status s' = Some sev \<and> consecutiveClears s' = consecutiveClears s + 1) \<and>
    (consecutiveClears s = 4 \<longrightarrow>
      intent = Some (ResolveIntent (activeIntentBase e asOf) sev) \<and> status s' = None \<and>
      cooldownUntil s' = Some (iso_of_time (getTime asOf + 1800000)))"
proof -
  have auto_rule: "automaticRule e"
    using rule obs(3) by (auto simp: automaticRule_iff manual_iff identityFor_def)
  have "admits e s asOf"
    using s obs time range by (auto simp: admits_def cooldownOverflows_def ALERT_RULE_POLICY_def)
  then have "is_ok (lifecycleStep s (asOf, observation))"
    using lifecycleStep_ok[OF s(1)] obs(1,2) by blast
  then obtain intent s' where step: "lifecycleStep s (asOf, observation) = Inr (intent, s')"
    by (metis is_okE prod.exhaust)
  obtain e' where "evaluateAlertRule observation = Inr e'" "soundEvaluation e'"
      "validState (getTime asOf) s" "advanceEvaluated e' s asOf = Inr (intent, s')"
    using lifecycleStep_parts[OF s(1) step] by (metis fst_conv snd_conv)
  then have e: "soundEvaluation e" "validState (getTime asOf) s" "advanceEvaluated e s asOf = Inr (intent, s')"
    using obs(1) by auto
  have canon: "canonical asOf"
    using e(1) obs(2) by (simp add: soundEvaluation_def)
  define b where "b = boundState e s asOf"
  have b: "evaluatedState asOf i b" "advanceBound e b asOf = Inr (intent, s')"
    using boundState_evaluated[OF e(2,1) canon] e(3) s obs(3) time
    by (auto simp: b_def elim: advanceEvaluated_cases)
  have ri: "id_ruleId i = eval_ruleId e"
    using obs(3) by (auto simp: identityFor_def)
  have same: "status b = Some sev" "consecutiveClears b = consecutiveClears s"
    using s by (simp_all add: b_def boundState_def)
  have st: "alertStep e asOf b intent s'"
    by (rule advanceBound_step[OF b(1) e(1) ri canon b(2)])
  have id: "identity s' = Some i" "lastEvaluatedAt s' = Some asOf"
    using advanceBound_evaluated[OF b(1) e(1) ri canon b(2)] by (simp_all add: evaluatedState_def)
  have dom: "inDomain 4 (consecutiveClears s)"
    using evaluated_active(4)[OF b(1) same(1)] same(2) by simp
  have out: "(consecutiveClears s < 4 \<longrightarrow>
      intent = None \<and> status s' = Some sev \<and> consecutiveClears s' = consecutiveClears s + 1) \<and>
    (consecutiveClears s = 4 \<longrightarrow> intent = Some (ResolveIntent (activeIntentBase e asOf) sev) \<and>
      status s' = None \<and> cooldownUntil s' = Some (iso_of_time (getTime asOf + 1800000)))"
    using st by cases (use same obs(4) auto_rule in \<open>auto simp: clearSample_def confirms_def
        canonical_time_Some_iff ALERT_RULE_POLICY_def\<close>)
  show ?thesis
    using step storedState_step[OF s(1) step] id out dom by blast
qed

lemma clearSeries_resolves:
  assumes "storedState s" and "identity s = Some i" and "lastEvaluatedAt s = Some t"
    and "status s = Some sev" and "id_ruleId i \<noteq> Security_fanout_gap"
    and "clearSeries i (getTime t) inputs" and "int (length inputs) + consecutiveClears s = 5"
    and "inputs \<noteq> []" and "time_in_range (getTime (fst (last inputs)) + 1800000)"
  shows "\<exists>s' b. runSteps lifecycleStep s inputs =
      Inr (replicate (length inputs - 1) None @ [Some (ResolveIntent b sev)], s') \<and>
    int_at b = fst (last inputs) \<and> status s' = None \<and>
    cooldownUntil s' = Some (iso_of_time (getTime (fst (last inputs)) + 1800000))"
  using assms
proof (induction inputs arbitrary: s t)
  case (Cons input rest)
  obtain asOf observation where input: "input = (asOf, observation)"
    by (cases input)
  obtain e where e: "evaluateAlertRule observation = Inr e" "eval_asOf e = asOf" "identityFor e = i"
      "clearSample e" and time: "getTime t < getTime asOf" and rest: "clearSeries i (getTime asOf) rest"
    using Cons.prems(6) by (auto simp: input split: sum.splits)
  have range: "time_in_range (getTime asOf + 1800000)" if "consecutiveClears s = 4"
    using Cons.prems(7,9) that by (simp add: input)
  obtain intent s1 where step: "lifecycleStep s (asOf, observation) = Inr (intent, s1)"
    and s1: "storedState s1" "identity s1 = Some i" "lastEvaluatedAt s1 = Some asOf"
    and counts: "consecutiveClears s < 4 \<longrightarrow>
      intent = None \<and> status s1 = Some sev \<and> consecutiveClears s1 = consecutiveClears s + 1"
    and resolves: "consecutiveClears s = 4 \<longrightarrow>
      intent = Some (ResolveIntent (activeIntentBase e asOf) sev) \<and> status s1 = None \<and>
      cooldownUntil s1 = Some (iso_of_time (getTime asOf + 1800000))"
    using clear_step[OF Cons.prems(1-5) e time range] by blast
  show ?case
  proof (cases "rest = []")
    case True
    then show ?thesis
      using step resolves Cons.prems(7) by (auto simp: input activeIntentBase_def)
  next
    case False
    then have "0 < length rest"
      by simp
    then have "consecutiveClears s < 4"
      using Cons.prems(7) by (cases "length rest") simp_all
    note c = counts[rule_format, OF this]
    obtain s' b where *: "runSteps lifecycleStep s1 rest =
        Inr (replicate (length rest - 1) None @ [Some (ResolveIntent b sev)], s')"
      "int_at b = fst (last rest)" "status s' = None"
      "cooldownUntil s' = Some (iso_of_time (getTime (fst (last rest)) + 1800000))"
      using Cons.IH[OF s1 _ Cons.prems(5) rest _ False] c Cons.prems(7,9) False by auto
    have "replicate (length rest) (None :: alertActionIntent option) = None # replicate (length rest - 1) None"
      using \<open>0 < length rest\<close> by (cases "length rest") simp_all
    then show ?thesis
      using step * c False by (auto simp: input)
  qed
qed simp

end
