(* ===== verification/Alert_State_Input.thy ===== *)
theory Alert_State_Input
  imports Alert_Lifecycle_Total
begin

section \<open>What the state repository accepts\<close>

text \<open>
  \<^verbatim>\<open>apps/sso/worker/alert-state-repository.ts\<close> does not trust its caller: it parses the
  evaluation and the decision of the lifecycle again, with rules of its own, before it writes
  anything. This theory models these parsers and shows that they accept, unchanged, everything
  \<open>evaluateAlertRule\<close> and \<open>advanceAlertLifecycle\<close> return, as long as the instants have the 24
  characters of a year below 10000.
\<close>

subsection \<open>Fields\<close>

definition repoFail :: "string \<Rightarrow> 'a result" where
  "repoFail code = Inl (CodedError ''alert state repository'' code)"

abbreviation invalidInput :: "'a result" where
  "invalidInput \<equiv> repoFail ''invalid_input''"

definition repoRecord :: "js \<Rightarrow> string list \<Rightarrow> js_record result" where
  "repoRecord value keys = (case exactRecord value keys '''' of Inl _ \<Rightarrow> invalidInput | Inr r \<Rightarrow> Inr r)"

definition repoTimestamp :: "js \<Rightarrow> string result" where
  "repoTimestamp value =
     (case value of
        JStr s \<Rightarrow> if length s \<noteq> 24 \<or> \<not> canonical s then invalidInput else Inr s
      | _ \<Rightarrow> invalidInput)"

definition repoNullableTimestamp :: "js \<Rightarrow> string option result" where
  "repoNullableTimestamp value = decNullable repoTimestamp value"

definition boundedInteger :: "js \<Rightarrow> int \<Rightarrow> int \<Rightarrow> int result" where
  "boundedInteger value minimum maximum =
     (case safeInteger value of
        None \<Rightarrow> invalidInput
      | Some n \<Rightarrow> if n < minimum \<or> n > maximum then invalidInput else Inr n)"

text \<open>The string unions of the input, each read by a chain of comparisons.\<close>

definition repoEvidenceStatus :: "js \<Rightarrow> alertEvidenceStatus result" where
  "repoEvidenceStatus value =
     (if value = JStr ''known'' then Inr Known
      else if value = JStr ''unknown'' then Inr Unknown else invalidInput)"

definition repoSeverity :: "js \<Rightarrow> alertSeverity result" where
  "repoSeverity value =
     (if value = JStr ''none'' then Inr None
      else if value = JStr ''warning'' then Inr (Some Warning)
      else if value = JStr ''critical'' then Inr (Some Critical) else invalidInput)"

definition repoBreachSeverity :: "js \<Rightarrow> activeSeverity option result" where
  "repoBreachSeverity value =
     (if value = JNull then Inr None
      else if value = JStr ''warning'' then Inr (Some Warning)
      else if value = JStr ''critical'' then Inr (Some Critical) else invalidInput)"

definition repoPhase :: "js \<Rightarrow> alertLifecyclePhase result" where
  "repoPhase value =
     (if value = JStr ''active'' then Inr Active
      else if value = JStr ''inactive'' then Inr Inactive
      else if value = JStr ''pending'' then Inr Pending else invalidInput)"

definition repoWindow :: "js \<Rightarrow> alertWindowKey result" where
  "repoWindow value =
     (if value = JStr ''5m'' then Inr W5m else if value = JStr ''15m'' then Inr W15m
      else if value = JStr ''60m'' then Inr W60m else invalidInput)"

definition repoWindows :: "js \<Rightarrow> alertWindowKey list result" where
  "repoWindows value =
     (case value of
        JArr vs \<Rightarrow> and_then (map_result repoWindow vs) (\<lambda>ws.
          if distinct ws then Inr ws else invalidInput)
      | _ \<Rightarrow> invalidInput)"

definition repoEvidence :: "alertRuleId \<Rightarrow> js \<Rightarrow> alertSelectedEvidence option result" where
  "repoEvidence r value = decNullable (\<lambda>v. parseAlertSelectedEvidenceForRule v r) value"

subsection \<open>The evaluation\<close>

definition immediateFor :: "alertRuleId \<Rightarrow> alertSelectedEvidence option \<Rightarrow> bool" where
  "immediateFor r evidence \<longleftrightarrow>
     (case evidence of None \<Rightarrow> False
      | Some x \<Rightarrow>
          if r = Logout_delivery_health then ev_metricName x = M_dead
          else r = Alert_runtime_health \<and>
            (ev_metricName x = M_evaluator_missing \<or> ev_metricName x = M_dead_outbox))"

definition evaluationInconsistent :: "alertRuleEvaluation \<Rightarrow> bool \<Rightarrow> bool" where
  "evaluationInconsistent e immediate \<longleftrightarrow>
     (eval_severity e = None) \<noteq> (eval_selectedEvidence e = None) \<or>
     (case eval_selectedEvidence e of None \<Rightarrow> False | Some x \<Rightarrow> Some (sel_severity x) \<noteq> eval_severity e) \<or>
     (eval_evidence e = Unknown \<and>
       (eval_severity e \<noteq> None \<or> eval_selectedEvidence e \<noteq> None \<or> length (eval_breachedWindows e) \<noteq> 0)) \<or>
     immediate \<noteq> eval_immediateCritical e \<or>
     (eval_immediateCritical e \<and> eval_severity e \<noteq> Some Critical)"

definition evaluationKeys :: "string list" where
  "evaluationKeys =
     [''asOf'', ''breachedWindows'', ''dimension'', ''evidence'', ''immediateCritical'', ''ruleId'',
      ''selectedEvidence'', ''severity'']"

definition normalizeEvaluation :: "js \<Rightarrow> alertRuleEvaluation result" where
  "normalizeEvaluation value =
     and_then (repoRecord value evaluationKeys) (\<lambda>record.
     and_then (parseAlertRuleId (field_of record ''ruleId'')) (\<lambda>ruleId.
     and_then (repoTimestamp (field_of record ''asOf'')) (\<lambda>asOf.
     and_then (parseAlertDimension (field_of record ''dimension'')
         (ruleDimensions (ALERT_RULE_DEFINITIONS ruleId))) (\<lambda>dimension.
     and_then (repoWindows (field_of record ''breachedWindows'')) (\<lambda>windows.
     and_then (repoEvidenceStatus (field_of record ''evidence'')) (\<lambda>evidence.
     and_then (repoSeverity (field_of record ''severity'')) (\<lambda>severity.
     and_then (repoEvidence ruleId (field_of record ''selectedEvidence'')) (\<lambda>selected.
       let immediate = immediateFor ruleId selected;
           e = \<lparr>eval_asOf = asOf, eval_breachedWindows = windows, eval_dimension = dimension,
                eval_evidence = evidence, eval_immediateCritical = immediate, eval_ruleId = ruleId,
                eval_selectedEvidence = selected, eval_severity = severity\<rparr>
       in case field_of record ''immediateCritical'' of
            JBool b \<Rightarrow> if evaluationInconsistent e b then invalidInput else Inr e
          | _ \<Rightarrow> invalidInput))))))))"

subsection \<open>The state\<close>

definition normalizeIdentity :: "alertRuleId \<Rightarrow> js \<Rightarrow> alertLifecycleIdentity result" where
  "normalizeIdentity rule value =
     and_then (repoRecord value [''dimension'', ''ruleId'']) (\<lambda>record.
     and_then (parseAlertRuleId (field_of record ''ruleId'')) (\<lambda>parsed.
       if parsed \<noteq> rule then invalidInput
       else and_then (parseAlertDimension (field_of record ''dimension'')
           (ruleDimensions (ALERT_RULE_DEFINITIONS rule))) (\<lambda>dimension.
         Inr \<lparr>id_dimension = dimension, id_ruleId = rule\<rparr>)))"

definition foreignIdentity :: "alertRuleEvaluation \<Rightarrow> alertLifecycleIdentity option \<Rightarrow> bool" where
  "foreignIdentity evaluation ident \<longleftrightarrow>
     (case ident of None \<Rightarrow> False
      | Some i \<Rightarrow> \<not> sameDimension (id_dimension i) (eval_dimension evaluation))"

definition stateInconsistent :: "alertRuleEvaluation \<Rightarrow> alertLifecycleState \<Rightarrow> bool" where
  "stateInconsistent evaluation s \<longleftrightarrow>
     (identity s = None) \<noteq> (lastEvaluatedAt s = None) \<or>
     (breachSeverity s = None) \<noteq> (breachEvidence s = None) \<or>
     (breachSeverity s = None) \<noteq> (consecutiveBreaches s = 0) \<or>
     (case breachEvidence s of None \<Rightarrow> False | Some x \<Rightarrow> Some (sel_severity x) \<noteq> breachSeverity s) \<or>
     (case activeEvidence s of None \<Rightarrow> False | Some x \<Rightarrow> Some (sel_severity x) \<noteq> status s) \<or>
     (case lastEvaluatedAt s of None \<Rightarrow> False | Some t \<Rightarrow> t \<noteq> eval_asOf evaluation)"

definition phaseInconsistent :: "alertLifecycleState \<Rightarrow> bool" where
  "phaseInconsistent s \<longleftrightarrow>
     (case phase s of
        Inactive \<Rightarrow>
          status s \<noteq> None \<or> activeEvidence s \<noteq> None \<or> breachEvidence s \<noteq> None \<or> openedAt s \<noteq> None \<or>
          lastNotificationAt s \<noteq> None \<or> consecutiveClears s \<noteq> 0
      | Pending \<Rightarrow>
          status s \<noteq> None \<or> activeEvidence s \<noteq> None \<or> breachEvidence s = None \<or> identity s = None \<or>
          openedAt s \<noteq> None \<or> lastNotificationAt s \<noteq> None \<or> consecutiveClears s \<noteq> 0
      | Active \<Rightarrow>
          status s = None \<or> activeEvidence s = None \<or> identity s = None \<or> openedAt s = None \<or>
          lastNotificationAt s = None \<or> cooldownUntil s \<noteq> None)"

definition normalizeLifecycleState :: "js \<Rightarrow> alertRuleEvaluation \<Rightarrow> alertLifecycleState result" where
  "normalizeLifecycleState value evaluation =
     (let rule = eval_ruleId evaluation in
     and_then (repoRecord value stateKeys) (\<lambda>record.
     and_then (decNullable (normalizeIdentity rule) (field_of record ''identity'')) (\<lambda>ident.
     if foreignIdentity evaluation ident then invalidInput else
     and_then (repoEvidence rule (field_of record ''activeEvidence'')) (\<lambda>active.
     and_then (repoEvidence rule (field_of record ''breachEvidence'')) (\<lambda>breach.
     and_then (repoBreachSeverity (field_of record ''breachSeverity'')) (\<lambda>breachSev.
     and_then (repoPhase (field_of record ''phase'')) (\<lambda>p.
     and_then (repoSeverity (field_of record ''status'')) (\<lambda>s.
     and_then (boundedInteger (field_of record ''consecutiveBreaches'') 0 1) (\<lambda>breaches.
     and_then (boundedInteger (field_of record ''consecutiveClears'') 0 4) (\<lambda>clears.
     and_then (repoNullableTimestamp (field_of record ''cooldownUntil'')) (\<lambda>cooldown.
     and_then (repoNullableTimestamp (field_of record ''lastEvaluatedAt'')) (\<lambda>evaluated.
     and_then (repoNullableTimestamp (field_of record ''lastNotificationAt'')) (\<lambda>notified.
     and_then (repoNullableTimestamp (field_of record ''openedAt'')) (\<lambda>opened.
       let state = \<lparr>activeEvidence = active, breachEvidence = breach, breachSeverity = breachSev,
            consecutiveBreaches = breaches, consecutiveClears = clears, cooldownUntil = cooldown,
            identity = ident, lastEvaluatedAt = evaluated, lastNotificationAt = notified,
            openedAt = opened, phase = p, status = s\<rparr>
       in if stateInconsistent evaluation state \<or> phaseInconsistent state then invalidInput
          else Inr state))))))))))))))"

subsection \<open>Intent and decision\<close>

definition intentKeys :: "js \<Rightarrow> string list option" where
  "intentKeys kind =
     (if kind = JStr ''open'' \<or> kind = JStr ''remind''
      then Some [''at'', ''dimension'', ''evidence'', ''kind'', ''mode'', ''ruleId'', ''severity'']
      else if kind = JStr ''escalate''
      then Some [''at'', ''dimension'', ''evidence'', ''from'', ''kind'', ''mode'', ''ruleId'', ''severity'']
      else if kind = JStr ''resolve''
      then Some [''at'', ''dimension'', ''from'', ''kind'', ''mode'', ''ruleId'', ''severity'']
      else None)"

definition intentForeign :: "js_record \<Rightarrow> alertRuleEvaluation \<Rightarrow> bool" where
  "intentForeign record evaluation \<longleftrightarrow>
     field_of record ''at'' \<noteq> JStr (eval_asOf evaluation) \<or>
     field_of record ''mode'' \<noteq> JStr ''observe_only'' \<or>
     field_of record ''ruleId'' \<noteq> JStr (ruleIdString (eval_ruleId evaluation))"

definition normalizeResolve :: "intentBase \<Rightarrow> js_record \<Rightarrow> alertActionIntent option result" where
  "normalizeResolve b record =
     (case severityOf (field_of record ''from'') of
        None \<Rightarrow> invalidInput
      | Some from_severity \<Rightarrow>
          if field_of record ''severity'' \<noteq> JStr ''none'' then invalidInput
          else Inr (Some (ResolveIntent b from_severity)))"

definition normalizeActive :: "js \<Rightarrow> intentBase \<Rightarrow> js_record \<Rightarrow> alertActionIntent option result" where
  "normalizeActive kind b record =
     and_then (parseAlertSelectedEvidenceForRule (field_of record ''evidence'') (int_ruleId b)) (\<lambda>evidence.
       if field_of record ''severity'' \<noteq> JStr (severityString (sel_severity evidence)) then invalidInput
       else if kind = JStr ''escalate'' then
         (if field_of record ''from'' \<noteq> JStr ''warning'' \<or> field_of record ''severity'' \<noteq> JStr ''critical''
          then invalidInput else Inr (Some (EscalateIntent b evidence)))
       else case severityOf (field_of record ''severity'') of
         None \<Rightarrow> invalidInput
       | Some severity \<Rightarrow>
           Inr (Some (if kind = JStr ''open'' then OpenIntent b evidence severity
             else RemindIntent b evidence severity)))"

definition normalizeIntent :: "js \<Rightarrow> alertRuleEvaluation \<Rightarrow> alertActionIntent option result" where
  "normalizeIntent value evaluation =
     (if value = JNull then Inr None
      else and_then (case recordValue value '''' of Inl _ \<Rightarrow> invalidInput | Inr r \<Rightarrow> Inr r) (\<lambda>loose.
        let kind = field_of loose ''kind'' in
        case intentKeys kind of
          None \<Rightarrow> invalidInput
        | Some keys \<Rightarrow>
            and_then (repoRecord value keys) (\<lambda>record.
            if intentForeign record evaluation then invalidInput
            else and_then (parseAlertDimension (field_of record ''dimension'')
                (ruleDimensions (ALERT_RULE_DEFINITIONS (eval_ruleId evaluation)))) (\<lambda>dimension.
            if \<not> sameDimension dimension (eval_dimension evaluation) then invalidInput
            else
              let b = \<lparr>int_at = eval_asOf evaluation, int_dimension = dimension,
                       int_ruleId = eval_ruleId evaluation\<rparr>
              in if kind = JStr ''resolve'' then normalizeResolve b record
                 else normalizeActive kind b record))))"

definition decisionInconsistent :: "alertActionIntent option \<Rightarrow> alertLifecycleState \<Rightarrow> bool" where
  "decisionInconsistent intent s \<longleftrightarrow>
     (identity s = None \<and> intent \<noteq> None) \<or>
     (case intent of
        None \<Rightarrow> False
      | Some (OpenIntent _ _ _) \<Rightarrow> status s = None
      | Some (EscalateIntent _ _) \<Rightarrow> status s \<noteq> Some Critical
      | Some (RemindIntent _ _ severity) \<Rightarrow> status s \<noteq> Some severity
      | Some (ResolveIntent _ _) \<Rightarrow> status s \<noteq> None)"

definition normalizeDecision :: "js \<Rightarrow> alertRuleEvaluation \<Rightarrow> alertLifecycleResult result" where
  "normalizeDecision value evaluation =
     and_then (repoRecord value [''intent'', ''state'']) (\<lambda>record.
     and_then (normalizeLifecycleState (field_of record ''state'') evaluation) (\<lambda>s.
     and_then (normalizeIntent (field_of record ''intent'') evaluation) (\<lambda>intent.
       if decisionInconsistent intent s then invalidInput else Inr (intent, s))))"

subsection \<open>The values the evaluator and the lifecycle return\<close>

fun jsOfStatus :: "alertEvidenceStatus \<Rightarrow> js" where
  "jsOfStatus Known = JStr ''known''"
| "jsOfStatus Unknown = JStr ''unknown''"

definition jsOfEvaluation :: "alertRuleEvaluation \<Rightarrow> js" where
  "jsOfEvaluation e = JObj
     [(''asOf'', JStr (eval_asOf e)),
      (''breachedWindows'', JArr (map (\<lambda>w. JStr (windowKeyString w)) (eval_breachedWindows e))),
      (''dimension'', jsOfDimension (eval_dimension e)),
      (''evidence'', jsOfStatus (eval_evidence e)),
      (''immediateCritical'', JBool (eval_immediateCritical e)),
      (''ruleId'', JStr (ruleIdString (eval_ruleId e))),
      (''selectedEvidence'', encNullable jsOfSelectedEvidence (eval_selectedEvidence e)),
      (''severity'', jsOfSeverity (eval_severity e))]"

text \<open>The four intents, with the keys of \<open>activeIntentBase\<close> first, where it is spread.\<close>

definition intentFields :: "intentBase \<Rightarrow> js_record" where
  "intentFields b =
     [(''at'', JStr (int_at b)), (''dimension'', jsOfDimension (int_dimension b)),
      (''mode'', JStr ''observe_only''), (''ruleId'', JStr (ruleIdString (int_ruleId b)))]"

fun jsOfIntent :: "alertActionIntent \<Rightarrow> js" where
  "jsOfIntent (OpenIntent b x severity) = JObj (intentFields b @
     [(''evidence'', jsOfSelectedEvidence x), (''kind'', JStr ''open''),
      (''severity'', JStr (severityString severity))])"
| "jsOfIntent (EscalateIntent b x) = JObj (intentFields b @
     [(''evidence'', jsOfSelectedEvidence x), (''from'', JStr ''warning''),
      (''kind'', JStr ''escalate''), (''severity'', JStr ''critical'')])"
| "jsOfIntent (RemindIntent b x severity) = JObj (intentFields b @
     [(''evidence'', jsOfSelectedEvidence x), (''kind'', JStr ''remind''),
      (''severity'', JStr (severityString severity))])"
| "jsOfIntent (ResolveIntent b from_severity) = JObj (intentFields b @
     [(''from'', JStr (severityString from_severity)), (''kind'', JStr ''resolve''),
      (''severity'', JStr ''none'')])"

definition jsOfDecision :: "alertLifecycleResult \<Rightarrow> js" where
  "jsOfDecision d = JObj [(''intent'', encNullable jsOfIntent (fst d)), (''state'', jsOfState (snd d))]"

subsection \<open>Immediate evidence\<close>

text \<open>The evidence of an immediate critical names one of the metrics the trigger exempts.\<close>

definition immediateEvidence :: "alertRuleEvaluation \<Rightarrow> bool" where
  "immediateEvidence e \<longleftrightarrow>
     (eval_immediateCritical e \<longrightarrow>
        (case eval_selectedEvidence e of None \<Rightarrow> False
         | Some x \<Rightarrow>
             (eval_ruleId e = Logout_delivery_health \<and> ev_metricName x = M_dead) \<or>
             (eval_ruleId e = Alert_runtime_health \<and>
              ev_metricName x \<in> {M_evaluator_missing, M_dead_outbox})))"

lemma isImmediate_hd:
  "isImmediateCriticalEvidence r cs \<Longrightarrow>
     cs \<noteq> [] \<and> ((r = Logout_delivery_health \<and> ev_metricName (hd cs) = M_dead) \<or>
       (r = Alert_runtime_health \<and> ev_metricName (hd cs) \<in> {M_evaluator_missing, M_dead_outbox}))"
  by (auto simp: isImmediateCriticalEvidence_def split: list.splits if_splits)

lemma criticalEvaluation_immediate:
  assumes "criticalEvaluation obs matches = Inr e"
  shows "immediateEvidence e"
proof (cases "find (\<lambda>(components, _). isImmediateCriticalEvidence (obs_ruleId obs) components) matches")
  case None
  then show ?thesis
    using assms by (auto simp: criticalEvaluation_def Let_def and_then_eq_Inr immediateEvidence_def)
next
  case (Some m)
  obtain cs w where m: "m = (cs, w)"
    by (cases m)
  then have imm: "isImmediateCriticalEvidence (obs_ruleId obs) cs"
    using Some by (auto simp: find_Some_iff)
  then obtain c cs' where cs: "cs = c # cs'"
    using isImmediate_hd by (cases cs) auto
  show ?thesis
    using assms Some m isImmediate_hd[OF imm] cs
    by (auto simp: criticalEvaluation_def Let_def and_then_eq_Inr immediateEvidence_def split: if_splits)
qed

lemma evaluateAlertRule_immediateEvidence:
  "evaluateAlertRule v = Inr e \<Longrightarrow> immediateEvidence e"
  by (auto simp: evaluateAlertRule_def evaluateObservation_def and_then_eq_Inr Let_def
      unknownEvaluation_def split: if_split_asm dest: criticalEvaluation_immediate)
    (auto simp: immediateEvidence_def dest: warningEvaluation_immediate)

text \<open>No warning threshold of the two rules names one of these metrics.\<close>

lemma warning_contract_name:
  "ruleThreshold r w Warning = Some e \<Longrightarrow> k # ks \<in> set (evidenceContractsFor e) \<Longrightarrow>
   \<not> (r = Logout_delivery_health \<and> cc_metricName k = M_dead) \<and>
   \<not> (r = Alert_runtime_health \<and> cc_metricName k \<in> {M_evaluator_missing, M_dead_outbox})"
  unfolding ruleThreshold_def
  by (cases r; cases w) (auto simp: rule_defs rule_simps combineContracts_def)

lemma evidenceForRule_contract:
  assumes "evidenceForRule r x"
  obtains w e k where "ruleThreshold r w (sel_severity x) = Some e"
    and "k \<in> set (evidenceContractsFor e)" and "evidenceMatchesContract x k"
  using assms
  by (auto simp: evidenceForRule_def parseAlertSelectedEvidenceForRule_def and_then_eq_Inr Let_def
      throw_if_eq_Inr throw_none_eq_Inr list_ex_iff ruleThreshold_def)

lemma warning_not_immediate:
  assumes "evidenceForRule r x" and "immediateFor r (Some x)"
  shows "sel_severity x = Critical"
proof (rule ccontr)
  assume "sel_severity x \<noteq> Critical"
  then have "sel_severity x = Warning"
    by (cases "sel_severity x") simp_all
  then obtain w e k where k: "ruleThreshold r w Warning = Some e" "k \<in> set (evidenceContractsFor e)"
      "evidenceMatchesContract x k"
    using assms(1) by (auto elim: evidenceForRule_contract)
  then obtain c ks where "k = c # ks" "cc_metricName c = ev_metricName x"
    by (cases k) (auto simp: evidenceMatchesContract_def componentMatches_def actualComponents_def split: option.splits)
  then show False
    using warning_contract_name[of r w e c ks] k assms(2) by (auto simp: immediateFor_def split: if_splits)
qed

lemma immediateFor_hd:
  "selectedEvidence cs s w = Inr x \<Longrightarrow> immediateFor r (Some x) \<longleftrightarrow> isImmediateCriticalEvidence r cs"
  by (cases cs) (auto simp: immediateFor_def isImmediateCriticalEvidence_def split: if_splits)

lemma criticalEvaluation_immediateFor:
  assumes "criticalEvaluation obs matches = Inr e" and "matches \<noteq> []"
  shows "immediateFor (obs_ruleId obs) (eval_selectedEvidence e) \<longleftrightarrow> eval_immediateCritical e"
proof -
  let ?P = "\<lambda>(cs, w). isImmediateCriticalEvidence (obs_ruleId obs) cs"
  obtain cs w where sel: "(case find ?P matches of None \<Rightarrow> hd matches | Some m \<Rightarrow> m) = (cs, w)"
    by fastforce
  then obtain x where x: "selectedEvidence cs Critical w = Inr x" "eval_selectedEvidence e = Some x"
      "eval_immediateCritical e \<longleftrightarrow> find ?P matches \<noteq> None"
    using assms(1) by (auto simp: criticalEvaluation_def Let_def and_then_eq_Inr)
  have "isImmediateCriticalEvidence (obs_ruleId obs) cs \<longleftrightarrow> find ?P matches \<noteq> None"
  proof (cases "find ?P matches")
    case None
    then have "\<forall>m \<in> set matches. \<not> ?P m"
      by (auto simp: find_None_iff)
    then have "\<not> ?P (hd matches)"
      using hd_in_set[OF assms(2)] by (rule bspec)
    then show ?thesis
      using None sel by simp
  next
    case (Some m)
    moreover have "?P m"
      using Some by (auto simp: find_Some_iff)
    ultimately show ?thesis
      using sel by simp
  qed
  then show ?thesis
    using x immediateFor_hd by metis
qed

lemma evaluateObservation_cases:
  assumes "evaluateObservation obs = Inr e"
  obtains "e = unknownEvaluation obs"
  | cms where "cms \<noteq> []" and "criticalEvaluation obs cms = Inr e"
  | cu wms wu where "warningEvaluation obs cu wms wu = Inr e"
proof -
  let ?def = "ALERT_RULE_DEFINITIONS (obs_ruleId obs)" and ?bags = "observationBags obs"
  obtain cms cu where c: "evaluateWindowThresholds ?def ?bags Critical = Inr (cms, cu)"
    using evaluateWindowThresholds_ok .
  obtain wms wu where w: "evaluateWindowThresholds ?def ?bags Warning = Inr (wms, wu)"
    using evaluateWindowThresholds_ok .
  obtain ws where "alertWindowsAt (obs_asOf obs) = Inr ws"
    using assms by (auto simp: evaluateObservation_def and_then_eq_Inr)
  then have eval: "evaluateObservation obs =
     (if obs_ruleId obs = Queue_dlq_approximate \<and> queueSnapshotOf obs = None
      then Inr (unknownEvaluation obs)
      else if cms \<noteq> [] then criticalEvaluation obs cms else warningEvaluation obs cu wms wu)"
    using c w by (auto simp: evaluateObservation_def observationBags_def)
  then show thesis
    using that assms by (simp split: if_split_asm)
qed

lemma evaluateAlertRule_immediateFor:
  assumes "evaluateAlertRule v = Inr e"
  shows "immediateFor (eval_ruleId e) (eval_selectedEvidence e) \<longleftrightarrow> eval_immediateCritical e"
proof (cases "eval_severity e = Some Critical")
  case True
  obtain obs where "evaluateObservation obs = Inr e"
    using assms by (auto simp: evaluateAlertRule_def and_then_eq_Inr)
  then obtain matches where m: "criticalEvaluation obs matches = Inr e" "matches \<noteq> []"
    using True
    by (cases rule: evaluateObservation_cases)
      (auto simp: unknownEvaluation_def warningEvaluation_def and_then_eq_Inr split: list.splits)
  moreover have "eval_ruleId e = obs_ruleId obs"
    using m(1) by (auto simp: criticalEvaluation_def Let_def and_then_eq_Inr)
  ultimately show ?thesis
    using criticalEvaluation_immediateFor by simp
next
  case False
  have e: "soundEvaluation e"
    by (rule evaluateAlertRule_sound[OF assms])
  have "\<not> immediateFor (eval_ruleId e) (eval_selectedEvidence e)"
  proof (cases "eval_selectedEvidence e")
    case None
    then show ?thesis
      by (simp add: immediateFor_def)
  next
    case (Some x)
    then show ?thesis
      using e False warning_not_immediate[of "eval_ruleId e" x] by (auto simp: soundEvaluation_def)
  qed
  then show ?thesis
    using e False by (auto simp: soundEvaluation_def)
qed

subsection \<open>The evaluation is accepted\<close>

lemma repoRecord_built [codec_simps]: "map fst r = keys \<Longrightarrow> repoRecord (JObj r) keys = Inr r"
  by (simp add: repoRecord_def exactRecord_built)

lemma repoTimestamp_built [codec_simps]:
  "canonical s \<Longrightarrow> length s = 24 \<Longrightarrow> repoTimestamp (JStr s) = Inr s"
  by (simp add: repoTimestamp_def)

lemma repoEvidenceStatus_built [codec_simps]: "repoEvidenceStatus (jsOfStatus x) = Inr x"
  by (cases x) (simp_all add: repoEvidenceStatus_def)

lemma repoSeverity_built [codec_simps]: "repoSeverity (jsOfSeverity x) = Inr x"
  by (cases x rule: jsOfSeverity.cases) (auto simp: repoSeverity_def, metis activeSeverity.exhaust)

lemma repoBreachSeverity_built [codec_simps]: "repoBreachSeverity (jsOfActiveSeverity x) = Inr x"
  by (cases x rule: jsOfActiveSeverity.cases)
    (auto simp: repoBreachSeverity_def, metis activeSeverity.exhaust)

lemma repoPhase_built [codec_simps]: "repoPhase (jsOfPhase x) = Inr x"
  by (cases x) (simp_all add: repoPhase_def)

lemma repoWindow_built: "repoWindow (JStr (windowKeyString w)) = Inr w"
  by (cases w) (simp_all add: repoWindow_def)

lemma repoWindows_built [codec_simps]:
  "distinct ws \<Longrightarrow> repoWindows (JArr (map (\<lambda>w. JStr (windowKeyString w)) ws)) = Inr ws"
proof -
  have "map_result repoWindow (map (\<lambda>w. JStr (windowKeyString w)) ws) = Inr ws"
    by (auto simp: map_result_Inr_iff list_all2_conv_all_nth repoWindow_built)
  then show "distinct ws \<Longrightarrow> ?thesis"
    by (simp add: repoWindows_def)
qed

lemma repoEvidence_built [codec_simps]:
  "pred_option (evidenceForRule r) x \<Longrightarrow> repoEvidence r (encNullable jsOfSelectedEvidence x) = Inr x"
  unfolding repoEvidence_def by (rule codec.dec_enc[OF ruleEvidence.nullable_codec])

lemma evaluation_meaning:
  assumes "evaluateAlertRule v = Inr e"
  obtains obs where "validObservation obs" and "meansObservation obs e" and "evidenceAgrees e"
proof -
  obtain obs where obs: "parseAlertObservation v = Inr obs" and e: "evaluateObservation obs = Inr e"
    using assms by (auto simp: evaluateAlertRule_def and_then_eq_Inr)
  have valid: "validObservation obs"
    using obs by (rule parseAlertObservation_valid)
  have "is_ok (alertWindowsAt (obs_asOf obs))"
    using e by (auto simp: evaluateObservation_def and_then_eq_Inr)
  then show thesis
    using that evaluateObservation_meaning[OF valid] e by (metis alertWindowsAt_ok sum.inject(2) valid)
qed

lemma evaluateAlertRule_breached:
  assumes "evaluateAlertRule v = Inr e"
  shows "distinct (eval_breachedWindows e)" and "eval_evidence e = Unknown \<Longrightarrow> eval_breachedWindows e = []"
proof -
  obtain obs where obs: "meansObservation obs e"
    using evaluation_meaning[OF assms] by blast
  have "distinct ALERT_WINDOW_KEYS"
    by (simp add: ALERT_WINDOW_KEYS_def)
  then show "distinct (eval_breachedWindows e)"
    using obs by (auto simp: meansObservation_def Let_def specWindows_def breachedWindows_def split: option.splits)
  show "eval_evidence e = Unknown \<Longrightarrow> eval_breachedWindows e = []"
    using obs by (auto simp: meansObservation_def Let_def specWindows_def specEvidence_def split: if_splits option.splits)
qed

lemma evaluation_eta:
  "\<lparr>eval_asOf = eval_asOf e, eval_breachedWindows = eval_breachedWindows e,
    eval_dimension = eval_dimension e, eval_evidence = eval_evidence e,
    eval_immediateCritical = eval_immediateCritical e, eval_ruleId = eval_ruleId e,
    eval_selectedEvidence = eval_selectedEvidence e, eval_severity = eval_severity e\<rparr> = e"
  by simp

lemma normalizeEvaluation_accepts:
  assumes r: "evaluateAlertRule v = Inr e" and len: "length (eval_asOf e) = 24"
  shows "normalizeEvaluation (jsOfEvaluation e) = Inr e"
proof -
  have e: "soundEvaluation e"
    by (rule evaluateAlertRule_sound[OF r])
  have "pred_option (evidenceForRule (eval_ruleId e)) (eval_selectedEvidence e)"
    using e by (auto simp: soundEvaluation_def split: option.splits)
  moreover have "validDimension (ruleDimensions (ALERT_RULE_DEFINITIONS (eval_ruleId e))) (eval_dimension e)"
    using e by (simp add: soundEvaluation_def validIdentity_def identityFor_def)
  moreover have "\<not> evaluationInconsistent e (eval_immediateCritical e)"
    using e evaluateAlertRule_breached(2)[OF r]
    by (auto simp: evaluationInconsistent_def soundEvaluation_def split: option.splits)
  moreover have "canonical (eval_asOf e)"
    using e by (simp add: soundEvaluation_def)
  ultimately show ?thesis
    using len evaluateAlertRule_breached(1)[OF r] evaluateAlertRule_immediateFor[OF r]
    by (simp add: normalizeEvaluation_def jsOfEvaluation_def evaluationKeys_def codec_simps Let_def evaluation_eta
        codec.dec_enc[OF dimension_codec])
qed

subsection \<open>The decision is accepted\<close>

definition shortInstants :: "alertLifecycleState \<Rightarrow> bool" where
  "shortInstants s \<longleftrightarrow>
     pred_option (\<lambda>t. length t = 24) (cooldownUntil s) \<and> pred_option (\<lambda>t. length t = 24) (lastEvaluatedAt s) \<and>
     pred_option (\<lambda>t. length t = 24) (lastNotificationAt s) \<and> pred_option (\<lambda>t. length t = 24) (openedAt s)"

lemma repoNullableTimestamp_built [codec_simps]:
  "pred_option canonical x \<Longrightarrow> pred_option (\<lambda>t. length t = 24) x \<Longrightarrow>
   repoNullableTimestamp (jsOfStringOption x) = Inr x"
  by (cases x) (simp_all add: repoNullableTimestamp_def decNullable_def repoTimestamp_built)

lemma boundedInteger_built [codec_simps]:
  "m \<le> MAX_SAFE_INTEGER \<Longrightarrow> inDomain m n \<Longrightarrow> boundedInteger (JInt n) 0 m = Inr n"
  by (simp add: boundedInteger_def inDomain_def)

lemma normalizeIdentity_built [codec_simps]:
  "pred_option (\<lambda>i. validIdentity i \<and> id_ruleId i = r) x \<Longrightarrow>
   decNullable (normalizeIdentity r) (encNullable jsOfIdentity x) = Inr x"
  by (cases x)
    (auto simp: decNullable_def encNullable_def normalizeIdentity_def jsOfIdentity_def codec_simps
      validIdentity_def codec.dec_enc[OF dimension_codec])

lemma state_eta:
  "\<lparr>activeEvidence = activeEvidence s, breachEvidence = breachEvidence s, breachSeverity = breachSeverity s,
    consecutiveBreaches = consecutiveBreaches s, consecutiveClears = consecutiveClears s,
    cooldownUntil = cooldownUntil s, identity = identity s, lastEvaluatedAt = lastEvaluatedAt s,
    lastNotificationAt = lastNotificationAt s, openedAt = openedAt s, phase = phase s,
    status = status s\<rparr> = s"
  by simp

lemma normalizeLifecycleState_enc:
  assumes "pred_option (\<lambda>i. validIdentity i \<and> i = identityFor e) (identity s)" and "shortInstants s"
    and "pred_option (evidenceForRule (eval_ruleId e)) (activeEvidence s)"
    and "pred_option (evidenceForRule (eval_ruleId e)) (breachEvidence s)"
    and "inDomain 1 (consecutiveBreaches s)" and "inDomain 4 (consecutiveClears s)"
    and "pred_option canonical (cooldownUntil s)" and "pred_option canonical (lastEvaluatedAt s)"
    and "pred_option canonical (lastNotificationAt s)" and "pred_option canonical (openedAt s)"
    and "\<not> stateInconsistent e s" and "\<not> phaseInconsistent s"
  shows "normalizeLifecycleState (jsOfState s) e = Inr s"
proof -
  have "pred_option (\<lambda>i. validIdentity i \<and> id_ruleId i = eval_ruleId e) (identity s)"
    using assms(1) by (cases "identity s") (auto simp: identityFor_def)
  moreover have "\<not> foreignIdentity e (identity s)"
    using assms(1) by (cases "identity s") (auto simp: foreignIdentity_def identityFor_def)
  ultimately show ?thesis
    using assms
    by (simp add: normalizeLifecycleState_def jsOfState_def stateKeys_def codec_simps Let_def state_eta
        shortInstants_def MAX_SAFE_INTEGER_def)
qed

lemma normalizeLifecycleState_evaluated:
  assumes s: "evaluatedState (eval_asOf e) (identityFor e) s" and e: "soundEvaluation e"
    and short: "shortInstants s"
  shows "normalizeLifecycleState (jsOfState s) e = Inr s"
proof (rule normalizeLifecycleState_enc[OF _ short])
  have i: "id_ruleId (identityFor e) = eval_ruleId e"
    by (simp add: identityFor_def)
  show "pred_option (\<lambda>i. validIdentity i \<and> i = identityFor e) (identity s)"
    using s e by (simp add: evaluatedState_def soundEvaluation_def)
  show "pred_option (evidenceForRule (eval_ruleId e)) (activeEvidence s)"
    "pred_option (evidenceForRule (eval_ruleId e)) (breachEvidence s)"
    using s i by (cases "phase s"; auto simp: evaluated_defs)+
  show "inDomain 1 (consecutiveBreaches s)" "inDomain 4 (consecutiveClears s)"
    using s by (cases "phase s"; auto simp: evaluated_defs inDomain_def)+
  show "pred_option canonical (lastEvaluatedAt s)"
    using s e by (simp add: evaluatedState_def soundEvaluation_def)
  show "pred_option canonical (cooldownUntil s)"
    using s by (cases "phase s"; cases "cooldownUntil s"; auto simp: evaluated_defs)
  show "pred_option canonical (lastNotificationAt s)" "pred_option canonical (openedAt s)"
    using s by (cases "phase s"; auto simp: evaluated_defs)+
  show "\<not> stateInconsistent e s"
    using s by (cases "phase s"; auto simp: evaluated_defs stateInconsistent_def)
  show "\<not> phaseInconsistent s"
    using s by (cases "phase s"; auto simp: evaluated_defs phaseInconsistent_def)
qed

lemma validState_unbound_inactive:
  assumes "validState now s" and "identity s = None"
  shows "s = inactiveAlertState"
  using assms
  by (intro alertLifecycleState.equality)
    (auto simp: state_checks phaseError_def inactiveInconsistent_def pendingInconsistent_def
      activeInconsistent_def inactiveAlertState_def split: alertLifecyclePhase.splits if_splits option.splits)

lemma normalizeLifecycleState_inactive:
  "normalizeLifecycleState (jsOfState inactiveAlertState) e = Inr inactiveAlertState"
  by (rule normalizeLifecycleState_enc)
    (simp_all add: inactiveAlertState_def shortInstants_def inDomain_def stateInconsistent_def
      phaseInconsistent_def)

text \<open>Every intent carries evidence of its own rule and severity.\<close>

fun carries :: "alertRuleEvaluation \<Rightarrow> alertActionIntent \<Rightarrow> bool" where
  "carries e (OpenIntent b x sev) \<longleftrightarrow>
     b = activeIntentBase e (eval_asOf e) \<and> evidenceForRule (eval_ruleId e) x \<and> sel_severity x = sev"
| "carries e (EscalateIntent b x) \<longleftrightarrow>
     b = activeIntentBase e (eval_asOf e) \<and> evidenceForRule (eval_ruleId e) x \<and> sel_severity x = Critical"
| "carries e (RemindIntent b x sev) \<longleftrightarrow>
     b = activeIntentBase e (eval_asOf e) \<and> evidenceForRule (eval_ruleId e) x \<and> sel_severity x = sev"
| "carries e (ResolveIntent b sev) \<longleftrightarrow> b = activeIntentBase e (eval_asOf e)"

lemma alertStep_carries:
  assumes step: "alertStep e (eval_asOf e) s (Some intent) s'" and e: "soundEvaluation e"
    and s': "evaluatedState (eval_asOf e) (identityFor e) s'"
  shows "carries e intent" and "\<not> decisionInconsistent (Some intent) s'"
proof -
  show "carries e intent"
    using step
  proof cases
    case (stays sev)
    then obtain x where "intent = RemindIntent (activeIntentBase e (eval_asOf e)) x sev"
        "activeEvidence s' = Some x"
      by auto
    then show ?thesis
      using s' stays(3) by (cases "phase s'") (auto simp: evaluated_defs identityFor_def)
  qed (use e in \<open>auto simp: soundEvaluation_def confirms_def\<close>)
  show "\<not> decisionInconsistent (Some intent) s'"
    using step
    by cases (use s' in \<open>auto simp: decisionInconsistent_def evaluatedState_def\<close>)
qed

lemma normalizeIntent_carries:
  assumes "carries e intent" and "soundEvaluation e"
  shows "normalizeIntent (jsOfIntent intent) e = Inr (Some intent)"
proof -
  note dim = codec.dec_enc[OF dimension_codec]
  have d: "validDimension (ruleDimensions (ALERT_RULE_DEFINITIONS (eval_ruleId e))) (eval_dimension e)"
    using assms(2) by (simp add: soundEvaluation_def validIdentity_def identityFor_def)
  show ?thesis
    using assms(1) d
    by (cases intent)
      (auto simp: normalizeIntent_def intentFields_def intentKeys_def repoRecord_def exactRecord_permuted
        intentForeign_def activeIntentBase_def dim normalizeResolve_def normalizeActive_def
        ruleEvidence.dec_enc codec_simps Let_def)
qed

lemma normalizeDecision_accepts:
  assumes s: "storedState s" and r: "lifecycleStep s (asOf, v) = Inr (intent, s')"
    and e: "evaluateAlertRule v = Inr e" and short: "shortInstants s'"
  shows "normalizeDecision (jsOfDecision (intent, s')) e = Inr (intent, s')"
proof -
  have sound: "soundEvaluation e" and asOf: "eval_asOf e = asOf" and valid: "validState (getTime asOf) s"
    and a: "advanceEvaluated e s asOf = Inr (intent, s')"
    using lifecycleStep_parts[OF s r] e by auto
  have canon: "canonical asOf"
    using sound asOf by (simp add: soundEvaluation_def)
  have rule: "id_ruleId (identityFor e) = eval_ruleId e"
    by (simp add: identityFor_def)
  have "normalizeLifecycleState (jsOfState s') e = Inr s' \<and>
      normalizeIntent (encNullable jsOfIntent intent) e = Inr intent \<and> \<not> decisionInconsistent intent s'"
    using a
  proof (cases rule: advanceEvaluated_cases)
    case idle
    then show ?thesis
      using validState_unbound_inactive[OF valid] normalizeLifecycleState_inactive
      by (simp add: normalizeIntent_def encNullable_def decisionInconsistent_def)
  next
    case bound
    note b = boundState_evaluated[OF valid sound canon bound(1)]
    have s': "evaluatedState (eval_asOf e) (identityFor e) s'"
      using advanceBound_evaluated[OF b sound rule canon bound(2)] asOf by simp
    have step: "alertStep e (eval_asOf e) (boundState e s asOf) intent s'"
      using advanceBound_step[OF b sound rule canon bound(2)] asOf by simp
    show ?thesis
    proof (cases intent)
      case None
      then show ?thesis
        using normalizeLifecycleState_evaluated[OF s' sound short]
        by (simp add: normalizeIntent_def encNullable_def decisionInconsistent_def)
    next
      case (Some i)
      then show ?thesis
        using normalizeLifecycleState_evaluated[OF s' sound short] normalizeIntent_carries[OF _ sound]
          alertStep_carries[OF step[unfolded Some] sound s']
        by (simp add: encNullable_def)
    qed
  qed
  then show ?thesis
    by (simp add: normalizeDecision_def jsOfDecision_def codec_simps)
qed

end
