(* ===== verification/Alert_State_Columns.thy ===== *)
theory Alert_State_Columns
  imports Alert_State_Input
begin

section \<open>Evidence and dimensions as columns\<close>

text \<open>
  \<^verbatim>\<open>apps/sso/worker/alert-state-repository.ts\<close> stores selected evidence and the dimension of an
  alert in columns, and rebuilds both when it reads a row. The rebuilt evidence goes through
  \<open>parseAlertSelectedEvidenceForRule\<close>; the theory shows that what was written comes back.
\<close>

subsection \<open>Dimensions\<close>

datatype alertEnvironment = Local | Preview | Production

fun environmentString :: "alertEnvironment \<Rightarrow> string" where
  "environmentString Local = ''local''"
| "environmentString Preview = ''preview''"
| "environmentString Production = ''production''"

fun sourceKindString :: "alertSourceKind \<Rightarrow> string" where
  "sourceKindString D1_exact = ''d1_exact''"
| "sourceKindString Queue_approximate = ''queue_approximate''"

fun dimensionKindString :: "dimensionKind \<Rightarrow> string" where
  "dimensionKindString KGlobal = ''global''"
| "dimensionKindString KQueue = ''queue''"
| "dimensionKindString (KHashed k) = hashedKindString k"

record dimensionColumns =
  hashVersion :: "int option"
  queueName :: "string option"
  subjectRef :: "string option"

fun dimensionColumnsOf :: "alertDimension \<Rightarrow> dimensionColumns" where
  "dimensionColumnsOf Global = \<lparr>hashVersion = None, queueName = None, subjectRef = None\<rparr>"
| "dimensionColumnsOf (QueueDimension q) =
     \<lparr>hashVersion = None, queueName = Some (queueNameString q), subjectRef = None\<rparr>"
| "dimensionColumnsOf (Hashed k ref) =
     \<lparr>hashVersion = Some (keyVersion ref), queueName = None, subjectRef = Some (refValue ref)\<rparr>"

fun isHashed :: "dimensionKind \<Rightarrow> bool" where
  "isHashed (KHashed k) = True"
| "isHashed _ = False"

definition sourceInvalid :: "'a result" where
  "sourceInvalid = repoFail ''source_invalid''"

definition projectedDimension :: "alertRuleId \<Rightarrow> dimensionColumns \<Rightarrow> alertDimension result" where
  "projectedDimension r row =
     (let allowed = ruleDimensions (ALERT_RULE_DEFINITIONS r) in
      case queueName row of
        Some q \<Rightarrow> parseAlertDimension (JObj [(''kind'', JStr ''queue''), (''queue'', JStr q)]) allowed
      | None \<Rightarrow>
          (case subjectRef row of
             Some ref \<Rightarrow>
               (case find isHashed allowed of
                  Some kind \<Rightarrow>
                    if hashVersion row \<noteq> Some 1 then sourceInvalid
                    else parseAlertDimension (JObj
                      [(''kind'', JStr (dimensionKindString kind)),
                       (''reference'', JObj [(''keyVersion'', JInt 1), (''value'', JStr ref)])]) allowed
                | None \<Rightarrow> sourceInvalid)
           | None \<Rightarrow>
               if hashVersion row \<noteq> None then sourceInvalid
               else parseAlertDimension (JObj [(''kind'', JStr ''global'')]) allowed))"

text \<open>Every rule has at most one hashed kind, so the kind need not be stored.\<close>

lemma rule_hashed_kind:
  "KHashed k \<in> set (ruleDimensions (ALERT_RULE_DEFINITIONS r)) \<Longrightarrow>
   find isHashed (ruleDimensions (ALERT_RULE_DEFINITIONS r)) = Some (KHashed k)"
  by (cases r) (auto simp: rule_defs rule_simps)

lemma projectedDimension_columns:
  assumes "validDimension (ruleDimensions (ALERT_RULE_DEFINITIONS r)) d"
  shows "projectedDimension r (dimensionColumnsOf d) = Inr d"
proof -
  have parse: "parseAlertDimension (jsOfDimension d) (ruleDimensions (ALERT_RULE_DEFINITIONS r)) = Inr d"
    by (rule codec.dec_enc[OF dimension_codec assms])
  show ?thesis
  proof (cases d)
    case (Hashed k ref)
    then have "find isHashed (ruleDimensions (ALERT_RULE_DEFINITIONS r)) = Some (KHashed k)"
      using assms by (intro rule_hashed_kind) simp
    moreover have "keyVersion ref = 1"
      using Hashed assms by (simp add: validReference_def)
    ultimately show ?thesis
      using parse unfolding projectedDimension_def Hashed by (simp add: jsOfReference_def)
  next
    case Global
    then show ?thesis
      using parse unfolding projectedDimension_def by simp
  next
    case (QueueDimension q)
    then show ?thesis
      using parse unfolding projectedDimension_def by simp
  qed
qed

lemma dimensionColumnsOf_inj:
  assumes "validDimension (ruleDimensions (ALERT_RULE_DEFINITIONS r)) d"
    and "validDimension (ruleDimensions (ALERT_RULE_DEFINITIONS r)) d'"
  shows "dimensionColumnsOf d = dimensionColumnsOf d' \<longleftrightarrow> d = d'"
  using projectedDimension_columns[OF assms(1)] projectedDimension_columns[OF assms(2)] by (metis sum.inject(2))

subsection \<open>Evidence\<close>

record metricColumns =
  metricKind :: evidenceMetricKind
  metricName :: alertMetricName
  metricUnit :: evidenceUnit
  minimumNumeratorCount :: "int option"
  minimumSampleCount :: int
  observedDenominator :: "int option"
  observedNumerator :: "int option"
  observedValue :: int
  secondaryMetricKind :: "evidenceMetricKind option"
  secondaryMetricName :: "alertMetricName option"
  secondaryMetricUnit :: "evidenceUnit option"
  secondaryObservedValue :: "int option"
  secondaryThreshold :: "int option"
  windowSeconds :: int

record evidenceColumns = metricColumns +
  criticalThreshold :: "int option"
  columnSeverity :: activeSeverity
  threshold :: int
  warningThreshold :: "int option"

text \<open>The columns of \<open>alert_state\<close>: both thresholds, of which the one of the severity is set.\<close>

record stateColumns = metricColumns +
  state_criticalThreshold :: "int option"
  state_warningThreshold :: "int option"

definition metricColumnsOf :: "alertSelectedEvidence \<Rightarrow> metricColumns" where
  "metricColumnsOf evidence =
     (let secondary = sel_secondary evidence in
      \<lparr>metricKind = ev_kind evidence, metricName = ev_metricName evidence, metricUnit = ev_unit evidence,
       minimumNumeratorCount = ev_minimumNumeratorCount evidence,
       minimumSampleCount = ev_minimumSampleCount evidence,
       observedDenominator = ev_observedDenominator evidence,
       observedNumerator = ev_observedNumerator evidence, observedValue = ev_observedValue evidence,
       secondaryMetricKind = map_option ev_kind secondary,
       secondaryMetricName = map_option ev_metricName secondary,
       secondaryMetricUnit = map_option ev_unit secondary,
       secondaryObservedValue = map_option ev_observedValue secondary,
       secondaryThreshold = map_option ev_threshold secondary,
       windowSeconds = sel_windowSeconds evidence\<rparr>)"

definition evidenceColumnsOf :: "alertSelectedEvidence \<Rightarrow> evidenceColumns" where
  "evidenceColumnsOf evidence =
     metricColumns.extend (metricColumnsOf evidence)
       \<lparr>criticalThreshold = (if sel_severity evidence = Critical then Some (ev_threshold evidence) else None),
        columnSeverity = sel_severity evidence, threshold = ev_threshold evidence,
        warningThreshold = (if sel_severity evidence = Warning then Some (ev_threshold evidence) else None)\<rparr>"

definition stateColumnsOf :: "evidenceColumns \<Rightarrow> stateColumns" where
  "stateColumnsOf e =
     metricColumns.extend (metricColumns.truncate e)
       \<lparr>state_criticalThreshold = criticalThreshold e, state_warningThreshold = warningThreshold e\<rparr>"

text \<open>The object both readers hand to the parser of selected evidence.\<close>

definition secondaryOfColumns :: "('a metricColumns_scheme) \<Rightarrow> js" where
  "secondaryOfColumns row =
     (if secondaryMetricName row = None then JNull
      else JObj
        [(''kind'', encNullable (\<lambda>k. JStr (kindString k)) (secondaryMetricKind row)),
         (''metricName'', encNullable (\<lambda>n. JStr (metricNameString n)) (secondaryMetricName row)),
         (''minimumNumeratorCount'', JNull), (''minimumSampleCount'', JInt 0),
         (''observedDenominator'', JNull), (''observedNumerator'', JNull),
         (''observedValue'', encNullable JInt (secondaryObservedValue row)),
         (''threshold'', encNullable JInt (secondaryThreshold row)),
         (''unit'', encNullable (\<lambda>u. JStr (unitString u)) (secondaryMetricUnit row))])"

definition evidenceOfColumns :: "('a metricColumns_scheme) \<Rightarrow> activeSeverity \<Rightarrow> int \<Rightarrow> js" where
  "evidenceOfColumns row severity limit = JObj
     [(''kind'', JStr (kindString (metricKind row))),
      (''metricName'', JStr (metricNameString (metricName row))),
      (''minimumNumeratorCount'', encNullable JInt (minimumNumeratorCount row)),
      (''minimumSampleCount'', JInt (minimumSampleCount row)),
      (''observedDenominator'', encNullable JInt (observedDenominator row)),
      (''observedNumerator'', encNullable JInt (observedNumerator row)),
      (''observedValue'', JInt (observedValue row)),
      (''secondary'', secondaryOfColumns row),
      (''severity'', JStr (severityString severity)),
      (''threshold'', JInt limit),
      (''unit'', JStr (unitString (metricUnit row))),
      (''windowSeconds'', JInt (windowSeconds row))]"

definition parseColumns ::
  "('a metricColumns_scheme) \<Rightarrow> activeSeverity \<Rightarrow> int \<Rightarrow> alertRuleId \<Rightarrow> alertSelectedEvidence result" where
  "parseColumns row severity limit r =
     (case parseAlertSelectedEvidenceForRule (evidenceOfColumns row severity limit) r of
        Inl _ \<Rightarrow> sourceInvalid
      | Inr e \<Rightarrow> Inr e)"

definition projectedEvidence ::
  "stateColumns \<Rightarrow> activeSeverity \<Rightarrow> alertRuleId \<Rightarrow> alertSelectedEvidence result" where
  "projectedEvidence row severity r =
     (case (if severity = Warning then state_warningThreshold row else state_criticalThreshold row) of
        None \<Rightarrow> sourceInvalid
      | Some limit \<Rightarrow> parseColumns row severity limit r)"

lemma metricColumnsOf_fields [simp]:
  "metricName (metricColumns.extend (metricColumnsOf x) m) = ev_metricName x"
  "observedValue (metricColumns.extend (metricColumnsOf x) m) = ev_observedValue x"
  "metricName (metricColumnsOf x) = ev_metricName x"
  by (simp_all add: metricColumnsOf_def metricColumns.defs Let_def)

lemma evidenceColumnsOf_fields [simp]:
  "columnSeverity (evidenceColumnsOf x) = sel_severity x"
  "threshold (evidenceColumnsOf x) = ev_threshold x"
  "metricName (evidenceColumnsOf x) = ev_metricName x"
  "metricColumns.truncate (evidenceColumnsOf x) = metricColumnsOf x"
  by (simp_all add: evidenceColumnsOf_def metricColumnsOf_def metricColumns.defs Let_def)

lemma stateColumnsOf_fields [simp]:
  "metricName (stateColumnsOf (evidenceColumnsOf x)) = ev_metricName x"
  "observedValue (stateColumnsOf (evidenceColumnsOf x)) = ev_observedValue x"
  "metricColumns.truncate (stateColumnsOf (evidenceColumnsOf x)) = metricColumnsOf x"
  "state_warningThreshold (stateColumnsOf (evidenceColumnsOf x)) =
     (if sel_severity x = Warning then Some (ev_threshold x) else None)"
  "state_criticalThreshold (stateColumnsOf (evidenceColumnsOf x)) =
     (if sel_severity x = Critical then Some (ev_threshold x) else None)"
  by (simp_all add: stateColumnsOf_def evidenceColumnsOf_def metricColumnsOf_def metricColumns.defs Let_def)

lemma evidenceOfColumns_truncate:
  "evidenceOfColumns (metricColumns.truncate row) s t = evidenceOfColumns row s t"
  by (simp add: evidenceOfColumns_def secondaryOfColumns_def metricColumns.defs)

lemma encNullable_JInt: "encNullable JInt x = jsOfIntOption x"
  by (cases x) (simp_all add: encNullable_def)

lemma encNullable_simps [simp]: "encNullable enc None = JNull" "encNullable enc (Some x) = enc x"
  by (simp_all add: encNullable_def)

text \<open>A secondary component is a count, so that five columns hold all of it.\<close>

lemma secondaryOfColumns_metric:
  assumes "validSelectedEvidence x"
  shows "secondaryOfColumns (metricColumnsOf x) = encNullable jsOfMetricEvidence (sel_secondary x)"
proof (cases "sel_secondary x")
  case None
  then show ?thesis
    by (simp add: secondaryOfColumns_def metricColumnsOf_def)
next
  case (Some s)
  then have "validMetricEvidence s" and "ev_metricName s \<noteq> M_ratio"
    using assms by (auto simp: validSelectedEvidence_def secondaryProves_def supportedPair_def)
  then have "scalarFieldsValid s"
    by (simp add: validMetricEvidence_def)
  then show ?thesis
    using Some
    by (simp add: secondaryOfColumns_def metricColumnsOf_def jsOfMetricEvidence_def metricEvidenceFields_def
        scalarFieldsValid_def)
qed

lemma evidenceForRule_valid: "evidenceForRule r x \<Longrightarrow> validSelectedEvidence x"
  by (auto simp: evidenceForRule_def parseAlertSelectedEvidenceForRule_def and_then_eq_Inr Let_def
      throw_if_eq_Inr throw_none_eq_Inr dest: selectedEvidence.dec_valid)

lemma evidenceOfColumns_parse:
  assumes "validSelectedEvidence x"
  shows "parseAlertSelectedEvidence (evidenceOfColumns (metricColumnsOf x) (sel_severity x) (ev_threshold x))
    = Inr x"
proof -
  define c where "c = encNullable jsOfMetricEvidence (sel_secondary x)"
  let ?fields = "[(''kind'', JStr (kindString (ev_kind x))),
     (''metricName'', JStr (metricNameString (ev_metricName x))),
     (''minimumNumeratorCount'', jsOfIntOption (ev_minimumNumeratorCount x)),
     (''minimumSampleCount'', JInt (ev_minimumSampleCount x)),
     (''observedDenominator'', jsOfIntOption (ev_observedDenominator x)),
     (''observedNumerator'', jsOfIntOption (ev_observedNumerator x)),
     (''observedValue'', JInt (ev_observedValue x)), (''secondary'', c),
     (''severity'', JStr (severityString (sel_severity x))),
     (''threshold'', JInt (ev_threshold x)), (''unit'', JStr (unitString (ev_unit x))),
     (''windowSeconds'', JInt (sel_windowSeconds x))]"
  have fields: "evidenceOfColumns (metricColumnsOf x) (sel_severity x) (ev_threshold x) = JObj ?fields"
    using secondaryOfColumns_metric[OF assms]
    by (simp add: evidenceOfColumns_def c_def encNullable_JInt metricColumnsOf_def Let_def)
  have "primaryFields ?fields = JObj (metricEvidenceFields x)"
    by (simp add: primaryFields_def metricEvidenceFields_def metricEvidenceKeys_def)
  moreover have "decNullable (\<lambda>v. parseMetricEvidence v ''secondary alert evidence'') c
      = Inr (sel_secondary x)"
    unfolding c_def
    by (rule codec.dec_enc[OF metricEvidence.nullable_codec]) (use assms in \<open>simp add: validSelectedEvidence_def\<close>)
  moreover have "checkSecondary (alertMetricEvidence.truncate x) (sel_secondary x) = Inr ()"
    using assms by (simp add: checkSecondary_Inr_iff validSelectedEvidence_def)
  ultimately show ?thesis
    using assms unfolding fields
    by (auto simp: parseAlertSelectedEvidence_def exactRecord_built selectedEvidenceKeys_def
        parseMetricEvidence_enc codec_simps validSelectedEvidence_def MAX_SAFE_INTEGER_def)
qed

lemma parseColumns_metric:
  assumes "evidenceForRule r x" and "metricColumns.truncate row = metricColumnsOf x"
  shows "parseColumns row (sel_severity x) (ev_threshold x) r = Inr x"
proof -
  have "parseAlertSelectedEvidence (evidenceOfColumns row (sel_severity x) (ev_threshold x)) = Inr x"
    using evidenceOfColumns_parse[OF evidenceForRule_valid[OF assms(1)]] evidenceOfColumns_truncate[of row]
      assms(2) by simp
  moreover have "parseAlertSelectedEvidence (jsOfSelectedEvidence x) = Inr x"
    by (rule selectedEvidence.dec_enc[OF evidenceForRule_valid[OF assms(1)]])
  ultimately have "parseAlertSelectedEvidenceForRule (evidenceOfColumns row (sel_severity x) (ev_threshold x)) r
      = parseAlertSelectedEvidenceForRule (jsOfSelectedEvidence x) r"
    by (simp add: parseAlertSelectedEvidenceForRule_def)
  then show ?thesis
    using assms(1) by (simp add: parseColumns_def evidenceForRule_def)
qed

text \<open>Evidence written to the columns of a state row is read back.\<close>

lemma projectedEvidence_columns:
  assumes "evidenceForRule r x"
  shows "projectedEvidence (stateColumnsOf (evidenceColumnsOf x)) (sel_severity x) r = Inr x"
  using parseColumns_metric[OF assms, of "stateColumnsOf (evidenceColumnsOf x)"]
  by (cases "sel_severity x") (simp_all add: projectedEvidence_def)

lemma evidenceColumnsOf_inj:
  assumes "evidenceForRule r x" and "evidenceForRule r y"
  shows "evidenceColumnsOf x = evidenceColumnsOf y \<longleftrightarrow> x = y"
  using parseColumns_metric[OF assms(1), of "evidenceColumnsOf x"]
    parseColumns_metric[OF assms(2), of "evidenceColumnsOf y"]
  by (metis evidenceColumnsOf_fields(1,2,4) sum.inject(2))

end
