(* ===== verification/Alert_State_Guard.thy ===== *)
theory Alert_State_Guard
  imports Alert_State_Columns Alert_Kleene
begin

section \<open>Storing a decision, and the guards of the database\<close>

text \<open>
  \<^verbatim>\<open>apps/sso/worker/alert-state-repository.ts\<close> writes a lifecycle decision into the row of
  its alert; the triggers of \<^verbatim>\<open>apps/sso/migrations/0020_alert_observability.sql\<close> restate the
  lifecycle as a relation between the old and the new row and abort any other update. The model
  has the columns the triggers read. Their text timestamps have 24 characters, so that SQL's
  comparison of them is the comparison of the instants.
\<close>

subsection \<open>Rows and the statements that write them\<close>

text \<open>The columns that identify a row; a trigger keeps an update from changing them.\<close>

record stateKey =
  key_id :: string
  key_ruleId :: alertRuleId
  key_environment :: alertEnvironment
  key_sourceKind :: alertSourceKind
  key_dedupeKey :: string
  key_dimensions :: dimensionColumns

record alertStateRow =
  row_key :: stateKey
  row_columns :: stateColumns
  row_currentSeverity :: alertSeverity
  row_breachSeverity :: "activeSeverity option"
  row_consecutiveBreaches :: int
  row_consecutiveClears :: int
  row_cooldownUntil :: "string option"
  row_createdAt :: string
  row_lastBreachedAt :: "string option"
  row_lastClearedAt :: "string option"
  row_lastEvaluatedAt :: string
  row_lastNotificationScheduledAt :: "string option"
  row_generation :: int
  row_revision :: int
  row_updatedAt :: string

abbreviation row_ruleId :: "alertStateRow \<Rightarrow> alertRuleId" where
  "row_ruleId row \<equiv> key_ruleId (row_key row)"

definition persistedEvidence ::
  "alertLifecycleState \<Rightarrow> alertRuleEvaluation \<Rightarrow> evidenceColumns option result" where
  "persistedEvidence s evaluation =
     (if eval_evidence evaluation \<noteq> Known \<or> eval_severity evaluation = None then Inr None
      else case (case breachEvidence s of Some e \<Rightarrow> Some e | None \<Rightarrow> activeEvidence s) of
        None \<Rightarrow> invalidInput
      | Some e \<Rightarrow> Inr (Some (evidenceColumnsOf e)))"

fun isOpen :: "alertActionIntent option \<Rightarrow> bool" where
  "isOpen (Some (OpenIntent _ _ _)) = True"
| "isOpen _ = False"

text \<open>The update of an existing row: its bindings, and the generation an opening advances.\<close>

definition prepareStateUpdate ::
  "alertStateRow \<Rightarrow> alertRuleEvaluation \<Rightarrow> alertActionIntent option \<Rightarrow> alertLifecycleState \<Rightarrow>
   evidenceColumns option \<Rightarrow> string \<Rightarrow> alertStateRow" where
  "prepareStateUpdate old evaluation intent s evidence at =
     (let known = (eval_evidence evaluation = Known) in
      old\<lparr>row_columns := (case evidence of None \<Rightarrow> row_columns old | Some e \<Rightarrow> stateColumnsOf e),
         row_consecutiveBreaches := consecutiveBreaches s, row_breachSeverity := breachSeverity s,
         row_consecutiveClears := consecutiveClears s, row_currentSeverity := status s,
         row_generation := (if isOpen intent then row_generation old + 1 else row_generation old),
         row_revision := row_revision old + 1, row_cooldownUntil := cooldownUntil s,
         row_lastEvaluatedAt := at,
         row_lastBreachedAt :=
           (if known \<and> eval_severity evaluation \<noteq> None then Some at else row_lastBreachedAt old),
         row_lastClearedAt :=
           (if known \<and> eval_severity evaluation = None then Some at else row_lastClearedAt old),
         row_lastNotificationScheduledAt := lastNotificationAt s, row_updatedAt := at\<rparr>)"

lemma prepareStateUpdate_simps [simp]:
  "row_key (prepareStateUpdate old e intent s ev at) = row_key old"
  "row_columns (prepareStateUpdate old e intent s ev at) =
     (case ev of None \<Rightarrow> row_columns old | Some e \<Rightarrow> stateColumnsOf e)"
  "row_consecutiveBreaches (prepareStateUpdate old e intent s ev at) = consecutiveBreaches s"
  "row_breachSeverity (prepareStateUpdate old e intent s ev at) = breachSeverity s"
  "row_consecutiveClears (prepareStateUpdate old e intent s ev at) = consecutiveClears s"
  "row_currentSeverity (prepareStateUpdate old e intent s ev at) = status s"
  "row_generation (prepareStateUpdate old e intent s ev at) =
     (if isOpen intent then row_generation old + 1 else row_generation old)"
  "row_revision (prepareStateUpdate old e intent s ev at) = row_revision old + 1"
  "row_cooldownUntil (prepareStateUpdate old e intent s ev at) = cooldownUntil s"
  "row_lastEvaluatedAt (prepareStateUpdate old e intent s ev at) = at"
  "row_lastNotificationScheduledAt (prepareStateUpdate old e intent s ev at) = lastNotificationAt s"
  "row_updatedAt (prepareStateUpdate old e intent s ev at) = at"
  "row_createdAt (prepareStateUpdate old e intent s ev at) = row_createdAt old"
  by (simp_all add: prepareStateUpdate_def Let_def)

text \<open>The first row of an alert, and the second statement that confirms an immediate critical.\<close>

definition prepareStateInsert :: "stateKey \<Rightarrow> evidenceColumns \<Rightarrow> string \<Rightarrow> alertStateRow" where
  "prepareStateInsert key evidence at =
     \<lparr>row_key = key, row_columns = stateColumnsOf evidence, row_currentSeverity = None,
      row_breachSeverity = Some (columnSeverity evidence), row_consecutiveBreaches = 1,
      row_consecutiveClears = 0, row_cooldownUntil = None, row_createdAt = at,
      row_lastBreachedAt = Some at, row_lastClearedAt = None, row_lastEvaluatedAt = at,
      row_lastNotificationScheduledAt = None, row_generation = 0, row_revision = 0,
      row_updatedAt = at\<rparr>"

definition prepareImmediateConfirmation :: "alertStateRow \<Rightarrow> string \<Rightarrow> alertStateRow option" where
  "prepareImmediateConfirmation old at =
     (if row_generation old = 0 \<and> row_revision old = 0 \<and> row_currentSeverity old = None \<and>
         row_breachSeverity old = Some Critical \<and> row_consecutiveBreaches old = 1
      then Some (old\<lparr>row_currentSeverity := Some Critical, row_generation := 1, row_revision := 1,
        row_consecutiveBreaches := 0, row_breachSeverity := None, row_consecutiveClears := 0,
        row_cooldownUntil := None, row_lastNotificationScheduledAt := Some at,
        row_lastBreachedAt := Some at, row_lastEvaluatedAt := at, row_updatedAt := at\<rparr>)
      else None)"

text \<open>The part of \<open>stateMatches\<close> that compares a row with a lifecycle state.\<close>

definition lifecycleColumnsMatch :: "alertStateRow \<Rightarrow> alertLifecycleState \<Rightarrow> bool" where
  "lifecycleColumnsMatch row s \<longleftrightarrow>
     row_currentSeverity row = status s \<and> row_breachSeverity row = breachSeverity s \<and>
     row_consecutiveBreaches row = consecutiveBreaches s \<and>
     row_consecutiveClears row = consecutiveClears s \<and> row_cooldownUntil row = cooldownUntil s \<and>
     lastEvaluatedAt s = Some (row_lastEvaluatedAt row) \<and>
     row_lastNotificationScheduledAt row = lastNotificationAt s"

subsection \<open>The triggers\<close>

definition initialGuardAborts :: "alertStateRow \<Rightarrow> bool" where
  "initialGuardAborts new \<longleftrightarrow>
     row_currentSeverity new \<noteq> None \<or> row_generation new \<noteq> 0 \<or> row_revision new \<noteq> 0 \<or>
     row_consecutiveClears new \<noteq> 0 \<or> row_cooldownUntil new \<noteq> None \<or>
     row_lastNotificationScheduledAt new \<noteq> None \<or> row_breachSeverity new = None \<or>
     row_consecutiveBreaches new \<noteq> 1"

definition immediateMetric :: "alertStateRow \<Rightarrow> bool" where
  "immediateMetric row \<longleftrightarrow>
     (row_ruleId row = Logout_delivery_health \<and> metricName (row_columns row) = M_dead) \<or>
     (row_ruleId row = Alert_runtime_health \<and>
      metricName (row_columns row) \<in> {M_evaluator_missing, M_dead_outbox})"

definition countersCleared :: "alertStateRow \<Rightarrow> bool" where
  "countersCleared row \<longleftrightarrow>
     row_breachSeverity row = None \<and> row_consecutiveBreaches row = 0 \<and> row_consecutiveClears row = 0"

definition confirmedCritical :: "alertStateRow \<Rightarrow> alertStateRow \<Rightarrow> bool" where
  "confirmedCritical old new \<longleftrightarrow>
     (row_breachSeverity old = Some Critical \<and> row_consecutiveBreaches old = 1) \<or> immediateMetric new"

text \<open>The alternatives of the transition guard, by the old and the new severity.\<close>

fun severityStep :: "bool \<Rightarrow> alertStateRow \<Rightarrow> alertStateRow \<Rightarrow> alertSeverity \<Rightarrow> alertSeverity \<Rightarrow> bool" where
  "severityStep manual old new None None = (row_generation new = row_generation old)"
| "severityStep manual old new None (Some Warning) =
     (row_generation new = row_generation old + 1 \<and> row_breachSeverity old = Some Warning \<and>
      row_consecutiveBreaches old = 1 \<and>
      (case row_cooldownUntil old of None \<Rightarrow> True
       | Some until \<Rightarrow> getTime (row_lastEvaluatedAt new) \<ge> getTime until) \<and>
      countersCleared new)"
| "severityStep manual old new None (Some Critical) =
     (row_generation new = row_generation old + 1 \<and> confirmedCritical old new \<and> countersCleared new)"
| "severityStep manual old new (Some Warning) (Some Warning) = (row_generation new = row_generation old)"
| "severityStep manual old new (Some Warning) (Some Critical) =
     (row_generation new = row_generation old \<and> confirmedCritical old new \<and> countersCleared new)"
| "severityStep manual old new (Some _) None =
     (row_generation new = row_generation old \<and>
      ((row_ruleId new \<noteq> Security_fanout_gap \<and> row_consecutiveClears old = 4) \<or> manual) \<and>
      countersCleared new)"
| "severityStep manual old new (Some Critical) (Some Critical) = (row_generation new = row_generation old)"
| "severityStep manual old new (Some Critical) (Some Warning) = False"

definition badResolveCooldown :: "alertStateRow \<Rightarrow> alertStateRow \<Rightarrow> bool" where
  "badResolveCooldown old new \<longleftrightarrow>
     row_currentSeverity old \<noteq> None \<and> row_currentSeverity new = None \<and>
     row_cooldownUntil new \<noteq> Some (iso_of_time (getTime (row_lastEvaluatedAt new) + 1800000))"

definition badInactiveCooldown :: "alertStateRow \<Rightarrow> alertStateRow \<Rightarrow> bool" where
  "badInactiveCooldown old new \<longleftrightarrow>
     row_currentSeverity old = None \<and> row_currentSeverity new = None \<and>
     row_cooldownUntil new \<noteq> row_cooldownUntil old \<and>
     \<not> (case row_cooldownUntil old of None \<Rightarrow> False
        | Some until \<Rightarrow> row_cooldownUntil new = None \<and>
            getTime (row_lastEvaluatedAt new) \<ge> getTime until)"

definition notificationMovedBack :: "alertStateRow \<Rightarrow> alertStateRow \<Rightarrow> bool" where
  "notificationMovedBack old new \<longleftrightarrow>
     (case (row_lastNotificationScheduledAt old, row_lastNotificationScheduledAt new) of
        (Some o', Some n) \<Rightarrow> getTime n < getTime o'
      | _ \<Rightarrow> False)"

definition transitionGuardAborts :: "bool \<Rightarrow> alertStateRow \<Rightarrow> alertStateRow \<Rightarrow> bool" where
  "transitionGuardAborts manual old new \<longleftrightarrow>
     row_revision new \<noteq> row_revision old + 1 \<or>
     getTime (row_updatedAt new) < getTime (row_updatedAt old) \<or>
     getTime (row_lastEvaluatedAt new) \<le> getTime (row_lastEvaluatedAt old) \<or>
     badResolveCooldown old new \<or> badInactiveCooldown old new \<or> notificationMovedBack old new \<or>
     \<not> severityStep manual old new (row_currentSeverity old) (row_currentSeverity new)"

definition counterGuardAborts :: "alertStateRow \<Rightarrow> alertStateRow \<Rightarrow> bool" where
  "counterGuardAborts old new \<longleftrightarrow>
     row_currentSeverity old = row_currentSeverity new \<and>
     \<not> (row_breachSeverity new = row_breachSeverity old \<and>
          row_consecutiveBreaches new = row_consecutiveBreaches old \<and>
          row_consecutiveClears new = row_consecutiveClears old \<or>
        row_breachSeverity new \<noteq> None \<and> row_consecutiveBreaches new = 1 \<and>
          row_consecutiveClears new = 0 \<or>
        countersCleared new \<or>
        row_currentSeverity old \<noteq> None \<and> row_ruleId new \<noteq> Security_fanout_gap \<and>
          row_breachSeverity old = None \<and> row_consecutiveBreaches old = 0 \<and>
          row_breachSeverity new = None \<and> row_consecutiveBreaches new = 0 \<and>
          row_consecutiveClears new = row_consecutiveClears old + 1 \<and>
          1 \<le> row_consecutiveClears new \<and> row_consecutiveClears new \<le> 4)"

subsection \<open>What a decision must satisfy\<close>

text \<open>
  The checks of \<open>persistAlertLifecycleDecision\<close> on the decision itself; \<open>expected\<close> is the last
  evaluation of the row that was read.
\<close>

definition isResolve :: "alertActionIntent option \<Rightarrow> bool" where
  "isResolve intent \<longleftrightarrow> (case intent of Some (ResolveIntent _ _) \<Rightarrow> True | _ \<Rightarrow> False)"

definition decisionRejected ::
  "string option \<Rightarrow> alertRuleEvaluation \<Rightarrow> alertLifecycleResult \<Rightarrow> bool" where
  "decisionRejected expected evaluation decision \<longleftrightarrow>
     lastEvaluatedAt (snd decision) \<noteq> Some (eval_asOf evaluation) \<or>
     (case identity (snd decision) of None \<Rightarrow> True
      | Some i \<Rightarrow> \<not> sameDimension (id_dimension i) (eval_dimension evaluation)) \<or>
     (case expected of None \<Rightarrow> False
      | Some lastEvaluated \<Rightarrow> getTime (eval_asOf evaluation) \<le> getTime lastEvaluated) \<or>
     resolutionMode (ALERT_RULE_DEFINITIONS (eval_ruleId evaluation)) = Manual \<and>
       isResolve (fst decision)"

definition initialRejected ::
  "alertRuleEvaluation \<Rightarrow> alertLifecycleResult \<Rightarrow> evidenceColumns option \<Rightarrow> bool" where
  "initialRejected evaluation decision evidence \<longleftrightarrow>
     evidence = None \<or> status (snd decision) \<noteq> None \<and> \<not> eval_immediateCritical evaluation \<or>
     eval_immediateCritical evaluation \<and>
       (\<not> isOpen (fst decision) \<or> status (snd decision) \<noteq> Some Critical)"

definition MAX_STATE_GENERATION :: int where "MAX_STATE_GENERATION = 1000000"
definition MAX_STATE_REVISION :: int where "MAX_STATE_REVISION = 1000000000"

subsection \<open>The constraints of the table\<close>

text \<open>
  A \<open>CHECK\<close> fails only if its expression is false: SQL's third value, which a comparison with a
  null column has, satisfies it. The constraint on the evidence columns compares the nullable
  \<open>breach_severity\<close>, so it is modelled over \<open>bool option\<close>; in the others every comparison of a
  null stands next to a test that decides the disjunct.
\<close>

definition sqlEqual :: "'a option \<Rightarrow> 'a \<Rightarrow> bool option" where
  "sqlEqual x y = map_option (\<lambda>v. v = y) x"

definition sqlReached :: "int \<Rightarrow> int option \<Rightarrow> bool option" where
  "sqlReached observed limit = map_option (\<lambda>t. t \<le> observed) limit"

definition evidenceCheck :: "alertStateRow \<Rightarrow> bool option" where
  "evidenceCheck row =
     (let critical = state_criticalThreshold (row_columns row);
          warning = state_warningThreshold (row_columns row);
          observed = observedValue (row_columns row);
          breach = row_breachSeverity row;
          current = row_currentSeverity row
      in kleeneOr
        [kleeneAnd [sqlEqual breach Critical, Some (critical \<noteq> None), sqlReached observed critical],
         kleeneAnd [sqlEqual breach Warning, Some (warning \<noteq> None), sqlReached observed warning],
         kleeneAnd [Some (breach = None), Some (current = Some Critical), Some (critical \<noteq> None),
           sqlReached observed critical],
         kleeneAnd [Some (breach = None), Some (current = Some Warning), Some (warning \<noteq> None),
           sqlReached observed warning],
         kleeneAnd [Some (breach = None), Some (current = None), kleeneOr
           [kleeneAnd [Some (warning \<noteq> None), sqlReached observed warning],
            kleeneAnd [Some (critical \<noteq> None), sqlReached observed critical]]]])"

definition counterChecks :: "alertStateRow \<Rightarrow> bool" where
  "counterChecks row \<longleftrightarrow>
     (if row_breachSeverity row = None then row_consecutiveBreaches row = 0
      else row_consecutiveBreaches row > 0) \<and>
     (case row_currentSeverity row of
        Some Critical \<Rightarrow> row_breachSeverity row = None
      | Some Warning \<Rightarrow> row_breachSeverity row \<noteq> Some Warning
      | None \<Rightarrow> True) \<and>
     (row_consecutiveBreaches row = 0 \<or> row_consecutiveClears row = 0) \<and>
     (row_ruleId row \<noteq> Security_fanout_gap \<or> row_consecutiveClears row = 0) \<and>
     (row_currentSeverity row \<noteq> None \<or> row_consecutiveClears row = 0) \<and>
     (row_currentSeverity row = None \<or> row_generation row \<ge> 1) \<and>
     (row_currentSeverity row = None \<or> row_cooldownUntil row = None)"

definition timeChecks :: "alertStateRow \<Rightarrow> bool" where
  "timeChecks row \<longleftrightarrow>
     (let created = getTime (row_createdAt row); updated = getTime (row_updatedAt row) in
      (case row_currentSeverity row of
         None \<Rightarrow> row_lastNotificationScheduledAt row = None
       | Some _ \<Rightarrow> (case row_lastNotificationScheduledAt row of None \<Rightarrow> False
          | Some n \<Rightarrow> created \<le> getTime n \<and> getTime n \<le> updated)) \<and>
      created \<le> updated \<and> created \<le> getTime (row_lastEvaluatedAt row) \<and>
      getTime (row_lastEvaluatedAt row) \<le> updated \<and>
      (case row_lastBreachedAt row of None \<Rightarrow> True | Some t \<Rightarrow> created \<le> getTime t) \<and>
      (case row_lastClearedAt row of None \<Rightarrow> True | Some t \<Rightarrow> created \<le> getTime t))"

definition checksFail :: "alertStateRow \<Rightarrow> bool" where
  "checksFail row \<longleftrightarrow> evidenceCheck row = Some False \<or> \<not> counterChecks row \<or> \<not> timeChecks row"

definition identityGuardAborts :: "alertStateRow \<Rightarrow> alertStateRow \<Rightarrow> bool" where
  "identityGuardAborts old new \<longleftrightarrow> row_key new \<noteq> row_key old \<or> row_createdAt new \<noteq> row_createdAt old"

text \<open>What the database says to a row inserted, and to a row replaced by another.\<close>

definition insertAccepted :: "alertStateRow \<Rightarrow> bool" where
  "insertAccepted new \<longleftrightarrow> \<not> initialGuardAborts new \<and> \<not> checksFail new"

definition updateAccepted :: "bool \<Rightarrow> alertStateRow \<Rightarrow> alertStateRow \<Rightarrow> bool" where
  "updateAccepted manual old new \<longleftrightarrow>
     \<not> identityGuardAborts old new \<and> \<not> transitionGuardAborts manual old new \<and>
     \<not> counterGuardAborts old new \<and> \<not> checksFail new"

end
