(* ===== verification/Alert_State_Writes.thy ===== *)
theory Alert_State_Writes
  imports Alert_State_Guard
begin

section \<open>Every decision of the lifecycle is written, and the database accepts all but one kind\<close>

text \<open>
  What \<open>persistAlertLifecycleDecision\<close> writes for a decision of \<open>advanceAlertLifecycle\<close>, taken
  through the triggers and the constraints of the table.
\<close>

subsection \<open>What a decision persists\<close>

lemma sound_known: "soundEvaluation e \<Longrightarrow> eval_severity e \<noteq> None \<Longrightarrow>
    eval_evidence e = Known \<and> (\<exists>x. eval_selectedEvidence e = Some x)"
  by (cases "eval_evidence e") (auto simp: soundEvaluation_def split: option.splits)

text \<open>Something to persist is always at hand, and for an opening or an escalation it is the evidence selected.\<close>

definition columnsEvidence :: "alertLifecycleState \<Rightarrow> alertSelectedEvidence option" where
  "columnsEvidence s = (case breachEvidence s of Some e \<Rightarrow> Some e | None \<Rightarrow> activeEvidence s)"

lemma persistedEvidence_step:
  assumes step: "alertStep e asOf s intent s'" and s: "evaluatedState asOf i s" and e: "soundEvaluation e"
  obtains ev where "persistedEvidence s' e = Inr ev"
    and "status s \<noteq> status s' \<Longrightarrow> status s' \<noteq> None \<Longrightarrow> ev = map_option evidenceColumnsOf (eval_selectedEvidence e)"
    and "eval_severity e = None \<Longrightarrow> ev = None"
    and "eval_severity e \<noteq> None \<Longrightarrow>
      (\<exists>x. columnsEvidence s' = Some x \<and> ev = Some (evidenceColumnsOf x))"
proof (cases "eval_severity e")
  case None
  then have "status s \<noteq> status s' \<Longrightarrow> status s' = None"
    by (cases rule: alertStep.cases[OF step]) (auto simp: confirms_def)
  then show ?thesis
    using that[of None] None by (simp add: persistedEvidence_def)
next
  case (Some sev)
  then have known: "eval_evidence e = Known" "\<exists>x. eval_selectedEvidence e = Some x"
    using sound_known[OF e] by simp_all
  have "\<exists>y. columnsEvidence s' = Some y \<and>
      (status s \<noteq> status s' \<longrightarrow> status s' \<noteq> None \<longrightarrow> eval_selectedEvidence e = Some y)"
    using step
  proof cases
    case (stays v)
    then show ?thesis
      using evaluated_active(2)[OF s stays(1)] known(2)
      by (auto simp: countersReset_def noBreach_def columnsEvidence_def split: if_splits)
  qed (use Some known in \<open>auto simp: countersReset_def noBreach_def clearSample_def columnsEvidence_def\<close>)
  then obtain y where "columnsEvidence s' = Some y"
      "status s \<noteq> status s' \<Longrightarrow> status s' \<noteq> None \<Longrightarrow> eval_selectedEvidence e = Some y"
    by blast
  then show ?thesis
    using that[of "Some (evidenceColumnsOf y)"] known(1) Some
    by (auto simp: persistedEvidence_def columnsEvidence_def[symmetric])
qed

definition pendingCleared :: "alertRuleEvaluation \<Rightarrow> alertLifecycleState \<Rightarrow> bool" where
  "pendingCleared e p \<longleftrightarrow>
     status p = Some Warning \<and> breachSeverity p = Some Critical \<and> clearSample e \<and> automaticRule e"

lemma automaticRule_fanout: "automaticRule e \<longleftrightarrow> eval_ruleId e \<noteq> Security_fanout_gap"
  by (simp add: automaticRule_iff manual_iff)

lemma clearSample_Some [simp]: "eval_severity e = Some sev \<Longrightarrow> \<not> clearSample e"
  by (simp add: clearSample_def)

lemma counterGuard_step:
  assumes step: "alertStep e asOf s intent s'" and s: "evaluatedState asOf i s"
    and row: "row_breachSeverity old = breachSeverity s" "row_consecutiveBreaches old = consecutiveBreaches s"
      "row_consecutiveClears old = consecutiveClears s" "row_currentSeverity old = status s"
      "row_ruleId old = eval_ruleId e"
  shows "counterGuardAborts old (prepareStateUpdate old e intent s' ev asOf) \<longleftrightarrow>
    pendingCleared e s \<and> status s' = Some Warning"
  using step
proof cases
  case (counts sev)
  have "inDomain 4 (consecutiveClears s)"
    using evaluated_active(4)[OF s counts(2)] .
  moreover have "noBreach s \<or> status s = Some Warning \<and> breachAt s Critical"
    using s counts(2) by (auto simp: evaluatedState_def split: alertLifecyclePhase.splits)
  ultimately show ?thesis
    using counts row
    by (auto simp: counterGuardAborts_def pendingCleared_def noBreach_def
        breachAt_def automaticRule_fanout countersCleared_def inDomain_def)
qed (use row in \<open>auto simp: counterGuardAborts_def pendingCleared_def noBreach_def
        breachAt_def countersCleared_def countersReset_def confirms_def clearSample_def\<close>)

subsection \<open>Every decision of the lifecycle is written and, but for one case, accepted\<close>

text \<open>A row that stores a lifecycle state.\<close>

definition rowTimes :: "alertStateRow \<Rightarrow> bool" where
  "rowTimes row \<longleftrightarrow>
     row_updatedAt row = row_lastEvaluatedAt row \<and>
     (\<forall>t \<in> {row_updatedAt row} \<union> set_option (row_lastBreachedAt row) \<union> set_option (row_lastClearedAt row) \<union>
        set_option (row_lastNotificationScheduledAt row). getTime (row_createdAt row) \<le> getTime t)"

definition rowStores :: "alertStateRow \<Rightarrow> alertLifecycleState \<Rightarrow> bool" where
  "rowStores row s \<longleftrightarrow>
     lifecycleColumnsMatch row s \<and> rowTimes row \<and>
     0 \<le> row_generation row \<and> 0 \<le> row_revision row \<and> (status s \<noteq> None \<longrightarrow> 1 \<le> row_generation row) \<and>
     (case identity s of None \<Rightarrow> False
      | Some i \<Rightarrow> id_ruleId i = row_ruleId row \<and> dimensionColumnsOf (id_dimension i) = key_dimensions (row_key row))"

text \<open>
  The evidence columns hold the evidence of the pending breach or else of the open alert. An
  inactive row keeps the columns of an earlier breach.
\<close>

definition columnsHold :: "alertStateRow \<Rightarrow> alertSelectedEvidence \<Rightarrow> bool" where
  "columnsHold row x \<longleftrightarrow>
     evidenceForRule (row_ruleId row) x \<and> row_columns row = stateColumnsOf (evidenceColumnsOf x)"

definition columnsStore :: "alertStateRow \<Rightarrow> alertLifecycleState \<Rightarrow> bool" where
  "columnsStore row s \<longleftrightarrow> (\<exists>x. columnsHold row x \<and> (case columnsEvidence s of None \<Rightarrow> True | Some y \<Rightarrow> y = x))"

lemma prepareStateUpdate_match:
  "lastEvaluatedAt s = Some at \<Longrightarrow> lifecycleColumnsMatch (prepareStateUpdate old e intent s ev at) s"
  by (simp add: lifecycleColumnsMatch_def)

lemma confirms_metric:
  assumes "confirms e s Critical" and "immediateEvidence e"
    and "row_breachSeverity old = breachSeverity s" and "row_consecutiveBreaches old = consecutiveBreaches s"
    and "row_ruleId old = eval_ruleId e"
  shows "confirmedCritical old (prepareStateUpdate old e intent s' (map_option evidenceColumnsOf (eval_selectedEvidence e)) at)"
  using assms
  by (auto simp: confirms_def confirmedCritical_def immediateEvidence_def immediateMetric_def
      split: option.splits)

text \<open>The row before a step, with the cooldown \<open>boundState\<close> may have dropped.\<close>

definition rowBefore :: "string \<Rightarrow> alertRuleEvaluation \<Rightarrow> alertStateRow \<Rightarrow> alertLifecycleState \<Rightarrow> bool" where
  "rowBefore asOf e row s \<longleftrightarrow>
     row_breachSeverity row = breachSeverity s \<and> row_consecutiveBreaches row = consecutiveBreaches s \<and>
     row_consecutiveClears row = consecutiveClears s \<and> row_currentSeverity row = status s \<and>
     row_lastNotificationScheduledAt row = lastNotificationAt s \<and> row_ruleId row = eval_ruleId e \<and>
     getTime (row_lastEvaluatedAt row) < getTime asOf \<and> getTime (row_updatedAt row) < getTime asOf \<and>
     cooldownUntil s = (case row_cooldownUntil row of None \<Rightarrow> None
       | Some until \<Rightarrow> if getTime until \<le> getTime asOf then None else Some until)"

lemma rowStores_before:
  assumes "rowStores old p" and "identity p = Some (identityFor e)"
    and "lastEvaluatedAt p = Some t" and "getTime t < getTime asOf"
  shows "rowBefore asOf e old (boundState e p asOf)"
  using assms
  by (auto simp: rowStores_def lifecycleColumnsMatch_def rowBefore_def boundState_def identityFor_def
      rowTimes_def)

lemma severityStep_refined:
  assumes step: "alertStep e asOf s intent s'" and s: "evaluatedState asOf i s"
    and e: "soundEvaluation e" and imm: "immediateEvidence e" and old: "rowBefore asOf e old s"
    and ev: "status s \<noteq> status s' \<Longrightarrow> status s' \<noteq> None \<Longrightarrow> ev = map_option evidenceColumnsOf (eval_selectedEvidence e)"
  shows "severityStep manual old (prepareStateUpdate old e intent s' ev asOf) (status s) (status s')"
  using step
proof cases
  case (opens sev x)
  then have "confirmedCritical old (prepareStateUpdate old e intent s' ev asOf)" if "sev = Critical"
    using confirms_metric[OF _ imm] old ev that by (simp add: rowBefore_def)
  moreover have "\<not> eval_immediateCritical e" if "sev = Warning"
    using opens e that by (auto simp: soundEvaluation_def confirms_def)
  ultimately show ?thesis
    using opens old
    by (cases sev) (auto simp: rowBefore_def countersCleared_def countersReset_def
        noBreach_def confirms_def split: option.splits if_splits)
next
  case (stays sev)
  then have "\<not> isOpen intent" by (cases intent rule: isOpen.cases) auto
  then show ?thesis
    using stays by (cases sev) (simp_all)
next
  case (counts sev)
  then show ?thesis
    by (cases sev) (simp_all)
next
  case (resolves sev until)
  then show ?thesis
    using old by (cases sev) (auto simp: rowBefore_def countersCleared_def
        countersReset_def noBreach_def automaticRule_fanout)
next
  case (escalates x)
  then have "confirmedCritical old (prepareStateUpdate old e intent s' ev asOf)"
    using confirms_metric[OF _ imm] old ev by (simp add: rowBefore_def)
  then show ?thesis
    using escalates by (auto simp: countersCleared_def countersReset_def noBreach_def)
qed (simp_all)

lemma resolveCooldown_ok:
  assumes "alertStep e asOf s intent s'" and "rowBefore asOf e old s"
  shows "\<not> badResolveCooldown old (prepareStateUpdate old e intent s' ev asOf)"
  using assms(1)
proof cases
  case (resolves sev until)
  then show ?thesis
    by (simp add: badResolveCooldown_def canonical_time_Some_iff
        ALERT_RULE_POLICY_def)
qed (use assms(2) in \<open>simp_all add: badResolveCooldown_def rowBefore_def\<close>)

lemma inactiveCooldown_ok:
  assumes "alertStep e asOf s intent s'" and "rowBefore asOf e old s"
  shows "\<not> badInactiveCooldown old (prepareStateUpdate old e intent s' ev asOf)"
  using assms(1)
  by cases (use assms(2) in \<open>auto simp: badInactiveCooldown_def rowBefore_def
      split: option.splits if_splits\<close>)

lemma notification_ok:
  assumes "alertStep e asOf s intent s'" and s: "evaluatedState asOf i s" and "rowBefore asOf e old s"
  shows "\<not> notificationMovedBack old (prepareStateUpdate old e intent s' ev asOf)"
proof -
  have "lastNotificationAt s' = None \<or> lastNotificationAt s' = lastNotificationAt s \<or>
      lastNotificationAt s' = Some asOf"
    using assms(1) by cases blast+
  moreover have "getTime n \<le> getTime asOf" if "lastNotificationAt s = Some n" for n
    using s that by (auto simp: evaluated_defs split: alertLifecyclePhase.splits)
  ultimately show ?thesis
    using assms(3) by (auto simp: notificationMovedBack_def rowBefore_def
        split: option.splits)
qed

lemma transitionGuard_step:
  assumes step: "alertStep e asOf s intent s'" and s: "evaluatedState asOf i s"
    and e: "soundEvaluation e" and imm: "immediateEvidence e" and old: "rowBefore asOf e old s"
    and ev: "status s \<noteq> status s' \<Longrightarrow> status s' \<noteq> None \<Longrightarrow> ev = map_option evidenceColumnsOf (eval_selectedEvidence e)"
  shows "\<not> transitionGuardAborts manual old (prepareStateUpdate old e intent s' ev asOf)"
  using severityStep_refined[OF step s e imm old ev] resolveCooldown_ok[OF step old]
    inactiveCooldown_ok[OF step old] notification_ok[OF step s old] old
  by (simp add: transitionGuardAborts_def rowBefore_def)

lemma advanceBound_identity:
  assumes "evaluatedState asOf i s" and "soundEvaluation e" and "id_ruleId i = eval_ruleId e"
    and "canonical asOf" and "advanceBound e s asOf = Inr (intent, s')"
  shows "identity s' = Some i" and "lastEvaluatedAt s' = Some asOf"
  using advanceBound_evaluated[OF assms] by (simp_all add: evaluatedState_def)

text \<open>A pending critical breach on an active warning excludes counted clears, so a clear sample keeps the warning.\<close>

lemma pendingCleared_stays:
  assumes "alertStep e asOf s intent s'" and "evaluatedState asOf i s" and "pendingCleared e s"
  shows "status s' = Some Warning"
  using assms(1)
  by cases (use assms(2,3) in \<open>auto simp: pendingCleared_def evaluated_defs confirms_def
      split: alertLifecyclePhase.splits\<close>)

lemma pendingCleared_bound [simp]: "pendingCleared e (boundState e' p asOf) \<longleftrightarrow> pendingCleared e p"
  by (simp add: pendingCleared_def boundState_def)

lemma boundState_status [simp]: "status (boundState e p asOf) = status p"
  by (simp add: boundState_def)

subsection \<open>The columns of a written row\<close>

definition pendingWithdrawn :: "alertRuleEvaluation \<Rightarrow> alertLifecycleState \<Rightarrow> bool" where
  "pendingWithdrawn e p \<longleftrightarrow>
     status p = Some Warning \<and> breachSeverity p = Some Critical \<and> eval_severity e = None"

lemma pendingCleared_withdrawn: "pendingCleared e p \<Longrightarrow> pendingWithdrawn e p"
  by (simp add: pendingCleared_def pendingWithdrawn_def clearSample_def)

lemma pendingWithdrawn_bound [simp]: "pendingWithdrawn e (boundState e' p asOf) \<longleftrightarrow> pendingWithdrawn e p"
  by (simp add: pendingWithdrawn_def boundState_def)

lemma columnsEvidence_bound [simp]: "columnsEvidence (boundState e p asOf) = columnsEvidence p"
  by (simp add: columnsEvidence_def boundState_def split: option.split)

lemma evaluated_columnsEvidence:
  assumes "evaluatedState asOf i s"
  shows "columnsEvidence s = Some x \<Longrightarrow> evidenceForRule (id_ruleId i) x"
    and "status s = None \<Longrightarrow> breachSeverity s = None \<Longrightarrow> columnsEvidence s = None"
    and "breachSeverity s = Some sev \<Longrightarrow> (\<exists>x. columnsEvidence s = Some x \<and> sel_severity x = sev)"
    and "status s = Some sev \<Longrightarrow> breachSeverity s = None \<Longrightarrow>
      columnsEvidence s = activeEvidence s \<and> (\<exists>x. columnsEvidence s = Some x \<and> sel_severity x = sev)"
  using assms by (auto simp: evaluated_defs columnsEvidence_def split: alertLifecyclePhase.splits)

lemma columnsHold_severity:
  "columnsHold row x \<Longrightarrow> columnsHold row y \<Longrightarrow> sel_severity x = sel_severity y"
proof -
  assume x: "columnsHold row x" and y: "columnsHold row y"
  have "state_warningThreshold (row_columns row) = (if sel_severity x = Warning then Some (ev_threshold x) else None)"
    using x unfolding columnsHold_def by (metis stateColumnsOf_fields(4))
  moreover have "state_warningThreshold (row_columns row) = (if sel_severity y = Warning then Some (ev_threshold y) else None)"
    using y unfolding columnsHold_def by (metis stateColumnsOf_fields(4))
  ultimately show "sel_severity x = sel_severity y"
    by (cases "sel_severity x"; cases "sel_severity y") simp_all
qed

lemma written_columns:
  assumes "columnsHold old x" and "row_ruleId old = id_ruleId i" and s': "evaluatedState asOf i s'"
    and "ev = None \<or> (\<exists>y. columnsEvidence s' = Some y \<and> ev = Some (evidenceColumnsOf y))"
  obtains y where "columnsHold (prepareStateUpdate old e intent s' ev at) y"
    and "ev = None \<Longrightarrow> y = x" and "ev \<noteq> None \<Longrightarrow> columnsEvidence s' = Some y"
proof (cases "ev = None")
  case True
  then show ?thesis
    using that[of x] assms(1) by (simp add: columnsHold_def)
next
  case False
  then obtain y where "columnsEvidence s' = Some y" "ev = Some (evidenceColumnsOf y)"
    using assms(4) by blast
  then show ?thesis
    using that[of y] evaluated_columnsEvidence(1)[OF s'] assms(2) by (simp add: columnsHold_def)
qed

text \<open>
  Without a breach to write, the columns stay as they are. They still fit the next state, except
  when a pending critical breach is dropped from an open warning: then they keep the critical
  evidence, and the next state is a warning with nothing pending.
\<close>

lemma kept_columns:
  assumes step: "alertStep e asOf s intent s'" and s: "evaluatedState asOf i s"
    and s': "evaluatedState asOf i s'" and none: "eval_severity e = None"
  shows "pendingWithdrawn e s \<Longrightarrow> status s' = Some Warning \<and> breachSeverity s' = None"
    and "\<not> pendingWithdrawn e s \<Longrightarrow> columnsEvidence s' \<noteq> None \<Longrightarrow> columnsEvidence s' = columnsEvidence s"
proof -
  show "status s' = Some Warning \<and> breachSeverity s' = None" if "pendingWithdrawn e s"
    using step
    by cases (use that none s in \<open>auto simp: pendingWithdrawn_def countersReset_def noBreach_def confirms_def
        evaluated_defs split: alertLifecyclePhase.splits\<close>)
  show "columnsEvidence s' = columnsEvidence s" if "\<not> pendingWithdrawn e s" "columnsEvidence s' \<noteq> None"
    using step
  proof cases
    case quiet
    then show ?thesis
      using that(2) evaluated_columnsEvidence(2)[OF s'] by (simp add: countersReset_def noBreach_def)
  next
    case (stays sev)
    then show ?thesis
      using that(1) none s by (auto simp: pendingWithdrawn_def columnsEvidence_def countersReset_def
          noBreach_def evaluated_defs split: alertLifecyclePhase.splits)
  next
    case (counts sev)
    then show ?thesis
      using that(1) none s by (auto simp: pendingWithdrawn_def columnsEvidence_def
          noBreach_def evaluated_defs split: alertLifecyclePhase.splits)
  next
    case (resolves sev until)
    then show ?thesis
      using that(2) evaluated_columnsEvidence(2)[OF s'] by (simp add: countersReset_def noBreach_def)
  qed (use none in \<open>auto simp: confirms_def\<close>)
qed

subsection \<open>The constraints hold\<close>

lemma evidenceCheck_hold:
  assumes "columnsHold row x"
    and "\<And>sev. row_breachSeverity row = Some sev \<Longrightarrow> sev = sel_severity x"
  shows "evidenceCheck row \<noteq> Some False"
proof -
  have "ev_threshold x \<le> ev_observedValue x"
    using assms(1) evidenceForRule_valid by (auto simp: columnsHold_def validSelectedEvidence_def)
  then show ?thesis
    using assms
    by (cases "sel_severity x"; cases "row_breachSeverity row"; cases "row_currentSeverity row")
      (auto simp: columnsHold_def evidenceCheck_def Let_def kleeneOr_def kleeneAnd_def sqlEqual_def
        sqlReached_def)
qed

lemma counterChecks_step:
  assumes step: "alertStep e asOf s intent s'" and s: "evaluatedState asOf i s"
    and s': "evaluatedState asOf i s'" and old: "rowBefore asOf e old s"
    and gen: "0 \<le> row_generation old" "status s \<noteq> None \<Longrightarrow> 1 \<le> row_generation old"
  shows "counterChecks (prepareStateUpdate old e intent s' ev at)"
proof -
  have "row_ruleId old \<noteq> Security_fanout_gap \<or> consecutiveClears s' = 0"
    using step
    by cases (use old s' in \<open>auto simp: countersReset_def noBreach_def automaticRule_fanout rowBefore_def
        breachAt_def\<close>)
  moreover have "status s' = None \<or> 1 \<le> row_generation (prepareStateUpdate old e intent s' ev at)"
    using step by cases (use gen in auto)
  ultimately show ?thesis
    using s'
    by (cases "phase s'") (auto simp: counterChecks_def evaluated_defs split: activeSeverity.splits)
qed

lemma rowTimes_step:
  assumes step: "alertStep e asOf s intent s'" and "rowTimes old" and "rowBefore asOf e old s"
  shows "rowTimes (prepareStateUpdate old e intent s' ev asOf)"
proof -
  have "lastNotificationAt s' \<in> {None, lastNotificationAt s, Some asOf}"
    using step by cases auto
  moreover have "getTime (row_createdAt old) \<le> getTime asOf"
    using assms(2,3) by (auto simp: rowTimes_def rowBefore_def)
  ultimately show ?thesis
    using assms(2,3) by (auto simp: rowTimes_def rowBefore_def prepareStateUpdate_def Let_def)
qed

lemma timeChecks_written:
  assumes "rowTimes row" and "evaluatedState asOf i s" and "lifecycleColumnsMatch row s"
    and "row_updatedAt row = asOf"
  shows "timeChecks row"
  using assms
  by (cases "phase s") (auto simp: timeChecks_def rowTimes_def lifecycleColumnsMatch_def evaluated_defs
      Let_def split: option.splits)

subsection \<open>The update of a stored row\<close>

lemma advanceEvaluated_bound:
  assumes valid: "validState (getTime asOf) p" and e: "soundEvaluation e" and asOf: "eval_asOf e = asOf"
    and bound: "identity p \<noteq> None \<or> identity s' \<noteq> None"
    and r: "advanceEvaluated e p asOf = Inr (intent, s')"
  obtains "evaluatedState asOf (identityFor e) (boundState e p asOf)"
    and "evaluatedState asOf (identityFor e) s'"
    and "alertStep e asOf (boundState e p asOf) intent s'"
    and "identity p = None \<or> identity p = Some (identityFor e) \<and>
      (\<exists>t. lastEvaluatedAt p = Some t \<and> getTime t < getTime asOf)"
    and "advanceBound e (boundState e p asOf) asOf = Inr (intent, s')"
proof -
  have canon: "canonical asOf"
    using e asOf by (simp add: soundEvaluation_def)
  have rule: "id_ruleId (identityFor e) = eval_ruleId e"
    by (simp add: identityFor_def)
  obtain b: "identity p = None \<or> identity p = Some (identityFor e) \<and>
        (\<exists>t. lastEvaluatedAt p = Some t \<and> getTime t < getTime asOf)"
      "advanceBound e (boundState e p asOf) asOf = Inr (intent, s')"
    using r bound by (cases rule: advanceEvaluated_cases) auto
  have s: "evaluatedState asOf (identityFor e) (boundState e p asOf)"
    by (rule boundState_evaluated[OF valid e canon b(1)])
  show thesis
    using that s advanceBound_evaluated[OF s e rule canon b(2)] advanceBound_step[OF s e rule canon b(2)] b
    by blast
qed

lemma written_columnsStore:
  assumes step: "alertStep e asOf s intent s'" and s: "evaluatedState asOf i s"
    and s': "evaluatedState asOf i s'" and old: "columnsStore old s" and i: "row_ruleId old = id_ruleId i"
    and none: "eval_severity e = None \<Longrightarrow> ev = None"
    and some: "eval_severity e \<noteq> None \<Longrightarrow> (\<exists>y. columnsEvidence s' = Some y \<and> ev = Some (evidenceColumnsOf y))"
  shows "columnsStore (prepareStateUpdate old e intent s' ev asOf) s' \<longleftrightarrow> \<not> pendingWithdrawn e s"
    and "evidenceCheck (prepareStateUpdate old e intent s' ev asOf) \<noteq> Some False"
proof -
  let ?new = "prepareStateUpdate old e intent s' ev asOf"
  obtain x where x: "columnsHold old x" "\<And>y. columnsEvidence s = Some y \<Longrightarrow> y = x"
    using old by (auto simp: columnsStore_def split: option.splits)
  have "ev = None \<or> (\<exists>y. columnsEvidence s' = Some y \<and> ev = Some (evidenceColumnsOf y))"
    using none some by blast
  then obtain y where y: "columnsHold ?new y" "ev = None \<Longrightarrow> y = x" "ev \<noteq> None \<Longrightarrow> columnsEvidence s' = Some y"
    using written_columns[OF x(1) i s'] by blast
  show "evidenceCheck ?new \<noteq> Some False"
  proof (rule evidenceCheck_hold[OF y(1)])
    fix sev
    assume sev: "row_breachSeverity ?new = Some sev"
    moreover have "breachSeverity s' = None" if "eval_severity e = None"
      using step by cases (use that in \<open>auto simp: countersReset_def noBreach_def confirms_def\<close>)
    ultimately have "eval_severity e \<noteq> None"
      by auto
    then have "columnsEvidence s' = Some y"
      using some y(3) by fastforce
    then show "sev = sel_severity y"
      using sev evaluated_columnsEvidence(3)[OF s'] by fastforce
  qed
  show "columnsStore ?new s' \<longleftrightarrow> \<not> pendingWithdrawn e s"
  proof (cases "eval_severity e = None")
    case False
    then show ?thesis
      using y some by (fastforce simp: columnsStore_def pendingWithdrawn_def)
  next
    case True
    then have yx: "y = x"
      using none y(2) by simp
    show ?thesis
    proof (cases "pendingWithdrawn e s")
      case withdrawn: True
      then have "sel_severity x = Critical"
        using x(2) evaluated_columnsEvidence(3)[OF s] by (fastforce simp: pendingWithdrawn_def)
      moreover obtain z where "columnsEvidence s' = Some z" "sel_severity z = Warning"
        using kept_columns(1)[OF step s s' True withdrawn] evaluated_columnsEvidence(4)[OF s'] by blast
      ultimately show ?thesis
        using withdrawn columnsHold_severity[OF y(1)] yx by (auto simp: columnsStore_def)
    next
      case False
      then have "columnsEvidence s' = None \<or> columnsEvidence s' = Some x"
        using kept_columns(2)[OF step s s' True] x(2) by (cases "columnsEvidence s'") (metis option.exhaust option.distinct(1))+
      then show ?thesis
        using False y(1) yx by (auto simp: columnsStore_def)
    qed
  qed
qed

lemma update_accepted:
  assumes valid: "validState (getTime asOf) p" and e: "soundEvaluation e" "immediateEvidence e"
    and asOf: "eval_asOf e = asOf" and bound: "identity p \<noteq> None" and old: "rowStores old p" "columnsStore old p"
    and r: "advanceEvaluated e p asOf = Inr (intent, s')"
  obtains ev new where "persistedEvidence s' e = Inr ev"
    and "new = prepareStateUpdate old e intent s' ev asOf"
    and "\<not> decisionRejected (Some (row_lastEvaluatedAt old)) e (intent, s')" and "rowStores new s'"
    and "columnsStore new s' \<longleftrightarrow> \<not> pendingWithdrawn e p"
    and "updateAccepted manual old new \<longleftrightarrow> \<not> pendingCleared e p"
proof -
  define s where "s = boundState e p asOf"
  obtain s: "evaluatedState asOf (identityFor e) s" and s': "evaluatedState asOf (identityFor e) s'"
    and step: "alertStep e asOf s intent s'" and "identity p = None \<or> identity p = Some (identityFor e) \<and>
      (\<exists>t. lastEvaluatedAt p = Some t \<and> getTime t < getTime asOf)"
    unfolding s_def by (rule advanceEvaluated_bound[OF valid e(1) asOf disjI1[OF bound] r])
  then obtain t where t: "identity p = Some (identityFor e)" "lastEvaluatedAt p = Some t"
      "getTime t < getTime asOf"
    using bound by blast
  have id: "identity s' = Some (identityFor e)" "lastEvaluatedAt s' = Some asOf"
    using s' by (simp_all add: evaluatedState_def)
  have before: "rowBefore asOf e old s"
    unfolding s_def by (rule rowStores_before[OF old(1) t])
  obtain ev where ev: "persistedEvidence s' e = Inr ev"
      "status s \<noteq> status s' \<Longrightarrow> status s' \<noteq> None \<Longrightarrow> ev = map_option evidenceColumnsOf (eval_selectedEvidence e)"
      "eval_severity e = None \<Longrightarrow> ev = None"
      "eval_severity e \<noteq> None \<Longrightarrow> (\<exists>x. columnsEvidence s' = Some x \<and> ev = Some (evidenceColumnsOf x))"
    using persistedEvidence_step[OF step s e(1)] by metis
  define new where "new = prepareStateUpdate old e intent s' ev asOf"
  have gen: "0 \<le> row_generation old" "status s \<noteq> None \<Longrightarrow> 1 \<le> row_generation old"
    using old(1) by (simp_all add: rowStores_def s_def)
  have accepted: "\<not> decisionRejected (Some (row_lastEvaluatedAt old)) e (intent, s')"
    using id asOf old(1) t step
    by (auto simp: decisionRejected_def identityFor_def rowStores_def lifecycleColumnsMatch_def
        isResolve_def automaticRule_def elim: alertStep_resolveE split: option.splits alertActionIntent.splits)
  have times: "rowTimes new"
    unfolding new_def by (rule rowTimes_step[OF step _ before]) (use old(1) in \<open>simp add: rowStores_def\<close>)
  have match: "lifecycleColumnsMatch new s'"
    unfolding new_def by (rule prepareStateUpdate_match[OF id(2)])
  have checks: "counterChecks new"
    unfolding new_def by (rule counterChecks_step[OF step s s' before gen])
  have i: "row_ruleId old = id_ruleId (identityFor e)"
    using before by (simp add: rowBefore_def identityFor_def)
  have "columnsStore old s"
    using old(2) by (simp add: columnsStore_def s_def)
  note cols = written_columnsStore[OF step s s' this i ev(3,4), folded new_def]
  have "status s' = None \<or> 1 \<le> row_generation new"
    using checks match by (auto simp: counterChecks_def lifecycleColumnsMatch_def)
  then have "rowStores new s'"
    using match times old(1) t id by (auto simp: rowStores_def new_def)
  moreover have "\<not> checksFail new"
    using cols(2) checks timeChecks_written[OF times s' match] by (simp add: checksFail_def new_def)
  then have "updateAccepted manual old new \<longleftrightarrow> \<not> pendingCleared e p"
    using transitionGuard_step[OF step s e before ev(2), of manual, folded new_def]
      counterGuard_step[OF step s, of old ev, folded new_def] pendingCleared_stays[OF step s] before
    by (auto simp: updateAccepted_def identityGuardAborts_def new_def rowBefore_def s_def)
  ultimately show thesis
    using that ev(1) new_def accepted cols(1) by (simp add: s_def)
qed

subsection \<open>The first row of an alert\<close>

lemma unbound_inactive:
  assumes "validState now p" and "identity p = None"
  shows "status p = None" and "breachSeverity p = None" and "consecutiveBreaches p = 0"
    and "cooldownUntil p = None"
  using validState_unbound_inactive[OF assms] by (simp_all add: inactiveAlertState_def)

lemma inserted_row:
  assumes "evidenceForRule (key_ruleId key) x"
  shows "insertAccepted (prepareStateInsert key (evidenceColumnsOf x) at)"
    and "columnsHold (prepareStateInsert key (evidenceColumnsOf x) at) x"
proof -
  show hold: "columnsHold (prepareStateInsert key (evidenceColumnsOf x) at) x"
    using assms by (simp add: columnsHold_def prepareStateInsert_def)
  have "evidenceCheck (prepareStateInsert key (evidenceColumnsOf x) at) \<noteq> Some False"
    by (rule evidenceCheck_hold[OF hold]) (simp add: prepareStateInsert_def)
  then show "insertAccepted (prepareStateInsert key (evidenceColumnsOf x) at)"
    by (simp add: insertAccepted_def initialGuardAborts_def checksFail_def counterChecks_def
        timeChecks_def Let_def) (simp add: prepareStateInsert_def)
qed

lemma confirmed_row:
  assumes x: "evidenceForRule (key_ruleId key) x" "sel_severity x = Critical"
    and imm: "(key_ruleId key = Logout_delivery_health \<and> ev_metricName x = M_dead) \<or>
      (key_ruleId key = Alert_runtime_health \<and> ev_metricName x \<in> {M_evaluator_missing, M_dead_outbox})"
    and at: "getTime first < getTime at"
  obtains b where "prepareImmediateConfirmation (prepareStateInsert key (evidenceColumnsOf x) first) at = Some b"
    and "updateAccepted manual (prepareStateInsert key (evidenceColumnsOf x) first) b"
    and "columnsHold b x" and "row_key b = key" and "rowTimes b" and "row_generation b = 1"
    and "row_revision b = 1" and "row_currentSeverity b = Some Critical" and "row_breachSeverity b = None"
    and "row_consecutiveBreaches b = 0" and "row_consecutiveClears b = 0" and "row_cooldownUntil b = None"
    and "row_lastEvaluatedAt b = at" and "row_lastNotificationScheduledAt b = Some at"
proof -
  let ?a = "prepareStateInsert key (evidenceColumnsOf x) first"
  define b where "b = ?a\<lparr>row_currentSeverity := Some Critical, row_generation := 1, row_revision := 1,
        row_consecutiveBreaches := 0, row_breachSeverity := None, row_consecutiveClears := 0,
        row_cooldownUntil := None, row_lastNotificationScheduledAt := Some at,
        row_lastBreachedAt := Some at, row_lastEvaluatedAt := at, row_updatedAt := at\<rparr>"
  have conf: "prepareImmediateConfirmation ?a at = Some b"
    using x(2) by (simp add: prepareImmediateConfirmation_def b_def prepareStateInsert_def)
  have hold: "columnsHold b x"
    using x(1) by (simp add: columnsHold_def b_def prepareStateInsert_def)
  have "evidenceCheck b \<noteq> Some False"
    by (rule evidenceCheck_hold[OF hold]) (simp add: b_def)
  moreover have "counterChecks b" "timeChecks b"
    using at by (simp_all add: counterChecks_def timeChecks_def b_def prepareStateInsert_def Let_def)
  moreover have "\<not> transitionGuardAborts manual ?a b"
    using at x imm by (simp add: transitionGuardAborts_def badResolveCooldown_def badInactiveCooldown_def
        notificationMovedBack_def confirmedCritical_def countersCleared_def b_def prepareStateInsert_def)
  moreover have "\<not> counterGuardAborts ?a b" "\<not> identityGuardAborts ?a b"
    by (simp_all add: counterGuardAborts_def identityGuardAborts_def b_def prepareStateInsert_def)
  ultimately have "updateAccepted manual ?a b"
    by (simp add: updateAccepted_def checksFail_def)
  moreover have "rowTimes b"
    using at by (simp add: rowTimes_def b_def prepareStateInsert_def)
  ultimately show thesis
    using that conf hold by (simp add: b_def prepareStateInsert_def)
qed

text \<open>What an alert's first decision is: a pending breach, or an immediate critical.\<close>

lemma first_step:
  assumes valid: "validState (getTime asOf) p" and e: "soundEvaluation e"
    and asOf: "eval_asOf e = asOf" and unbound: "identity p = None"
    and r: "advanceEvaluated e p asOf = Inr (intent, s')" and bound: "identity s' \<noteq> None"
  obtains x where "eval_selectedEvidence e = Some x" and "evidenceForRule (eval_ruleId e) x"
    and "eval_severity e = Some (sel_severity x)" and "persistedEvidence s' e = Inr (Some (evidenceColumnsOf x))"
    and "columnsEvidence s' = Some x" and "evaluatedState asOf (identityFor e) s'" and "consecutiveClears s' = 0"
    and "cooldownUntil s' = None"
    and "\<not> eval_immediateCritical e \<and> intent = None \<and> status s' = None \<and> breachAt s' (sel_severity x) \<and>
        lastNotificationAt s' = None \<or>
      eval_immediateCritical e \<and> intent = Some (OpenIntent (activeIntentBase e asOf) x Critical) \<and>
        sel_severity x = Critical \<and> status s' = Some Critical \<and> noBreach s' \<and> activeEvidence s' = Some x \<and>
        lastNotificationAt s' = Some asOf \<and> openedAt s' = Some asOf"
proof -
  define s where "s = boundState e p asOf"
  obtain s: "evaluatedState asOf (identityFor e) s" and s': "evaluatedState asOf (identityFor e) s'"
    and step: "alertStep e asOf s intent s'"
    unfolding s_def by (rule advanceEvaluated_bound[OF valid e asOf disjI2[OF bound] r])
  have known: "eval_evidence e = Known" "eval_severity e \<noteq> None"
    using r unbound bound by (auto simp: advanceEvaluated_def split: if_splits) (cases "eval_evidence e"; simp)
  obtain x where x: "eval_selectedEvidence e = Some x" "eval_severity e = Some (sel_severity x)"
      "evidenceForRule (eval_ruleId e) x"
    using e known(2) by (auto simp: soundEvaluation_def split: option.splits)
  have sp: "status s = None" "breachSeverity s = None" "cooldownUntil s = None"
    using unbound_inactive[OF valid unbound] by (simp_all add: s_def boundState_def)
  from step show thesis
  proof cases
    case (suspect sev)
    then have "\<not> eval_immediateCritical e" "breachAt s' (sel_severity x)"
      using x sp by (auto simp: confirms_def)
    moreover have "persistedEvidence s' e = Inr (Some (evidenceColumnsOf x))" "columnsEvidence s' = Some x"
      using suspect x known by (simp_all add: persistedEvidence_def columnsEvidence_def)
    ultimately show ?thesis
      using that suspect x s' sp by (simp add: breachAt_def)
  next
    case (opens sev y)
    then have "eval_immediateCritical e" "sev = Critical" "y = x" "sel_severity x = Critical"
      using sp x e by (auto simp: confirms_def soundEvaluation_def)
    moreover from this opens have "persistedEvidence s' e = Inr (Some (evidenceColumnsOf x))"
        "columnsEvidence s' = Some x" "consecutiveClears s' = 0" "noBreach s'"
      using x known by (simp_all add: persistedEvidence_def columnsEvidence_def countersReset_def noBreach_def)
    ultimately show ?thesis
      using that opens x s' by simp
  qed (use sp known in auto)
qed

lemma insert_accepted:
  assumes valid: "validState (getTime asOf) p" and e: "soundEvaluation e" "immediateEvidence e"
    and asOf: "eval_asOf e = asOf" and unbound: "identity p = None"
    and r: "advanceEvaluated e p asOf = Inr (intent, s')" and bound: "identity s' \<noteq> None"
    and range: "time_in_range (getTime asOf - 1)"
    and key: "key_ruleId key = eval_ruleId e" "key_dimensions key = dimensionColumnsOf (eval_dimension e)"
  obtains (pending) x where "persistedEvidence s' e = Inr (Some (evidenceColumnsOf x))"
    and "\<not> decisionRejected None e (intent, s')" and "\<not> initialRejected e (intent, s') (Some (evidenceColumnsOf x))"
    and "\<not> eval_immediateCritical e" and "intent = None" and "status s' = None"
    and "insertAccepted (prepareStateInsert key (evidenceColumnsOf x) asOf)"
    and "rowStores (prepareStateInsert key (evidenceColumnsOf x) asOf) s'"
    and "columnsStore (prepareStateInsert key (evidenceColumnsOf x) asOf) s'"
  | (immediate) x first b where "persistedEvidence s' e = Inr (Some (evidenceColumnsOf x))"
    and "\<not> decisionRejected None e (intent, s')" and "\<not> initialRejected e (intent, s') (Some (evidenceColumnsOf x))"
    and "eval_immediateCritical e" and "intent = Some (OpenIntent (activeIntentBase e asOf) x Critical)"
    and "status s' = Some Critical" and "openedAt s' = Some asOf" and "activeEvidence s' = Some x"
    and "sel_severity x = Critical"
    and "toISOString (getTime asOf - 1) = Inr first" and "getTime first < getTime asOf"
    and "insertAccepted (prepareStateInsert key (evidenceColumnsOf x) first)"
    and "prepareImmediateConfirmation (prepareStateInsert key (evidenceColumnsOf x) first) asOf = Some b"
    and "updateAccepted False (prepareStateInsert key (evidenceColumnsOf x) first) b"
    and "row_key b = key" and "rowStores b s'" and "columnsStore b s'" and "row_generation b = 1"
    and "row_revision b = 1"
proof -
  obtain x where x: "eval_selectedEvidence e = Some x" "evidenceForRule (eval_ruleId e) x"
      "eval_severity e = Some (sel_severity x)" "persistedEvidence s' e = Inr (Some (evidenceColumnsOf x))"
      "columnsEvidence s' = Some x"
    and s': "evaluatedState asOf (identityFor e) s'" "consecutiveClears s' = 0" "cooldownUntil s' = None"
    and which: "\<not> eval_immediateCritical e \<and> intent = None \<and> status s' = None \<and> breachAt s' (sel_severity x) \<and>
        lastNotificationAt s' = None \<or>
      eval_immediateCritical e \<and> intent = Some (OpenIntent (activeIntentBase e asOf) x Critical) \<and>
        sel_severity x = Critical \<and> status s' = Some Critical \<and> noBreach s' \<and> activeEvidence s' = Some x \<and>
        lastNotificationAt s' = Some asOf \<and> openedAt s' = Some asOf"
    using first_step[OF valid e(1) asOf unbound r bound] by metis
  have id: "identity s' = Some (identityFor e)" "lastEvaluatedAt s' = Some asOf"
    using s'(1) by (simp_all add: evaluatedState_def)
  have accepted: "\<not> decisionRejected None e (intent, s')"
    using id asOf which by (auto simp: decisionRejected_def identityFor_def isResolve_def)
  have xk: "evidenceForRule (key_ruleId key) x"
    using x(2) key by simp
  note ins = inserted_row[OF xk]
  from which show thesis
  proof (elim disjE conjE)
    assume w: "\<not> eval_immediateCritical e" "intent = None" "status s' = None" "breachAt s' (sel_severity x)"
      "lastNotificationAt s' = None"
    have "\<not> initialRejected e (intent, s') (Some (evidenceColumnsOf x))"
      using w by (simp add: initialRejected_def)
    moreover have "rowStores (prepareStateInsert key (evidenceColumnsOf x) asOf) s'"
      using w id s' key
      by (auto simp: rowStores_def lifecycleColumnsMatch_def prepareStateInsert_def identityFor_def
          breachAt_def rowTimes_def)
    moreover have "columnsStore (prepareStateInsert key (evidenceColumnsOf x) asOf) s'"
      using ins(2) x(5) by (auto simp: columnsStore_def)
    ultimately show thesis
      using pending ins(1) x(4) accepted w by blast
  next
    assume w: "eval_immediateCritical e" "intent = Some (OpenIntent (activeIntentBase e asOf) x Critical)"
      "sel_severity x = Critical" "status s' = Some Critical" "noBreach s'" "activeEvidence s' = Some x"
      "lastNotificationAt s' = Some asOf" "openedAt s' = Some asOf"
    define first where "first = iso_of_time (getTime asOf - 1)"
    have first: "toISOString (getTime asOf - 1) = Inr first" "getTime first < getTime asOf"
      using range by (simp_all add: first_def toISOString_def)
    have imm: "(key_ruleId key = Logout_delivery_health \<and> ev_metricName x = M_dead) \<or>
      (key_ruleId key = Alert_runtime_health \<and> ev_metricName x \<in> {M_evaluator_missing, M_dead_outbox})"
      using e(2) w(1) x(1) key by (auto simp: immediateEvidence_def)
    let ?a = "prepareStateInsert key (evidenceColumnsOf x) first"
    obtain b where b: "prepareImmediateConfirmation ?a asOf = Some b" "updateAccepted False ?a b"
        "columnsHold b x" and cols: "row_key b = key" "rowTimes b" "row_generation b = 1"
        "row_revision b = 1" "row_currentSeverity b = Some Critical" "row_breachSeverity b = None"
        "row_consecutiveBreaches b = 0" "row_consecutiveClears b = 0" "row_cooldownUntil b = None"
        "row_lastEvaluatedAt b = asOf" "row_lastNotificationScheduledAt b = Some asOf"
      using confirmed_row[OF xk w(3) imm first(2), of False] by metis
    have "\<not> initialRejected e (intent, s') (Some (evidenceColumnsOf x))"
      using w by (simp add: initialRejected_def)
    moreover have "rowStores b s'"
      using cols w id s' key by (simp add: rowStores_def lifecycleColumnsMatch_def identityFor_def noBreach_def)
    moreover have "columnsStore b s'"
      using b(3) x(5) by (auto simp: columnsStore_def)
    ultimately show thesis
      using immediate x(4) accepted ins(1) b(1,2) w first cols by blast
  qed
qed

end
