(* ===== verification/Alert_Lifecycle_Samples.thy ===== *)
theory Alert_Lifecycle_Samples
  imports Alert_Lifecycle_Total
begin

section \<open>Sample observations of an alert\<close>

text \<open>
  Concrete calls the witnesses use: the rate-limited registrations of one hour, by the number
  counted in the 5, 15 and 60 minute windows. Five in five minutes is a warning, forty in an
  hour is critical.
\<close>

definition sampleObservation :: "string \<Rightarrow> int \<Rightarrow> int \<Rightarrow> alertRuleObservation" where
  "sampleObservation asOf short long =
     \<lparr>obs_asOf = asOf, obs_dimension = Global, obs_ruleId = Registration_rate_limited,
      obs_body = WindowsBody (CountWindows
        \<lparr>w5m = \<lparr>cw_count = short\<rparr>, w15m = \<lparr>cw_count = short\<rparr>, w60m = \<lparr>cw_count = long\<rparr>\<rparr>)\<rparr>"

definition sampleRate :: "string \<Rightarrow> int \<Rightarrow> int \<Rightarrow> js" where
  "sampleRate asOf short long = jsOfObservation (sampleObservation asOf short long)"

definition sampleEvidence :: "activeSeverity \<Rightarrow> alertSelectedEvidence" where
  "sampleEvidence sev =
     \<lparr>ev_kind = CountKind, ev_metricName = M_count, ev_minimumNumeratorCount = None,
      ev_minimumSampleCount = 0, ev_observedDenominator = None, ev_observedNumerator = None,
      ev_observedValue = (if sev = Warning then 5 else 40),
      ev_threshold = (if sev = Warning then 5 else 40), ev_unit = Events,
      sel_secondary = None, sel_severity = sev,
      sel_windowSeconds = (if sev = Warning then 300 else 3600)\<rparr>"

definition sampleEvaluation :: "string \<Rightarrow> alertSeverity \<Rightarrow> alertRuleEvaluation" where
  "sampleEvaluation asOf sev =
     \<lparr>eval_asOf = asOf,
      eval_breachedWindows = (case sev of None \<Rightarrow> [] | Some Warning \<Rightarrow> [W5m] | Some Critical \<Rightarrow> [W60m]),
      eval_dimension = Global, eval_evidence = Known, eval_immediateCritical = False,
      eval_ruleId = Registration_rate_limited,
      eval_selectedEvidence = map_option sampleEvidence sev, eval_severity = sev\<rparr>"

lemma sampleRate_parse:
  assumes "canonical asOf" and "0 \<le> short" and "short \<le> long" and "long \<le> 40"
  shows "parseAlertObservation (sampleRate asOf short long) = Inr (sampleObservation asOf short long)"
  unfolding sampleRate_def
  by (rule parseAlertObservation_enc)
    (use assms in \<open>simp add: validObservation_def sampleObservation_def rule_registration_rate_limited_def validRuleWindows_def
      validWindows_def validCount_def inDomain_def windowEntries_def ALERT_WINDOW_KEYS_def
      MAX_EVIDENCE_VALUE_def\<close>)

lemma sampleRate_evaluate:
  assumes "canonical asOf" and "hourBeforeExists asOf" and "evaluateObservation (sampleObservation asOf short long) = r"
    and "0 \<le> short" and "short \<le> long" and "long \<le> 40"
  shows "evaluateAlertRule (sampleRate asOf short long) = r"
  using assms sampleRate_parse by (simp add: evaluateAlertRule_def)

lemma sample_evaluation:
  assumes "canonical asOf" and "hourBeforeExists asOf"
    and "(short, long, sev) \<in> {(0, 0, None), (5, 5, Some Warning), (0, 40, Some Critical)}"
  shows "evaluateAlertRule (sampleRate asOf short long) = Inr (sampleEvaluation asOf sev)"
proof -
  obtain ws where "alertWindowsAt asOf = Inr ws"
    using assms(1,2) alertWindowsAt_ok by (auto elim: is_okE)
  then have "evaluateObservation (sampleObservation asOf short long) = Inr (sampleEvaluation asOf sev)"
    using assms(3)
    by (auto simp: Let_def evaluateObservation_def sampleObservation_def rule_registration_rate_limited_def
        evaluateWindowThresholds_def ALERT_EVIDENCE_WINDOW_ORDER_def ALERT_WINDOW_KEYS_def rule_simps mapWindows_def countBag_def
        emptyBag_def countAtLeast_def evaluateGte_def warnOnly_def criticalOnly_def
        criticalEvaluation_def warningEvaluation_def isImmediateCriticalEvidence_def scalarEvidence_def
        sampleEvaluation_def sampleEvidence_def alertMetricEvidence.defs)
  then show ?thesis
    using assms by (intro sampleRate_evaluate) auto
qed

subsection \<open>A run\<close>

text \<open>Nine instants, five minutes apart.\<close>

definition t0 :: string where "t0 = ''2026-03-01T12:00:00.000Z''"
definition t1 :: string where "t1 = ''2026-03-01T12:05:00.000Z''"
definition t2 :: string where "t2 = ''2026-03-01T12:10:00.000Z''"
definition t3 :: string where "t3 = ''2026-03-01T12:15:00.000Z''"
definition t4 :: string where "t4 = ''2026-03-01T12:20:00.000Z''"
definition t5 :: string where "t5 = ''2026-03-01T12:25:00.000Z''"
definition t6 :: string where "t6 = ''2026-03-01T12:30:00.000Z''"
definition t7 :: string where "t7 = ''2026-03-01T12:35:00.000Z''"

lemma sample_times:
  "canonical_time t0 = Some 1772366400000" "canonical_time t1 = Some 1772366700000"
  "canonical_time t2 = Some 1772367000000" "canonical_time t3 = Some 1772367300000"
  "canonical_time t4 = Some 1772367600000" "canonical_time t5 = Some 1772367900000"
  "canonical_time t6 = Some 1772368200000" "canonical_time t7 = Some 1772368500000"
  unfolding t0_def t1_def t2_def t3_def t4_def t5_def t6_def t7_def
  by (code_simp)+

lemma sample_getTime [simp]:
  "getTime t0 = 1772366400000" "getTime t1 = 1772366700000" "getTime t2 = 1772367000000"
  "getTime t3 = 1772367300000" "getTime t4 = 1772367600000" "getTime t5 = 1772367900000"
  "getTime t6 = 1772368200000" "getTime t7 = 1772368500000"
  by (simp_all add: sample_times getTime_canonical)

lemma sample_canonical [simp]:
  "canonical t0" "canonical t1" "canonical t2" "canonical t3" "canonical t4" "canonical t5"
  "canonical t6" "canonical t7"
  by (simp_all add: sample_times canonical_def)

lemma sample_hour:
  "t \<in> {t0, t1, t2, t3, t4, t5, t6, t7} \<Longrightarrow> hourBeforeExists t"
  by (auto simp: hourBeforeExists_def time_in_range_def MAX_TIME_def)

lemma lifecycleStep_eval:
  assumes "storedState s" and "evaluateAlertRule observation = Inr e" and "eval_asOf e = asOf"
    and "admits e s asOf"
  shows "lifecycleStep s (asOf, observation) = advanceEvaluated e s asOf"
proof -
  have "validState (getTime asOf) s"
    by (rule admits_valid[OF assms(1,4)])
  moreover obtain ws where "alertWindowsAt asOf = Inr ws"
    using evaluateAlertRule_windows[OF assms(2)] assms(3) by (auto elim: is_okE)
  moreover have "canonicalTimestamp (JStr asOf) ''asOf'' = Inr asOf"
    using evaluateAlertRule_sound[OF assms(2)] assms(3)
    by (simp add: canonicalTimestamp_Inr_iff soundEvaluation_def)
  ultimately show ?thesis
    using assms by (simp add: lifecycleStep_def lifecycleInput_def advanceAlertLifecycle_def
        parseState_stored validState_stored)
qed

definition sampleIdentity :: alertLifecycleIdentity where
  "sampleIdentity = \<lparr>id_dimension = Global, id_ruleId = Registration_rate_limited\<rparr>"

definition samplePending :: alertLifecycleState where
  "samplePending = inactiveAlertState\<lparr>breachEvidence := Some (sampleEvidence Warning),
     breachSeverity := Some Warning, consecutiveBreaches := 1, identity := Some sampleIdentity,
     lastEvaluatedAt := Some t0, phase := Pending\<rparr>"

definition sampleActive :: alertLifecycleState where
  "sampleActive = inactiveAlertState\<lparr>activeEvidence := Some (sampleEvidence Warning),
     identity := Some sampleIdentity, lastEvaluatedAt := Some t1, lastNotificationAt := Some t1,
     openedAt := Some t1, phase := Active, status := Some Warning\<rparr>"

definition sampleWorse :: alertLifecycleState where
  "sampleWorse = sampleActive\<lparr>breachEvidence := Some (sampleEvidence Critical),
     breachSeverity := Some Critical, consecutiveBreaches := 1, lastEvaluatedAt := Some t2\<rparr>"

definition sampleCleared :: alertLifecycleState where
  "sampleCleared = sampleActive\<lparr>consecutiveClears := 1, lastEvaluatedAt := Some t3\<rparr>"

lemmas sample_state_defs = samplePending_def sampleActive_def sampleWorse_def sampleCleared_def
  sampleIdentity_def inactiveAlertState_def

lemmas advance_defs = advanceEvaluated_def advanceBound_def advanceBreach_def advanceCandidate_def
  advanceClear_def boundState_def activated_def clearedBreach_def startOrContinueBreach_def
  requiredBreaches_eq selectedEvidenceFor_def assertSameIdentity_def identityFor_def
  ALERT_RULE_POLICY_def activeIntentBase_def

lemma sample_rule [simp]:
  "resolutionMode rule_registration_rate_limited = Automatic"
  by (simp add: rule_registration_rate_limited_def)

lemma sample_steps:
  "lifecycleStep inactiveAlertState (t0, sampleRate t0 5 5) = Inr (None, samplePending)"
  "storedState samplePending \<Longrightarrow> lifecycleStep samplePending (t1, sampleRate t1 5 5) = Inr (Some (OpenIntent
     \<lparr>int_at = t1, int_dimension = Global, int_ruleId = Registration_rate_limited\<rparr>
     (sampleEvidence Warning) Warning), sampleActive)"
  "storedState sampleActive \<Longrightarrow> lifecycleStep sampleActive (t2, sampleRate t2 0 40) = Inr (None, sampleWorse)"
  "storedState sampleWorse \<Longrightarrow> lifecycleStep sampleWorse (t3, sampleRate t3 0 0) = Inr (None, sampleCleared)"
proof -
  show "lifecycleStep inactiveAlertState (t0, sampleRate t0 5 5) = Inr (None, samplePending)"
    by (subst lifecycleStep_eval[OF inactive_stored sample_evaluation[of t0 5 5 "Some Warning"]])
      (auto simp: sample_hour sampleEvaluation_def admits_def sample_state_defs advance_defs)
  show "lifecycleStep samplePending (t1, sampleRate t1 5 5) = Inr (Some (OpenIntent
     \<lparr>int_at = t1, int_dimension = Global, int_ruleId = Registration_rate_limited\<rparr>
     (sampleEvidence Warning) Warning), sampleActive)" if "storedState samplePending"
    by (subst lifecycleStep_eval[OF that sample_evaluation[of t1 5 5 "Some Warning"]])
      (auto simp: sample_hour sampleEvaluation_def admits_def sample_state_defs advance_defs
        cooldownOverflows_def)
  show "lifecycleStep sampleActive (t2, sampleRate t2 0 40) = Inr (None, sampleWorse)" if "storedState sampleActive"
    by (subst lifecycleStep_eval[OF that sample_evaluation[of t2 0 40 "Some Critical"]])
      (auto simp: sample_hour sampleEvaluation_def admits_def sample_state_defs advance_defs
        cooldownOverflows_def clearSample_def)
  show "lifecycleStep sampleWorse (t3, sampleRate t3 0 0) = Inr (None, sampleCleared)" if "storedState sampleWorse"
    by (subst lifecycleStep_eval[OF that sample_evaluation[of t3 0 0 None]])
      (auto simp: sample_hour sampleEvaluation_def admits_def sample_state_defs advance_defs
        cooldownOverflows_def)
qed

lemma sample_stored:
  "storedState samplePending" "storedState sampleActive" "storedState sampleWorse"
  "storedState sampleCleared"
  using storedState_step[OF inactive_stored sample_steps(1)] storedState_step sample_steps(2-4)
  by blast+

text \<open>Four clear observations after the opening.\<close>

definition sampleClears :: "int \<Rightarrow> string \<Rightarrow> alertLifecycleState" where
  "sampleClears n t = sampleActive\<lparr>consecutiveClears := n, lastEvaluatedAt := Some t\<rparr>"

lemma sampleClears_step:
  assumes "storedState (sampleClears n t)" and "n < 4"
    and "canonical t'" and "hourBeforeExists t'" and "getTime t < getTime t'"
    and "getTime t' - getTime t1 < 14400000"
  shows "lifecycleStep (sampleClears n t) (t', sampleRate t' 0 0) = Inr (None, sampleClears (n + 1) t')"
  using assms
  by (subst lifecycleStep_eval[OF assms(1) sample_evaluation[of t' 0 0 None]])
    (auto simp: sampleEvaluation_def admits_def sampleClears_def sample_state_defs advance_defs
      cooldownOverflows_def)

lemma sampleClears_stored:
  "storedState (sampleClears 4 t5)"
proof -
  have "storedState (sampleClears 0 t1)"
    using sample_stored(2) by (simp add: sampleClears_def sampleActive_def inactiveAlertState_def)
  then have "storedState (sampleClears 1 t2)"
    using sampleClears_step[of 0 t1 t2] by (auto simp: sample_hour intro: storedState_step)
  then have "storedState (sampleClears 2 t3)"
    using sampleClears_step[of 1 t2 t3] by (auto simp: sample_hour intro: storedState_step)
  then have "storedState (sampleClears 3 t4)"
    using sampleClears_step[of 2 t3 t4] by (auto simp: sample_hour intro: storedState_step)
  then show ?thesis
    using sampleClears_step[of 3 t4 t5] by (auto simp: sample_hour intro: storedState_step)
qed

definition sampleResolved :: alertLifecycleState where
  "sampleResolved = inactiveAlertState\<lparr>cooldownUntil := Some (iso_of_time 1772370000000),
     identity := Some sampleIdentity, lastEvaluatedAt := Some t6\<rparr>"

lemma sample_resolves:
  "lifecycleStep (sampleClears 4 t5) (t6, sampleRate t6 0 0) = Inr (Some (ResolveIntent
     \<lparr>int_at = t6, int_dimension = Global, int_ruleId = Registration_rate_limited\<rparr> Warning), sampleResolved)"
  by (subst lifecycleStep_eval[OF sampleClears_stored sample_evaluation[of t6 0 0 None]])
    (auto simp: sample_hour sampleEvaluation_def admits_def sampleClears_def sampleResolved_def sample_state_defs advance_defs
      cooldownOverflows_def addMilliseconds_def toISOString_def time_in_range_def MAX_TIME_def)

lemma sample_clearSeries: "clearSeries sampleIdentity (getTime t1)
    [(t2, sampleRate t2 0 0), (t3, sampleRate t3 0 0), (t4, sampleRate t4 0 0), (t5, sampleRate t5 0 0),
     (t6, sampleRate t6 0 0)]"
  by (simp add: sample_evaluation[where sev = None] sample_hour sampleEvaluation_def identityFor_def
      sampleIdentity_def clearSample_def)

text \<open>A queue whose metrics could not be read gives no evidence either way.\<close>

definition sampleQueueObservation :: "string \<Rightarrow> alertRuleObservation" where
  "sampleQueueObservation asOf =
     \<lparr>obs_asOf = asOf, obs_dimension = QueueDimension (hd ALERT_QUEUE_NAMES), obs_ruleId = Queue_dlq_approximate,
      obs_body = QueueBody \<lparr>qs_backlogBytes = None, qs_backlogCount = None,
        qs_consecutiveNonzeroSamples = None, qs_nonzeroSinceAt = None,
        qs_oldestMessageTimestamp = None, qs_sampledAt = None\<rparr>\<rparr>"

definition sampleQueuePending :: "string \<Rightarrow> alertLifecycleState" where
  "sampleQueuePending asOf = inactiveAlertState\<lparr>identity := Some
     \<lparr>id_dimension = QueueDimension (hd ALERT_QUEUE_NAMES), id_ruleId = Queue_dlq_approximate\<rparr>,
     lastEvaluatedAt := Some asOf\<rparr>"

lemma sampleQueue_evaluate:
  assumes "canonical asOf" and "hourBeforeExists asOf"
  shows "evaluateAlertRule (jsOfObservation (sampleQueueObservation asOf))
    = Inr (unknownEvaluation (sampleQueueObservation asOf))"
proof -
  obtain ws where "alertWindowsAt asOf = Inr ws"
    using assms(1,2) alertWindowsAt_ok by (auto elim: is_okE)
  moreover have "parseAlertObservation (jsOfObservation (sampleQueueObservation asOf))
      = Inr (sampleQueueObservation asOf)"
    by (rule parseAlertObservation_enc)
      (use assms in \<open>simp add: validObservation_def sampleQueueObservation_def rule_queue_dlq_approximate_def
        validQueueSnapshot_def validBinding_def ALERT_QUEUE_NAMES_def\<close>)
  ultimately show ?thesis
    by (simp add: evaluateAlertRule_def evaluateObservation_def queueSnapshotOf_def
        sampleQueueObservation_def knownQueueSnapshot_def)
qed

lemma sampleQueue_stored: "storedState (sampleQueuePending t0)"
proof -
  have "validState (getTime t0) (sampleQueuePending t0)"
    by (subst validState_evaluated_iff[of t0
          "\<lparr>id_dimension = QueueDimension (hd ALERT_QUEUE_NAMES), id_ruleId = Queue_dlq_approximate\<rparr>"])
      (simp_all add: sampleQueuePending_def inactiveAlertState_def evaluated_defs validIdentity_def
        inDomain_def rule_queue_dlq_approximate_def ALERT_QUEUE_NAMES_def)
  then show ?thesis
    by (auto simp: storedState_def)
qed

lemma sampleQueue_step:
  "lifecycleStep (sampleQueuePending t0) (t1, jsOfObservation (sampleQueueObservation t1))
    = Inr (None, sampleQueuePending t1)"
  by (subst lifecycleStep_eval[OF sampleQueue_stored sampleQueue_evaluate])
    (auto simp: sample_hour unknownEvaluation_def sampleQueueObservation_def admits_def
      sampleQueuePending_def inactiveAlertState_def advance_defs advanceUnknown_def
      cooldownOverflows_def)

end
