(* ===== verification/Alert_Lifecycle_Properties.thy ===== *)
theory Alert_Lifecycle_Properties
  imports Alert_State_Writes Alert_Lifecycle_Samples
begin

section \<open>Properties of the alert lifecycle\<close>

text \<open>
  The properties of \<^verbatim>\<open>apps/sso/worker/alert-evaluator.ts\<close>. \<open>lifecycleStep s (asOf, v)\<close> is the call
  \<open>advanceAlertLifecycle({ asOf, observation: v, previous: s })\<close>; \<open>storedState\<close> are the states
  \<open>parseState\<close> accepts at some instant, as the inactive state and every result are.
\<close>

subsection \<open>Runs\<close>

text \<open>
  C2. Every run of the lifecycle from the inactive state produces a legal incident log. Replaying
  the intents alone by the rules of \<open>replayIntent\<close> (an alert opens only when none is open, and a
  warning not during a cooldown; only a warning escalates, to critical; reminders keep the
  severity and the interval since the last notification; only the open severity resolves)
  succeeds, and the incident it ends with has the status, the opening and the last notification
  of the state.
\<close>

theorem run_legal_incident_log:
  assumes "runSteps lifecycleStep inactiveAlertState inputs = Inr (intents, s)"
  shows "\<exists>l. replayAll replayIntent noIncident intents = Some l \<and> logAgrees s l"
  by (rule lifecycle.run_replay[OF inactive_stored inactive_logAgrees assms])

definition sampleInputs :: "(string \<times> js) list" where
  "sampleInputs = [(t0, sampleRate t0 5 5), (t1, sampleRate t1 5 5), (t2, sampleRate t2 0 40)]"

definition sampleIntents :: "alertActionIntent option list" where
  "sampleIntents = [None, Some (OpenIntent
     \<lparr>int_at = t1, int_dimension = Global, int_ruleId = Registration_rate_limited\<rparr>
     (sampleEvidence Warning) Warning), None]"

lemma sample_run: "runSteps lifecycleStep inactiveAlertState sampleInputs = Inr (sampleIntents, sampleWorse)"
  by (simp add: sampleInputs_def sampleIntents_def sample_steps sample_stored)

theorem run_legal_incident_log_witness:
  "\<exists>l. replayAll replayIntent noIncident sampleIntents = Some l \<and> logAgrees sampleWorse l"
  by (rule run_legal_incident_log[OF sample_run])

text \<open>
  C9. The states of a run can be stored. Every state a run from the inactive state reaches,
  written as an object and parsed again at the instant of its last evaluation or any later one,
  is accepted by \<open>parseState\<close> and read back unchanged.
\<close>

theorem run_state_parses:
  assumes "runSteps lifecycleStep inactiveAlertState inputs = Inr (intents, s)"
    and "\<And>t. lastEvaluatedAt s = Some t \<Longrightarrow> getTime t \<le> now"
  shows "parseState (jsOfState s) now = Inr s"
proof -
  have s: "storedState s"
    by (rule lifecycle.run_inv[OF inactive_stored assms(1)])
  then show ?thesis
    using storedState_valid_from[OF s assms(2)]
    by (simp add: parseState_stored validState_stored)
qed

theorem run_state_parses_witness:
  "parseState (jsOfState sampleWorse) 1772367000000 = Inr sampleWorse"
  by (rule run_state_parses[OF sample_run]) (simp add: sample_state_defs)

text \<open>
  C8. Exactly when a call throws. On a stored state the lifecycle returns if and only if the
  observation is accepted at the instant of the call and the state admits it: it has no identity
  yet, or it has the rule and the dimension observed and was last evaluated strictly before, and
  the cooldown a resolution would start can be represented.
\<close>

theorem lifecycle_total:
  assumes "storedState s"
  shows "is_ok (lifecycleStep s (asOf, observation)) \<longleftrightarrow>
    (\<exists>e. evaluateAlertRule observation = Inr e \<and> eval_asOf e = asOf \<and> admits e s asOf)"
  by (rule lifecycleStep_ok[OF assms])

theorem lifecycle_total_witness:
  "is_ok (lifecycleStep sampleActive (t1, sampleRate t1 0 0)) \<longleftrightarrow>
    (\<exists>e. evaluateAlertRule (sampleRate t1 0 0) = Inr e \<and> eval_asOf e = t1 \<and> admits e sampleActive t1)"
  by (rule lifecycle_total[OF sample_stored(2)])

subsection \<open>Single transitions\<close>

lemma lifecycleStep_transition:
  assumes s: "storedState s" and r: "lifecycleStep s (asOf, observation) = Inr (intent, s')"
    and i: "identity s' \<noteq> None"
  obtains e where "evaluateAlertRule observation = Inr e" and "soundEvaluation e" and "eval_asOf e = asOf"
    and "canonical asOf" and "evaluatedState asOf (identityFor e) (boundState e s asOf)"
    and "alertStep e asOf (boundState e s asOf) intent s'"
    and "admits e s asOf"
proof -
  obtain e where e: "evaluateAlertRule observation = Inr e" "soundEvaluation e" "eval_asOf e = asOf"
      "validState (getTime asOf) s" "advanceEvaluated e s asOf = Inr (intent, s')"
    using lifecycleStep_parts[OF s r] by (metis fst_conv snd_conv)
  have canon: "canonical asOf"
    using e by (simp add: soundEvaluation_def)
  have b: "identity s = None \<or> identity s = Some (identityFor e) \<and>
        (\<exists>t. lastEvaluatedAt s = Some t \<and> getTime t < getTime asOf)"
      "advanceBound e (boundState e s asOf) asOf = Inr (intent, s')"
    using e(5) i by (auto elim: advanceEvaluated_cases)
  have st: "evaluatedState asOf (identityFor e) (boundState e s asOf)"
    by (rule boundState_evaluated[OF e(4,2) canon b(1)])
  have "alertStep e asOf (boundState e s asOf) intent s'"
    by (rule advanceBound_step[OF st e(2) _ canon b(2)]) (simp add: identityFor_def)
  moreover have "admits e s asOf"
    using advanceEvaluated_ok[OF e(4,2) canon] e(5) by simp
  ultimately show thesis
    using that e canon st by blast
qed

lemma intent_bound:
  assumes s: "storedState s" and r: "lifecycleStep s (asOf, observation) = Inr (Some intent, s')"
  shows "identity s' \<noteq> None"
proof -
  obtain e where e: "soundEvaluation e" "eval_asOf e = asOf" "validState (getTime asOf) s"
      "advanceEvaluated e s asOf = Inr (Some intent, s')"
    using lifecycleStep_parts[OF s r] by (metis fst_conv)
  have canon: "canonical asOf"
    using e by (simp add: soundEvaluation_def)
  have b: "identity s = None \<or> identity s = Some (identityFor e) \<and>
        (\<exists>t. lastEvaluatedAt s = Some t \<and> getTime t < getTime asOf)"
      "advanceBound e (boundState e s asOf) asOf = Inr (Some intent, s')"
    using e(4) by (auto elim: advanceEvaluated_cases)
  have "evaluatedState asOf (identityFor e) (boundState e s asOf)"
    by (rule boundState_evaluated[OF e(3,1) canon b(1)])
  then show ?thesis
    using advanceBound_identity(1)[OF _ e(1) _ canon b(2)] by (simp add: identityFor_def)
qed

text \<open>
  C5. An alert opens only on confirmed evidence. If a call opens an alert with severity \<open>sev\<close>,
  none was open; the observation breached \<open>sev\<close>; and either the stored state already carried one
  breach of that same severity, or the evidence is an immediate critical, a dead logout delivery,
  a missing evaluator or a dead outbox entry. A warning does not open before the cooldown ends.
\<close>

theorem opens_only_confirmed:
  assumes "storedState s"
    and "lifecycleStep s (asOf, observation) = Inr (Some (OpenIntent b x sev), s')"
  shows "\<exists>e. evaluateAlertRule observation = Inr e \<and> eval_severity e = Some sev \<and>
    eval_selectedEvidence e = Some x \<and> status s = None \<and> status s' = Some sev \<and>
    (breachSeverity s = Some sev \<and> consecutiveBreaches s = 1 \<or>
     sev = Critical \<and> eval_immediateCritical e) \<and>
    (sev = Warning \<longrightarrow>
      (case cooldownUntil s of None \<Rightarrow> True | Some until \<Rightarrow> getTime until \<le> getTime asOf))"
proof -
  obtain e where e: "evaluateAlertRule observation = Inr e" "soundEvaluation e"
      and step: "alertStep e asOf (boundState e s asOf) (Some (OpenIntent b x sev)) s'"
    using lifecycleStep_transition[OF assms intent_bound[OF assms]] by blast
  from step show ?thesis
    by (rule alertStep_openE)
      (use e in \<open>auto simp: boundState_def confirms_def soundEvaluation_def split: if_splits option.splits\<close>)
qed

theorem opens_only_confirmed_witness:
  "\<exists>e. evaluateAlertRule (sampleRate t1 5 5) = Inr e \<and> eval_severity e = Some Warning \<and>
    eval_selectedEvidence e = Some (sampleEvidence Warning) \<and> status samplePending = None \<and>
    status sampleActive = Some Warning \<and>
    (breachSeverity samplePending = Some Warning \<and> consecutiveBreaches samplePending = 1 \<or>
     Warning = Critical \<and> eval_immediateCritical e) \<and>
    (Warning = Warning \<longrightarrow> (case cooldownUntil samplePending of None \<Rightarrow> True
       | Some until \<Rightarrow> getTime until \<le> getTime t1))"
  by (rule opens_only_confirmed[OF sample_stored(1) sample_steps(2)[OF sample_stored(1)]])

text \<open>
  C6. A resolution takes a fifth consecutive clear observation. If a call resolves an alert, the
  state carried that severity and exactly four clears, the observation was known and without a
  breach, and the rule is not the manually resolved fan-out gap; the next state is inactive, with a
  cooldown that ends thirty minutes after the call.
\<close>

theorem resolves_on_fifth_clear:
  assumes "storedState s"
    and "lifecycleStep s (asOf, observation) = Inr (Some (ResolveIntent b sev), s')"
  shows "\<exists>e. evaluateAlertRule observation = Inr e \<and> clearSample e \<and>
    eval_ruleId e \<noteq> Security_fanout_gap \<and> status s = Some sev \<and> consecutiveClears s = 4 \<and>
    status s' = None \<and> countersReset s' \<and>
    cooldownUntil s' = Some (iso_of_time (getTime asOf + 1800000))"
proof -
  obtain e where e: "evaluateAlertRule observation = Inr e"
      and step: "alertStep e asOf (boundState e s asOf) (Some (ResolveIntent b sev)) s'"
    using lifecycleStep_transition[OF assms intent_bound[OF assms]] by blast
  from step show ?thesis
    by (rule alertStep_resolveE)
      (use e in \<open>auto simp: boundState_def automaticRule_fanout canonical_time_Some_iff
        ALERT_RULE_POLICY_def\<close>)
qed

theorem resolves_on_fifth_clear_witness:
  "\<exists>e. evaluateAlertRule (sampleRate t6 0 0) = Inr e \<and> clearSample e \<and>
    eval_ruleId e \<noteq> Security_fanout_gap \<and> status (sampleClears 4 t5) = Some Warning \<and>
    consecutiveClears (sampleClears 4 t5) = 4 \<and>
    status sampleResolved = None \<and> countersReset sampleResolved \<and>
    cooldownUntil sampleResolved = Some (iso_of_time (getTime t6 + 1800000))"
  by (rule resolves_on_fifth_clear[OF sampleClears_stored sample_resolves])

text \<open>
  C7. Clear observations do resolve an alert. From any stored state with an open alert of an
  automatic rule, the clear observations that complete five in a row, each strictly later than the
  last, all return; only the last one acts, and it resolves the alert with the open severity and
  starts the cooldown of thirty minutes.
\<close>

theorem clears_resolve:
  assumes "storedState s" and "identity s = Some i" and "lastEvaluatedAt s = Some t"
    and "status s = Some sev" and "id_ruleId i \<noteq> Security_fanout_gap"
    and "clearSeries i (getTime t) inputs" and "int (length inputs) + consecutiveClears s = 5"
    and "inputs \<noteq> []" and "time_in_range (getTime (fst (last inputs)) + 1800000)"
  shows "\<exists>s' b. runSteps lifecycleStep s inputs =
      Inr (replicate (length inputs - 1) None @ [Some (ResolveIntent b sev)], s') \<and>
    int_at b = fst (last inputs) \<and> status s' = None \<and>
    cooldownUntil s' = Some (iso_of_time (getTime (fst (last inputs)) + 1800000))"
  by (rule clearSeries_resolves[OF assms])

definition sampleClearInputs :: "(string \<times> js) list" where
  "sampleClearInputs = [(t2, sampleRate t2 0 0), (t3, sampleRate t3 0 0), (t4, sampleRate t4 0 0),
     (t5, sampleRate t5 0 0), (t6, sampleRate t6 0 0)]"

theorem clears_resolve_witness:
  "\<exists>s' b. runSteps lifecycleStep sampleActive sampleClearInputs =
      Inr (replicate (length sampleClearInputs - 1) None @ [Some (ResolveIntent b Warning)], s') \<and>
    int_at b = fst (last sampleClearInputs) \<and> status s' = None \<and>
    cooldownUntil s' = Some (iso_of_time (getTime (fst (last sampleClearInputs)) + 1800000))"
  by (rule clears_resolve[OF sample_stored(2), where i = sampleIdentity and t = t1])
    (use sample_clearSeries in \<open>simp_all add: sampleClearInputs_def sample_state_defs time_in_range_def
      MAX_TIME_def del: clearSeries.simps\<close>)



end
