(* ===== verification/Alert_Codec_Properties.thy ===== *)
theory Alert_Codec_Properties
  imports Alert_Lifecycle_Samples
begin

section \<open>Round trips of the alert formats\<close>

text \<open>
  What the parsers of \<^verbatim>\<open>alert-rules.ts\<close> and \<^verbatim>\<open>alert-evaluator.ts\<close> accept is what
  the program itself writes: instants, base64url keys and references, observations, evidence and
  lifecycle states. The facts come from the interpretations of the codec locales.
\<close>

subsection \<open>Instants and references\<close>

text \<open>
  C16. \<open>canonicalTimestamp\<close> accepts exactly the strings \<open>toISOString\<close> prints, for the instants
  \<open>Date\<close> can represent, and reading one back gives the instant it was printed from.
\<close>

theorem timestamp_round_trip:
  "(canonicalTimestamp v name = Inr s \<longleftrightarrow> (\<exists>t. toISOString t = Inr s \<and> v = JStr s)) \<and>
   (toISOString t = Inr s \<longleftrightarrow> time_in_range t \<and> canonical s \<and> getTime s = t)"
proof
  show "canonicalTimestamp v name = Inr s \<longleftrightarrow> (\<exists>t. toISOString t = Inr s \<and> v = JStr s)"
    by (auto simp: canonicalTimestamp_Inr_iff toISOString_Inr_iff canonical_def)
  show "toISOString t = Inr s \<longleftrightarrow> time_in_range t \<and> canonical s \<and> getTime s = t"
    by (auto simp: toISOString_Inr_iff canonical_iff canonical_time_Some_iff)
qed

text \<open>
  C17. \<open>decodeHmacKey\<close> and the base64url encoder are inverse on keys of 32 bytes: a string decodes
  to some bytes exactly if there are 32 of them and the string is their encoding. In particular no
  two strings decode to one key, so a key has a single accepted spelling.
\<close>

theorem key_round_trip:
  "decodeHmacKey s = Inr bs \<longleftrightarrow> length bs = 32 \<and> base64Url bs = s"
  by (rule decodeHmacKey_Inr_iff)

lemma utf8_append: "utf8 (s @ u) = utf8 s @ utf8 u"
  by (induction s) (simp_all add: Let_def)

lemma word8_small_inj:
  "m < 256 \<Longrightarrow> n < 256 \<Longrightarrow> (word_of_nat m :: 8 word) = word_of_nat n \<longleftrightarrow> m = n"
  by (metis unat_word8)

text \<open>The bytes of one code unit, told apart by the first byte.\<close>

definition utf8Unit :: "nat \<Rightarrow> bytes" where
  "utf8Unit n = (if n < 128 then [word_of_nat n]
     else [word_of_nat (192 + n div 64), word_of_nat (128 + n mod 64)])"

lemma utf8_unit: "utf8 (c # s) = utf8Unit (of_char c) @ utf8 s"
  by (simp add: utf8Unit_def Let_def)

lemma utf8Unit_inj:
  assumes "m < 256" and "n < 256" and "utf8Unit m @ s = utf8Unit n @ u"
  shows "m = n \<and> s = u"
proof -
  have "m div 64 < 4" "n div 64 < 4" "m mod 64 < 64" "n mod 64 < 64"
    using assms(1,2) by (simp_all add: less_mult_imp_div_less)
  then have div: "192 + m div 64 < 256" "192 + n div 64 < 256"
    and mod: "128 + m mod 64 < 256" "128 + n mod 64 < 256"
    by linarith+
  show ?thesis
  proof (cases "m < 128")
    case True
    then have "n < 128"
      using assms div word8_small_inj[of m "192 + n div 64"] by (auto simp: utf8Unit_def split: if_splits)
    then show ?thesis
      using assms True word8_small_inj[of m n] by (simp add: utf8Unit_def)
  next
    case False
    then have "\<not> n < 128"
      using assms div word8_small_inj[of "192 + m div 64" n] by (auto simp: utf8Unit_def split: if_splits)
    then have "(word_of_nat (192 + m div 64) :: 8 word) = word_of_nat (192 + n div 64)"
        "(word_of_nat (128 + m mod 64) :: 8 word) = word_of_nat (128 + n mod 64)" "s = u"
      using assms(3) False by (simp_all add: utf8Unit_def)
    then have "m div 64 = n div 64" "m mod 64 = n mod 64" "s = u"
      using word8_small_inj[OF div] word8_small_inj[OF mod] by simp_all
    then show ?thesis
      by (metis div_mod_decomp)
  qed
qed

lemma utf8_inj [simp]: "utf8 s = utf8 u \<longleftrightarrow> s = u"
proof (induction s arbitrary: u)
  case Nil
  show ?case
    by (cases u) (simp_all add: utf8_unit utf8Unit_def del: utf8.simps(2))
next
  case (Cons c s)
  show ?case
  proof (cases u)
    case (Cons d u')
    have "utf8 (c # s) = utf8 (d # u') \<longleftrightarrow> (of_char c :: nat) = of_char d \<and> utf8 s = utf8 u'"
      unfolding utf8_unit
    proof
      assume "utf8Unit (of_char c) @ utf8 s = utf8Unit (of_char d) @ utf8 u'"
      then show "(of_char c :: nat) = of_char d \<and> utf8 s = utf8 u'"
        by (rule utf8Unit_inj[OF nat_of_char_less_256 nat_of_char_less_256])
    next
      assume "(of_char c :: nat) = of_char d \<and> utf8 s = utf8 u'"
      then show "utf8Unit (of_char c) @ utf8 s = utf8Unit (of_char d) @ utf8 u'"
        by (simp only:)
    qed
    also have "\<dots> \<longleftrightarrow> c # s = u"
      using Cons Cons.IH by simp
    finally show ?thesis
      using Cons by simp
  qed (simp add: utf8_unit utf8Unit_def del: utf8.simps(2))
qed





text \<open>
  C19. A derived reference is accepted wherever references are read. \<open>deriveAlertReferenceV1\<close>
  returns exactly for a supported domain, an identifier of 1 to 512 characters and a key of 32
  bytes in base64url; with a MAC of 32 bytes, as HMAC-SHA-256 has, the reference it returns
  is accepted unchanged by \<open>parseHashedReference\<close>.
\<close>

theorem derived_reference_parses:
  assumes "\<And>key message. length (hmac key message) = 32"
  shows "(is_ok (deriveAlertReferenceV1 hmac key kind raw) \<longleftrightarrow>
      kind \<in> set ALERT_HMAC_REFERENCE_DOMAINS \<and> 1 \<le> length raw \<and> length raw \<le> 512 \<and>
      (\<exists>bs. length bs = 32 \<and> base64Url bs = key)) \<and>
    (case deriveAlertReferenceV1 hmac key kind raw of
       Inl _ \<Rightarrow> True
     | Inr r \<Rightarrow> parseHashedReference (jsOfReference r) = Inr r)"
proof
  show "is_ok (deriveAlertReferenceV1 hmac key kind raw) \<longleftrightarrow>
      kind \<in> set ALERT_HMAC_REFERENCE_DOMAINS \<and> 1 \<le> length raw \<and> length raw \<le> 512 \<and>
      (\<exists>bs. length bs = 32 \<and> base64Url bs = key)"
    by (auto simp: deriveAlertReferenceV1_def is_ok_and_then decodeHmacKey_Inr_iff Suc_le_eq)
  have "validReference \<lparr>keyVersion = 1, refValue = base64Url (hmac bs m)\<rparr>" for bs m
    using assms isCanonicalBase64Url32_iff by (auto simp: validReference_def)
  then show "case deriveAlertReferenceV1 hmac key kind raw of
       Inl _ \<Rightarrow> True
     | Inr r \<Rightarrow> parseHashedReference (jsOfReference r) = Inr r"
    by (auto simp: deriveAlertReferenceV1_def and_then_eq_Inr reference.dec_enc split: sum.splits if_splits)
qed

theorem derived_reference_parses_witness:
  "(is_ok (deriveAlertReferenceV1 (\<lambda>_ _. replicate 32 7) (base64Url (replicate 32 1)) ''client_hmac'' ''a'') \<longleftrightarrow>
      ''client_hmac'' \<in> set ALERT_HMAC_REFERENCE_DOMAINS \<and> 1 \<le> length ''a'' \<and> length ''a'' \<le> 512 \<and>
      (\<exists>bs. length bs = 32 \<and> base64Url bs = base64Url (replicate 32 1))) \<and>
    (case deriveAlertReferenceV1 (\<lambda>_ _. replicate 32 7) (base64Url (replicate 32 1)) ''client_hmac'' ''a'' of
       Inl _ \<Rightarrow> True
     | Inr r \<Rightarrow> parseHashedReference (jsOfReference r) = Inr r)"
  by (rule derived_reference_parses) simp

subsection \<open>Observations, evidence and states\<close>

text \<open>
  C15. What the parsers accept, they accept again as written. An observation, a selected evidence
  and a lifecycle state that were accepted from any input are printed to objects that are accepted
  and read back as the same value; the state also at any later instant.
\<close>

theorem accepted_values_round_trip:
  "(case parseAlertObservation v of Inl _ \<Rightarrow> True
     | Inr obs \<Rightarrow> parseAlertObservation (jsOfObservation obs) = Inr obs) \<and>
   (case parseAlertSelectedEvidence v of Inl _ \<Rightarrow> True
     | Inr x \<Rightarrow> parseAlertSelectedEvidence (jsOfSelectedEvidence x) = Inr x) \<and>
   (case parseState v now of Inl _ \<Rightarrow> True
     | Inr s \<Rightarrow> (\<forall>n :: nat. parseState (jsOfState s) (now + int n) = Inr s))"
proof (intro conjI)
  show "case parseAlertObservation v of Inl _ \<Rightarrow> True
     | Inr obs \<Rightarrow> parseAlertObservation (jsOfObservation obs) = Inr obs"
    using observation.dec_idem[of v] by (auto split: sum.split)
  show "case parseAlertSelectedEvidence v of Inl _ \<Rightarrow> True
     | Inr x \<Rightarrow> parseAlertSelectedEvidence (jsOfSelectedEvidence x) = Inr x"
    using selectedEvidence.dec_idem[of v] by (auto split: sum.split)
  have "parseState (jsOfState s) (now + int n) = Inr s" if "parseState v now = Inr s" for s n
    using lifecycleState.dec_valid[OF that] validState_mono[of now s "now + int n"]
    by (intro lifecycleState.dec_enc) simp
  then show "case parseState v now of Inl _ \<Rightarrow> True
     | Inr s \<Rightarrow> (\<forall>n :: nat. parseState (jsOfState s) (now + int n) = Inr s)"
    by (auto split: sum.split)
qed

subsection \<open>More evidence\<close>

text \<open>
  C14. More evidence never turns a verdict. If an expression of the rule table is breached or clear
  on some metrics, it has the same verdict on any metrics that only add values for names that had
  none; so an unknown result is the only one that later evidence can change.
\<close>

theorem verdict_monotone:
  assumes "ruleThreshold r w sev = Some e" and "m \<subseteq>\<^sub>m m'"
    and "evaluateExpression e m = Inr x" and "verdict x = Some b"
  shows "\<exists>x'. evaluateExpression e m' = Inr x' \<and> verdict x' = Some b"
proof -
  have small: "smallClauses e"
    using table_smallClauses[OF assms(1)] by blast
  obtain x' where x': "evaluateExpression e m' = Inr x'"
    using evaluateExpression_ok[OF small] by (auto elim: is_okE)
  have "kleeneValue e m' = Some b"
    using kleeneValue_mono[OF assms(2)] evaluateExpression_verdict assms(3,4) by fastforce
  then show ?thesis
    using evaluateExpression_verdict x' by fastforce
qed

theorem verdict_monotone_witness:
  "\<exists>x'. evaluateExpression (Any [All [Gte HighRiskCount 3, Gte DistinctReporters 2], Gte Count 10])
      [HighRiskCount \<mapsto> 3, DistinctReporters \<mapsto> 1, Count \<mapsto> 10] = Inr x' \<and> verdict x' = Some True"
  by (rule verdict_monotone[of Oauth_client_report W60m Critical _
        "[HighRiskCount \<mapsto> 3, Count \<mapsto> 10]" _ "Breached [scalarEvidence Count 10 10]"])
    (auto simp: ruleThreshold_def rule_oauth_client_report_def criticalOnly_def anyOf_def allOf_def
      countAtLeast_def evaluateGte_def map_le_def)

end
