(* ===== verification/Js_Json.thy ===== *)
theory Js_Json
  imports Js_Date
begin

section \<open>JSON text\<close>

text \<open>
  \<open>JSON.stringify\<close> on what the alert modules print with it: strings, integers of less than 22
  digits, null, arrays and objects with plain keys. A character is a code unit below 256.
\<close>

definition hexDigit :: "nat \<Rightarrow> char" where
  "hexDigit n = (if n < 10 then char_of (n + 48) else char_of (n + 87))"

definition hexByte :: "nat \<Rightarrow> string" where
  "hexByte n = [hexDigit (n div 16 mod 16), hexDigit (n mod 16)]"

definition jsonChar :: "char \<Rightarrow> string" where
  "jsonChar c =
     (let n = (of_char c :: nat) in
      if c = CHR 0x22 \<or> c = CHR 0x5C then [CHR 0x5C, c]
      else if n = 8 then [CHR 0x5C, CHR ''b''] else if n = 9 then [CHR 0x5C, CHR ''t'']
      else if n = 10 then [CHR 0x5C, CHR ''n''] else if n = 12 then [CHR 0x5C, CHR ''f'']
      else if n = 13 then [CHR 0x5C, CHR ''r'']
      else if n < 32 then CHR 0x5C # ''u00'' @ hexByte n else [c])"

definition jsonString :: "string \<Rightarrow> string" where
  "jsonString s = CHR 0x22 # concat (map jsonChar s) @ [CHR 0x22]"

fun natText :: "nat \<Rightarrow> string" where
  "natText n = (if n < 10 then [digit (int n)] else natText (n div 10) @ [digit (int (n mod 10))])"

declare natText.simps [simp del]

definition jsonInt :: "int \<Rightarrow> string" where
  "jsonInt n = (if n < 0 then CHR ''-'' # natText (nat (- n)) else natText (nat n))"

definition jsonNullable :: "('a \<Rightarrow> string) \<Rightarrow> 'a option \<Rightarrow> string" where
  "jsonNullable text x = (case x of None \<Rightarrow> ''null'' | Some y \<Rightarrow> text y)"

fun joinComma :: "string list \<Rightarrow> string" where
  "joinComma [] = ''''"
| "joinComma [x] = x"
| "joinComma (x # y # xs) = x @ '','' @ joinComma (y # xs)"

definition jsonArray :: "string list \<Rightarrow> string" where
  "jsonArray entries = ''['' @ joinComma entries @ '']''"

definition jsonObject :: "(string \<times> string) list \<Rightarrow> string" where
  "jsonObject members = ''{'' @ joinComma (map (\<lambda>(k, v). jsonString k @ '':'' @ v) members) @ ''}''"

subsection \<open>Lengths\<close>

text \<open>A string without quotes, backslashes and control characters is printed as it is.\<close>

definition plainChar :: "char \<Rightarrow> bool" where
  "plainChar c \<longleftrightarrow> jsonChar c = [c]"

lemma jsonString_plain: "list_all plainChar s \<Longrightarrow> jsonString s = CHR 0x22 # s @ [CHR 0x22]"
  by (induction s) (auto simp: jsonString_def plainChar_def)

lemma jsonString_length: "list_all plainChar s \<Longrightarrow> length (jsonString s) = length s + 2"
  by (simp add: jsonString_plain)

lemma natText_length: "n < 10 ^ Suc k \<Longrightarrow> length (natText n) \<le> Suc k"
proof (induction k arbitrary: n)
  case 0
  then show ?case by (simp add: natText.simps)
next
  case (Suc k)
  then have "n div 10 < 10 ^ Suc k"
    by (simp add: less_mult_imp_div_less)
  then show ?case
    using Suc.IH[of "n div 10"] by (subst natText.simps) simp
qed

lemma jsonInt_length: "0 \<le> n \<Longrightarrow> n < 10 ^ Suc k \<Longrightarrow> length (jsonInt n) \<le> Suc k"
  using natText_length[of "nat n" k] by (simp add: jsonInt_def nat_less_iff)

lemma jsonNullable_length:
  "4 \<le> k \<Longrightarrow> (\<And>y. x = Some y \<Longrightarrow> length (text y) \<le> k) \<Longrightarrow> length (jsonNullable text x) \<le> k"
  by (cases x) (simp_all add: jsonNullable_def)

lemma joinComma_length: "length (joinComma xs) = sum_list (map length xs) + (length xs - 1)"
  by (induction xs rule: joinComma.induct) simp_all

lemma jsonObject_length:
  "length (jsonObject members) =
     2 + sum_list (map (\<lambda>(k, v). length (jsonString k) + length v + 1) members) + (length members - 1)"
  by (simp add: jsonObject_def joinComma_length comp_def case_prod_unfold)

end
