(* ===== verification/Alert_State_Db.thy ===== *)
theory Alert_State_Db
  imports Alert_State_Guard Js_Json
begin

section \<open>The tables of the alert state, and the reader\<close>

text \<open>
  The tables \<open>alert_state\<close>, \<open>security_alert\<close> and \<open>alert_outbox\<close> as lists of rows, and
  \<open>readSnapshot\<close> of \<^verbatim>\<open>apps/sso/worker/alert-state-repository.ts\<close>, which rebuilds a
  lifecycle state from the rows of an alert. The rows are typed: the readers of the columns keep
  only their checks on values.
\<close>

subsection \<open>Rows\<close>

datatype incidentStatus = Open | Acknowledged | Resolved

record incidentRow =
  inc_id :: string
  inc_stateId :: string
  inc_ruleId :: alertRuleId
  inc_environment :: alertEnvironment
  inc_sourceKind :: alertSourceKind
  inc_generation :: int
  inc_severity :: activeSeverity
  inc_status :: incidentStatus
  inc_firstSeenAt :: string
  inc_lastSeenAt :: string
  inc_metrics :: metricColumns
  inc_threshold :: int
  inc_acknowledgedAt :: "string option"
  inc_acknowledgedByRef :: "string option"
  inc_acknowledgedByHashVersion :: "int option"
  inc_createdAt :: string
  inc_updatedAt :: string

text \<open>
  The deliveries queued for the incidents. A row keeps a snapshot of the incident it tells of; its
  status, lease and attempts belong to the delivery and stay as inserted here.
\<close>

datatype eventKind = Opened | Reminder | Escalated | ResolvedEvent

datatype outboxStatus = OutPending | OutProcessing | OutRetry | OutAccepted | OutDead

record outboxRow =
  out_deliveryKey :: string
  out_alertId :: string
  out_generation :: int
  out_eventKind :: eventKind
  out_eventSequence :: int
  out_idempotencyKey :: string
  out_payloadJson :: string
  out_payloadSha256 :: string
  out_ruleId :: alertRuleId
  out_environment :: alertEnvironment
  out_sourceKind :: alertSourceKind
  out_severity :: activeSeverity
  out_incidentStatus :: incidentStatus
  out_dimensions :: dimensionColumns
  out_firstSeenAt :: string
  out_lastSeenAt :: string
  out_metrics :: metricColumns
  out_threshold :: int
  out_status :: outboxStatus
  out_attempts :: int
  out_nextAttemptAt :: "string option"
  out_createdAt :: string
  out_updatedAt :: string

record alertDb =
  db_states :: "alertStateRow list"
  db_incidents :: "incidentRow list"
  db_outbox :: "outboxRow list"

record alertStateExpectation =
  exp_generation :: int
  exp_incident :: "(string \<times> incidentStatus) option"
  exp_lastEvaluatedAt :: string
  exp_revision :: int
  exp_stateId :: string

definition incidentFromEvidence ::
  "stateKey \<Rightarrow> evidenceColumns \<Rightarrow> string \<Rightarrow> int \<Rightarrow> string \<Rightarrow> activeSeverity \<Rightarrow> incidentRow" where
  "incidentFromEvidence key evidence at generation newId severity =
     \<lparr>inc_id = newId, inc_stateId = key_id key, inc_ruleId = key_ruleId key,
      inc_environment = key_environment key, inc_sourceKind = key_sourceKind key,
      inc_generation = generation, inc_severity = severity, inc_status = Open,
      inc_firstSeenAt = at, inc_lastSeenAt = at, inc_metrics = metricColumns.truncate evidence,
      inc_threshold = threshold evidence, inc_acknowledgedAt = None, inc_acknowledgedByRef = None,
      inc_acknowledgedByHashVersion = None, inc_createdAt = at, inc_updatedAt = at\<rparr>"

definition incidentWithEvidence ::
  "incidentRow \<Rightarrow> evidenceColumns \<Rightarrow> activeSeverity \<Rightarrow> string \<Rightarrow> incidentRow" where
  "incidentWithEvidence current evidence severity at =
     current\<lparr>inc_lastSeenAt := at, inc_metrics := metricColumns.truncate evidence,
       inc_severity := severity, inc_threshold := threshold evidence, inc_updatedAt := at\<rparr>"

subsection \<open>Checks on the values of a row\<close>

definition uuidPattern :: "nat \<Rightarrow> string" where
  "uuidPattern i =
     (if i \<in> {8, 13, 18, 23} then ''-'' else if i = 14 then ''4'' else if i = 19 then ''89ab''
      else ''0123456789abcdef'')"

definition uuidV4 :: "string \<Rightarrow> bool" where
  "uuidV4 s \<longleftrightarrow> length s = 36 \<and> list_all (\<lambda>(i, c). c \<in> set (uuidPattern i)) (enumerate 0 s)"

definition shortInstant :: "string \<Rightarrow> bool" where
  "shortInstant s \<longleftrightarrow> length s = 24 \<and> canonical s"

definition optionally :: "('a \<Rightarrow> bool) \<Rightarrow> 'a option \<Rightarrow> bool" where
  "optionally P x = (case x of None \<Rightarrow> True | Some y \<Rightarrow> P y)"

definition parseStateProjection :: "alertStateRow \<Rightarrow> alertStateRow result" where
  "parseStateProjection row =
     (if inDomain 1 (row_consecutiveBreaches row) \<and> inDomain 4 (row_consecutiveClears row) \<and>
         optionally shortInstant (row_cooldownUntil row) \<and>
         optionally (\<lambda>n. 1 \<le> n \<and> n \<le> 1000000000) (state_criticalThreshold (row_columns row)) \<and>
         inDomain MAX_STATE_GENERATION (row_generation row) \<and>
         optionally (\<lambda>n. n = 1) (hashVersion (key_dimensions (row_key row))) \<and>
         uuidV4 (key_id (row_key row)) \<and> shortInstant (row_lastEvaluatedAt row) \<and>
         optionally shortInstant (row_lastNotificationScheduledAt row) \<and>
         inDomain MAX_STATE_REVISION (row_revision row) \<and>
         optionally (\<lambda>n. 1 \<le> n \<and> n \<le> 1000000000) (state_warningThreshold (row_columns row)) \<and>
         300 \<le> windowSeconds (row_columns row) \<and> windowSeconds (row_columns row) \<le> 3600
      then Inr row else invalidInput)"

definition incidentEvidence :: "incidentRow \<Rightarrow> alertSelectedEvidence result" where
  "incidentEvidence row =
     parseColumns (inc_metrics row) (inc_severity row) (inc_threshold row) (inc_ruleId row)"

definition parseIncidentProjection :: "incidentRow \<Rightarrow> incidentRow result" where
  "parseIncidentProjection row =
     and_then (incidentEvidence row) (\<lambda>_.
       if optionally shortInstant (inc_acknowledgedAt row) \<and>
          optionally (\<lambda>n. n = 1) (inc_acknowledgedByHashVersion row) \<and>
          shortInstant (inc_createdAt row) \<and> shortInstant (inc_firstSeenAt row) \<and>
          1 \<le> inc_generation row \<and> inc_generation row \<le> MAX_STATE_GENERATION \<and>
          uuidV4 (inc_id row) \<and> shortInstant (inc_lastSeenAt row) \<and> uuidV4 (inc_stateId row) \<and>
          shortInstant (inc_updatedAt row)
       then Inr row else invalidInput)"

subsection \<open>The key of an alert\<close>

text \<open>
  Keys are SHA-256 references: \<open>canonicalReference\<close> hashes the JSON text of a domain and fields. The
  hash of the platform, on bytes, is the parameter \<open>digest\<close>.
\<close>

type_synonym digestFunction = "bytes \<Rightarrow> bytes"

datatype referenceField = NumberField int | StringField string

fun jsonField :: "referenceField \<Rightarrow> string" where
  "jsonField (NumberField n) = jsonInt n"
| "jsonField (StringField s) = jsonString s"

definition digestBytes :: "digestFunction \<Rightarrow> string \<Rightarrow> bytes" where
  "digestBytes digest value = digest (utf8 value)"

definition canonicalReference :: "digestFunction \<Rightarrow> string \<Rightarrow> referenceField list \<Rightarrow> string" where
  "canonicalReference digest domain parts =
     base64Url (digestBytes digest (jsonArray (map jsonField (StringField domain # parts))))"

definition sha256Hex :: "digestFunction \<Rightarrow> string \<Rightarrow> string" where
  "sha256Hex digest value = concat (map (\<lambda>b. hexByte (unat b)) (digestBytes digest value))"

definition sourceKindFor :: "alertRuleId \<Rightarrow> alertSourceKind" where
  "sourceKindFor r = sourceKind (ALERT_RULE_DEFINITIONS r)"

definition orEmpty :: "string option \<Rightarrow> string" where
  "orEmpty x = (case x of None \<Rightarrow> '''' | Some s \<Rightarrow> s)"

definition dedupeKeyFor ::
  "digestFunction \<Rightarrow> alertRuleId \<Rightarrow> alertEnvironment \<Rightarrow> dimensionKind \<Rightarrow> dimensionColumns \<Rightarrow> string" where
  "dedupeKeyFor digest r env kind dims =
     canonicalReference digest ''pgid.alert.state.v1''
       [StringField (ruleIdString r), StringField (environmentString env),
        StringField (sourceKindString (sourceKindFor r)), StringField (dimensionKindString kind),
        StringField (orEmpty (subjectRef dims)), StringField (orEmpty (queueName dims))]"

definition stateKeyFor ::
  "digestFunction \<Rightarrow> alertEnvironment \<Rightarrow> string \<Rightarrow> alertLifecycleIdentity \<Rightarrow> stateKey" where
  "stateKeyFor digest env stateId i =
     (let r = id_ruleId i; dims = dimensionColumnsOf (id_dimension i) in
      \<lparr>key_id = stateId, key_ruleId = r, key_environment = env, key_sourceKind = sourceKindFor r,
       key_dedupeKey = dedupeKeyFor digest r env (kindOf (id_dimension i)) dims,
       key_dimensions = dims\<rparr>)"

text \<open>The \<open>WHERE\<close> of every read: the semantic identity, on which the table has a unique index.\<close>

definition selects :: "alertEnvironment \<Rightarrow> alertLifecycleIdentity \<Rightarrow> alertStateRow \<Rightarrow> bool" where
  "selects env i row \<longleftrightarrow>
     (let key = row_key row; r = id_ruleId i; dims = dimensionColumnsOf (id_dimension i) in
      key_ruleId key = r \<and> key_environment key = env \<and> key_sourceKind key = sourceKindFor r \<and>
      subjectRef (key_dimensions key) = subjectRef dims \<and> queueName (key_dimensions key) = queueName dims)"

definition selectStates :: "alertEnvironment \<Rightarrow> alertLifecycleIdentity \<Rightarrow> alertDb \<Rightarrow> alertStateRow list" where
  "selectStates env i db = filter (selects env i) (db_states db)"

definition incidentsOf :: "alertDb \<Rightarrow> alertStateRow \<Rightarrow> incidentRow list" where
  "incidentsOf db row = filter (\<lambda>a. inc_stateId a = key_id (row_key row)) (db_incidents db)"

definition selectIncidents :: "alertEnvironment \<Rightarrow> alertLifecycleIdentity \<Rightarrow> alertDb \<Rightarrow> incidentRow list" where
  "selectIncidents env i db =
     concat (map (\<lambda>row. filter (\<lambda>a. inc_generation a = row_generation row) (incidentsOf db row))
       (selectStates env i db))"

subsection \<open>Reading a lifecycle state\<close>

definition foreignRow ::
  "digestFunction \<Rightarrow> alertEnvironment \<Rightarrow> alertLifecycleIdentity \<Rightarrow> alertStateRow \<Rightarrow> incidentRow list \<Rightarrow>
   alertDimension \<Rightarrow> bool" where
  "foreignRow digest env i row incidents projected \<longleftrightarrow>
     (let key = row_key row; r = id_ruleId i in
      key_ruleId key \<noteq> r \<or> key_environment key \<noteq> env \<or> key_sourceKind key \<noteq> sourceKindFor r \<or>
      key_dedupeKey key \<noteq>
        dedupeKeyFor digest r env (kindOf projected) (dimensionColumnsOf (id_dimension i)) \<or>
      \<not> sameDimension projected (id_dimension i) \<or>
      list_ex (\<lambda>a. inc_stateId a \<noteq> key_id key \<or> inc_ruleId a \<noteq> key_ruleId key \<or>
        inc_environment a \<noteq> key_environment key \<or> inc_sourceKind a \<noteq> key_sourceKind key \<or>
        inc_generation a \<noteq> row_generation row) incidents)"

definition incidentTimesInvalid :: "incidentRow \<Rightarrow> alertStateRow \<Rightarrow> bool" where
  "incidentTimesInvalid incident row \<longleftrightarrow>
     getTime (inc_firstSeenAt incident) > getTime (inc_lastSeenAt incident) \<or>
     getTime (inc_lastSeenAt incident) > getTime (row_lastEvaluatedAt row)"

definition readActive ::
  "alertLifecycleIdentity \<Rightarrow> alertStateRow \<Rightarrow> activeSeverity \<Rightarrow> incidentRow list \<Rightarrow>
   ((string \<times> incidentStatus) option \<times> alertLifecycleState) result" where
  "readActive i row severity incidents =
     (case incidents of
        [incident] \<Rightarrow>
          if inc_status incident = Resolved \<or> inc_severity incident \<noteq> severity then sourceInvalid
          else and_then (incidentEvidence incident) (\<lambda>active.
            if incidentTimesInvalid incident row then sourceInvalid
            else and_then
              (case row_breachSeverity row of
                 None \<Rightarrow> and_then (projectedEvidence (row_columns row) severity (row_ruleId row)) (\<lambda>e.
                   if e \<noteq> active then sourceInvalid else Inr None)
               | Some b \<Rightarrow> and_then (projectedEvidence (row_columns row) b (row_ruleId row)) (\<lambda>e.
                   Inr (Some e)))
              (\<lambda>breach.
                Inr (Some (inc_id incident, inc_status incident),
                  \<lparr>activeEvidence = Some active, breachEvidence = breach,
                   breachSeverity = row_breachSeverity row,
                   consecutiveBreaches = row_consecutiveBreaches row,
                   consecutiveClears = row_consecutiveClears row, cooldownUntil = None,
                   identity = Some i, lastEvaluatedAt = Some (row_lastEvaluatedAt row),
                   lastNotificationAt = row_lastNotificationScheduledAt row,
                   openedAt = Some (inc_firstSeenAt incident), phase = Active,
                   status = Some severity\<rparr>)))
      | _ \<Rightarrow> sourceInvalid)"

definition readInactive ::
  "alertLifecycleIdentity \<Rightarrow> alertStateRow \<Rightarrow> incidentRow list \<Rightarrow>
   ((string \<times> incidentStatus) option \<times> alertLifecycleState) result" where
  "readInactive i row incidents =
     (if list_ex (\<lambda>a. inc_status a \<noteq> Resolved) incidents \<or> length incidents > 1 \<or>
         (row_generation row = 0 \<and> length incidents \<noteq> 0) \<or>
         (row_generation row > 0 \<and> length incidents \<noteq> 1) \<or>
         list_ex (\<lambda>a. incidentTimesInvalid a row) (take 1 incidents)
      then sourceInvalid
      else and_then
        (case row_breachSeverity row of
           None \<Rightarrow> Inr None
         | Some b \<Rightarrow> and_then (projectedEvidence (row_columns row) b (row_ruleId row)) (\<lambda>e. Inr (Some e)))
        (\<lambda>breach.
          Inr (None,
            \<lparr>activeEvidence = None, breachEvidence = breach, breachSeverity = row_breachSeverity row,
             consecutiveBreaches = row_consecutiveBreaches row, consecutiveClears = 0,
             cooldownUntil = row_cooldownUntil row, identity = Some i,
             lastEvaluatedAt = Some (row_lastEvaluatedAt row), lastNotificationAt = None,
             openedAt = None, phase = (if row_breachSeverity row = None then Inactive else Pending),
             status = None\<rparr>)))"

definition readSnapshot ::
  "digestFunction \<Rightarrow> alertEnvironment \<Rightarrow> alertLifecycleIdentity \<Rightarrow> alertDb \<Rightarrow>
   (alertStateExpectation option \<times> alertLifecycleState) result" where
  "readSnapshot digest env i db =
     (case selectStates env i db of
        [] \<Rightarrow> Inr (None, inactiveAlertState)
      | [stored] \<Rightarrow>
          and_then (parseStateProjection stored) (\<lambda>row.
          and_then (map_result parseIncidentProjection (selectIncidents env i db)) (\<lambda>incidents.
          and_then (projectedDimension (row_ruleId row) (key_dimensions (row_key row))) (\<lambda>projected.
            if foreignRow digest env i row incidents projected then sourceInvalid
            else and_then
              (case row_currentSeverity row of
                 None \<Rightarrow> readInactive i row incidents
               | Some severity \<Rightarrow> readActive i row severity incidents)
              (\<lambda>(incident, previous).
                Inr (Some
                  \<lparr>exp_generation = row_generation row, exp_incident = incident,
                   exp_lastEvaluatedAt = row_lastEvaluatedAt row, exp_revision = row_revision row,
                   exp_stateId = key_id (row_key row)\<rparr>, previous)))))
      | _ \<Rightarrow> sourceInvalid)"

end
