(* ===== verification/Alert_State_Outbox.thy ===== *)
theory Alert_State_Outbox
  imports Alert_State_Db
begin

section \<open>The deliveries of an incident\<close>

text \<open>
  What \<^verbatim>\<open>alert-state-repository.ts\<close> queues in \<open>alert_outbox\<close> for an intent: the event, its keys and its
  canonical payload, and what the triggers and constraints of the table (migration 0020) demand of a
  new row. A unique key that is taken, a constraint or a trigger aborts the statement.
\<close>

subsection \<open>The event and its snapshot\<close>

definition MAX_EVENT_SEQUENCE :: int where "MAX_EVENT_SEQUENCE = 1000000000"

record deliveryRecord =
  del_createdAt :: string
  del_deliveryKey :: string
  del_eventKind :: eventKind
  del_eventSequence :: int
  del_idempotencyKey :: string
  del_payloadJson :: string
  del_payloadSha256 :: string

record plannedEvent =
  event_kind :: eventKind
  event_sequence :: int
  event_incident :: incidentRow
  event_incidentStatus :: incidentStatus
  event_severity :: activeSeverity

fun eventKindString :: "eventKind \<Rightarrow> string" where
  "eventKindString Opened = ''opened''"
| "eventKindString Reminder = ''reminder''"
| "eventKindString Escalated = ''escalated''"
| "eventKindString ResolvedEvent = ''resolved''"

fun incidentStatusString :: "incidentStatus \<Rightarrow> string" where
  "incidentStatusString Open = ''open''"
| "incidentStatusString Acknowledged = ''acknowledged''"
| "incidentStatusString Resolved = ''resolved''"

definition identityFields :: "string \<Rightarrow> int \<Rightarrow> eventKind \<Rightarrow> int \<Rightarrow> referenceField list" where
  "identityFields incidentId generation kind sequence =
     [StringField incidentId, NumberField generation, StringField (eventKindString kind),
      NumberField sequence, StringField ''email'']"

definition deliveryKeyFor :: "digestFunction \<Rightarrow> string \<Rightarrow> int \<Rightarrow> eventKind \<Rightarrow> int \<Rightarrow> string" where
  "deliveryKeyFor digest incidentId generation kind sequence =
     ''pgid_ad_'' @ canonicalReference digest ''pgid.alert.delivery.v1''
       (identityFields incidentId generation kind sequence)"

definition idempotencyKeyFor :: "digestFunction \<Rightarrow> string \<Rightarrow> int \<Rightarrow> eventKind \<Rightarrow> int \<Rightarrow> string" where
  "idempotencyKeyFor digest incidentId generation kind sequence =
     canonicalReference digest ''pgid.alert.idempotency.v1'' (identityFields incidentId generation kind sequence)"

text \<open>The columns of the payload, in the order the code and the constraint of the table print them.\<close>

definition payloadText ::
  "string \<Rightarrow> int \<Rightarrow> string \<Rightarrow> string \<Rightarrow> eventKind \<Rightarrow> int \<Rightarrow> alertRuleId \<Rightarrow> alertEnvironment \<Rightarrow> alertSourceKind \<Rightarrow>
   activeSeverity \<Rightarrow> incidentStatus \<Rightarrow> string \<Rightarrow> string \<Rightarrow> metricColumns \<Rightarrow> int \<Rightarrow> dimensionColumns \<Rightarrow> string" where
  "payloadText incidentId generation deliveryKey idempotencyKey kind sequence rule env source severity st
     firstSeen lastSeen metrics limit dims =
     jsonObject
       [(''schemaVersion'', jsonInt 1), (''templateVersion'', jsonInt 1),
        (''incidentId'', jsonString incidentId), (''generation'', jsonInt generation),
        (''deliveryId'', jsonString deliveryKey), (''idempotencyKey'', jsonString idempotencyKey),
        (''eventKind'', jsonString (eventKindString kind)), (''eventSequence'', jsonInt sequence),
        (''channel'', jsonString ''email''), (''rule'', jsonString (ruleIdString rule)),
        (''environment'', jsonString (environmentString env)),
        (''sourceKind'', jsonString (sourceKindString source)),
        (''severity'', jsonString (severityString severity)),
        (''status'', jsonString (incidentStatusString st)),
        (''firstSeenAt'', jsonString firstSeen), (''lastSeenAt'', jsonString lastSeen),
        (''windowSeconds'', jsonInt (windowSeconds metrics)),
        (''metricName'', jsonString (metricNameString (metricName metrics))),
        (''metricKind'', jsonString (kindString (metricKind metrics))),
        (''metricUnit'', jsonString (unitString (metricUnit metrics))),
        (''observedValue'', jsonInt (observedValue metrics)),
        (''observedNumerator'', jsonNullable jsonInt (observedNumerator metrics)),
        (''observedDenominator'', jsonNullable jsonInt (observedDenominator metrics)),
        (''minimumSampleCount'', jsonInt (minimumSampleCount metrics)),
        (''minimumNumeratorCount'', jsonNullable jsonInt (minimumNumeratorCount metrics)),
        (''threshold'', jsonInt limit),
        (''secondaryMetricName'', jsonNullable (\<lambda>n. jsonString (metricNameString n)) (secondaryMetricName metrics)),
        (''secondaryMetricKind'', jsonNullable (\<lambda>k. jsonString (kindString k)) (secondaryMetricKind metrics)),
        (''secondaryMetricUnit'', jsonNullable (\<lambda>u. jsonString (unitString u)) (secondaryMetricUnit metrics)),
        (''secondaryObservedValue'', jsonNullable jsonInt (secondaryObservedValue metrics)),
        (''secondaryThreshold'', jsonNullable jsonInt (secondaryThreshold metrics)),
        (''subjectRef'', jsonNullable jsonString (subjectRef dims)),
        (''hashVersion'', jsonNullable jsonInt (hashVersion dims)), (''provider'', ''null''),
        (''queue'', jsonNullable jsonString (queueName dims)), (''reason'', ''null''), (''surface'', ''null'')]"

definition canonicalPayload :: "plannedEvent \<Rightarrow> string \<Rightarrow> string \<Rightarrow> dimensionColumns \<Rightarrow> string" where
  "canonicalPayload event deliveryKey idempotencyKey dims =
     (let incident = event_incident event in
      payloadText (inc_id incident) (inc_generation incident) deliveryKey idempotencyKey (event_kind event)
        (event_sequence event) (inc_ruleId incident) (inc_environment incident) (inc_sourceKind incident)
        (event_severity event) (event_incidentStatus event) (inc_firstSeenAt incident) (inc_lastSeenAt incident)
        (inc_metrics incident) (inc_threshold incident) dims)"

definition deliverySnapshot :: "digestFunction \<Rightarrow> plannedEvent \<Rightarrow> dimensionColumns \<Rightarrow> string \<Rightarrow> deliveryRecord" where
  "deliverySnapshot digest event dims at =
     (let incident = event_incident event;
          deliveryKey = deliveryKeyFor digest (inc_id incident) (inc_generation incident) (event_kind event)
            (event_sequence event);
          idempotencyKey = idempotencyKeyFor digest (inc_id incident) (inc_generation incident) (event_kind event)
            (event_sequence event);
          payload = canonicalPayload event deliveryKey idempotencyKey dims
      in \<lparr>del_createdAt = at, del_deliveryKey = deliveryKey, del_eventKind = event_kind event,
          del_eventSequence = event_sequence event, del_idempotencyKey = idempotencyKey,
          del_payloadJson = payload, del_payloadSha256 = sha256Hex digest payload\<rparr>)"

subsection \<open>The row\<close>

definition outboxRowFor :: "plannedEvent \<Rightarrow> deliveryRecord \<Rightarrow> dimensionColumns \<Rightarrow> outboxRow" where
  "outboxRowFor event delivery dims =
     (let incident = event_incident event in
      \<lparr>out_deliveryKey = del_deliveryKey delivery, out_alertId = inc_id incident,
       out_generation = inc_generation incident, out_eventKind = event_kind event,
       out_eventSequence = event_sequence event, out_idempotencyKey = del_idempotencyKey delivery,
       out_payloadJson = del_payloadJson delivery, out_payloadSha256 = del_payloadSha256 delivery,
       out_ruleId = inc_ruleId incident, out_environment = inc_environment incident,
       out_sourceKind = inc_sourceKind incident, out_severity = event_severity event,
       out_incidentStatus = event_incidentStatus event, out_dimensions = dims,
       out_firstSeenAt = inc_firstSeenAt incident, out_lastSeenAt = inc_lastSeenAt incident,
       out_metrics = inc_metrics incident, out_threshold = inc_threshold incident,
       out_status = OutPending, out_attempts = 0, out_nextAttemptAt = Some (del_createdAt delivery),
       out_createdAt = del_createdAt delivery, out_updatedAt = del_createdAt delivery\<rparr>)"

definition remindersOf :: "alertDb \<Rightarrow> string \<Rightarrow> int \<Rightarrow> outboxRow list" where
  "remindersOf db alertId generation =
     filter (\<lambda>q. out_alertId q = alertId \<and> out_generation q = generation \<and> out_eventKind q = Reminder)
       (db_outbox db)"

definition nextSequence :: "alertDb \<Rightarrow> string \<Rightarrow> int \<Rightarrow> int" where
  "nextSequence db alertId generation =
     (case map out_eventSequence (remindersOf db alertId generation) of
        [] \<Rightarrow> 1 | n # ns \<Rightarrow> fold max ns n + 1)"

definition nextReminderSequence :: "alertDb \<Rightarrow> incidentRow \<Rightarrow> int result" where
  "nextReminderSequence db incident =
     (let value = nextSequence db (inc_id incident) (inc_generation incident) in
      if value < 1 \<or> value > MAX_EVENT_SEQUENCE then invalidInput else Inr value)"

text \<open>\<open>alert_outbox_incident_snapshot_guard\<close>: the row tells of the incident and the state as they are.\<close>

definition snapshotCurrent :: "alertDb \<Rightarrow> outboxRow \<Rightarrow> bool" where
  "snapshotCurrent db new \<longleftrightarrow>
     list_ex (\<lambda>a. inc_id a = out_alertId new \<and> inc_generation a = out_generation new \<and>
       inc_ruleId a = out_ruleId new \<and> inc_environment a = out_environment new \<and>
       inc_sourceKind a = out_sourceKind new \<and> inc_severity a = out_severity new \<and>
       inc_status a = out_incidentStatus new \<and> inc_firstSeenAt a = out_firstSeenAt new \<and>
       inc_lastSeenAt a = out_lastSeenAt new \<and> inc_metrics a = out_metrics new \<and>
       inc_threshold a = out_threshold new \<and>
       list_ex (\<lambda>row. key_id (row_key row) = inc_stateId a \<and> row_generation row = out_generation new \<and>
         (if out_eventKind new = ResolvedEvent then row_currentSeverity row = None
          else row_currentSeverity row = Some (out_severity new)) \<and>
         key_dimensions (row_key row) = out_dimensions new) (db_states db)) (db_incidents db)"

definition outboxGuardAborts :: "alertDb \<Rightarrow> outboxRow \<Rightarrow> bool" where
  "outboxGuardAborts db new \<longleftrightarrow>
     out_status new \<noteq> OutPending \<or> out_attempts new \<noteq> 0 \<or>
     (case out_nextAttemptAt new of None \<Rightarrow> True | Some t \<Rightarrow> getTime t < getTime (out_createdAt new)) \<or>
     \<not> snapshotCurrent db new"

definition reminderGuardAborts :: "alertDb \<Rightarrow> outboxRow \<Rightarrow> bool" where
  "reminderGuardAborts db new \<longleftrightarrow>
     out_eventKind new = Reminder \<and>
     out_eventSequence new \<noteq> nextSequence db (out_alertId new) (out_generation new)"

definition isHexText :: "string \<Rightarrow> bool" where
  "isHexText s \<longleftrightarrow> length s = 64 \<and> list_all (\<lambda>c. c \<in> set ''0123456789abcdef'') s"

definition outboxChecksFail :: "outboxRow \<Rightarrow> bool" where
  "outboxChecksFail q \<longleftrightarrow>
     take 8 (out_deliveryKey q) \<noteq> ''pgid_ad_'' \<or> \<not> isCanonicalBase64Url32 (drop 8 (out_deliveryKey q)) \<or>
     \<not> isCanonicalBase64Url32 (out_idempotencyKey q) \<or>
     out_generation q < 1 \<or> out_generation q > 1000000 \<or>
     out_eventSequence q < 1 \<or> out_eventSequence q > 1000000000 \<or>
     length (out_payloadJson q) < 2 \<or> length (out_payloadJson q) > 4096 \<or>
     \<not> isHexText (out_payloadSha256 q) \<or>
     out_payloadJson q \<noteq> payloadText (out_alertId q) (out_generation q) (out_deliveryKey q) (out_idempotencyKey q)
       (out_eventKind q) (out_eventSequence q) (out_ruleId q) (out_environment q) (out_sourceKind q)
       (out_severity q) (out_incidentStatus q) (out_firstSeenAt q) (out_lastSeenAt q) (out_metrics q)
       (out_threshold q) (out_dimensions q) \<or>
     (case out_eventKind q of
        Opened \<Rightarrow> out_incidentStatus q \<noteq> Open
      | ResolvedEvent \<Rightarrow> out_incidentStatus q \<noteq> Resolved
      | _ \<Rightarrow> out_incidentStatus q = Resolved) \<or>
     (out_eventKind q = Escalated \<and> out_severity q \<noteq> Critical) \<or>
     (out_eventKind q \<noteq> Reminder \<and> out_eventSequence q \<noteq> 1) \<or>
     observedValue (out_metrics q) < out_threshold q \<or>
     getTime (out_lastSeenAt q) < getTime (out_firstSeenAt q) \<or>
     getTime (out_updatedAt q) < getTime (out_createdAt q)"

definition outboxTaken :: "alertDb \<Rightarrow> outboxRow \<Rightarrow> bool" where
  "outboxTaken db new \<longleftrightarrow>
     list_ex (\<lambda>q. out_deliveryKey q = out_deliveryKey new \<or> out_idempotencyKey q = out_idempotencyKey new \<or>
       out_alertId q = out_alertId new \<and> out_generation q = out_generation new \<and>
       out_eventKind q = out_eventKind new \<and> out_eventSequence q = out_eventSequence new) (db_outbox db)"

subsection \<open>Reading a delivery back\<close>

definition selectOutbox ::
  "alertEnvironment \<Rightarrow> alertLifecycleIdentity \<Rightarrow> eventKind \<Rightarrow> int \<Rightarrow> string \<Rightarrow> alertDb \<Rightarrow> outboxRow list" where
  "selectOutbox env i kind generation at db =
     concat (map (\<lambda>q. concat (map (\<lambda>a. concat (map (\<lambda>row.
         if key_id (row_key row) = inc_stateId a \<and> selects env i row \<and> out_generation q = generation \<and>
           out_eventKind q = kind \<and> (if kind = Reminder then out_createdAt q = at else out_eventSequence q = 1)
         then [q] else []) (db_states db))) (filter (\<lambda>a. inc_id a = out_alertId q) (db_incidents db))))
       (db_outbox db))"

definition parseDeliveryProjection :: "outboxRow \<Rightarrow> deliveryRecord result" where
  "parseDeliveryProjection q =
     (if \<not> (length (out_createdAt q) = 24 \<and> canonical (out_createdAt q)) \<or> out_eventSequence q < 1 \<or>
         out_eventSequence q > MAX_EVENT_SEQUENCE then invalidInput
      else Inr \<lparr>del_createdAt = out_createdAt q, del_deliveryKey = out_deliveryKey q,
        del_eventKind = out_eventKind q, del_eventSequence = out_eventSequence q,
        del_idempotencyKey = out_idempotencyKey q, del_payloadJson = out_payloadJson q,
        del_payloadSha256 = out_payloadSha256 q\<rparr>)"

definition canonicalDeliveryMatches ::
  "digestFunction \<Rightarrow> deliveryRecord \<Rightarrow> plannedEvent \<Rightarrow> dimensionColumns \<Rightarrow> string \<Rightarrow> bool" where
  "canonicalDeliveryMatches digest row event dims at \<longleftrightarrow>
     (let wanted = deliverySnapshot digest (event\<lparr>event_sequence := del_eventSequence row\<rparr>) dims at in
      del_createdAt row = del_createdAt wanted \<and> del_deliveryKey row = del_deliveryKey wanted \<and>
      del_eventKind row = del_eventKind wanted \<and> del_idempotencyKey row = del_idempotencyKey wanted \<and>
      del_payloadJson row = del_payloadJson wanted \<and> del_payloadSha256 row = del_payloadSha256 wanted)"

end
