(* ===== verification/Alert_State_Store.thy ===== *)
theory Alert_State_Store
  imports Alert_State_Outbox
begin

section \<open>Persisting a decision\<close>

text \<open>
  \<open>persistAlertLifecycleDecision\<close> of \<^verbatim>\<open>apps/sso/worker/alert-state-repository.ts\<close> for a call without a
  run proof, after its inputs are normalized: the plan of one batch, the batch, and the comparison
  of what is stored afterwards with what was meant. The two identifiers it draws at random are
  parameters.
\<close>

subsection \<open>Statements\<close>

text \<open>
  A statement gets the tables and the number of rows the statement before it changed (\<open>changes()\<close>),
  and returns the tables and the number it changed itself; \<open>None\<close> is an abort by a trigger or a
  constraint, which rolls the batch back.
\<close>

type_synonym statement = "alertDb \<Rightarrow> int \<Rightarrow> (alertDb \<times> int) option"

fun runBatch :: "statement list \<Rightarrow> alertDb \<Rightarrow> int \<Rightarrow> (alertDb \<times> int list) option" where
  "runBatch [] db previous = Some (db, [])"
| "runBatch (st # sts) db previous =
     (case st db previous of
        None \<Rightarrow> None
      | Some (db', n) \<Rightarrow>
          (case runBatch sts db' n of
             None \<Rightarrow> None
           | Some (db'', ns) \<Rightarrow> Some (db'', n # ns)))"

definition countRows :: "('a \<Rightarrow> bool) \<Rightarrow> 'a list \<Rightarrow> int" where
  "countRows P rows = int (length (filter P rows))"

definition updateStates ::
  "(alertStateRow \<Rightarrow> bool) \<Rightarrow> (alertStateRow \<Rightarrow> alertStateRow) \<Rightarrow> statement" where
  "updateStates matching change db previous =
     (if list_ex (\<lambda>row. matching row \<and> \<not> updateAccepted False row (change row)) (db_states db) then None
      else Some (db\<lparr>db_states := map (\<lambda>row. if matching row then change row else row) (db_states db)\<rparr>,
                 countRows matching (db_states db)))"

definition stateInsert ::
  "alertEnvironment \<Rightarrow> alertLifecycleIdentity \<Rightarrow> stateKey \<Rightarrow> evidenceColumns \<Rightarrow> string \<Rightarrow> statement" where
  "stateInsert env i key evidence at db previous =
     (let row = prepareStateInsert key evidence at in
      if selectStates env i db \<noteq> [] then Some (db, 0)
      else if \<not> insertAccepted row \<or>
         list_ex (\<lambda>other. key_id (row_key other) = key_id key \<or>
           key_dedupeKey (row_key other) = key_dedupeKey key) (db_states db)
      then None
      else Some (db\<lparr>db_states := db_states db @ [row]\<rparr>, 1))"

definition immediateConfirmation :: "stateKey \<Rightarrow> string \<Rightarrow> statement" where
  "immediateConfirmation key at db previous =
     updateStates
       (\<lambda>row. previous = 1 \<and> key_id (row_key row) = key_id key \<and> row_ruleId row = key_ruleId key \<and>
          key_environment (row_key row) = key_environment key \<and>
          key_sourceKind (row_key row) = key_sourceKind key \<and>
          prepareImmediateConfirmation row at \<noteq> None)
       (\<lambda>row. the (prepareImmediateConfirmation row at)) db previous"

text \<open>\<open>expectedIncidentPredicate\<close>, with the timestamp of the incident that was read.\<close>

definition expectedIncidentHolds ::
  "alertStateExpectation \<Rightarrow> incidentRow option \<Rightarrow> alertDb \<Rightarrow> alertStateRow \<Rightarrow> bool" where
  "expectedIncidentHolds expected incident db row \<longleftrightarrow>
     (case exp_incident expected of
        None \<Rightarrow> list_all (\<lambda>a. inc_status a = Resolved) (incidentsOf db row)
      | Some (expectedId, expectedStatus) \<Rightarrow>
          list_ex (\<lambda>a. inc_id a = expectedId \<and> inc_generation a = exp_generation expected \<and>
            inc_status a = expectedStatus \<and>
            (case incident of None \<Rightarrow> False | Some read \<Rightarrow> inc_updatedAt a = inc_updatedAt read))
            (incidentsOf db row))"

definition stateUpdate ::
  "stateKey \<Rightarrow> alertStateExpectation \<Rightarrow> incidentRow option \<Rightarrow> alertRuleEvaluation \<Rightarrow>
   alertLifecycleResult \<Rightarrow> evidenceColumns option \<Rightarrow> statement" where
  "stateUpdate key expected incident evaluation decision evidence db previous =
     (let at = eval_asOf evaluation in
      updateStates
        (\<lambda>row. row_key row = key \<and> row_revision row = exp_revision expected \<and>
           row_generation row = exp_generation expected \<and>
           row_lastEvaluatedAt row = exp_lastEvaluatedAt expected \<and>
           getTime (row_lastEvaluatedAt row) < getTime at \<and> row_revision row < MAX_STATE_REVISION \<and>
           expectedIncidentHolds expected incident db row \<and>
           (eval_evidence evaluation = Unknown \<longrightarrow>
              row_currentSeverity row = status (snd decision) \<and>
              row_generation row = exp_generation expected))
        (\<lambda>row. prepareStateUpdate row evaluation (fst decision) (snd decision) evidence at) db previous)"

text \<open>The guards of \<open>security_alert\<close>: an unresolved incident shows the evidence of its confirmed state.\<close>

definition incidentConfirmed :: "alertDb \<Rightarrow> incidentRow \<Rightarrow> bool" where
  "incidentConfirmed db a \<longleftrightarrow>
     list_ex (\<lambda>row. key_id (row_key row) = inc_stateId a \<and> row_ruleId row = inc_ruleId a \<and>
       key_environment (row_key row) = inc_environment a \<and> key_sourceKind (row_key row) = inc_sourceKind a \<and>
       row_generation row = inc_generation a \<and> row_currentSeverity row = Some (inc_severity a) \<and>
       row_breachSeverity row = None \<and> metricColumns.truncate (row_columns row) = inc_metrics a \<and>
       (if inc_severity a = Warning then state_warningThreshold (row_columns row) = Some (inc_threshold a)
        else state_criticalThreshold (row_columns row) = Some (inc_threshold a))) (db_states db)"

definition incidentInsert :: "incidentRow \<Rightarrow> statement" where
  "incidentInsert a db previous =
     (if previous \<noteq> 1 then Some (db, 0)
      else if \<not> incidentConfirmed db a \<or>
         list_ex (\<lambda>b. inc_id b = inc_id a \<or>
           inc_stateId b = inc_stateId a \<and> (inc_generation b = inc_generation a \<or> inc_status b \<noteq> Resolved))
           (db_incidents db)
      then None
      else Some (db\<lparr>db_incidents := db_incidents db @ [a]\<rparr>, 1))"

definition incidentTransitionAborts :: "incidentRow \<Rightarrow> incidentRow \<Rightarrow> bool" where
  "incidentTransitionAborts old new \<longleftrightarrow>
     inc_id new \<noteq> inc_id old \<or> inc_stateId new \<noteq> inc_stateId old \<or> inc_ruleId new \<noteq> inc_ruleId old \<or>
     inc_environment new \<noteq> inc_environment old \<or> inc_sourceKind new \<noteq> inc_sourceKind old \<or>
     inc_generation new \<noteq> inc_generation old \<or> inc_firstSeenAt new \<noteq> inc_firstSeenAt old \<or>
     inc_createdAt new \<noteq> inc_createdAt old \<or>
     getTime (inc_updatedAt new) < getTime (inc_updatedAt old) \<or>
     getTime (inc_lastSeenAt new) < getTime (inc_lastSeenAt old) \<or>
     \<not> (inc_severity new = inc_severity old \<or> inc_severity old = Warning \<and> inc_severity new = Critical) \<or>
     \<not> (inc_status new = inc_status old \<or> inc_status old = Open \<or>
        inc_status old = Acknowledged \<and> inc_status new = Resolved) \<or>
     (inc_status new = Resolved \<and>
       (inc_severity new \<noteq> inc_severity old \<or> inc_lastSeenAt new \<noteq> inc_lastSeenAt old \<or>
        inc_metrics new \<noteq> inc_metrics old \<or> inc_threshold new \<noteq> inc_threshold old))"

definition incidentChecksFail :: "incidentRow \<Rightarrow> bool" where
  "incidentChecksFail a \<longleftrightarrow>
     getTime (inc_lastSeenAt a) < getTime (inc_firstSeenAt a) \<or>
     getTime (inc_createdAt a) > getTime (inc_firstSeenAt a) \<or>
     getTime (inc_updatedAt a) < getTime (inc_createdAt a) \<or>
     getTime (inc_updatedAt a) < getTime (inc_lastSeenAt a) \<or>
     observedValue (inc_metrics a) < inc_threshold a \<or>
     (case inc_acknowledgedAt a of None \<Rightarrow> inc_status a = Acknowledged
      | Some t \<Rightarrow> getTime t < getTime (inc_createdAt a) \<or> getTime t > getTime (inc_updatedAt a) \<or>
          inc_status a = Open) \<or>
     (inc_ruleId a = Security_fanout_gap \<and> inc_status a = Resolved)"

definition incidentUpdate :: "incidentRow \<Rightarrow> incidentRow \<Rightarrow> statement" where
  "incidentUpdate old new db previous =
     (let matching = (\<lambda>a. previous = 1 \<and> inc_id a = inc_id old \<and> inc_stateId a = inc_stateId old \<and>
            inc_generation a = inc_generation old \<and> inc_status a = inc_status old \<and>
            inc_severity a = inc_severity old \<and> inc_updatedAt a = inc_updatedAt old);
          change = (\<lambda>a. a\<lparr>inc_severity := inc_severity new, inc_status := inc_status new,
            inc_lastSeenAt := inc_lastSeenAt new, inc_metrics := inc_metrics new,
            inc_threshold := inc_threshold new, inc_updatedAt := inc_updatedAt new\<rparr>)
      in if list_ex (\<lambda>a. matching a \<and>
            (incidentTransitionAborts a (change a) \<or> incidentChecksFail (change a) \<or>
             inc_status new \<noteq> Resolved \<and> \<not> incidentConfirmed db (change a))) (db_incidents db)
         then None
         else Some (db\<lparr>db_incidents := map (\<lambda>a. if matching a then change a else a) (db_incidents db)\<rparr>,
                    countRows matching (db_incidents db)))"

definition outboxInsert :: "digestFunction \<Rightarrow> plannedEvent \<Rightarrow> dimensionColumns \<Rightarrow> string \<Rightarrow> statement" where
  "outboxInsert digest event dims at db previous =
     (let new = outboxRowFor event (deliverySnapshot digest event dims at) dims in
      if previous \<noteq> 1 then Some (db, 0)
      else if outboxTaken db new \<or> outboxChecksFail new \<or> reminderGuardAborts db new \<or> outboxGuardAborts db new
      then None
      else Some (db\<lparr>db_outbox := db_outbox db @ [new]\<rparr>, 1))"

definition deliveryWrites :: "digestFunction \<Rightarrow> plannedEvent option \<Rightarrow> stateKey \<Rightarrow> string \<Rightarrow> statement list" where
  "deliveryWrites digest event key at =
     (case event of None \<Rightarrow> [] | Some ev \<Rightarrow> [outboxInsert digest ev (key_dimensions key) at])"

subsection \<open>The plan\<close>

definition readExpectedIncident ::
  "alertStateExpectation \<Rightarrow> stateKey \<Rightarrow> alertDb \<Rightarrow> incidentRow option result" where
  "readExpectedIncident expected key db =
     (case exp_incident expected of
        None \<Rightarrow> Inr None
      | Some (expectedId, _) \<Rightarrow>
          (case find (\<lambda>a. inc_id a = expectedId \<and> inc_stateId a = exp_stateId expected \<and>
                 inc_ruleId a = key_ruleId key \<and> inc_environment a = key_environment key \<and>
                 inc_generation a = exp_generation expected \<and> inc_sourceKind a = key_sourceKind key)
               (db_incidents db) of
             None \<Rightarrow> Inr None
           | Some a \<Rightarrow> and_then (parseIncidentProjection a) (\<lambda>parsed. Inr (Some parsed))))"

text \<open>The reasons to give up before anything is written.\<close>

definition incidentConflict ::
  "alertStateExpectation option \<Rightarrow> incidentRow option \<Rightarrow> alertRuleEvaluation \<Rightarrow> alertActionIntent option \<Rightarrow> bool" where
  "incidentConflict expected incident evaluation intent \<longleftrightarrow>
     (case expected of None \<Rightarrow> False
      | Some x \<Rightarrow>
          (case exp_incident x of None \<Rightarrow> False
           | Some (_, expectedStatus) \<Rightarrow>
               (case incident of
                  None \<Rightarrow> True
                | Some a \<Rightarrow> inc_status a \<noteq> expectedStatus \<and>
                    \<not> (isResolve intent \<and> inc_status a = Resolved \<and>
                       inc_updatedAt a = eval_asOf evaluation)))) \<or>
     (case incident of None \<Rightarrow> False
      | Some a \<Rightarrow> getTime (inc_updatedAt a) > getTime (eval_asOf evaluation))"

definition needsExpectedIncident :: "alertLifecycleResult \<Rightarrow> bool" where
  "needsExpectedIncident decision \<longleftrightarrow>
     (fst decision \<noteq> None \<and> \<not> isOpen (fst decision)) \<or>
     (phase (snd decision) = Active \<and> \<not> isOpen (fst decision))"

definition refreshesIncident :: "incidentRow option \<Rightarrow> alertRuleEvaluation \<Rightarrow> alertLifecycleState \<Rightarrow> bool" where
  "refreshesIncident incident evaluation s \<longleftrightarrow>
     incident \<noteq> None \<and> status s \<noteq> None \<and> eval_evidence evaluation = Known \<and>
     eval_severity evaluation = status s"

text \<open>The statements on the incident, the incident row they aim at, and the event to deliver.\<close>

definition resolvedIncident :: "incidentRow \<Rightarrow> string \<Rightarrow> incidentRow" where
  "resolvedIncident current at = current\<lparr>inc_status := Resolved, inc_updatedAt := at\<rparr>"

definition refreshWrites ::
  "alertRuleEvaluation \<Rightarrow> alertLifecycleState \<Rightarrow> evidenceColumns option \<Rightarrow> incidentRow option \<Rightarrow>
   (incidentRow option \<times> statement list) result" where
  "refreshWrites evaluation s evidence incident =
     (if refreshesIncident incident evaluation s
      then (case (incident, evidence, status s) of
              (Some a, Some e, Some severity) \<Rightarrow>
                let desired = incidentWithEvidence a e severity (eval_asOf evaluation)
                in Inr (Some desired, [incidentUpdate a desired])
            | _ \<Rightarrow> invalidInput)
      else Inr (incident, []))"

fun planIncident ::
  "stateKey \<Rightarrow> string \<Rightarrow> int \<Rightarrow> alertRuleEvaluation \<Rightarrow> alertLifecycleResult \<Rightarrow> evidenceColumns option \<Rightarrow>
   incidentRow option \<Rightarrow> alertDb \<Rightarrow> (incidentRow option \<times> statement list \<times> plannedEvent option) result" where
  "planIncident key incidentId generation evaluation (Some (OpenIntent b x severity), s) evidence incident db =
     (case evidence of
        None \<Rightarrow> invalidInput
      | Some e \<Rightarrow>
          let desired = incidentFromEvidence key e (eval_asOf evaluation) generation incidentId severity
          in Inr (Some desired, [incidentInsert desired],
            Some \<lparr>event_kind = Opened, event_sequence = 1, event_incident = desired,
              event_incidentStatus = Open, event_severity = severity\<rparr>))"
| "planIncident key incidentId generation evaluation (Some (EscalateIntent b x), s) evidence incident db =
     (case (incident, evidence) of
        (Some a, Some e) \<Rightarrow>
          let desired = incidentWithEvidence a e Critical (eval_asOf evaluation)
          in Inr (Some desired, [incidentUpdate a desired],
            Some \<lparr>event_kind = Escalated, event_sequence = 1, event_incident = desired,
              event_incidentStatus = inc_status desired, event_severity = Critical\<rparr>)
      | _ \<Rightarrow> invalidInput)"
| "planIncident key incidentId generation evaluation (Some (ResolveIntent b from_severity), s) evidence incident db =
     (case incident of
        None \<Rightarrow> invalidInput
      | Some a \<Rightarrow>
          let desired = resolvedIncident a (eval_asOf evaluation)
          in Inr (Some desired, [incidentUpdate a desired],
            Some \<lparr>event_kind = ResolvedEvent, event_sequence = 1, event_incident = desired,
              event_incidentStatus = Resolved, event_severity = from_severity\<rparr>))"
| "planIncident key incidentId generation evaluation (Some (RemindIntent b x severity), s) evidence incident db =
     and_then (refreshWrites evaluation s evidence incident) (\<lambda>(desired, writes).
       case desired of
         None \<Rightarrow> invalidInput
       | Some d \<Rightarrow> and_then (nextReminderSequence db d) (\<lambda>sequence.
           Inr (desired, writes,
             Some \<lparr>event_kind = Reminder, event_sequence = sequence, event_incident = d,
               event_incidentStatus = inc_status d, event_severity = severity\<rparr>)))"
| "planIncident key incidentId generation evaluation (None, s) evidence incident db =
     and_then (refreshWrites evaluation s evidence incident) (\<lambda>(desired, writes). Inr (desired, writes, None))"

subsection \<open>The comparison after the batch\<close>

definition stateMatches ::
  "alertStateRow \<Rightarrow> stateKey \<Rightarrow> bool \<Rightarrow> alertRuleEvaluation \<Rightarrow> alertLifecycleState \<Rightarrow> evidenceColumns option \<Rightarrow>
   int \<Rightarrow> int \<Rightarrow> bool" where
  "stateMatches row key fixedId evaluation s evidence generation revision \<longleftrightarrow>
     (\<not> fixedId \<or> key_id (row_key row) = key_id key) \<and>
     (row_key row)\<lparr>key_id := key_id key\<rparr> = key \<and>
     row_currentSeverity row = status s \<and> row_breachSeverity row = breachSeverity s \<and>
     row_consecutiveBreaches row = consecutiveBreaches s \<and>
     row_consecutiveClears row = consecutiveClears s \<and> row_cooldownUntil row = cooldownUntil s \<and>
     row_lastNotificationScheduledAt row = lastNotificationAt s \<and>
     row_generation row = generation \<and> row_revision row = revision \<and>
     row_lastEvaluatedAt row = eval_asOf evaluation \<and>
     (case evidence of None \<Rightarrow> True | Some e \<Rightarrow> row_columns row = stateColumnsOf e)"

definition incidentMatches :: "incidentRow \<Rightarrow> incidentRow \<Rightarrow> bool" where
  "incidentMatches l r \<longleftrightarrow>
     inc_id l = inc_id r \<and> inc_stateId l = inc_stateId r \<and> inc_ruleId l = inc_ruleId r \<and>
     inc_environment l = inc_environment r \<and> inc_generation l = inc_generation r \<and>
     inc_severity l = inc_severity r \<and> inc_status l = inc_status r \<and>
     inc_sourceKind l = inc_sourceKind r \<and> inc_firstSeenAt l = inc_firstSeenAt r \<and>
     inc_lastSeenAt l = inc_lastSeenAt r \<and> inc_metrics l = inc_metrics r \<and>
     inc_threshold l = inc_threshold r"

datatype persistenceResult = Applied | Duplicate | Conflict

definition repoWriteFailed :: "'a result" where
  "repoWriteFailed = repoFail ''write_failed''"

definition compareDelivery ::
  "digestFunction \<Rightarrow> alertEnvironment \<Rightarrow> alertLifecycleIdentity \<Rightarrow> int \<Rightarrow> string \<Rightarrow> plannedEvent option \<Rightarrow> bool \<Rightarrow>
   alertDb \<Rightarrow> persistenceResult result" where
  "compareDelivery digest env i generation at event allApplied db =
     (case event of
        None \<Rightarrow> Inr (if allApplied then Applied else Duplicate)
      | Some ev \<Rightarrow>
          (case selectOutbox env i (event_kind ev) generation at db of
             [delivery] \<Rightarrow>
               and_then (parseDeliveryProjection delivery) (\<lambda>row.
                 Inr (if \<not> canonicalDeliveryMatches digest row ev (dimensionColumnsOf (id_dimension i)) at then Conflict
                      else if allApplied then Applied else Duplicate))
           | _ \<Rightarrow> Inr Conflict))"

definition comparePersisted ::
  "digestFunction \<Rightarrow> alertEnvironment \<Rightarrow> alertLifecycleIdentity \<Rightarrow> stateKey \<Rightarrow> bool \<Rightarrow> alertRuleEvaluation \<Rightarrow>
   alertLifecycleResult \<Rightarrow> evidenceColumns option \<Rightarrow> int \<Rightarrow> int \<Rightarrow> incidentRow option \<Rightarrow> plannedEvent option \<Rightarrow>
   bool \<Rightarrow> alertDb \<Rightarrow> persistenceResult result" where
  "comparePersisted digest env i key fixedId evaluation decision evidence generation revision desired event
     allApplied db =
     (case selectStates env i db of
        [] \<Rightarrow> Inr Conflict
      | stored # _ \<Rightarrow>
          and_then (parseStateProjection stored) (\<lambda>row.
          if \<not> stateMatches row key fixedId evaluation (snd decision) evidence generation revision
          then Inr Conflict
          else case desired of
            None \<Rightarrow> compareDelivery digest env i generation (eval_asOf evaluation) event allApplied db
          | Some wanted \<Rightarrow>
              (case filter (\<lambda>a. inc_generation a = generation)
                      (concat (map (incidentsOf db) (selectStates env i db))) of
                 [] \<Rightarrow> Inr Conflict
               | found # _ \<Rightarrow>
                   and_then (parseIncidentProjection found) (\<lambda>persisted.
                     let comparable = (if \<not> allApplied \<and> isOpen (fst decision)
                           then wanted\<lparr>inc_id := inc_id persisted, inc_stateId := inc_stateId persisted\<rparr>
                           else wanted)
                     in if \<not> incidentMatches persisted comparable then Inr Conflict
                        else compareDelivery digest env i generation (eval_asOf evaluation)
                          (map_option (\<lambda>ev. ev\<lparr>event_incident := persisted\<rparr>) event) allApplied db))))"

subsection \<open>The operation\<close>

record persistencePlan =
  plan_statements :: "statement list"
  plan_key :: stateKey
  plan_evidence :: "evidenceColumns option"
  plan_generation :: int
  plan_revision :: int
  plan_incident :: "incidentRow option"
  plan_event :: "plannedEvent option"

text \<open>The plan of the writes; \<open>None\<close> is a conflict found before writing.\<close>

definition planDecision ::
  "digestFunction \<Rightarrow> string \<Rightarrow> string \<Rightarrow> alertEnvironment \<Rightarrow> alertRuleEvaluation \<Rightarrow> alertLifecycleResult \<Rightarrow>
   alertStateExpectation option \<Rightarrow> alertDb \<Rightarrow> persistencePlan option result" where
  "planDecision digest newStateId incidentId env evaluation decision expected db =
     (let i = identityFor evaluation;
          stateId = (case expected of None \<Rightarrow> newStateId | Some x \<Rightarrow> exp_stateId x);
          key = stateKeyFor digest env stateId i
      in if decisionRejected (map_option exp_lastEvaluatedAt expected) evaluation decision then invalidInput
         else and_then (case expected of None \<Rightarrow> Inr None | Some x \<Rightarrow> readExpectedIncident x key db) (\<lambda>incident.
           if incidentConflict expected incident evaluation (fst decision) then Inr None
           else if needsExpectedIncident decision \<and> incident = None then invalidInput
           else if isOpen (fst decision) \<and>
             (case expected of None \<Rightarrow> False | Some x \<Rightarrow> exp_incident x \<noteq> None) then invalidInput
           else and_then (persistedEvidence (snd decision) evaluation) (\<lambda>evidence.
             if expected = None \<and> initialRejected evaluation decision evidence then invalidInput
             else
               let immediate = (expected = None \<and> eval_immediateCritical evaluation);
                   generation = (case expected of None \<Rightarrow> 0 | Some x \<Rightarrow> exp_generation x) +
                     (if immediate \<or> isOpen (fst decision) then 1 else 0);
                   revision = (if immediate then 1
                     else case expected of None \<Rightarrow> 0 | Some x \<Rightarrow> exp_revision x + 1)
               in and_then (if immediate then toISOString (getTime (eval_asOf evaluation) - 1)
                     else Inr (eval_asOf evaluation)) (\<lambda>initialAt.
                  if length initialAt \<noteq> 24 \<or> \<not> inDomain MAX_STATE_GENERATION generation \<or>
                     \<not> inDomain MAX_STATE_REVISION revision then invalidInput
                  else and_then
                    (case expected of
                       None \<Rightarrow>
                         (case evidence of
                            None \<Rightarrow> invalidInput
                          | Some e \<Rightarrow> Inr (stateInsert env i key e initialAt #
                              (if immediate then [immediateConfirmation key (eval_asOf evaluation)] else [])))
                     | Some x \<Rightarrow> Inr [stateUpdate key x incident evaluation decision evidence])
                    (\<lambda>writes.
                  and_then (planIncident key incidentId generation evaluation decision evidence incident db)
                    (\<lambda>(desired, incidentWrites, event).
                     Inr (Some \<lparr>plan_statements =
                         writes @ incidentWrites @ deliveryWrites digest event key (eval_asOf evaluation),
                       plan_key = key, plan_evidence = evidence, plan_generation = generation,
                       plan_revision = revision, plan_incident = desired, plan_event = event\<rparr>)))))))"

definition persistDecision ::
  "digestFunction \<Rightarrow> string \<Rightarrow> string \<Rightarrow> alertEnvironment \<Rightarrow> alertRuleEvaluation \<Rightarrow> alertLifecycleResult \<Rightarrow>
   alertStateExpectation option \<Rightarrow> alertDb \<Rightarrow> alertDb \<times> persistenceResult result" where
  "persistDecision digest newStateId incidentId env evaluation decision expected db =
     (if identity (snd decision) = None
      then (db, if expected \<noteq> None \<or> fst decision \<noteq> None then invalidInput else Inr Applied)
      else case planDecision digest newStateId incidentId env evaluation decision expected db of
        Inl err \<Rightarrow> (db, Inl err)
      | Inr None \<Rightarrow> (db, Inr Conflict)
      | Inr (Some plan) \<Rightarrow>
          (case runBatch (plan_statements plan) db 0 of
             None \<Rightarrow> (db, repoWriteFailed)
           | Some (db', changes) \<Rightarrow>
               let allApplied = list_all (\<lambda>n. n = 1) changes;
                   allDuplicate = list_all (\<lambda>n. n = 0) changes
               in if \<not> allApplied \<and> \<not> allDuplicate then (db', repoWriteFailed)
                  else (db', comparePersisted digest env (identityFor evaluation) (plan_key plan) (expected \<noteq> None)
                    evaluation decision (plan_evidence plan) (plan_generation plan) (plan_revision plan)
                    (plan_incident plan) (plan_event plan) allApplied db')))"

end
