(* ===== verification/Alert_State_Refinement.thy ===== *)
theory Alert_State_Refinement
  imports Alert_State_Store Alert_State_Writes
begin

section \<open>The tables refine the lifecycle state\<close>

text \<open>
  \<open>holds\<close> relates the two tables to the lifecycle state of one alert. Reading related tables
  gives the state; persisting a decision of the lifecycle on related tables applies it and relates
  the tables to the next state, except when a pending critical breach is dropped from an open
  warning: then the write is aborted, or it leaves a row the reader refuses.
\<close>

subsection \<open>Lists\<close>

lemma filter_unique:
  assumes "filter Q xs = [a]" and "\<And>x. P x \<Longrightarrow> Q x" and "P a"
  shows "filter P xs = [a]"
proof -
  have "filter P xs = filter P (filter Q xs)"
    using assms(2) by (auto intro: filter_cong)
  then show ?thesis
    using assms(1,3) by simp
qed

lemma filter_none: "filter Q xs = [] \<Longrightarrow> (\<And>x. P x \<Longrightarrow> Q x) \<Longrightarrow> filter P xs = []"
  by (auto simp: filter_empty_conv)

lemma find_unique:
  assumes "filter Q xs = [a]" and "\<And>x. P x \<Longrightarrow> Q x" and "P a"
  shows "find P xs = Some a"
proof -
  have "filter P xs = [a]"
    using filter_unique[of Q xs a P] assms by blast
  then show ?thesis
    by (induction xs) (auto split: if_splits)
qed

lemma filter_replace:
  assumes "\<And>x. Q (f x) \<longleftrightarrow> Q x"
  shows "filter Q (map (\<lambda>x. if P x then f x else x) xs) = map (\<lambda>x. if P x then f x else x) (filter Q xs)"
  using assms by (induction xs) auto

lemma filter_mem: "filter Q xs = [a] \<Longrightarrow> a \<in> set xs \<and> Q a"
  by (auto dest!: arg_cong[where f = set] simp: set_eq_iff)

lemma filter_only: "filter Q xs = [a] \<Longrightarrow> x \<in> set xs \<Longrightarrow> Q x \<Longrightarrow> x = a"
  by (auto dest!: arg_cong[where f = set] simp: set_eq_iff)

subsection \<open>The relation\<close>

text \<open>An acknowledgement falls between the opening and the last change, and never on an open incident.\<close>

definition acknowledgementFits :: "incidentRow \<Rightarrow> bool" where
  "acknowledgementFits a \<longleftrightarrow>
     (case inc_acknowledgedAt a of None \<Rightarrow> inc_status a \<noteq> Acknowledged
      | Some t \<Rightarrow> getTime (inc_createdAt a) \<le> getTime t \<and> getTime t \<le> getTime (inc_updatedAt a) \<and>
          inc_status a \<noteq> Open)"

definition ownIncident :: "alertStateRow \<Rightarrow> incidentRow \<Rightarrow> bool" where
  "ownIncident row a \<longleftrightarrow>
     inc_stateId a = key_id (row_key row) \<and> inc_ruleId a = row_ruleId row \<and>
     inc_environment a = key_environment (row_key row) \<and> inc_sourceKind a = key_sourceKind (row_key row) \<and>
     inc_generation a = row_generation row \<and> uuidV4 (inc_id a) \<and> acknowledgementFits a \<and>
     optionally shortInstant (inc_acknowledgedAt a) \<and> optionally (\<lambda>n. n = 1) (inc_acknowledgedByHashVersion a) \<and>
     shortInstant (inc_createdAt a) \<and> shortInstant (inc_firstSeenAt a) \<and> shortInstant (inc_lastSeenAt a) \<and>
     shortInstant (inc_updatedAt a) \<and> getTime (inc_createdAt a) \<le> getTime (inc_firstSeenAt a) \<and>
     getTime (inc_firstSeenAt a) \<le> getTime (inc_lastSeenAt a) \<and>
     getTime (inc_lastSeenAt a) \<le> getTime (inc_updatedAt a) \<and>
     getTime (inc_updatedAt a) \<le> getTime (row_lastEvaluatedAt row)"

definition showsEvidence :: "incidentRow \<Rightarrow> alertSelectedEvidence \<Rightarrow> bool" where
  "showsEvidence a x \<longleftrightarrow>
     evidenceForRule (inc_ruleId a) x \<and> inc_metrics a = metricColumnsOf x \<and>
     inc_threshold a = ev_threshold x \<and> inc_severity a = sel_severity x"

definition currentIncidents :: "alertDb \<Rightarrow> alertStateRow \<Rightarrow> incidentRow list" where
  "currentIncidents db row = filter (\<lambda>a. inc_generation a = row_generation row) (incidentsOf db row)"

definition incidentsHold :: "alertDb \<Rightarrow> alertStateRow \<Rightarrow> alertLifecycleState \<Rightarrow> bool" where
  "incidentsHold db row s \<longleftrightarrow>
     (\<forall>a \<in> set (incidentsOf db row). inc_generation a \<le> row_generation row \<and>
        (inc_generation a < row_generation row \<longrightarrow> inc_status a = Resolved)) \<and>
     (case status s of
        None \<Rightarrow>
          (row_generation row = 0 \<and> currentIncidents db row = []) \<or>
          (row_generation row > 0 \<and> (\<exists>a x. currentIncidents db row = [a] \<and> ownIncident row a \<and>
             showsEvidence a x \<and> inc_status a = Resolved))
      | Some severity \<Rightarrow>
          (\<exists>a x. currentIncidents db row = [a] \<and> ownIncident row a \<and> showsEvidence a x \<and>
             inc_status a \<noteq> Resolved \<and> inc_severity a = severity \<and> activeEvidence s = Some x \<and>
             openedAt s = Some (inc_firstSeenAt a)))"

text \<open>The keys of the tables, and the deliveries already queued for the incidents of a row.\<close>

definition keysSound :: "alertDb \<Rightarrow> bool" where
  "keysSound db \<longleftrightarrow>
     distinct (map inc_id (db_incidents db)) \<and>
     set (map out_alertId (db_outbox db)) \<subseteq> set (map inc_id (db_incidents db))"

definition deliveriesFit :: "alertStateRow \<Rightarrow> outboxRow list \<Rightarrow> incidentRow \<Rightarrow> bool" where
  "deliveriesFit row rows a \<longleftrightarrow>
     (\<forall>q \<in> set rows. out_alertId q = inc_id a \<longrightarrow>
        out_generation q = inc_generation a \<and> 1 \<le> out_eventSequence q \<and>
        (out_eventKind q = ResolvedEvent \<longrightarrow> inc_status a = Resolved) \<and>
        (out_eventKind q = Escalated \<longrightarrow> inc_severity a = Critical) \<and>
        getTime (out_createdAt q) \<le> getTime (row_lastEvaluatedAt row))"

definition outboxHolds :: "alertDb \<Rightarrow> alertStateRow \<Rightarrow> bool" where
  "outboxHolds db row \<longleftrightarrow>
     keysSound db \<and> (\<forall>a \<in> set (incidentsOf db row). deliveriesFit row (db_outbox db) a)"

text \<open>Everything but that the evidence columns are those of the state.\<close>

definition rowShape ::
  "digestFunction \<Rightarrow> alertEnvironment \<Rightarrow> alertLifecycleIdentity \<Rightarrow> alertDb \<Rightarrow> alertStateRow \<Rightarrow>
   alertLifecycleState \<Rightarrow> bool" where
  "rowShape digest env i db row s \<longleftrightarrow>
     filter (\<lambda>r. key_id (row_key r) = key_id (row_key row)) (db_states db) = [row] \<and>
     row_key row = stateKeyFor digest env (key_id (row_key row)) i \<and> uuidV4 (key_id (row_key row)) \<and>
     inDomain MAX_STATE_GENERATION (row_generation row) \<and> inDomain MAX_STATE_REVISION (row_revision row) \<and>
     rowStores row s \<and> (\<exists>x. columnsHold row x) \<and> incidentsHold db row s \<and> outboxHolds db row \<and>
     shortInstants s \<and> validIdentity i \<and> evaluatedState (row_lastEvaluatedAt row) i s \<and> canonical (row_lastEvaluatedAt row)"

definition rowHolds ::
  "digestFunction \<Rightarrow> alertEnvironment \<Rightarrow> alertLifecycleIdentity \<Rightarrow> alertDb \<Rightarrow> alertStateRow \<Rightarrow>
   alertLifecycleState \<Rightarrow> bool" where
  "rowHolds digest env i db row s \<longleftrightarrow> rowShape digest env i db row s \<and> columnsStore row s"

definition holds ::
  "digestFunction \<Rightarrow> alertEnvironment \<Rightarrow> alertLifecycleIdentity \<Rightarrow> alertDb \<Rightarrow> alertLifecycleState \<Rightarrow> bool" where
  "holds digest env i db s \<longleftrightarrow>
     (selectStates env i db = [] \<and> s = inactiveAlertState \<and> keysSound db) \<or>
     (\<exists>row. selectStates env i db = [row] \<and> rowHolds digest env i db row s)"

definition expectedOf :: "alertDb \<Rightarrow> alertStateRow \<Rightarrow> alertLifecycleState \<Rightarrow> alertStateExpectation" where
  "expectedOf db row s =
     \<lparr>exp_generation = row_generation row,
      exp_incident = (if status s = None then None
        else map_option (\<lambda>a. (inc_id a, inc_status a)) (find (\<lambda>_. True) (currentIncidents db row))),
      exp_lastEvaluatedAt = row_lastEvaluatedAt row, exp_revision = row_revision row,
      exp_stateId = key_id (row_key row)\<rparr>"

subsection \<open>Reading\<close>

lemma columnsHold_projected:
  assumes "columnsHold row x"
  shows "projectedEvidence (row_columns row) (sel_severity x) (row_ruleId row) = Inr x"
  using assms projectedEvidence_columns by (simp add: columnsHold_def)

lemma columnsHold_bounds:
  assumes "columnsHold row x"
  shows "optionally (\<lambda>n. 1 \<le> n \<and> n \<le> 1000000000) (state_criticalThreshold (row_columns row))"
    and "optionally (\<lambda>n. 1 \<le> n \<and> n \<le> 1000000000) (state_warningThreshold (row_columns row))"
    and "300 \<le> windowSeconds (row_columns row) \<and> windowSeconds (row_columns row) \<le> 3600"
proof -
  have v: "validSelectedEvidence x"
    using assms evidenceForRule_valid by (auto simp: columnsHold_def)
  then have "1 \<le> ev_threshold x" "ev_threshold x \<le> 1000000000"
    by (auto simp: validSelectedEvidence_def validMetricEvidence_def inDomain_def MAX_EVIDENCE_VALUE_def)
  then show "optionally (\<lambda>n. 1 \<le> n \<and> n \<le> 1000000000) (state_criticalThreshold (row_columns row))"
    and "optionally (\<lambda>n. 1 \<le> n \<and> n \<le> 1000000000) (state_warningThreshold (row_columns row))"
    using assms by (simp_all add: columnsHold_def optionally_def)
  have "windowSeconds (row_columns row) = sel_windowSeconds x"
    using assms by (simp add: columnsHold_def stateColumnsOf_def evidenceColumnsOf_def metricColumnsOf_def
        metricColumns.defs Let_def)
  then show "300 \<le> windowSeconds (row_columns row) \<and> windowSeconds (row_columns row) \<le> 3600"
    using v by (auto simp: validSelectedEvidence_def)
qed

lemma showsEvidence_parse:
  assumes "showsEvidence a x"
  shows "incidentEvidence a = Inr x"
proof -
  have "metricColumns.truncate (inc_metrics a) = inc_metrics a"
    by (simp add: metricColumns.defs)
  then show ?thesis
    using assms parseColumns_metric[of "inc_ruleId a" x "inc_metrics a"]
    by (simp add: showsEvidence_def incidentEvidence_def)
qed

lemma ownIncident_parse:
  assumes "ownIncident row a" and "showsEvidence a x" and "uuidV4 (key_id (row_key row))"
    and "0 < row_generation row" and "row_generation row \<le> MAX_STATE_GENERATION"
  shows "parseIncidentProjection a = Inr a"
  using assms showsEvidence_parse[OF assms(2)] by (simp add: parseIncidentProjection_def ownIncident_def)

lemma rowShape_key:
  assumes "rowShape digest env i db row s"
  shows "row_ruleId row = id_ruleId i" and "key_environment (row_key row) = env"
    and "key_sourceKind (row_key row) = sourceKindFor (id_ruleId i)"
    and "key_dimensions (row_key row) = dimensionColumnsOf (id_dimension i)"
    and "key_dedupeKey (row_key row) = dedupeKeyFor digest (id_ruleId i) env (kindOf (id_dimension i))
      (dimensionColumnsOf (id_dimension i))"
proof -
  have "row_key row = stateKeyFor digest env (key_id (row_key row)) i"
    using assms by (simp add: rowShape_def)
  then show "row_ruleId row = id_ruleId i" "key_environment (row_key row) = env"
    "key_sourceKind (row_key row) = sourceKindFor (id_ruleId i)"
    "key_dimensions (row_key row) = dimensionColumnsOf (id_dimension i)"
    "key_dedupeKey (row_key row) = dedupeKeyFor digest (id_ruleId i) env (kindOf (id_dimension i))
      (dimensionColumnsOf (id_dimension i))"
    by (metis (no_types, lifting) stateKeyFor_def stateKey.simps Let_def)+
qed

lemma rowShape_parse:
  assumes h: "rowShape digest env i db row s"
  shows "parseStateProjection row = Inr row"
    and "projectedDimension (row_ruleId row) (key_dimensions (row_key row)) = Inr (id_dimension i)"
proof -
  have dim: "validDimension (ruleDimensions (ALERT_RULE_DEFINITIONS (id_ruleId i))) (id_dimension i)"
    using h by (simp add: rowShape_def validIdentity_def)
  show "projectedDimension (row_ruleId row) (key_dimensions (row_key row)) = Inr (id_dimension i)"
    using projectedDimension_columns[OF dim] rowShape_key[OF h] by simp
  obtain x where x: "columnsHold row x"
    using h by (auto simp: rowShape_def)
  have version: "optionally (\<lambda>n. n = 1) (hashVersion (dimensionColumnsOf (id_dimension i)))"
    using dim by (cases "id_dimension i") (auto simp: optionally_def validReference_def)
  have ev: "evaluatedState (row_lastEvaluatedAt row) i s" "lifecycleColumnsMatch row s" "shortInstants s"
      "canonical (row_lastEvaluatedAt row)"
    using h by (simp_all add: rowShape_def rowStores_def)
  have counters: "inDomain 1 (row_consecutiveBreaches row)" "inDomain 4 (row_consecutiveClears row)"
    using ev by (cases "phase s"; auto simp: evaluated_defs lifecycleColumnsMatch_def inDomain_def)+
  have "optionally shortInstant (row_cooldownUntil row)"
    "optionally shortInstant (row_lastNotificationScheduledAt row)" "shortInstant (row_lastEvaluatedAt row)"
    using ev
    by (cases "phase s"; auto simp: evaluated_defs lifecycleColumnsMatch_def shortInstants_def
        optionally_def shortInstant_def split: option.splits)+
  then show "parseStateProjection row = Inr row"
    using counters columnsHold_bounds[OF x] version rowShape_key(4)[OF h] h
    by (simp add: parseStateProjection_def rowShape_def)
qed

lemma rowShape_match:
  assumes "rowShape digest env i db row s"
  shows "row_currentSeverity row = status s" and "row_breachSeverity row = breachSeverity s"
    and "row_consecutiveBreaches row = consecutiveBreaches s" and "row_consecutiveClears row = consecutiveClears s"
    and "row_cooldownUntil row = cooldownUntil s" and "lastEvaluatedAt s = Some (row_lastEvaluatedAt row)"
    and "row_lastNotificationScheduledAt row = lastNotificationAt s" and "identity s = Some i"
  using assms by (auto simp: rowShape_def rowStores_def lifecycleColumnsMatch_def evaluatedState_def)

lemma rowHolds_shape: "rowHolds digest env i db row s \<Longrightarrow> rowShape digest env i db row s"
  by (simp add: rowHolds_def)

lemma rowHolds_columns:
  assumes h: "rowHolds digest env i db row s"
  shows "breachSeverity s = Some b \<Longrightarrow>
      (\<exists>x. breachEvidence s = Some x \<and> projectedEvidence (row_columns row) b (row_ruleId row) = Inr x)"
    and "status s = Some sev \<Longrightarrow> breachSeverity s = None \<Longrightarrow>
      (\<exists>x. activeEvidence s = Some x \<and> projectedEvidence (row_columns row) sev (row_ruleId row) = Inr x)"
proof -
  have s: "evaluatedState (row_lastEvaluatedAt row) i s"
    using h by (simp add: rowHolds_def rowShape_def)
  have hold: "columnsHold row x" if "columnsEvidence s = Some x" for x
    using h that by (auto simp: rowHolds_def columnsStore_def)
  show "\<exists>x. breachEvidence s = Some x \<and> projectedEvidence (row_columns row) b (row_ruleId row) = Inr x"
    if b: "breachSeverity s = Some b"
  proof -
    obtain x where x: "columnsEvidence s = Some x" "sel_severity x = b"
      using evaluated_columnsEvidence(3)[OF s b] by blast
    moreover have "breachEvidence s \<noteq> None"
      using s b by (auto simp: evaluated_defs split: alertLifecyclePhase.splits)
    ultimately have "breachEvidence s = Some x"
      by (auto simp: columnsEvidence_def)
    then show ?thesis
      using columnsHold_projected[OF hold[OF x(1)]] x(2) by simp
  qed
  show "\<exists>x. activeEvidence s = Some x \<and> projectedEvidence (row_columns row) sev (row_ruleId row) = Inr x"
    if st: "status s = Some sev" "breachSeverity s = None"
  proof -
    obtain x where "columnsEvidence s = activeEvidence s" "columnsEvidence s = Some x" "sel_severity x = sev"
      using evaluated_columnsEvidence(4)[OF s st] by blast
    then show ?thesis
      using columnsHold_projected[OF hold] by metis
  qed
qed

lemma readActive_holds:
  assumes h: "rowHolds digest env i db row s" and st: "status s = Some sev"
    and a: "currentIncidents db row = [a]" "ownIncident row a" "showsEvidence a x" "inc_status a \<noteq> Resolved"
      "inc_severity a = sev" "activeEvidence s = Some x" "openedAt s = Some (inc_firstSeenAt a)"
  shows "readActive i row sev [a] = Inr (Some (inc_id a, inc_status a), s)"
proof -
  note m = rowShape_match[OF rowHolds_shape[OF h]]
  have s: "evaluatedState (row_lastEvaluatedAt row) i s"
    using h by (simp add: rowHolds_def rowShape_def)
  have "\<not> incidentTimesInvalid a row"
    using a(2) by (auto simp: incidentTimesInvalid_def ownIncident_def)
  moreover have "incidentEvidence a = Inr x"
    by (rule showsEvidence_parse[OF a(3)])
  moreover have "(case row_breachSeverity row of
        None \<Rightarrow> and_then (projectedEvidence (row_columns row) sev (row_ruleId row)) (\<lambda>e.
          if e \<noteq> x then sourceInvalid else Inr None)
      | Some b \<Rightarrow> and_then (projectedEvidence (row_columns row) b (row_ruleId row)) (\<lambda>e. Inr (Some e)))
      = Inr (breachEvidence s)"
  proof (cases "breachSeverity s")
    case None
    then have "breachEvidence s = None"
      using s by (auto simp: evaluated_defs split: alertLifecyclePhase.splits)
    then show ?thesis
      using rowHolds_columns(2)[OF h st None] a(6) None m(2) by auto
  next
    case (Some b)
    then show ?thesis
      using rowHolds_columns(1)[OF h Some] m(2) by auto
  qed
  ultimately have "readActive i row sev [a] = Inr (Some (inc_id a, inc_status a),
      \<lparr>activeEvidence = Some x, breachEvidence = breachEvidence s, breachSeverity = row_breachSeverity row,
       consecutiveBreaches = row_consecutiveBreaches row, consecutiveClears = row_consecutiveClears row,
       cooldownUntil = None, identity = Some i, lastEvaluatedAt = Some (row_lastEvaluatedAt row),
       lastNotificationAt = row_lastNotificationScheduledAt row,
       openedAt = Some (inc_firstSeenAt a), phase = Active, status = Some sev\<rparr>)"
    using a(4,5) by (simp add: readActive_def)
  moreover have "cooldownUntil s = None" "phase s = Active"
    using s st by (auto simp: evaluated_defs split: alertLifecyclePhase.splits)
  ultimately show ?thesis
    using m st a by simp
qed

lemma readInactive_holds:
  assumes h: "rowHolds digest env i db row s" and st: "status s = None"
  shows "readInactive i row (currentIncidents db row) = Inr (None, s)"
proof -
  note m = rowShape_match[OF rowHolds_shape[OF h]]
  have s: "evaluatedState (row_lastEvaluatedAt row) i s"
    using h by (simp add: rowHolds_def rowShape_def)
  have inc: "(row_generation row = 0 \<and> currentIncidents db row = []) \<or>
      (row_generation row > 0 \<and> (\<exists>a. currentIncidents db row = [a] \<and> ownIncident row a \<and> inc_status a = Resolved))"
    using h st by (auto simp: rowHolds_def rowShape_def incidentsHold_def)
  have b: "(case row_breachSeverity row of None \<Rightarrow> Inr None
      | Some b \<Rightarrow> and_then (projectedEvidence (row_columns row) b (row_ruleId row)) (\<lambda>e. Inr (Some e)))
      = Inr (breachEvidence s)"
  proof (cases "breachSeverity s")
    case None
    then have "breachEvidence s = None"
      using s by (auto simp: evaluated_defs split: alertLifecyclePhase.splits)
    then show ?thesis
      using None m(2) by simp
  next
    case (Some b)
    then show ?thesis
      using rowHolds_columns(1)[OF h Some] m(2) by auto
  qed
  have ok: "\<not> (list_ex (\<lambda>a. inc_status a \<noteq> Resolved) (currentIncidents db row) \<or>
      length (currentIncidents db row) > 1 \<or>
      (row_generation row = 0 \<and> length (currentIncidents db row) \<noteq> 0) \<or>
      (row_generation row > 0 \<and> length (currentIncidents db row) \<noteq> 1) \<or>
      list_ex (\<lambda>a. incidentTimesInvalid a row) (take 1 (currentIncidents db row)))"
    using inc by (auto simp: incidentTimesInvalid_def ownIncident_def)
  have "readInactive i row (currentIncidents db row) = Inr (None,
            \<lparr>activeEvidence = None, breachEvidence = breachEvidence s, breachSeverity = row_breachSeverity row,
             consecutiveBreaches = row_consecutiveBreaches row, consecutiveClears = 0,
             cooldownUntil = row_cooldownUntil row, identity = Some i,
             lastEvaluatedAt = Some (row_lastEvaluatedAt row), lastNotificationAt = None,
             openedAt = None, phase = (if row_breachSeverity row = None then Inactive else Pending),
             status = None\<rparr>)"
    unfolding readInactive_def if_not_P[OF ok] b by simp
  moreover have "activeEvidence s = None" "consecutiveClears s = 0" "lastNotificationAt s = None"
      "openedAt s = None" "phase s = (if breachSeverity s = None then Inactive else Pending)"
    using s st by (auto simp: evaluated_defs split: alertLifecyclePhase.splits)
  ultimately show ?thesis
    using m st by simp
qed

lemma selectIncidents_current:
  "selectStates env i db = [row] \<Longrightarrow> selectIncidents env i db = currentIncidents db row"
  by (simp add: selectIncidents_def currentIncidents_def)

text \<open>The reader, down to the lifecycle state it rebuilds.\<close>

definition readState ::
  "alertLifecycleIdentity \<Rightarrow> alertDb \<Rightarrow> alertStateRow \<Rightarrow> ((string \<times> incidentStatus) option \<times> alertLifecycleState) result" where
  "readState i db row =
     (case row_currentSeverity row of
        None \<Rightarrow> readInactive i row (currentIncidents db row)
      | Some severity \<Rightarrow> readActive i row severity (currentIncidents db row))"

lemma shape_current:
  assumes "rowShape digest env i db row s"
  shows "\<forall>a \<in> set (currentIncidents db row). ownIncident row a \<and> parseIncidentProjection a = Inr a"
proof (cases "status s")
  case None
  then show ?thesis
    using assms ownIncident_parse[of row] by (auto simp: rowShape_def incidentsHold_def inDomain_def)
next
  case (Some sev)
  then have "0 < row_generation row"
    using assms by (auto simp: rowShape_def rowStores_def)
  then show ?thesis
    using Some assms ownIncident_parse[of row] by (auto simp: rowShape_def incidentsHold_def inDomain_def)
qed

lemma read_shape:
  assumes sel: "selectStates env i db = [row]" and h: "rowShape digest env i db row s"
  shows "readSnapshot digest env i db =
    and_then (readState i db row) (\<lambda>(incident, previous).
      Inr (Some
        \<lparr>exp_generation = row_generation row, exp_incident = incident,
         exp_lastEvaluatedAt = row_lastEvaluatedAt row, exp_revision = row_revision row,
         exp_stateId = key_id (row_key row)\<rparr>, previous))"
proof -
  have "map_result parseIncidentProjection (currentIncidents db row) = Inr (currentIncidents db row)"
    using shape_current[OF h] by (auto simp: map_result_Inr_iff list_all2_same)
  moreover have "\<not> foreignRow digest env i row (currentIncidents db row) (id_dimension i)"
    using rowShape_key[OF h] shape_current[OF h]
    by (auto simp: foreignRow_def Let_def list_ex_iff ownIncident_def)
  ultimately show ?thesis
    using sel rowShape_parse[OF h]
    by (simp add: readSnapshot_def selectIncidents_current readState_def)
qed

lemma readState_holds:
  assumes h: "rowHolds digest env i db row s"
  shows "readState i db row = Inr (exp_incident (expectedOf db row s), s)"
proof (cases "status s")
  case None
  then show ?thesis
    using readInactive_holds[OF h None] rowShape_match(1)[OF rowHolds_shape[OF h]]
    by (simp add: expectedOf_def readState_def)
next
  case (Some sev)
  then obtain a x where a: "currentIncidents db row = [a]" "ownIncident row a" "showsEvidence a x"
      "inc_status a \<noteq> Resolved" "inc_severity a = sev" "activeEvidence s = Some x"
      "openedAt s = Some (inc_firstSeenAt a)"
    using h by (auto simp: rowHolds_def rowShape_def incidentsHold_def)
  then show ?thesis
    using readActive_holds[OF h Some a] rowShape_match(1)[OF rowHolds_shape[OF h]] Some
    by (simp add: expectedOf_def readState_def)
qed

lemma read_holds:
  assumes sel: "selectStates env i db = [row]" and h: "rowHolds digest env i db row s"
  shows "readSnapshot digest env i db = Inr (Some (expectedOf db row s), s)"
  by (simp add: read_shape[OF sel rowHolds_shape[OF h]] readState_holds[OF h]) (simp add: expectedOf_def)

text \<open>A row whose columns keep withdrawn critical evidence cannot be read.\<close>

lemma read_withdrawn:
  assumes sel: "selectStates env i db = [row]" and h: "rowShape digest env i db row s"
    and st: "status s = Some Warning" "breachSeverity s = None"
    and x: "columnsHold row x" "sel_severity x = Critical"
  shows "readSnapshot digest env i db = sourceInvalid"
proof -
  obtain a y where a: "currentIncidents db row = [a]" "ownIncident row a" "showsEvidence a y"
      "inc_status a \<noteq> Resolved" "inc_severity a = Warning"
    using h st by (auto simp: rowShape_def incidentsHold_def)
  have "projectedEvidence (row_columns row) Warning (row_ruleId row) = sourceInvalid"
    using x by (simp add: projectedEvidence_def columnsHold_def)
  moreover have "\<not> incidentTimesInvalid a row"
    using a(2) by (auto simp: incidentTimesInvalid_def ownIncident_def)
  ultimately have "readState i db row = sourceInvalid"
    using a showsEvidence_parse[OF a(3)] rowShape_match[OF h] st
    by (simp add: readState_def readActive_def sourceInvalid_def repoFail_def)
  then show ?thesis
    by (simp add: read_shape[OF sel h] sourceInvalid_def repoFail_def)
qed

subsection \<open>What a decision does to the incident\<close>

lemma persistedEvidence_columns:
  assumes "persistedEvidence s' e = Inr ev" and "soundEvaluation e"
  shows "eval_severity e = None \<Longrightarrow> ev = None"
    and "eval_severity e \<noteq> None \<Longrightarrow> (\<exists>x. columnsEvidence s' = Some x \<and> ev = Some (evidenceColumnsOf x))"
proof -
  show "eval_severity e = None \<Longrightarrow> ev = None"
    using assms(1) by (simp add: persistedEvidence_def)
  assume sev: "eval_severity e \<noteq> None"
  then have "eval_evidence e = Known"
    using sound_known[OF assms(2)] by simp
  then show "\<exists>x. columnsEvidence s' = Some x \<and> ev = Some (evidenceColumnsOf x)"
    using assms(1) sev
    by (auto simp: persistedEvidence_def columnsEvidence_def[symmetric] repoFail_def split: option.splits)
qed

lemma alertStep_kinds:
  assumes step: "alertStep e asOf s intent s'" and s: "evaluatedState asOf i s"
    and s': "evaluatedState asOf i s'" and e: "soundEvaluation e"
  obtains (idle) "status s = None" "status s' = None" "intent = None"
  | (keep) sev where "status s = Some sev" "status s' = Some sev" "activeEvidence s' = activeEvidence s"
      "openedAt s' = openedAt s" "eval_severity e \<noteq> Some sev"
      "intent = None \<or> (\<exists>b x. intent = Some (RemindIntent b x sev))"
  | (begins) sev x b where "status s = None" "status s' = Some sev" "intent = Some (OpenIntent b x sev)"
      "activeEvidence s' = Some x" "sel_severity x = sev" "columnsEvidence s' = Some x"
      "breachSeverity s' = None" "openedAt s' = Some asOf" "eval_severity e = Some sev"
  | (renew) old sev x where "status s = Some old" "status s' = Some sev" "eval_severity e = Some sev"
      "activeEvidence s' = Some x" "sel_severity x = sev" "columnsEvidence s' = Some x"
      "breachSeverity s' = None" "openedAt s' = openedAt s"
      "old = sev \<and> (intent = None \<or> (\<exists>b y. intent = Some (RemindIntent b y sev))) \<or>
       old = Warning \<and> sev = Critical \<and> (\<exists>b y. intent = Some (EscalateIntent b y))"
  | (resolve) sev b where "status s = Some sev" "status s' = None" "intent = Some (ResolveIntent b sev)"
      "eval_severity e = None" "automaticRule e"
  using step
proof cases
  case quiet
  then show ?thesis using idle by simp
next
  case (suspect sev)
  then show ?thesis using idle by simp
next
  case (opens sev x)
  then have "sel_severity x = sev" "columnsEvidence s' = Some x" "breachSeverity s' = None"
    using e by (auto simp: soundEvaluation_def confirms_def countersReset_def noBreach_def columnsEvidence_def)
  then show ?thesis
    using opens begins by (simp add: confirms_def)
next
  case (stays sev)
  show ?thesis
  proof (cases "eval_severity e = Some sev")
    case True
    then obtain x where x: "eval_selectedEvidence e = Some x" "sel_severity x = sev"
      using soundEvaluation_candidate[OF e] by blast
    then have "activeEvidence s' = Some x" "columnsEvidence s' = Some x" "breachSeverity s' = None"
      using stays True by (simp_all add: countersReset_def noBreach_def columnsEvidence_def)
    then show ?thesis
      using renew[of sev sev x] stays True x by auto
  next
    case False
    then show ?thesis
      using keep[of sev] stays by auto
  qed
next
  case (counts sev)
  then show ?thesis using keep[of sev] by (auto simp: clearSample_def)
next
  case (resolves sev until)
  then show ?thesis using resolve[of sev] by (auto simp: clearSample_def)
next
  case worsens
  then show ?thesis using keep[of Warning] by simp
next
  case (escalates x)
  then have "sel_severity x = Critical" "columnsEvidence s' = Some x" "breachSeverity s' = None"
    using e by (auto simp: soundEvaluation_def confirms_def countersReset_def noBreach_def columnsEvidence_def)
  then show ?thesis
    using escalates renew[of Warning Critical x] by (auto simp: confirms_def)
qed

subsection \<open>Statements on a table with one matching row\<close>

lemma updateStates_one:
  assumes "filter matching (db_states db) = [row]"
  shows "updateStates matching change db previous =
    (if updateAccepted False row (change row)
     then Some (db\<lparr>db_states := map (\<lambda>r. if matching r then change r else r) (db_states db)\<rparr>, 1) else None)"
proof -
  have "list_ex (\<lambda>r. matching r \<and> \<not> updateAccepted False r (change r)) (db_states db) \<longleftrightarrow>
      \<not> updateAccepted False row (change row)"
    using filter_mem[OF assms] filter_only[OF assms] by (auto simp: list_ex_iff)
  then show ?thesis
    using assms by (simp add: updateStates_def countRows_def)
qed

text \<open>Tables in which one row was replaced by another with the same key.\<close>

definition replaced :: "alertDb \<Rightarrow> alertStateRow \<Rightarrow> alertStateRow \<Rightarrow> alertDb \<Rightarrow> bool" where
  "replaced db row new db' \<longleftrightarrow>
     (\<forall>P. filter (\<lambda>r. P (row_key r)) (db_states db) = [row] \<longrightarrow>
        filter (\<lambda>r. P (row_key r)) (db_states db') = [new]) \<and>
     db_incidents db' = db_incidents db \<and> db_outbox db' = db_outbox db"

lemma updateStates_replaced:
  assumes m: "filter matching (db_states db) = [row]" and key: "\<And>r. row_key (change r) = row_key r"
    and ok: "updateAccepted False row (change row)"
  obtains db' where "updateStates matching change db previous = Some (db', 1)" and "replaced db row (change row) db'"
proof
  let ?f = "\<lambda>r. if matching r then change r else r"
  show "updateStates matching change db previous = Some (db\<lparr>db_states := map ?f (db_states db)\<rparr>, 1)"
    by (simp add: updateStates_one[OF m] ok)
  have "filter (\<lambda>r. P (row_key r)) (map ?f (db_states db)) = [change row]"
    if "filter (\<lambda>r. P (row_key r)) (db_states db) = [row]" for P
    using filter_replace[of "\<lambda>r. P (row_key r)" change matching "db_states db"] that key filter_mem[OF m]
    by simp
  then show "replaced db row (change row) (db\<lparr>db_states := map ?f (db_states db)\<rparr>)"
    unfolding replaced_def by simp
qed

lemma replaced_filter:
  assumes "replaced db row new db'" and "filter (\<lambda>r. P (row_key r)) (db_states db) = [row]"
  shows "filter (\<lambda>r. P (row_key r)) (db_states db') = [new]"
  using assms by (simp add: replaced_def)

definition selectsKey :: "alertEnvironment \<Rightarrow> alertLifecycleIdentity \<Rightarrow> stateKey \<Rightarrow> bool" where
  "selectsKey env i key \<longleftrightarrow>
     key_ruleId key = id_ruleId i \<and> key_environment key = env \<and> key_sourceKind key = sourceKindFor (id_ruleId i) \<and>
     subjectRef (key_dimensions key) = subjectRef (dimensionColumnsOf (id_dimension i)) \<and>
     queueName (key_dimensions key) = queueName (dimensionColumnsOf (id_dimension i))"

lemma selects_key: "selects env i = (\<lambda>r. selectsKey env i (row_key r))"
  by (rule ext) (simp add: selects_def selectsKey_def Let_def)

lemma replaced_select:
  assumes "replaced db row new db'" and "selectStates env i db = [row]"
  shows "selectStates env i db' = [new]"
  using replaced_filter[OF assms(1), of "selectsKey env i"] assms(2) by (simp add: selectStates_def selects_key)

lemma replaced_id:
  assumes "replaced db row new db'" and "filter (\<lambda>r. key_id (row_key r) = k) (db_states db) = [row]"
  shows "filter (\<lambda>r. key_id (row_key r) = k) (db_states db') = [new]"
  by (rule replaced_filter[OF assms(1), of "\<lambda>key. key_id key = k", OF assms(2)])

lemma replaced_incidents:
  assumes "replaced db row new db'" and "row_key new = row_key row"
  shows "incidentsOf db' new = incidentsOf db row"
  using assms by (simp add: replaced_def incidentsOf_def)

lemma incidentsOf_states [simp]: "incidentsOf (db\<lparr>db_states := rows\<rparr>) row = incidentsOf db row"
  by (simp add: incidentsOf_def)

subsection \<open>The plan for a stored row\<close>

definition currentIncident :: "alertDb \<Rightarrow> alertStateRow \<Rightarrow> alertLifecycleState \<Rightarrow> incidentRow option" where
  "currentIncident db row s = (if status s = None then None else find (\<lambda>_. True) (currentIncidents db row))"

lemma currentIncident_active:
  assumes "rowHolds digest env i db row s" and "status s = Some sev"
  obtains a x where "currentIncidents db row = [a]" "currentIncident db row s = Some a" "ownIncident row a"
    "showsEvidence a x" "inc_status a \<noteq> Resolved" "inc_severity a = sev" "activeEvidence s = Some x"
    "openedAt s = Some (inc_firstSeenAt a)" "a \<in> set (incidentsOf db row)"
    "exp_incident (expectedOf db row s) = Some (inc_id a, inc_status a)"
proof -
  obtain a x where a: "currentIncidents db row = [a]" "ownIncident row a" "showsEvidence a x"
      "inc_status a \<noteq> Resolved" "inc_severity a = sev" "activeEvidence s = Some x"
      "openedAt s = Some (inc_firstSeenAt a)"
    using assms by (auto simp: rowHolds_def rowShape_def incidentsHold_def)
  moreover have "a \<in> set (incidentsOf db row)"
    using filter_mem[OF a(1)[unfolded currentIncidents_def]] by simp
  ultimately show thesis
    using that assms(2) by (simp add: currentIncident_def expectedOf_def)
qed

lemma currentIncident_none: "status s = None \<Longrightarrow> currentIncident db row s = None"
  by (simp add: currentIncident_def)

lemma inactive_resolved:
  assumes "rowHolds digest env i db row s" and "status s = None"
  shows "\<forall>a \<in> set (incidentsOf db row). inc_generation a \<le> row_generation row \<and> inc_status a = Resolved"
proof
  fix a
  assume a: "a \<in> set (incidentsOf db row)"
  have le: "inc_generation a \<le> row_generation row" "inc_generation a < row_generation row \<Longrightarrow> inc_status a = Resolved"
    using assms(1) a by (auto simp: rowHolds_def rowShape_def incidentsHold_def)
  have "inc_status a = Resolved" if "inc_generation a = row_generation row"
  proof -
    have "a \<in> set (currentIncidents db row)"
      using a that by (simp add: currentIncidents_def)
    then show ?thesis
      using assms by (auto simp: rowHolds_def rowShape_def incidentsHold_def)
  qed
  then show "inc_generation a \<le> row_generation row \<and> inc_status a = Resolved"
    using le by linarith
qed

lemma readExpectedIncident_current:
  assumes h: "rowHolds digest env i db row s"
  shows "readExpectedIncident (expectedOf db row s) (row_key row) db = Inr (currentIncident db row s)"
proof (cases "status s")
  case None
  then show ?thesis
    by (simp add: readExpectedIncident_def expectedOf_def currentIncident_def)
next
  case (Some sev)
  obtain a where a: "currentIncidents db row = [a]" "currentIncident db row s = Some a" "ownIncident row a"
      "exp_incident (expectedOf db row s) = Some (inc_id a, inc_status a)"
    using currentIncident_active[OF h Some] by metis
  have cur: "filter (\<lambda>b. inc_stateId b = key_id (row_key row) \<and> inc_generation b = row_generation row)
      (db_incidents db) = [a]"
    using a(1) by (simp add: currentIncidents_def incidentsOf_def conj_commute)
  have "find (\<lambda>b. inc_id b = inc_id a \<and> inc_stateId b = key_id (row_key row) \<and>
       inc_ruleId b = row_ruleId row \<and> inc_environment b = key_environment (row_key row) \<and>
       inc_generation b = row_generation row \<and> inc_sourceKind b = key_sourceKind (row_key row))
      (db_incidents db) = Some a"
    by (rule find_unique[OF cur]) (use a(3) in \<open>auto simp: ownIncident_def\<close>)
  moreover have "parseIncidentProjection a = Inr a"
    using shape_current[OF rowHolds_shape[OF h]] a(1) by simp
  ultimately show ?thesis
    using a(2,4) by (simp add: readExpectedIncident_def) (simp add: expectedOf_def)
qed

lemma expectedIncidentHolds_current:
  assumes h: "rowHolds digest env i db row s"
  shows "expectedIncidentHolds (expectedOf db row s) (currentIncident db row s) db row"
proof (cases "status s")
  case None
  then show ?thesis
    using inactive_resolved[OF h None]
    by (auto simp: expectedIncidentHolds_def expectedOf_def list_all_iff)
next
  case (Some sev)
  obtain a where "currentIncident db row s = Some a" "ownIncident row a" "a \<in> set (incidentsOf db row)"
      "exp_incident (expectedOf db row s) = Some (inc_id a, inc_status a)"
    using currentIncident_active[OF h Some] by metis
  moreover have "exp_generation (expectedOf db row s) = row_generation row"
    by (simp add: expectedOf_def)
  ultimately show ?thesis
    by (auto simp: expectedIncidentHolds_def list_ex_iff ownIncident_def)
qed

lemma stateUpdate_runs:
  fixes intent :: "alertActionIntent option" and ev :: "evidenceColumns option"
  assumes h: "rowHolds digest env i db row s"
    and time: "getTime (row_lastEvaluatedAt row) < getTime (eval_asOf e)" and rev: "row_revision row < MAX_STATE_REVISION"
    and unknown: "eval_evidence e = Unknown \<Longrightarrow> status s' = status s"
  defines "new \<equiv> prepareStateUpdate row e intent s' ev (eval_asOf e)"
    and "st \<equiv> stateUpdate (row_key row) (expectedOf db row s) (currentIncident db row s) e (intent, s') ev"
  shows "updateAccepted False row new \<Longrightarrow> (\<exists>db'. st db previous = Some (db', 1) \<and> replaced db row new db')"
    and "\<not> updateAccepted False row new \<Longrightarrow> st db previous = None"
proof -
  let ?m = "\<lambda>r. row_key r = row_key row \<and> row_revision r = exp_revision (expectedOf db row s) \<and>
           row_generation r = exp_generation (expectedOf db row s) \<and>
           row_lastEvaluatedAt r = exp_lastEvaluatedAt (expectedOf db row s) \<and>
           getTime (row_lastEvaluatedAt r) < getTime (eval_asOf e) \<and> row_revision r < MAX_STATE_REVISION \<and>
           expectedIncidentHolds (expectedOf db row s) (currentIncident db row s) db r \<and>
           (eval_evidence e = Unknown \<longrightarrow>
              row_currentSeverity r = status s' \<and> row_generation r = exp_generation (expectedOf db row s))"
  let ?c = "\<lambda>r. prepareStateUpdate r e intent s' ev (eval_asOf e)"
  have id: "filter (\<lambda>r. key_id (row_key r) = key_id (row_key row)) (db_states db) = [row]"
    using h by (simp add: rowHolds_def rowShape_def)
  have "?m row"
    using expectedIncidentHolds_current[OF h] time rev unknown rowShape_match(1)[OF rowHolds_shape[OF h]]
    by (simp add: expectedOf_def)
  then have m: "filter ?m (db_states db) = [row]"
    by (intro filter_unique[OF id]) auto
  have st: "st db previous = updateStates ?m ?c db previous"
    by (simp add: st_def stateUpdate_def Let_def)
  show "\<exists>db'. st db previous = Some (db', 1) \<and> replaced db row new db'" if "updateAccepted False row new"
    using updateStates_replaced[OF m, of ?c previous] that st by (auto simp: new_def)
  show "st db previous = None" if "\<not> updateAccepted False row new"
    using that updateStates_one[OF m, of ?c previous] st by (simp add: new_def)
qed

lemma incidentConflict_current:
  assumes h: "rowHolds digest env i db row s"
    and time: "getTime (row_lastEvaluatedAt row) < getTime (eval_asOf e)"
  shows "\<not> incidentConflict (Some (expectedOf db row s)) (currentIncident db row s) e intent"
proof (cases "status s")
  case None
  then show ?thesis
    by (simp add: incidentConflict_def expectedOf_def currentIncident_def)
next
  case (Some sev)
  obtain a where "currentIncident db row s = Some a" "ownIncident row a"
      "exp_incident (expectedOf db row s) = Some (inc_id a, inc_status a)"
    using currentIncident_active[OF h Some] by metis
  then show ?thesis
    using time by (auto simp: incidentConflict_def ownIncident_def)
qed

lemma planDecision_bound:
  assumes h: "rowHolds digest env (identityFor e) db row s"
    and time: "getTime (row_lastEvaluatedAt row) < getTime (eval_asOf e)" and short: "length (eval_asOf e) = 24"
    and bounds: "row_generation row < MAX_STATE_GENERATION" "row_revision row < MAX_STATE_REVISION"
    and accepted: "\<not> decisionRejected (Some (row_lastEvaluatedAt row)) e (intent, s')"
    and ev: "persistedEvidence s' e = Inr ev"
    and "isOpen intent \<Longrightarrow> status s = None" and "needsExpectedIncident (intent, s') \<Longrightarrow> status s \<noteq> None"
  shows "planDecision digest newStateId incidentId env e (intent, s') (Some (expectedOf db row s)) db =
    and_then (planIncident (row_key row) incidentId (row_generation row + (if isOpen intent then 1 else 0)) e
        (intent, s') ev (currentIncident db row s) db)
      (\<lambda>(desired, incidentWrites, event). Inr (Some
        \<lparr>plan_statements = stateUpdate (row_key row) (expectedOf db row s) (currentIncident db row s) e
           (intent, s') ev # incidentWrites @ deliveryWrites digest event (row_key row) (eval_asOf e),
         plan_key = row_key row, plan_evidence = ev,
         plan_generation = row_generation row + (if isOpen intent then 1 else 0),
         plan_revision = row_revision row + 1, plan_incident = desired, plan_event = event\<rparr>))"
proof -
  have key: "stateKeyFor digest env (exp_stateId (expectedOf db row s)) (identityFor e) = row_key row"
    using h by (simp add: rowHolds_def rowShape_def expectedOf_def)
  have "currentIncident db row s \<noteq> None" if st: "status s \<noteq> None"
  proof -
    obtain sev where "status s = Some sev"
      using st by blast
    then show ?thesis
      using currentIncident_active[OF h] by blast
  qed
  then have needs: "\<not> (needsExpectedIncident (intent, s') \<and> currentIncident db row s = None)"
    using assms(9) by blast
  have fields: "exp_lastEvaluatedAt (expectedOf db row s) = row_lastEvaluatedAt row"
    "exp_generation (expectedOf db row s) = row_generation row"
    "exp_revision (expectedOf db row s) = row_revision row"
    "isOpen intent \<Longrightarrow> exp_incident (expectedOf db row s) = None"
    using assms(8) by (simp_all add: expectedOf_def)
  have dom: "inDomain MAX_STATE_GENERATION (row_generation row + (if isOpen intent then 1 else 0))"
    "inDomain MAX_STATE_REVISION (row_revision row + 1)"
    using h bounds by (auto simp: rowHolds_def rowShape_def inDomain_def)
  show ?thesis
    using accepted needs fields dom ev short incidentConflict_current[OF h time]
      readExpectedIncident_current[OF h]
    by (cases "needsExpectedIncident (intent, s')"; cases "currentIncident db row s"; cases "isOpen intent")
      (simp_all add: planDecision_def Let_def key case_prod_unfold)
qed

subsection \<open>The statements on the incident\<close>

lemma currentIncidents_filter:
  "currentIncidents db row =
     filter (\<lambda>b. inc_stateId b = key_id (row_key row) \<and> inc_generation b = row_generation row) (db_incidents db)"
  by (simp add: currentIncidents_def incidentsOf_def conj_commute)

lemma incidentsOf_mapped:
  assumes "b \<in> set (incidentsOf (db\<lparr>db_incidents := map f (db_incidents db)\<rparr>) row)"
  shows "\<exists>b'. b = f b' \<and> b' \<in> set (db_incidents db) \<and> inc_stateId b = key_id (row_key row)"
  using assms by (auto simp: incidentsOf_def)

lemma incidentUpdate_runs:
  assumes cur: "currentIncidents db row = [a]"
    and d: "d = a\<lparr>inc_severity := inc_severity d, inc_status := inc_status d, inc_lastSeenAt := inc_lastSeenAt d,
      inc_metrics := inc_metrics d, inc_threshold := inc_threshold d, inc_updatedAt := inc_updatedAt d\<rparr>"
    and ok: "\<not> incidentTransitionAborts a d" "\<not> incidentChecksFail d"
      "inc_status d \<noteq> Resolved \<Longrightarrow> incidentConfirmed db d"
  obtains db' where "incidentUpdate a d db 1 = Some (db', 1)" and "db_states db' = db_states db"
    and "db_outbox db' = db_outbox db" and "map inc_id (db_incidents db') = map inc_id (db_incidents db)"
    and "currentIncidents db' row = [d]"
    and "\<And>b. b \<in> set (incidentsOf db' row) \<Longrightarrow> b = d \<or> b \<in> set (incidentsOf db row)"
proof -
  let ?m = "\<lambda>b. inc_id b = inc_id a \<and> inc_stateId b = inc_stateId a \<and>
            inc_generation b = inc_generation a \<and> inc_status b = inc_status a \<and>
            inc_severity b = inc_severity a \<and> inc_updatedAt b = inc_updatedAt a"
  let ?c = "\<lambda>b. b\<lparr>inc_severity := inc_severity d, inc_status := inc_status d,
            inc_lastSeenAt := inc_lastSeenAt d, inc_metrics := inc_metrics d,
            inc_threshold := inc_threshold d, inc_updatedAt := inc_updatedAt d\<rparr>"
  let ?f = "\<lambda>b. if ?m b then ?c b else b"
  let ?Q = "\<lambda>b. inc_stateId b = key_id (row_key row) \<and> inc_generation b = row_generation row"
  have q: "filter ?Q (db_incidents db) = [a]"
    using cur by (simp add: currentIncidents_filter)
  have a: "?Q a"
    using filter_mem[OF q] by simp
  have m: "filter ?m (db_incidents db) = [a]"
    by (rule filter_unique[OF q]) (use a in auto)
  have only: "b = a" if "b \<in> set (db_incidents db)" "?m b" for b
    by (rule filter_only[OF m that])
  have "\<not> list_ex (\<lambda>b. ?m b \<and> (incidentTransitionAborts b (?c b) \<or> incidentChecksFail (?c b) \<or>
           inc_status d \<noteq> Resolved \<and> \<not> incidentConfirmed db (?c b))) (db_incidents db)"
    unfolding list_ex_iff using only ok d by metis
  then have run: "incidentUpdate a d db 1 = Some (db\<lparr>db_incidents := map ?f (db_incidents db)\<rparr>, 1)"
    using m by (simp add: incidentUpdate_def countRows_def)
  have "currentIncidents (db\<lparr>db_incidents := map ?f (db_incidents db)\<rparr>) row = map ?f [a]"
    unfolding currentIncidents_filter using filter_replace[of ?Q ?c ?m "db_incidents db"] q by simp
  moreover have "?f a = d"
    using d by simp
  ultimately have cur': "currentIncidents (db\<lparr>db_incidents := map ?f (db_incidents db)\<rparr>) row = [d]"
    by simp
  have "b = d \<or> b \<in> set (incidentsOf db row)"
    if listed: "b \<in> set (incidentsOf (db\<lparr>db_incidents := map ?f (db_incidents db)\<rparr>) row)" for b
  proof -
    obtain b' where b': "b = ?f b'" "b' \<in> set (db_incidents db)" and own: "inc_stateId b = key_id (row_key row)"
      using incidentsOf_mapped[OF listed] by blast
    show ?thesis
    proof (cases "?m b'")
      case True
      then show ?thesis
        using only[OF b'(2)] b'(1) d by simp
    next
      case False
      have "b = b'"
        using b'(1) unfolding if_not_P[OF False] .
      then show ?thesis
        using b'(2) own by (simp add: incidentsOf_def)
    qed
  qed
  moreover have "map inc_id (map ?f (db_incidents db)) = map inc_id (db_incidents db)"
    by simp
  ultimately show thesis
    using that[OF run _ _ _ cur'] by simp
qed

lemma incidentInsert_runs:
  assumes "incidentConfirmed db d" and "\<And>b. b \<in> set (db_incidents db) \<Longrightarrow> inc_id b \<noteq> inc_id d"
    and "inc_stateId d = key_id (row_key row)" and "inc_generation d = row_generation row"
    and "\<And>b. b \<in> set (incidentsOf db row) \<Longrightarrow> inc_generation b < row_generation row \<and> inc_status b = Resolved"
  obtains db' where "incidentInsert d db 1 = Some (db', 1)" and "db_states db' = db_states db"
    and "db_outbox db' = db_outbox db" and "map inc_id (db_incidents db') = map inc_id (db_incidents db) @ [inc_id d]"
    and "currentIncidents db' row = [d]"
    and "\<And>b. b \<in> set (incidentsOf db' row) \<Longrightarrow> b = d \<or> b \<in> set (incidentsOf db row)"
proof -
  let ?db = "db\<lparr>db_incidents := db_incidents db @ [d]\<rparr>"
  have older: "inc_generation b \<noteq> row_generation row" "inc_status b = Resolved"
    if "b \<in> set (db_incidents db)" "inc_stateId b = key_id (row_key row)" for b
    using assms(5)[of b] that by (simp_all add: incidentsOf_def)
  have "\<not> list_ex (\<lambda>b. inc_id b = inc_id d \<or>
           inc_stateId b = inc_stateId d \<and> (inc_generation b = inc_generation d \<or> inc_status b \<noteq> Resolved))
           (db_incidents db)"
    using assms(2-4) older by (auto simp: list_ex_iff)
  then have "incidentInsert d db 1 = Some (?db, 1)"
    using assms(1) by (simp add: incidentInsert_def)
  moreover have "currentIncidents db row = []"
    using older(1) by (auto simp: currentIncidents_filter filter_empty_conv)
  then have "currentIncidents ?db row = [d]"
    using assms(3,4) by (simp add: currentIncidents_filter)
  moreover have "b = d \<or> b \<in> set (incidentsOf db row)" if "b \<in> set (incidentsOf ?db row)" for b
    using that assms(3) by (auto simp: incidentsOf_def)
  ultimately show thesis
    using that[of ?db] by simp
qed

subsection \<open>After the batch\<close>

lemma ownIncident_later:
  assumes "ownIncident row a" and "row_key new = row_key row" and "row_generation new = row_generation row"
    and "getTime (row_lastEvaluatedAt row) \<le> getTime (row_lastEvaluatedAt new)"
  shows "ownIncident new a"
  using assms by (simp add: ownIncident_def)

text \<open>What the comparison after the batch needs is that the tables fit, up to the evidence columns.\<close>

definition queuedRow :: "digestFunction \<Rightarrow> plannedEvent \<Rightarrow> stateKey \<Rightarrow> string \<Rightarrow> outboxRow" where
  "queuedRow digest ev key at =
     outboxRowFor ev (deliverySnapshot digest ev (key_dimensions key) at) (key_dimensions key)"

lemma queuedRow_matches:
  assumes "shortInstant at" and "1 \<le> event_sequence ev" and "event_sequence ev \<le> MAX_EVENT_SEQUENCE"
  obtains delivery where "parseDeliveryProjection (queuedRow digest ev key at) = Inr delivery"
    and "canonicalDeliveryMatches digest delivery ev (key_dimensions key) at"
  using assms that
  by (simp add: parseDeliveryProjection_def queuedRow_def outboxRowFor_def deliverySnapshot_def Let_def
      canonicalDeliveryMatches_def shortInstant_def)

lemma persist_applied:
  assumes plan: "planDecision digest newStateId incidentId env e (intent, s') expected db = Inr (Some plan)"
    and run: "runBatch (plan_statements plan) db 0 = Some (db', changes)" "list_all (\<lambda>n. n = 1) changes"
    and sel: "selectStates env (identityFor e) db' = [new]"
    and shape: "rowShape digest env (identityFor e) db' new s'"
    and fits: "plan_key plan = row_key new" "plan_generation plan = row_generation new"
      "plan_revision plan = row_revision new" "row_lastEvaluatedAt new = eval_asOf e" "length (eval_asOf e) = 24"
      "case plan_evidence plan of None \<Rightarrow> True | Some x \<Rightarrow> row_columns new = stateColumnsOf x"
    and inc: "case plan_incident plan of None \<Rightarrow> True | Some d \<Rightarrow> currentIncidents db' new = [d]"
    and delivered: "case plan_event plan of None \<Rightarrow> True | Some ev \<Rightarrow>
      plan_incident plan = Some (event_incident ev) \<and> 1 \<le> event_sequence ev \<and>
      event_sequence ev \<le> MAX_EVENT_SEQUENCE \<and>
      selectOutbox env (identityFor e) (event_kind ev) (row_generation new) (eval_asOf e) db' =
        [queuedRow digest ev (row_key new) (eval_asOf e)]"
  shows "persistDecision digest newStateId incidentId env e (intent, s') expected db
    = (db', Inr Applied)"
proof -
  note m = rowShape_match[OF shape]
  have at: "shortInstant (eval_asOf e)"
    using shape fits(4,5) by (simp add: rowShape_def shortInstant_def)
  have delivery: "compareDelivery digest env (identityFor e) (row_generation new) (eval_asOf e) (plan_event plan)
      True db' = Inr Applied"
  proof (cases "plan_event plan")
    case (Some ev)
    obtain delivery where "parseDeliveryProjection (queuedRow digest ev (row_key new) (eval_asOf e)) = Inr delivery"
        "canonicalDeliveryMatches digest delivery ev (key_dimensions (row_key new)) (eval_asOf e)"
      by (rule queuedRow_matches[OF at, of ev digest "row_key new"]) (use Some delivered in auto)
    then show ?thesis
      using Some delivered rowShape_key(4)[OF shape] by (simp add: compareDelivery_def)
  qed (simp add: compareDelivery_def)
  have "stateMatches new (plan_key plan) (expected \<noteq> None) e s' (plan_evidence plan)
      (plan_generation plan) (plan_revision plan)"
    using m fits by (simp add: stateMatches_def)
  moreover have "filter (\<lambda>a. inc_generation a = plan_generation plan)
      (concat (map (incidentsOf db') (selectStates env (identityFor e) db'))) = currentIncidents db' new"
    using sel fits(2) by (simp add: currentIncidents_def)
  moreover have "map_option (\<lambda>ev. ev\<lparr>event_incident := d\<rparr>) (plan_event plan) = plan_event plan"
    if "plan_incident plan = Some d" for d
    using delivered that by (cases "plan_event plan") auto
  ultimately have "comparePersisted digest env (identityFor e) (plan_key plan) (expected \<noteq> None) e (intent, s')
      (plan_evidence plan) (plan_generation plan) (plan_revision plan) (plan_incident plan) (plan_event plan) True db'
      = Inr Applied"
    using sel inc shape_current[OF shape] rowShape_parse(1)[OF shape] delivery fits(2)
    by (auto simp: comparePersisted_def incidentMatches_def split: option.splits)
  then show ?thesis
    using plan run m(8) by (simp add: persistDecision_def Let_def)
qed

lemma incidentConfirmed_row:
  assumes row: "row \<in> set (db_states db)" and own: "ownIncident row d" and x: "columnsHold row x" "showsEvidence d x"
    and "row_currentSeverity row = Some (inc_severity d)" and "row_breachSeverity row = None"
  shows "incidentConfirmed db d"
proof -
  have "metricColumns.truncate (row_columns row) = inc_metrics d"
    "if inc_severity d = Warning then state_warningThreshold (row_columns row) = Some (inc_threshold d)
     else state_criticalThreshold (row_columns row) = Some (inc_threshold d)"
    using x by (cases "sel_severity x"; simp add: columnsHold_def showsEvidence_def)+
  then show ?thesis
    using assms(1,2,5,6) by (auto simp: incidentConfirmed_def list_ex_iff ownIncident_def)
qed

end
