(* ===== verification/Alert_State_Delivery.thy ===== *)
theory Alert_State_Delivery
  imports Alert_State_Refinement
begin

section \<open>Queueing a delivery\<close>

text \<open>
  The row of \<open>alert_outbox\<close> a decision writes passes the constraints and the guards of the table,
  is the only row the comparison finds, and keeps the deliveries of the incidents in order.
\<close>

subsection \<open>Keys and digests\<close>

text \<open>SHA-256 has 32 bytes.\<close>

definition digest32 :: "digestFunction \<Rightarrow> bool" where
  "digest32 digest \<longleftrightarrow> (\<forall>bs. length (digest bs) = 32)"

lemma canonicalReference_canonical:
  "digest32 digest \<Longrightarrow> isCanonicalBase64Url32 (canonicalReference digest domain parts)"
  unfolding isCanonicalBase64Url32_iff canonicalReference_def digestBytes_def digest32_def by blast

lemma canonical_length: "isCanonicalBase64Url32 s \<Longrightarrow> length s = 43"
  by (cases "HMAC_REFERENCE_PATTERN s") (simp_all add: isCanonicalBase64Url32_def HMAC_REFERENCE_PATTERN_def)

lemma hexDigit_hex: "n < 16 \<Longrightarrow> hexDigit n \<in> set ''0123456789abcdef''"
proof -
  have "\<forall>n \<in> set [0..<16]. hexDigit n \<in> set ''0123456789abcdef''"
    by code_simp
  then show "n < 16 \<Longrightarrow> hexDigit n \<in> set ''0123456789abcdef''"
    by simp
qed

lemma hexByte_all:
  assumes "\<And>k. k < 16 \<Longrightarrow> P (hexDigit k)"
  shows "length (hexByte n) = 2 \<and> list_all P (hexByte n)"
  using assms by (simp add: hexByte_def)

lemma hexBytes_all:
  assumes "\<And>k. k < 16 \<Longrightarrow> P (hexDigit k)"
  shows "length (concat (map (\<lambda>b :: 8 word. hexByte (unat b)) bs)) = 2 * length bs \<and>
    list_all P (concat (map (\<lambda>b. hexByte (unat b)) bs))"
proof (induction bs)
  case (Cons b bs)
  then show ?case
    using hexByte_all[of P "unat b"] assms by simp
qed simp

lemma sha256Hex_hex:
  assumes "digest32 digest"
  shows "isHexText (sha256Hex digest value)"
  using hexBytes_all[of "\<lambda>c. c \<in> set ''0123456789abcdef''" "digest (utf8 value)"] hexDigit_hex assms
  unfolding isHexText_def sha256Hex_def digestBytes_def digest32_def by simp

subsection \<open>The length of the payload\<close>

lemma jsonString_bound: "length (jsonString s) \<le> 6 * length s + 2"
proof -
  have "length (jsonChar c) \<le> 6" for c
    by (simp add: jsonChar_def hexByte_def Let_def)
  then have "length (concat (map jsonChar s)) \<le> 6 * length s"
  proof (induction s)
    case (Cons c s)
    then have "length (jsonChar c) \<le> 6" "length (concat (map jsonChar s)) \<le> 6 * length s"
      by blast+
    then show ?case by simp
  qed simp
  then show ?thesis
    by (simp add: jsonString_def)
qed

lemma jsonInt_bound: "0 \<le> n \<Longrightarrow> n \<le> 1000000000 \<Longrightarrow> length (jsonInt n) \<le> 10"
  using jsonInt_length[of n 9] by simp

lemma jsonNullable_bound:
  "pred_option (\<lambda>y. length (text y) \<le> k) x \<Longrightarrow> 4 \<le> k \<Longrightarrow> length (jsonNullable text x) \<le> k"
  by (cases x) (simp_all add: jsonNullable_def)

lemma name_lengths:
  "length (jsonString (ruleIdString r)) \<le> 48" "length (jsonString (environmentString env)) \<le> 48"
  "length (jsonString (sourceKindString source)) \<le> 48" "length (jsonString (severityString sev)) \<le> 48"
  "length (jsonString (incidentStatusString st)) \<le> 48" "length (jsonString (eventKindString kind)) \<le> 48"
  "length (jsonString (metricNameString name)) \<le> 48" "length (jsonString (kindString k)) \<le> 48"
  "length (jsonString (unitString u)) \<le> 48" "length (jsonString (queueNameString q)) \<le> 48"
  subgoal by (cases r; simp only:; code_simp)
  subgoal by (cases env; simp only:; code_simp)
  subgoal by (cases source; simp only:; code_simp)
  subgoal by (cases sev; simp only:; code_simp)
  subgoal by (cases st; simp only:; code_simp)
  subgoal by (cases kind; simp only:; code_simp)
  subgoal by (cases name; simp only:; code_simp)
  subgoal by (cases k; simp only:; code_simp)
  subgoal by (cases u; simp only:; code_simp)
  subgoal by (cases q; simp only:; code_simp)
  done

text \<open>The bounds of the values, member by member.\<close>

definition dimsBounded :: "dimensionColumns \<Rightarrow> bool" where
  "dimsBounded dims \<longleftrightarrow>
     pred_option (\<lambda>s. length (jsonString s) \<le> 260) (subjectRef dims) \<and>
     pred_option (\<lambda>n. length (jsonInt n) \<le> 48) (hashVersion dims) \<and>
     pred_option (\<lambda>s. length (jsonString s) \<le> 48) (queueName dims)"

definition metricsBounded :: "metricColumns \<Rightarrow> bool" where
  "metricsBounded m \<longleftrightarrow>
     length (jsonInt (windowSeconds m)) \<le> 48 \<and> length (jsonInt (observedValue m)) \<le> 48 \<and>
     pred_option (\<lambda>n. length (jsonInt n) \<le> 48) (observedNumerator m) \<and>
     pred_option (\<lambda>n. length (jsonInt n) \<le> 48) (observedDenominator m) \<and>
     length (jsonInt (minimumSampleCount m)) \<le> 48 \<and>
     pred_option (\<lambda>n. length (jsonInt n) \<le> 48) (minimumNumeratorCount m) \<and>
     pred_option (\<lambda>n. length (jsonInt n) \<le> 48) (secondaryObservedValue m) \<and>
     pred_option (\<lambda>n. length (jsonInt n) \<le> 48) (secondaryThreshold m)"

lemma dims_bounded:
  assumes "validDimension allowed d"
  shows "dimsBounded (dimensionColumnsOf d)"
proof (cases d)
  case (Hashed k ref)
  then have "length (refValue ref) = 43" "keyVersion ref = 1"
    using assms canonical_length by (auto simp: validReference_def)
  then show ?thesis
    using Hashed jsonString_bound[of "refValue ref"] jsonInt_bound[of 1] by (simp add: dimsBounded_def)
qed (simp_all add: dimsBounded_def name_lengths)

lemma metrics_bounded:
  assumes "validSelectedEvidence x"
  shows "metricsBounded (metricColumnsOf x)"
proof -
  have bound: "length (jsonInt n) \<le> 48" if "0 \<le> n" "n \<le> 1000000000" for n
    using jsonInt_bound[OF that] by simp
  have evidence: "length (jsonInt (ev_observedValue e)) \<le> 48 \<and> length (jsonInt (ev_threshold e)) \<le> 48 \<and>
      pred_option (\<lambda>n. length (jsonInt n) \<le> 48) (ev_observedNumerator e) \<and>
      pred_option (\<lambda>n. length (jsonInt n) \<le> 48) (ev_observedDenominator e) \<and>
      pred_option (\<lambda>n. length (jsonInt n) \<le> 48) (ev_minimumNumeratorCount e) \<and>
      length (jsonInt (ev_minimumSampleCount e)) \<le> 48" if "validMetricEvidence e" for e :: "'a alertMetricEvidence_scheme"
    using that bound
    by (auto simp: validMetricEvidence_def inDomain_def MAX_EVIDENCE_VALUE_def MAX_RATIO_FIELD_def
        ratioFieldsValid_def scalarFieldsValid_def split: if_splits option.splits)
  have "validMetricEvidence x" "pred_option validMetricEvidence (sel_secondary x)" "sel_windowSeconds x \<in> {300, 900, 3600}"
    using assms by (simp_all add: validSelectedEvidence_def)
  then show ?thesis
    using evidence[of x] evidence bound
    by (cases "sel_secondary x") (auto simp: metricsBounded_def metricColumnsOf_def Let_def)
qed

lemma jsonObject_bound:
  assumes "list_all (\<lambda>k. length (jsonString k) \<le> 24) (map fst members)"
    and "list_all2 (\<lambda>v b. length v \<le> b) (map snd members) bounds"
  shows "length (jsonObject members) \<le> 2 + 26 * length members + sum_list bounds"
proof -
  have "sum_list (map (\<lambda>(k, v). length (jsonString k) + length v + 1) members) \<le> 25 * length members + sum_list bounds"
    using assms
  proof (induction members arbitrary: bounds)
    case (Cons member members)
    then obtain b bs where bounds: "bounds = b # bs" "length (snd member) \<le> b"
        "list_all2 (\<lambda>v b. length v \<le> b) (map snd members) bs"
      by (cases bounds) auto
    then show ?case
      using Cons.IH[OF _ bounds(3)] Cons.prems(1) by (cases member) simp
  qed simp
  then show ?thesis
    unfolding jsonObject_length by linarith
qed

lemma payload_keys:
  "list_all (\<lambda>k. length (jsonString k) \<le> 24)
     [''schemaVersion'', ''templateVersion'', ''incidentId'', ''generation'', ''deliveryId'', ''idempotencyKey'',
      ''eventKind'', ''eventSequence'', ''channel'', ''rule'', ''environment'', ''sourceKind'', ''severity'',
      ''status'', ''firstSeenAt'', ''lastSeenAt'', ''windowSeconds'', ''metricName'', ''metricKind'',
      ''metricUnit'', ''observedValue'', ''observedNumerator'', ''observedDenominator'', ''minimumSampleCount'',
      ''minimumNumeratorCount'', ''threshold'', ''secondaryMetricName'', ''secondaryMetricKind'',
      ''secondaryMetricUnit'', ''secondaryObservedValue'', ''secondaryThreshold'', ''subjectRef'',
      ''hashVersion'', ''provider'', ''queue'', ''reason'', ''surface'']"
  by code_simp

lemma payload_length:
  fixes kind :: eventKind and rule :: alertRuleId and env :: alertEnvironment and source :: alertSourceKind
    and severity :: activeSeverity and st :: incidentStatus
  assumes "length incidentId = 36" and "0 \<le> generation" "generation \<le> 1000000"
    and "length deliveryKey = 51" and "length idempotencyKey = 43" and "1 \<le> sequence" "sequence \<le> 1000000000"
    and "length firstSeen = 24" and "length lastSeen = 24" and "metricsBounded metrics" and "dimsBounded dims"
    and "0 \<le> limit" "limit \<le> 1000000000"
  defines "text \<equiv> payloadText incidentId generation deliveryKey idempotencyKey kind sequence rule env source
      severity st firstSeen lastSeen metrics limit dims"
  shows "2 \<le> length text" and "length text \<le> 4096"
proof -
  show "2 \<le> length text"
    by (simp add: text_def payloadText_def jsonObject_def)
  have ints: "length (jsonInt generation) \<le> 48" "length (jsonInt sequence) \<le> 48" "length (jsonInt limit) \<le> 48"
    "length (jsonInt 1) \<le> 48"
    using assms(2,3,6,7,12,13) jsonInt_bound[of generation] jsonInt_bound[of sequence] jsonInt_bound[of limit]
      jsonInt_bound[of 1] by auto
  have strings: "length (jsonString incidentId) \<le> 218" "length (jsonString deliveryKey) \<le> 308"
    "length (jsonString idempotencyKey) \<le> 260" "length (jsonString firstSeen) \<le> 146"
    "length (jsonString lastSeen) \<le> 146"
    using jsonString_bound[of incidentId] jsonString_bound[of deliveryKey] jsonString_bound[of idempotencyKey]
      jsonString_bound[of firstSeen] jsonString_bound[of lastSeen] assms(1,4,5,8,9) by simp_all
  have secondary: "length (jsonNullable (\<lambda>n. jsonString (metricNameString n)) x) \<le> 48"
    "length (jsonNullable (\<lambda>k. jsonString (kindString k)) y) \<le> 48"
    "length (jsonNullable (\<lambda>u. jsonString (unitString u)) z) \<le> 48" for x y z
    by (rule jsonNullable_bound; simp add: option.pred_set name_lengths)+
  have nullable: "length (jsonNullable jsonInt x) \<le> 48" if "pred_option (\<lambda>n. length (jsonInt n) \<le> 48) x" for x
    by (rule jsonNullable_bound[OF that]) simp
  have subject: "length (jsonNullable jsonString (subjectRef dims)) \<le> 260"
    by (rule jsonNullable_bound) (use assms(11) in \<open>simp_all add: dimsBounded_def\<close>)
  have queue: "length (jsonNullable jsonString (queueName dims)) \<le> 48"
    by (rule jsonNullable_bound) (use assms(11) in \<open>simp_all add: dimsBounded_def\<close>)
  have email: "length (jsonString ''email'') \<le> 48"
    by code_simp
  let ?b = "[48, 48, 218, 48, 308, 260] @ replicate 8 48 @ [146, 146] @ replicate 15 48 @ [260] @ replicate 5 (48 :: nat)"
  have "length text \<le> 2 + 26 * 37 + sum_list ?b"
    unfolding text_def payloadText_def
    by (rule order_trans[OF jsonObject_bound[where bounds = ?b]])
      (use assms(10,11) ints strings secondary nullable subject queue email name_lengths payload_keys in
        \<open>simp_all add: metricsBounded_def dimsBounded_def numeral_eq_Suc\<close>)
  then show "length text \<le> 4096"
    by (simp add: sum_list_replicate)
qed

subsection \<open>The row is accepted\<close>

lemma fold_max_init: "n \<le> fold max ns (n :: int)"
proof (induction ns arbitrary: n)
  case (Cons m ns)
  have "n \<le> max m n"
    by simp
  also have "max m n \<le> fold max ns (max m n)"
    by (rule Cons.IH)
  finally show ?case
    by (simp only: fold_simps)
qed simp

lemma fold_max: "x \<in> set ns \<Longrightarrow> x \<le> fold max ns (n :: int)"
proof (induction ns arbitrary: n)
  case (Cons m ns)
  show ?case
  proof (cases "x \<in> set ns")
    case True
    then show ?thesis
      using Cons.IH by simp
  next
    case False
    then have "x \<le> max m n"
      using Cons.prems by simp
    then show ?thesis
      using order_trans[OF _ fold_max_init[of "max m n" ns]] by (simp only: fold_simps)
  qed
qed simp

lemma nextSequence_after:
  assumes "q \<in> set (db_outbox db)" "out_alertId q = alertId" "out_generation q = generation" "out_eventKind q = Reminder"
  shows "out_eventSequence q < nextSequence db alertId generation"
proof -
  have "out_eventSequence q \<in> set (map out_eventSequence (remindersOf db alertId generation))"
    using assms by (simp add: remindersOf_def)
  then show ?thesis
    using fold_max[of "out_eventSequence q"] fold_max_init
    by (cases "map out_eventSequence (remindersOf db alertId generation)") (auto simp: nextSequence_def)
qed

lemma nextSequence_positive:
  assumes "\<And>q. q \<in> set (db_outbox db) \<Longrightarrow> out_alertId q = alertId \<Longrightarrow> 1 \<le> out_eventSequence q"
  shows "1 \<le> nextSequence db alertId generation"
proof (cases "remindersOf db alertId generation")
  case (Cons q qs)
  then have "q \<in> set (remindersOf db alertId generation)"
    by simp
  then have "q \<in> set (db_outbox db)" "out_alertId q = alertId" "out_generation q = generation" "out_eventKind q = Reminder"
    by (simp_all add: remindersOf_def)
  then show ?thesis
    using nextSequence_after[of q] assms by fastforce
qed (simp add: nextSequence_def)

text \<open>The event of a decision on the incident \<open>d\<close>, before it is queued.\<close>

definition eventFits :: "alertDb \<Rightarrow> alertStateRow \<Rightarrow> incidentRow \<Rightarrow> eventKind \<Rightarrow> int \<Rightarrow> bool" where
  "eventFits db new d kind sequence \<longleftrightarrow>
     sequence = (if kind = Reminder then nextSequence db (inc_id d) (inc_generation d) else 1) \<and>
     1 \<le> sequence \<and> sequence \<le> MAX_EVENT_SEQUENCE \<and>
     (case kind of Opened \<Rightarrow> inc_status d = Open | ResolvedEvent \<Rightarrow> inc_status d = Resolved
      | _ \<Rightarrow> inc_status d \<noteq> Resolved) \<and>
     (kind = Escalated \<longrightarrow> inc_severity d = Critical) \<and>
     row_currentSeverity new = (if kind = ResolvedEvent then None else Some (inc_severity d)) \<and>
     (\<forall>q \<in> set (db_outbox db). out_alertId q = inc_id d \<and> kind \<noteq> Reminder \<longrightarrow> out_eventKind q \<noteq> kind)"

definition eventOn :: "incidentRow \<Rightarrow> eventKind \<Rightarrow> int \<Rightarrow> plannedEvent" where
  "eventOn d kind sequence =
     \<lparr>event_kind = kind, event_sequence = sequence, event_incident = d, event_incidentStatus = inc_status d,
      event_severity = inc_severity d\<rparr>"

text \<open>The keys of the new row are not those of a queued row.\<close>

definition deliveryFree :: "digestFunction \<Rightarrow> alertDb \<Rightarrow> string \<Rightarrow> int \<Rightarrow> eventKind \<Rightarrow> int \<Rightarrow> bool" where
  "deliveryFree digest db incidentId generation kind sequence \<longleftrightarrow>
     list_all (\<lambda>q. out_deliveryKey q \<noteq> deliveryKeyFor digest incidentId generation kind sequence \<and>
       out_idempotencyKey q \<noteq> idempotencyKeyFor digest incidentId generation kind sequence) (db_outbox db)"

lemma queuedRow_fields:
  "out_deliveryKey (queuedRow digest (eventOn d kind n) key at) = deliveryKeyFor digest (inc_id d) (inc_generation d) kind n"
  "out_idempotencyKey (queuedRow digest (eventOn d kind n) key at) = idempotencyKeyFor digest (inc_id d) (inc_generation d) kind n"
  "out_alertId (queuedRow digest (eventOn d kind n) key at) = inc_id d"
  "out_generation (queuedRow digest (eventOn d kind n) key at) = inc_generation d"
  "out_eventKind (queuedRow digest (eventOn d kind n) key at) = kind"
  "out_eventSequence (queuedRow digest (eventOn d kind n) key at) = n"
  "out_status (queuedRow digest (eventOn d kind n) key at) = OutPending"
  "out_attempts (queuedRow digest (eventOn d kind n) key at) = 0"
  "out_nextAttemptAt (queuedRow digest (eventOn d kind n) key at) = Some at"
  "out_createdAt (queuedRow digest (eventOn d kind n) key at) = at"
  "out_updatedAt (queuedRow digest (eventOn d kind n) key at) = at"
  "out_severity (queuedRow digest (eventOn d kind n) key at) = inc_severity d"
  "out_incidentStatus (queuedRow digest (eventOn d kind n) key at) = inc_status d"
  "out_metrics (queuedRow digest (eventOn d kind n) key at) = inc_metrics d"
  "out_threshold (queuedRow digest (eventOn d kind n) key at) = inc_threshold d"
  "out_firstSeenAt (queuedRow digest (eventOn d kind n) key at) = inc_firstSeenAt d"
  "out_lastSeenAt (queuedRow digest (eventOn d kind n) key at) = inc_lastSeenAt d"
  "out_ruleId (queuedRow digest (eventOn d kind n) key at) = inc_ruleId d"
  "out_environment (queuedRow digest (eventOn d kind n) key at) = inc_environment d"
  "out_sourceKind (queuedRow digest (eventOn d kind n) key at) = inc_sourceKind d"
  "out_dimensions (queuedRow digest (eventOn d kind n) key at) = key_dimensions key"
  by (simp_all add: queuedRow_def outboxRowFor_def deliverySnapshot_def eventOn_def Let_def)

lemma queuedRow_payload:
  fixes d kind n key at digest
  defines "q \<equiv> queuedRow digest (eventOn d kind n) key at"
  shows "out_payloadJson q = payloadText (out_alertId q) (out_generation q) (out_deliveryKey q) (out_idempotencyKey q)
       (out_eventKind q) (out_eventSequence q) (out_ruleId q) (out_environment q) (out_sourceKind q)
       (out_severity q) (out_incidentStatus q) (out_firstSeenAt q) (out_lastSeenAt q) (out_metrics q)
       (out_threshold q) (out_dimensions q)"
    and "out_payloadSha256 q = sha256Hex digest (out_payloadJson q)"
  by (simp_all add: q_def queuedRow_def outboxRowFor_def deliverySnapshot_def eventOn_def canonicalPayload_def Let_def)

lemma snapshotCurrent_queued:
  assumes new: "new \<in> set (db_states db)" and d: "d \<in> set (db_incidents db)" "ownIncident new d"
    and fits: "eventFits db new d kind n"
  shows "snapshotCurrent db (queuedRow digest (eventOn d kind n) (row_key new) at)"
  using assms unfolding snapshotCurrent_def list_ex_iff queuedRow_fields
  by (intro bexI[OF _ d(1)]) (auto simp: eventFits_def ownIncident_def intro!: bexI[OF _ new])

lemma uuidV4_length: "uuidV4 s \<Longrightarrow> length s = 36"
  by (simp add: uuidV4_def)

lemma outboxChecks_queued:
  assumes digest: "digest32 digest" and d: "ownIncident new d" "showsEvidence d x"
    and gen: "1 \<le> row_generation new" "row_generation new \<le> MAX_STATE_GENERATION"
    and key: "validDimension allowed dim" "key_dimensions (row_key new) = dimensionColumnsOf dim"
    and fits: "eventFits db new d kind n"
  shows "\<not> outboxChecksFail (queuedRow digest (eventOn d kind n) (row_key new) at)"
proof -
  let ?q = "queuedRow digest (eventOn d kind n) (row_key new) at"
  have valid: "validSelectedEvidence x"
    using d(2) evidenceForRule_valid by (auto simp: showsEvidence_def)
  then have limits: "0 \<le> inc_threshold d" "inc_threshold d \<le> 1000000000" "inc_threshold d \<le> observedValue (inc_metrics d)"
    using d(2) by (auto simp: showsEvidence_def validSelectedEvidence_def validMetricEvidence_def inDomain_def
        MAX_EVIDENCE_VALUE_def metricColumnsOf_def Let_def)
  have bounded: "metricsBounded (inc_metrics d)" "dimsBounded (key_dimensions (row_key new))"
    using metrics_bounded[OF valid] dims_bounded[OF key(1)] d(2) key(2) by (simp_all add: showsEvidence_def)
  have lengths: "length (inc_id d) = 36" "length (inc_firstSeenAt d) = 24" "length (inc_lastSeenAt d) = 24"
    using d(1) by (simp_all add: ownIncident_def uuidV4_length shortInstant_def)
  have keys: "take 8 (out_deliveryKey ?q) = ''pgid_ad_''" "isCanonicalBase64Url32 (drop 8 (out_deliveryKey ?q))"
    "isCanonicalBase64Url32 (out_idempotencyKey ?q)"
    unfolding queuedRow_fields deliveryKeyFor_def idempotencyKeyFor_def
    using canonicalReference_canonical[OF digest] by simp_all
  have key_lengths: "length (out_deliveryKey ?q) = 51" "length (out_idempotencyKey ?q) = 43"
    using canonicalReference_canonical[OF digest, THEN canonical_length]
    by (simp_all add: queuedRow_fields deliveryKeyFor_def idempotencyKeyFor_def)
  have sequence: "1 \<le> n" "n \<le> 1000000000" "kind \<noteq> Reminder \<longrightarrow> n = 1"
    using fits by (auto simp: eventFits_def MAX_EVENT_SEQUENCE_def)
  have generation: "1 \<le> inc_generation d" "inc_generation d \<le> 1000000"
    using d(1) gen by (simp_all add: ownIncident_def MAX_STATE_GENERATION_def)
  have payload: "2 \<le> length (out_payloadJson ?q)" "length (out_payloadJson ?q) \<le> 4096"
    unfolding queuedRow_payload(1)
    by (rule payload_length; use lengths key_lengths sequence generation limits bounded in \<open>simp add: queuedRow_fields\<close>)+
  have hex: "isHexText (out_payloadSha256 ?q)"
    unfolding queuedRow_payload(2) by (rule sha256Hex_hex[OF digest])
  have times: "getTime (inc_firstSeenAt d) \<le> getTime (inc_lastSeenAt d)"
    using d(1) by (simp add: ownIncident_def)
  have st: "case kind of Opened \<Rightarrow> inc_status d = Open | ResolvedEvent \<Rightarrow> inc_status d = Resolved
      | _ \<Rightarrow> inc_status d \<noteq> Resolved" "kind = Escalated \<longrightarrow> inc_severity d = Critical"
    using fits by (simp_all add: eventFits_def)
  show ?thesis
    unfolding outboxChecksFail_def queuedRow_payload(1)[symmetric]
    using keys sequence generation payload hex limits times st
    by (cases kind) (simp_all add: queuedRow_fields)
qed

subsection \<open>The row is queued and found\<close>

lemma concat_map_if: "concat (map (\<lambda>r. if P r then [q] else []) rs) = map (\<lambda>_. q) (filter P rs)"
  by (induction rs) simp_all

lemma incident_unique:
  assumes "keysSound db" and "a \<in> set (db_incidents db)"
  shows "filter (\<lambda>b. inc_id b = inc_id a) (db_incidents db) = [a]"
proof -
  have "distinct (map inc_id (db_incidents db))"
    using assms(1) by (simp add: keysSound_def)
  then have "filter (\<lambda>b. inc_id b = inc_id a) as = (if a \<in> set as then [a] else [])"
    if "set as \<subseteq> set (db_incidents db)" "distinct (map inc_id as)" for as
    using that(2,1)
  proof (induction as)
    case (Cons b bs)
    moreover have "inc_id b = inc_id a \<longleftrightarrow> b = a" if "b \<in> set (db_incidents db)" for b
      using \<open>distinct (map inc_id (db_incidents db))\<close> that assms(2) by (auto simp: distinct_map inj_on_def)
    ultimately show ?case
      by (auto simp: filter_empty_conv)
  qed simp
  then show ?thesis
    using assms by (simp add: keysSound_def)
qed

lemma selectOutbox_none:
  assumes none: "\<And>q a. q \<in> set rows \<Longrightarrow> a \<in> set (db_incidents db) \<Longrightarrow> inc_id a = out_alertId q \<Longrightarrow>
      inc_stateId a = key_id (row_key new) \<Longrightarrow> out_generation q = generation \<Longrightarrow> out_eventKind q = kind \<Longrightarrow>
      kind = Reminder \<and> out_createdAt q \<noteq> at"
    and sel: "selectStates env i db = [new]" and db': "db_outbox db' = rows" "db_incidents db' = db_incidents db"
    "db_states db' = db_states db"
  shows "selectOutbox env i kind generation at db' = []"
proof -
  have "filter (\<lambda>row. key_id (row_key row) = inc_stateId a \<and> selects env i row \<and> out_generation q = generation \<and>
      out_eventKind q = kind \<and> (if kind = Reminder then out_createdAt q = at else out_eventSequence q = 1))
      (db_states db) = []"
    if q: "q \<in> set rows" "a \<in> set (db_incidents db)" "inc_id a = out_alertId q" for q a
  proof -
    have False if row: "row \<in> set (db_states db)" "key_id (row_key row) = inc_stateId a" "selects env i row"
      "out_generation q = generation" "out_eventKind q = kind"
      "if kind = Reminder then out_createdAt q = at else out_eventSequence q = 1" for row
    proof -
      have "row = new"
        by (rule filter_only[OF sel[unfolded selectStates_def] row(1,3)])
      then show False
        using none[OF q _ row(4,5)] row(2,6) by simp
    qed
    then show ?thesis
      by (auto simp: filter_empty_conv)
  qed
  then show ?thesis
    unfolding selectOutbox_def concat_map_if db' concat_eq_Nil_conv by (simp add: concat_eq_Nil_conv)
qed

lemma deliveriesFit_append:
  "deliveriesFit row (xs @ ys) a \<longleftrightarrow> deliveriesFit row xs a \<and> deliveriesFit row ys a"
  by (auto simp: deliveriesFit_def)

lemma outboxInsert_runs:
  assumes digest: "digest32 digest" and sel: "selectStates env i db = [new]"
    and d: "currentIncidents db new = [d]" "ownIncident new d" "showsEvidence d x"
    and gen: "1 \<le> row_generation new" "row_generation new \<le> MAX_STATE_GENERATION"
    and key: "validDimension allowed dim" "key_dimensions (row_key new) = dimensionColumnsOf dim"
    and hold: "outboxHolds db new" and fits: "eventFits db new d kind n"
    and free: "deliveryFree digest db (inc_id d) (inc_generation d) kind n" and at: "row_lastEvaluatedAt new = at"
    and older: "\<And>q. q \<in> set (db_outbox db) \<Longrightarrow> out_alertId q = inc_id d \<Longrightarrow> getTime (out_createdAt q) < getTime at"
  defines "q \<equiv> queuedRow digest (eventOn d kind n) (row_key new) at"
  defines "db' \<equiv> db\<lparr>db_outbox := db_outbox db @ [q]\<rparr>"
  shows "outboxInsert digest (eventOn d kind n) (key_dimensions (row_key new)) at db 1 = Some (db', 1)"
    and "selectOutbox env i kind (row_generation new) at db' = [q]" and "outboxHolds db' new"
proof -
  have cur: "d \<in> set (incidentsOf db new)"
    using filter_mem[OF d(1)[unfolded currentIncidents_def]] by simp
  then have mem: "d \<in> set (db_incidents db)" "inc_stateId d = key_id (row_key new)" "inc_generation d = row_generation new"
    using d(2) by (simp_all add: incidentsOf_def ownIncident_def)
  have new: "new \<in> set (db_states db)"
    using filter_mem[OF sel[unfolded selectStates_def]] by simp
  have taken: "\<not> outboxTaken db q"
  proof -
    have "out_eventSequence r \<noteq> n"
      if "r \<in> set (db_outbox db)" "out_alertId r = inc_id d" "out_generation r = inc_generation d" "out_eventKind r = kind"
      for r
      using nextSequence_after[OF that(1-3)] that fits by (cases "kind = Reminder") (auto simp: eventFits_def)
    then show ?thesis
      using free by (auto simp: outboxTaken_def q_def queuedRow_fields list_ex_iff deliveryFree_def list_all_iff)
  qed
  have checks: "\<not> outboxChecksFail q"
    unfolding q_def by (rule outboxChecks_queued[OF digest d(2,3) gen key fits])
  have guards: "\<not> reminderGuardAborts db q" "\<not> outboxGuardAborts db q"
    using fits snapshotCurrent_queued[OF new mem(1) d(2) fits]
    by (auto simp: reminderGuardAborts_def outboxGuardAborts_def eventFits_def q_def queuedRow_fields)
  show "outboxInsert digest (eventOn d kind n) (key_dimensions (row_key new)) at db 1 = Some (db', 1)"
    using taken checks guards by (simp add: outboxInsert_def db'_def q_def queuedRow_def Let_def)
  have current: "a = d" if "a \<in> set (db_incidents db)" "inc_stateId a = key_id (row_key new)"
      "inc_generation a = row_generation new" for a
    using filter_only[OF d(1)[unfolded currentIncidents_def]] that by (simp add: incidentsOf_def)
  have fitting: "out_generation r = inc_generation a" if "r \<in> set (db_outbox db)" "a \<in> set (db_incidents db)"
      "inc_stateId a = key_id (row_key new)" "inc_id a = out_alertId r" for r a
    using hold that by (auto simp: outboxHolds_def deliveriesFit_def incidentsOf_def)
  have old: "selectOutbox env i kind (row_generation new) at (db\<lparr>db_outbox := db_outbox db\<rparr>) = []"
  proof (rule selectOutbox_none[where rows = "db_outbox db" and db = db and new = new])
    fix r a
    assume r: "r \<in> set (db_outbox db)" "a \<in> set (db_incidents db)" "inc_id a = out_alertId r"
      "inc_stateId a = key_id (row_key new)" "out_generation r = row_generation new" "out_eventKind r = kind"
    then have a: "a = d"
      using current fitting[OF r(1,2,4,3)] by simp
    show "kind = Reminder \<and> out_createdAt r \<noteq> at"
      using older[OF r(1)] fits r a by (auto simp: eventFits_def)
  qed (simp_all add: sel)
  have alert: "filter (\<lambda>a. inc_id a = out_alertId q) (db_incidents db) = [d]"
    using incident_unique[OF _ mem(1)] hold by (simp add: outboxHolds_def q_def queuedRow_fields)
  have row: "filter (\<lambda>row. key_id (row_key row) = inc_stateId d \<and> selects env i row \<and>
      out_generation q = row_generation new \<and> out_eventKind q = kind \<and>
      (if kind = Reminder then out_createdAt q = at else out_eventSequence q = 1)) (db_states db) = [new]"
    by (rule filter_unique[OF sel[unfolded selectStates_def]])
      (use mem fits filter_mem[OF sel[unfolded selectStates_def]] in
        \<open>auto simp: q_def queuedRow_fields eventFits_def\<close>)
  have "concat (map (\<lambda>a. map (\<lambda>_. q) (filter (\<lambda>row. key_id (row_key row) = inc_stateId a \<and>
      selects env i row \<and> out_generation q = row_generation new \<and> out_eventKind q = kind \<and>
      (if kind = Reminder then out_createdAt q = at else out_eventSequence q = 1)) (db_states db)))
      (filter (\<lambda>a. inc_id a = out_alertId q) (db_incidents db))) = [q]"
    unfolding alert list.map row by simp
  then show "selectOutbox env i kind (row_generation new) at db' = [q]"
    using old by (simp add: selectOutbox_def concat_map_if db'_def)
  have "keysSound db'"
    using hold mem(1) by (auto simp: outboxHolds_def keysSound_def db'_def q_def queuedRow_fields)
  moreover have "deliveriesFit new (db_outbox db') a" if a: "a \<in> set (incidentsOf db' new)" for a
  proof -
    have own: "a \<in> set (incidentsOf db new)"
      using a by (simp add: incidentsOf_def db'_def)
    have "a = d" if "inc_id a = inc_id d"
      using filter_only[OF incident_unique[OF _ mem(1)], of a] own that hold
      by (simp add: outboxHolds_def incidentsOf_def)
    moreover have "deliveriesFit new [q] d"
      using fits at by (simp add: deliveriesFit_def q_def queuedRow_fields eventFits_def split: eventKind.splits)
    ultimately have "deliveriesFit new [q] a"
      unfolding deliveriesFit_def by (auto simp: q_def queuedRow_fields)
    then show ?thesis
      using hold own by (simp add: deliveriesFit_append db'_def outboxHolds_def)
  qed
  ultimately show "outboxHolds db' new"
    by (simp add: outboxHolds_def)
qed

subsection \<open>The deliveries after a change of the incident\<close>

lemma deliveriesFit_later:
  assumes "deliveriesFit row rows a" and "inc_id d = inc_id a" "inc_generation d = inc_generation a"
    and "inc_status a = Resolved \<Longrightarrow> inc_status d = Resolved" and "inc_severity a = Critical \<Longrightarrow> inc_severity d = Critical"
  shows "deliveriesFit row rows d"
  using assms by (auto simp: deliveriesFit_def)

lemma unused_alert:
  assumes "keysSound db" and "inc_id d \<notin> set (map inc_id (db_incidents db))"
  shows "q \<in> set (db_outbox db) \<Longrightarrow> out_alertId q \<noteq> inc_id d"
proof -
  have "set (map out_alertId (db_outbox db)) \<subseteq> set (map inc_id (db_incidents db))"
    using assms(1) by (simp add: keysSound_def)
  then show "q \<in> set (db_outbox db) \<Longrightarrow> out_alertId q \<noteq> inc_id d"
    using assms(2) by force
qed

lemma deliveriesFit_unused:
  "keysSound db \<Longrightarrow> inc_id d \<notin> set (map inc_id (db_incidents db)) \<Longrightarrow> deliveriesFit row (db_outbox db) d"
  unfolding deliveriesFit_def using unused_alert by blast

lemma outboxHolds_after:
  assumes hold: "outboxHolds db row" and db2: "db_outbox db2 = db_outbox db" "keysSound db2"
    and own: "\<And>b. b \<in> set (incidentsOf db2 row) \<Longrightarrow> b = d \<or> b \<in> set (incidentsOf db row)"
    and d: "deliveriesFit row (db_outbox db) d"
  shows "outboxHolds db2 row"
proof -
  have "deliveriesFit row (db_outbox db) b" if "b \<in> set (incidentsOf db2 row)" for b
    using own[OF that] d hold by (auto simp: outboxHolds_def)
  then show ?thesis
    using db2 by (simp add: outboxHolds_def)
qed

lemma outboxHolds_later:
  assumes hold: "outboxHolds db row" and key: "row_key new = row_key row"
    and time: "getTime (row_lastEvaluatedAt row) \<le> getTime (row_lastEvaluatedAt new)"
  shows "outboxHolds db new"
proof -
  have "incidentsOf db new = incidentsOf db row"
    by (simp add: incidentsOf_def key)
  moreover have "deliveriesFit new (db_outbox db) a" if "deliveriesFit row (db_outbox db) a" for a
    using that time by (force simp: deliveriesFit_def)
  ultimately show ?thesis
    using hold by (simp add: outboxHolds_def)
qed

lemma eventFits_later:
  assumes a: "deliveriesFit row (db_outbox db) a" "inc_id d = inc_id a" and db2: "db_outbox db2 = db_outbox db"
    and "row_currentSeverity new = (if kind = ResolvedEvent then None else Some (inc_severity d))"
    and "kind = Escalated \<Longrightarrow> inc_severity a = Warning \<and> inc_severity d = Critical"
    and "kind = ResolvedEvent \<Longrightarrow> inc_status a \<noteq> Resolved \<and> inc_status d = Resolved"
    and "kind \<noteq> ResolvedEvent \<Longrightarrow> inc_status d \<noteq> Resolved" and "kind \<noteq> Opened"
    and n: "n = (if kind = Reminder then nextSequence db (inc_id a) (inc_generation d) else 1)" "n \<le> MAX_EVENT_SEQUENCE"
  shows "eventFits db2 new d kind n"
proof -
  have "1 \<le> n"
    using n nextSequence_positive[of db "inc_id a"] a(1) by (auto simp: deliveriesFit_def)
  moreover have "nextSequence db2 = nextSequence db"
    by (intro ext) (simp add: nextSequence_def remindersOf_def db2)
  ultimately show ?thesis
    using assms by (cases kind) (auto simp: eventFits_def deliveriesFit_def)
qed

lemma eventFits_opened:
  assumes "keysSound db" and "inc_id d \<notin> set (map inc_id (db_incidents db))" and "db_outbox db2 = db_outbox db"
    and "row_currentSeverity new = Some (inc_severity d)" and "inc_status d = Open"
  shows "eventFits db2 new d Opened 1"
  using assms(3-5) unused_alert[OF assms(1,2)] by (auto simp: eventFits_def MAX_EVENT_SEQUENCE_def)

subsection \<open>The delivery a decision asks for\<close>

fun intentKind :: "alertActionIntent \<Rightarrow> eventKind" where
  "intentKind (OpenIntent b x severity) = Opened"
| "intentKind (EscalateIntent b x) = Escalated"
| "intentKind (RemindIntent b x severity) = Reminder"
| "intentKind (ResolveIntent b severity) = ResolvedEvent"

text \<open>Incident, generation, kind and sequence number; an incident is opened in the next generation.\<close>

definition decidedDelivery ::
  "string \<Rightarrow> alertDb \<Rightarrow> int \<Rightarrow> incidentRow list \<Rightarrow> alertActionIntent option \<Rightarrow>
   (string \<times> int \<times> eventKind \<times> int) option" where
  "decidedDelivery newId db generation current intent =
     (case intent of
        None \<Rightarrow> None
      | Some it \<Rightarrow>
          if intentKind it = Opened then Some (newId, generation + 1, Opened, 1)
          else (case current of
             [] \<Rightarrow> None
           | a # _ \<Rightarrow> Some (inc_id a, generation, intentKind it,
               if intentKind it = Reminder then nextSequence db (inc_id a) generation else 1)))"

definition deliveryRoom ::
  "digestFunction \<Rightarrow> alertDb \<Rightarrow> (string \<times> int \<times> eventKind \<times> int) option \<Rightarrow> bool" where
  "deliveryRoom digest db delivery \<longleftrightarrow>
     (case delivery of None \<Rightarrow> True
      | Some (incidentId, generation, kind, sequence) \<Rightarrow>
          sequence \<le> MAX_EVENT_SEQUENCE \<and> deliveryFree digest db incidentId generation kind sequence)"

definition eventPlanned ::
  "alertDb \<Rightarrow> alertStateRow \<Rightarrow> incidentRow option \<Rightarrow> plannedEvent option \<Rightarrow>
   (string \<times> int \<times> eventKind \<times> int) option \<Rightarrow> bool" where
  "eventPlanned db new desired event delivery \<longleftrightarrow>
     (case delivery of None \<Rightarrow> event = None
      | Some (incidentId, generation, kind, sequence) \<Rightarrow>
          \<exists>d. desired = Some d \<and> event = Some (eventOn d kind sequence) \<and> inc_id d = incidentId \<and>
            inc_generation d = generation \<and> eventFits db new d kind sequence)"

text \<open>The rows queued for the decision.\<close>

definition queuedRows :: "digestFunction \<Rightarrow> plannedEvent option \<Rightarrow> stateKey \<Rightarrow> string \<Rightarrow> outboxRow list" where
  "queuedRows digest event key at = (case event of None \<Rightarrow> [] | Some ev \<Rightarrow> [queuedRow digest ev key at])"

lemma runBatch_append:
  "runBatch xs db n = Some (db', changes) \<Longrightarrow> n = 1 \<Longrightarrow> list_all (\<lambda>n. n = 1) changes \<Longrightarrow>
   runBatch ys db' 1 = Some (db'', later) \<Longrightarrow> runBatch (xs @ ys) db n = Some (db'', changes @ later)"
  by (induction xs arbitrary: db n changes) (auto split: option.splits)

lemma hold_current:
  assumes "incidentsHold db row s" and "currentIncidents db row = [d]"
  obtains x where "ownIncident row d" and "showsEvidence d x"
  using assms by (auto simp: incidentsHold_def split: option.splits)

lemma hold_generation:
  assumes "incidentsHold db row s" and "rowStores row s" and "currentIncidents db row = [d]"
  shows "1 \<le> row_generation row"
  using assms by (cases "status s") (auto simp: incidentsHold_def rowStores_def)

lemma delivery_step:
  assumes digest: "digest32 digest" and sel: "selectStates env i db = [new]"
    and hold: "incidentsHold db new s" "outboxHolds db row" "row_key new = row_key row"
    and desired: "case desired of None \<Rightarrow> True | Some d \<Rightarrow> currentIncidents db new = [d]"
    and gen: "event \<noteq> None \<Longrightarrow> 1 \<le> row_generation new" "row_generation new \<le> MAX_STATE_GENERATION"
    and key: "validDimension allowed dim" "key_dimensions (row_key new) = dimensionColumnsOf dim"
    and planned: "eventPlanned db new desired event delivery" and room: "deliveryRoom digest db delivery"
    and at: "row_lastEvaluatedAt new = at" and time: "getTime (row_lastEvaluatedAt row) < getTime at"
  obtains db' changes where "runBatch (deliveryWrites digest event (row_key new) at) db 1 = Some (db', changes)"
    and "list_all (\<lambda>n. n = 1) changes" and "db_states db' = db_states db" and "db_incidents db' = db_incidents db"
    and "db_outbox db' = db_outbox db @ queuedRows digest event (row_key new) at" and "outboxHolds db' new"
    and "case event of None \<Rightarrow> True | Some ev \<Rightarrow> desired = Some (event_incident ev) \<and> 1 \<le> event_sequence ev \<and>
      event_sequence ev \<le> MAX_EVENT_SEQUENCE \<and>
      selectOutbox env i (event_kind ev) (row_generation new) at db' = [queuedRow digest ev (row_key new) at]"
proof (cases event)
  case None
  then show ?thesis
    using that[of db "[]"] outboxHolds_later[OF hold(2,3)] at time by (simp add: deliveryWrites_def queuedRows_def)
next
  case (Some ev)
  then obtain d kind n where d: "desired = Some d" "ev = eventOn d kind n" "eventFits db new d kind n"
      "deliveryFree digest db (inc_id d) (inc_generation d) kind n"
    using planned room by (auto simp: eventPlanned_def deliveryRoom_def split: option.splits prod.splits)
  have cur: "currentIncidents db new = [d]"
    using desired d(1) by simp
  obtain x where x: "ownIncident new d" "showsEvidence d x"
    using hold_current[OF hold(1) cur] by metis
  have g: "1 \<le> row_generation new"
    using gen(1) Some by simp
  have "d \<in> set (incidentsOf db row)"
    using filter_mem[OF cur[unfolded currentIncidents_def]] by (simp add: incidentsOf_def hold(3))
  then have older: "getTime (out_createdAt q) < getTime at" if "q \<in> set (db_outbox db)" "out_alertId q = inc_id d" for q
    using hold(2) that time by (fastforce simp: outboxHolds_def deliveriesFit_def)
  have holds: "outboxHolds db new"
    using outboxHolds_later[OF hold(2,3)] at time by simp
  note runs = outboxInsert_runs[OF digest sel cur x g gen(2) key holds d(3,4) at older]
  have fields: "event_incident ev = d" "event_kind ev = kind" "event_sequence ev = n"
    by (simp_all add: d(2) eventOn_def)
  have n: "1 \<le> n" "n \<le> MAX_EVENT_SEQUENCE"
    using d(3) by (simp_all add: eventFits_def)
  let ?db' = "db\<lparr>db_outbox := db_outbox db @ [queuedRow digest ev (row_key new) at]\<rparr>"
  have "runBatch (deliveryWrites digest event (row_key new) at) db 1 = Some (?db', [1])"
    using runs(1) Some by (simp add: deliveryWrites_def d(2))
  then show ?thesis
    using that[of ?db' "[1]"] runs(2,3) Some d(1,2) fields n by (simp add: queuedRows_def)
qed

end
