(* ===== verification/Alert_State_Persisted.thy ===== *)
theory Alert_State_Persisted
  imports Alert_State_Delivery
begin

section \<open>A decision persisted is the decision read back\<close>

text \<open>
  The batch of \<open>persistDecision\<close> run on tables related to a lifecycle state: the
  statements on the incident by the kind of the decision, the update of a stored row, and the
  insert of the first row of an alert.
\<close>

subsection \<open>The row a batch writes\<close>

definition writtenRow ::
  "alertRuleEvaluation \<Rightarrow> alertStateRow \<Rightarrow> alertActionIntent option \<Rightarrow> alertLifecycleState \<Rightarrow> alertStateRow \<Rightarrow>
   bool" where
  "writtenRow e row intent s' new \<longleftrightarrow>
     row_key new = row_key row \<and> row_generation new = row_generation row + (if isOpen intent then 1 else 0) \<and>
     row_lastEvaluatedAt new = eval_asOf e \<and> row_currentSeverity new = status s' \<and>
     row_breachSeverity new = breachSeverity s' \<and> row_ruleId row = eval_ruleId e \<and>
     getTime (row_lastEvaluatedAt row) < getTime (eval_asOf e) \<and> shortInstant (eval_asOf e)"

lemma currentIncidents_replaced:
  assumes "replaced db row new db1" and "row_key new = row_key row" and "row_generation new = row_generation row"
  shows "currentIncidents db1 new = currentIncidents db row"
  using replaced_incidents[OF assms(1,2)] assms(3) by (simp add: currentIncidents_def)

lemma older_incidents:
  assumes h: "rowHolds digest env i db row p" and b: "b \<in> set (incidentsOf db row)"
  shows "inc_generation b \<le> row_generation row \<and> (inc_generation b < row_generation row \<longrightarrow> inc_status b = Resolved)"
  using h b by (auto simp: rowHolds_def rowShape_def incidentsHold_def)

text \<open>The incidents fit an active state when the current one is the only one and shows its evidence.\<close>

lemma incidentsHold_active:
  assumes "currentIncidents db' new = [d]" and "ownIncident new d" and "showsEvidence d x"
    and "inc_status d \<noteq> Resolved" and "status s' = Some (inc_severity d)" and "activeEvidence s' = Some x"
    and "openedAt s' = Some (inc_firstSeenAt d)"
    and "\<And>b. b \<in> set (incidentsOf db' new) \<Longrightarrow> inc_generation b \<le> row_generation new \<and>
      (inc_generation b < row_generation new \<longrightarrow> inc_status b = Resolved)"
  shows "incidentsHold db' new s'"
  using assms by (auto simp: incidentsHold_def)

lemma incidents_later:
  assumes hold: "incidentsHold db row p" and rep: "replaced db row new db1"
    and key: "row_key new = row_key row" and gen: "row_generation new = row_generation row"
    and time: "getTime (row_lastEvaluatedAt row) \<le> getTime (row_lastEvaluatedAt new)"
    and s': "status s' = status p" "status p \<noteq> None \<Longrightarrow> activeEvidence s' = activeEvidence p \<and> openedAt s' = openedAt p"
  shows "incidentsHold db1 new s'"
proof -
  note inc = replaced_incidents[OF rep key] currentIncidents_replaced[OF rep key gen]
  have own: "ownIncident new a" if "ownIncident row a" for a
    by (rule ownIncident_later[OF that key gen time])
  show ?thesis
    using hold own s' unfolding incidentsHold_def inc gen by (cases "status p") fastforce+
qed

lemma keysSound_same:
  assumes "keysSound db" and "map inc_id (db_incidents db') = map inc_id (db_incidents db)"
    and "db_outbox db' = db_outbox db"
  shows "keysSound db'"
  using assms(1) unfolding keysSound_def assms(2,3) .

lemma keysSound_more:
  assumes "keysSound db" and "map inc_id (db_incidents db') = map inc_id (db_incidents db) @ [k]"
    and "k \<notin> set (map inc_id (db_incidents db))" and "db_outbox db' = db_outbox db"
  shows "keysSound db'"
  using assms(1,3) unfolding keysSound_def assms(2,4) by auto

lemma unused_id: "(\<And>b. b \<in> set rows \<Longrightarrow> inc_id b \<noteq> k) \<Longrightarrow> k \<notin> set (map inc_id rows)"
  by auto

lemma incidentsOf_key: "row_key new = row_key row \<Longrightarrow> incidentsOf db new = incidentsOf db row"
  by (simp add: incidentsOf_def)

lemma rowHolds_outbox:
  assumes "rowHolds digest env i db row p"
  shows "outboxHolds db row" and "keysSound db"
    and "currentIncidents db row = [a] \<Longrightarrow> deliveriesFit row (db_outbox db) a"
proof -
  show hold: "outboxHolds db row"
    using assms by (simp add: rowHolds_def rowShape_def)
  then show "keysSound db"
    by (simp add: outboxHolds_def)
  assume "currentIncidents db row = [a]"
  then have "a \<in> set (incidentsOf db row)"
    using filter_mem unfolding currentIncidents_def by fastforce
  then show "deliveriesFit row (db_outbox db) a"
    using hold by (simp add: outboxHolds_def)
qed

lemma incident_kept:
  assumes h: "rowHolds digest env i db row p" and w: "writtenRow e row intent s' new" and rep: "replaced db row new db1"
    and kept: "status s' = status p" "status p \<noteq> None \<Longrightarrow> activeEvidence s' = activeEvidence p \<and> openedAt s' = openedAt p"
      "status p \<noteq> None \<Longrightarrow> eval_severity e \<noteq> status p"
      "intent = None \<or> status p \<noteq> None \<and> (\<exists>b x sev. intent = Some (RemindIntent b x sev) \<and> status p = Some sev)"
    and room: "deliveryRoom digest db (decidedDelivery incidentId db (row_generation row) (currentIncidents db row) intent)"
  shows "\<exists>event. planIncident key incidentId generation e (intent, s') ev (currentIncident db row p) db
      = Inr (currentIncident db row p, [], event) \<and>
      eventPlanned db1 new (currentIncident db row p) event
        (decidedDelivery incidentId db (row_generation row) (currentIncidents db row) intent)"
    and "incidentsHold db1 new s'" and "outboxHolds db1 row"
    and "case currentIncident db row p of None \<Rightarrow> True | Some d \<Rightarrow> currentIncidents db1 new = [d]"
proof -
  have closed: "\<not> isOpen intent"
    using kept(4) by auto
  have no_refresh: "refreshWrites e s' ev (currentIncident db row p) = Inr (currentIncident db row p, [])"
    using kept(1,3) by (auto simp: refreshWrites_def refreshesIncident_def)
  have same: "db_outbox db1 = db_outbox db" "db_incidents db1 = db_incidents db"
    using rep by (simp_all add: replaced_def)
  have inc: "incidentsHold db row p"
    using h by (simp add: rowHolds_def rowShape_def)
  show "\<exists>event. planIncident key incidentId generation e (intent, s') ev (currentIncident db row p) db
      = Inr (currentIncident db row p, [], event) \<and>
      eventPlanned db1 new (currentIncident db row p) event
        (decidedDelivery incidentId db (row_generation row) (currentIncidents db row) intent)"
  proof (cases "intent = None")
    case True
    then show ?thesis
      by (simp add: no_refresh eventPlanned_def decidedDelivery_def)
  next
    case False
    then obtain b x sev where intent: "intent = Some (RemindIntent b x sev)" "status p = Some sev"
      using kept(4) by blast
    obtain a where a: "currentIncidents db row = [a]" "currentIncident db row p = Some a" "ownIncident row a"
        "inc_status a \<noteq> Resolved" "inc_severity a = sev"
      using currentIncident_active[OF h intent(2)] by metis
    let ?n = "nextSequence db (inc_id a) (inc_generation a)"
    have gen: "inc_generation a = row_generation row"
      using a(3) by (simp add: ownIncident_def)
    have n: "?n \<le> MAX_EVENT_SEQUENCE"
      using room intent a(1) gen by (simp add: decidedDelivery_def deliveryRoom_def)
    have fits: "eventFits db1 new a Reminder ?n"
      by (rule eventFits_later[OF rowHolds_outbox(3)[OF h a(1)] refl same(1)])
        (use w kept(1) intent a n in \<open>simp_all add: writtenRow_def\<close>)
    then have "nextReminderSequence db a = Inr ?n"
      using n by (simp add: nextReminderSequence_def eventFits_def same(1) nextSequence_def remindersOf_def)
    then show ?thesis
      using fits intent a gen no_refresh
      by (auto simp: eventPlanned_def decidedDelivery_def eventOn_def)
  qed
  show "incidentsHold db1 new s'"
    by (rule incidents_later[OF inc rep]) (use w closed kept in \<open>auto simp: writtenRow_def\<close>)
  have key: "row_key new = row_key row"
    using w by (simp add: writtenRow_def)
  have "keysSound db1"
    using keysSound_same[OF rowHolds_outbox(2)[OF h]] same by simp
  then show "outboxHolds db1 row"
    using rowHolds_outbox(1)[OF h] same by (simp add: outboxHolds_def incidentsOf_def)
  have "currentIncidents db1 new = currentIncidents db row"
    by (rule currentIncidents_replaced[OF rep]) (use w closed in \<open>auto simp: writtenRow_def\<close>)
  moreover have "currentIncident db row p = None \<or> (\<exists>a. currentIncident db row p = Some a \<and> currentIncidents db row = [a])"
  proof (cases "status p")
    case (Some sev)
    then show ?thesis
      using currentIncident_active[OF h Some] by metis
  qed (simp add: currentIncident_none)
  ultimately show "case currentIncident db row p of None \<Rightarrow> True | Some d \<Rightarrow> currentIncidents db1 new = [d]"
    by auto
qed

lemma columns_metric [simp]: "metricColumns.truncate (evidenceColumnsOf x) = metricColumnsOf x"
  and columns_threshold [simp]: "threshold (evidenceColumnsOf x) = ev_threshold x"
  by (simp_all add: evidenceColumnsOf_def metricColumns.defs)

lemma evidence_reaches:
  "evidenceForRule r x \<Longrightarrow> ev_threshold x \<le> observedValue (metricColumnsOf x)"
  using evidenceForRule_valid by (simp add: metricColumnsOf_def validSelectedEvidence_def Let_def)

lemma ownIncident_checks:
  assumes "ownIncident row a" and "showsEvidence a x" and "inc_status a = Resolved \<Longrightarrow> inc_ruleId a \<noteq> Security_fanout_gap"
  shows "\<not> incidentChecksFail a"
proof -
  have "inc_threshold a \<le> observedValue (inc_metrics a)"
    using assms(2) evidence_reaches by (auto simp: showsEvidence_def)
  then show ?thesis
    using assms(1,3) by (auto simp: incidentChecksFail_def ownIncident_def acknowledgementFits_def split: option.splits)
qed

text \<open>A row in the tables after the state update.\<close>

lemma replaced_member:
  assumes "rowHolds digest env i db row p" and "replaced db row new db1"
  shows "new \<in> set (db_states db1)"
proof -
  have "filter (\<lambda>r. key_id (row_key r) = key_id (row_key row)) (db_states db) = [row]"
    using assms(1) by (simp add: rowHolds_def rowShape_def)
  then show ?thesis
    using filter_mem[OF replaced_id[OF assms(2)]] by simp
qed

text \<open>Evidence of the current severity renews the incident, and critical evidence escalates it.\<close>

lemma incident_renewed:
  assumes h: "rowHolds digest env i db row p" and w: "writtenRow e row intent s' new" and rep: "replaced db row new db1"
    and kind: "status p = Some old" "status s' = Some sev" "activeEvidence s' = Some x" "sel_severity x = sev"
      "breachSeverity s' = None" "openedAt s' = openedAt p" "columnsHold new x"
      "old = sev \<or> old = Warning \<and> sev = Critical" "\<not> isOpen intent"
    and a: "currentIncident db row p = Some a" "currentIncidents db row = [a]" "ownIncident row a"
      "inc_status a \<noteq> Resolved" "inc_severity a = old" "openedAt p = Some (inc_firstSeenAt a)"
  defines "d \<equiv> incidentWithEvidence a (evidenceColumnsOf x) sev (eval_asOf e)"
  obtains db' where "runBatch [incidentUpdate a d] db1 1 = Some (db', [1])" and "db_states db' = db_states db1"
    and "incidentsHold db' new s'" and "currentIncidents db' new = [d]" and "outboxHolds db' row"
    and "db_outbox db' = db_outbox db"
proof -
  have key: "row_key new = row_key row" and gen: "row_generation new = row_generation row"
    using w kind(9) by (simp_all add: writtenRow_def)
  have cur: "currentIncidents db1 new = [a]"
    using currentIncidents_replaced[OF rep key gen] a(2) by simp
  have d: "inc_severity d = sev" "inc_status d = inc_status a" "inc_lastSeenAt d = eval_asOf e"
    "inc_metrics d = metricColumnsOf x" "inc_threshold d = ev_threshold x" "inc_updatedAt d = eval_asOf e"
    "inc_id d = inc_id a" "inc_stateId d = inc_stateId a" "inc_ruleId d = inc_ruleId a"
    "inc_environment d = inc_environment a" "inc_sourceKind d = inc_sourceKind a"
    "inc_generation d = inc_generation a" "inc_firstSeenAt d = inc_firstSeenAt a"
    "inc_createdAt d = inc_createdAt a" "inc_acknowledgedAt d = inc_acknowledgedAt a"
    "inc_acknowledgedByHashVersion d = inc_acknowledgedByHashVersion a"
    by (simp_all add: d_def incidentWithEvidence_def)
  have times: "getTime (inc_createdAt a) \<le> getTime (inc_firstSeenAt a)"
    "getTime (inc_firstSeenAt a) \<le> getTime (inc_lastSeenAt a)"
    "getTime (inc_lastSeenAt a) \<le> getTime (inc_updatedAt a)"
    "getTime (inc_updatedAt a) \<le> getTime (row_lastEvaluatedAt row)"
    "getTime (row_lastEvaluatedAt row) < getTime (eval_asOf e)"
    using a(3) w by (simp_all add: ownIncident_def writtenRow_def)
  have own: "ownIncident new d"
    using a(3) w key gen times d by (auto simp: ownIncident_def acknowledgementFits_def writtenRow_def split: option.splits)
  have rule: "evidenceForRule (inc_ruleId d) x"
    using kind(7) own by (simp add: columnsHold_def ownIncident_def)
  then have shows_d: "showsEvidence d x"
    using d kind(4) by (simp add: showsEvidence_def)
  have "\<not> incidentTransitionAborts a d"
    using d times kind(8) a(4,5) by (auto simp: incidentTransitionAborts_def)
  moreover have "\<not> incidentChecksFail d"
    by (rule ownIncident_checks[OF own shows_d]) (use d a(4) in simp)
  moreover have "incidentConfirmed db1 d"
    by (rule incidentConfirmed_row[OF replaced_member[OF h rep] own kind(7) shows_d])
      (use w kind d in \<open>simp_all add: writtenRow_def\<close>)
  moreover have "d = a\<lparr>inc_severity := inc_severity d, inc_status := inc_status d, inc_lastSeenAt := inc_lastSeenAt d,
      inc_metrics := inc_metrics d, inc_threshold := inc_threshold d, inc_updatedAt := inc_updatedAt d\<rparr>"
    by (simp add: d_def incidentWithEvidence_def)
  ultimately obtain db' where db': "incidentUpdate a d db1 1 = Some (db', 1)" "db_states db' = db_states db1"
      "currentIncidents db' new = [d]"
      "\<And>b. b \<in> set (incidentsOf db' new) \<Longrightarrow> b = d \<or> b \<in> set (incidentsOf db1 new)"
    and rows: "db_outbox db' = db_outbox db1" "map inc_id (db_incidents db') = map inc_id (db_incidents db1)"
    using incidentUpdate_runs[OF cur] by metis
  have same: "db_outbox db' = db_outbox db" "map inc_id (db_incidents db') = map inc_id (db_incidents db)"
    using rows rep by (simp_all add: replaced_def)
  have outbox: "outboxHolds db' row"
  proof (rule outboxHolds_after[OF rowHolds_outbox(1)[OF h] same(1)
        keysSound_same[OF rowHolds_outbox(2)[OF h] same(2,1)]])
    show "deliveriesFit row (db_outbox db) d"
      by (rule deliveriesFit_later[OF rowHolds_outbox(3)[OF h a(2)]]) (use d kind(8) a(5) in auto)
    show "\<And>b. b \<in> set (incidentsOf db' row) \<Longrightarrow> b = d \<or> b \<in> set (incidentsOf db row)"
      using db'(4) replaced_incidents[OF rep key] incidentsOf_key[OF key] by auto
  qed
  have "incidentsHold db' new s'"
  proof (rule incidentsHold_active[OF db'(3) own shows_d])
    show "inc_generation b \<le> row_generation new \<and> (inc_generation b < row_generation new \<longrightarrow> inc_status b = Resolved)"
      if "b \<in> set (incidentsOf db' new)" for b
      using db'(4)[OF that] older_incidents[OF h] own gen replaced_incidents[OF rep key]
      by (auto simp: ownIncident_def)
  qed (use d kind a in auto)
  then show thesis
    using that db' outbox same(1) by simp
qed

text \<open>An opening inserts the incident of the next generation; every older one is resolved.\<close>

lemma incident_opened:
  assumes h: "rowHolds digest env (identityFor e) db row p" and w: "writtenRow e row intent s' new" and rep: "replaced db row new db1"
    and kind: "status p = None" "status s' = Some sev" "activeEvidence s' = Some x" "sel_severity x = sev"
      "breachSeverity s' = None" "openedAt s' = Some (eval_asOf e)" "columnsHold new x" "isOpen intent"
    and fresh: "uuidV4 incidentId" "\<And>b. b \<in> set (db_incidents db) \<Longrightarrow> inc_id b \<noteq> incidentId"
  defines "d \<equiv> incidentFromEvidence (row_key row) (evidenceColumnsOf x) (eval_asOf e) (row_generation row + 1)
    incidentId sev"
  obtains db' where "runBatch [incidentInsert d] db1 1 = Some (db', [1])" and "db_states db' = db_states db1"
    and "incidentsHold db' new s'" and "currentIncidents db' new = [d]" and "outboxHolds db' row"
    and "db_outbox db' = db_outbox db"
proof -
  have key: "row_key new = row_key row" and gen: "row_generation new = row_generation row + 1"
    using w kind(8) by (simp_all add: writtenRow_def)
  have d: "inc_severity d = sev" "inc_status d = Open" "inc_lastSeenAt d = eval_asOf e"
    "inc_metrics d = metricColumnsOf x" "inc_threshold d = ev_threshold x" "inc_updatedAt d = eval_asOf e"
    "inc_id d = incidentId" "inc_stateId d = key_id (row_key row)" "inc_ruleId d = row_ruleId row"
    "inc_environment d = key_environment (row_key row)" "inc_sourceKind d = key_sourceKind (row_key row)"
    "inc_generation d = row_generation row + 1" "inc_firstSeenAt d = eval_asOf e"
    "inc_createdAt d = eval_asOf e" "inc_acknowledgedAt d = None" "inc_acknowledgedByHashVersion d = None"
    by (simp_all add: d_def incidentFromEvidence_def)
  have own: "ownIncident new d"
    using fresh(1) w key gen d by (simp add: ownIncident_def acknowledgementFits_def writtenRow_def optionally_def)
  have "evidenceForRule (inc_ruleId d) x"
    using kind(7) own by (simp add: columnsHold_def ownIncident_def)
  then have shows_d: "showsEvidence d x"
    using d kind(4) by (simp add: showsEvidence_def)
  have confirmed: "incidentConfirmed db1 d"
    by (rule incidentConfirmed_row[OF replaced_member[OF h rep] own kind(7) shows_d])
      (use w kind d in \<open>simp_all add: writtenRow_def\<close>)
  have "db_incidents db1 = db_incidents db"
    using rep by (simp add: replaced_def)
  then have new_id: "inc_id b \<noteq> inc_id d" if "b \<in> set (db_incidents db1)" for b
    using fresh(2) that d by simp
  have old: "inc_generation b < row_generation new \<and> inc_status b = Resolved" if "b \<in> set (incidentsOf db1 new)" for b
    using inactive_resolved[OF h kind(1)] that gen replaced_incidents[OF rep key] by fastforce
  obtain db' where db': "incidentInsert d db1 1 = Some (db', 1)" "db_states db' = db_states db1"
      "currentIncidents db' new = [d]"
      "\<And>b. b \<in> set (incidentsOf db' new) \<Longrightarrow> b = d \<or> b \<in> set (incidentsOf db1 new)"
    and rows: "db_outbox db' = db_outbox db1" "map inc_id (db_incidents db') = map inc_id (db_incidents db1) @ [inc_id d]"
    using incidentInsert_runs[OF confirmed new_id _ _ old] d key gen by metis
  have same: "db_outbox db' = db_outbox db" "map inc_id (db_incidents db') = map inc_id (db_incidents db) @ [inc_id d]"
    using rows rep by (simp_all add: replaced_def)
  have unused: "inc_id d \<notin> set (map inc_id (db_incidents db))"
    using unused_id[OF fresh(2)] d(7) by simp
  have outbox: "outboxHolds db' row"
  proof (rule outboxHolds_after[OF rowHolds_outbox(1)[OF h] same(1)
        keysSound_more[OF rowHolds_outbox(2)[OF h] same(2) unused same(1)]])
    show "deliveriesFit row (db_outbox db) d"
      by (rule deliveriesFit_unused[OF rowHolds_outbox(2)[OF h] unused])
    show "\<And>b. b \<in> set (incidentsOf db' row) \<Longrightarrow> b = d \<or> b \<in> set (incidentsOf db row)"
      using db'(4) replaced_incidents[OF rep key] incidentsOf_key[OF key] by auto
  qed
  have "incidentsHold db' new s'"
  proof (rule incidentsHold_active[OF db'(3) own shows_d])
    show "inc_generation b \<le> row_generation new \<and> (inc_generation b < row_generation new \<longrightarrow> inc_status b = Resolved)"
      if "b \<in> set (incidentsOf db' new)" for b
      using db'(4)[OF that] old own by (fastforce simp: ownIncident_def)
  qed (use d kind in auto)
  then show thesis
    using that db' outbox same(1) by simp
qed

text \<open>A resolution closes the current incident.\<close>

lemma incident_resolved:
  assumes h: "rowHolds digest env i db row p" and w: "writtenRow e row intent s' new" and rep: "replaced db row new db1"
    and kind: "status p = Some old" "status s' = None" "\<not> isOpen intent" "automaticRule e"
    and a: "currentIncidents db row = [a]" "ownIncident row a" "showsEvidence a x" "inc_status a \<noteq> Resolved"
  defines "d \<equiv> a\<lparr>inc_status := Resolved, inc_updatedAt := eval_asOf e\<rparr>"
  obtains db' where "runBatch [incidentUpdate a d] db1 1 = Some (db', [1])" and "db_states db' = db_states db1"
    and "incidentsHold db' new s'" and "currentIncidents db' new = [d]" and "outboxHolds db' row"
    and "db_outbox db' = db_outbox db"
proof -
  have key: "row_key new = row_key row" and gen: "row_generation new = row_generation row"
    using w kind(3) by (simp_all add: writtenRow_def)
  have cur: "currentIncidents db1 new = [a]"
    using currentIncidents_replaced[OF rep key gen] a(1) by simp
  have positive: "0 < row_generation row"
    using h kind(1) by (auto simp: rowHolds_def rowShape_def rowStores_def)
  have times: "getTime (inc_createdAt a) \<le> getTime (inc_firstSeenAt a)"
    "getTime (inc_firstSeenAt a) \<le> getTime (inc_lastSeenAt a)"
    "getTime (inc_lastSeenAt a) \<le> getTime (inc_updatedAt a)"
    "getTime (inc_updatedAt a) \<le> getTime (row_lastEvaluatedAt row)"
    "getTime (row_lastEvaluatedAt row) < getTime (eval_asOf e)"
    using a(2) w by (simp_all add: ownIncident_def writtenRow_def)
  have own: "ownIncident new d"
    using a(2) w key gen times
    by (auto simp: d_def ownIncident_def acknowledgementFits_def writtenRow_def split: option.splits)
  have shows_d: "showsEvidence d x"
    using a(3) by (simp add: d_def showsEvidence_def)
  have rule: "inc_ruleId a \<noteq> Security_fanout_gap"
    using kind(4) a(2) w by (simp add: automaticRule_fanout ownIncident_def writtenRow_def)
  have "\<not> incidentTransitionAborts a d"
    using times a(4) by (cases "inc_status a") (simp_all add: d_def incidentTransitionAborts_def)
  moreover have "\<not> incidentChecksFail d"
    by (rule ownIncident_checks[OF own shows_d]) (use rule in \<open>simp add: d_def\<close>)
  moreover have "inc_status d \<noteq> Resolved \<Longrightarrow> incidentConfirmed db1 d"
    by (simp add: d_def)
  moreover have "d = a\<lparr>inc_severity := inc_severity d, inc_status := inc_status d, inc_lastSeenAt := inc_lastSeenAt d,
      inc_metrics := inc_metrics d, inc_threshold := inc_threshold d, inc_updatedAt := inc_updatedAt d\<rparr>"
    by (simp add: d_def)
  ultimately obtain db' where db': "incidentUpdate a d db1 1 = Some (db', 1)" "db_states db' = db_states db1"
      "currentIncidents db' new = [d]"
      "\<And>b. b \<in> set (incidentsOf db' new) \<Longrightarrow> b = d \<or> b \<in> set (incidentsOf db1 new)"
    and rows: "db_outbox db' = db_outbox db1" "map inc_id (db_incidents db') = map inc_id (db_incidents db1)"
    using incidentUpdate_runs[OF cur] by metis
  have same: "db_outbox db' = db_outbox db" "map inc_id (db_incidents db') = map inc_id (db_incidents db)"
    using rows rep by (simp_all add: replaced_def)
  have outbox: "outboxHolds db' row"
  proof (rule outboxHolds_after[OF rowHolds_outbox(1)[OF h] same(1)
        keysSound_same[OF rowHolds_outbox(2)[OF h] same(2,1)]])
    show "deliveriesFit row (db_outbox db) d"
      by (rule deliveriesFit_later[OF rowHolds_outbox(3)[OF h a(1)]]) (simp_all add: d_def)
    show "\<And>b. b \<in> set (incidentsOf db' row) \<Longrightarrow> b = d \<or> b \<in> set (incidentsOf db row)"
      using db'(4) replaced_incidents[OF rep key] incidentsOf_key[OF key] by auto
  qed
  have "inc_generation b \<le> row_generation new \<and> (inc_generation b < row_generation new \<longrightarrow> inc_status b = Resolved)"
    if "b \<in> set (incidentsOf db' new)" for b
    using db'(4)[OF that] older_incidents[OF h] own gen replaced_incidents[OF rep key]
    by (auto simp: ownIncident_def)
  moreover have "inc_status d = Resolved"
    by (simp add: d_def)
  ultimately have "incidentsHold db' new s'"
    using db'(3) own shows_d positive gen kind(2) unfolding incidentsHold_def by auto
  then show thesis
    using that db' outbox same(1) by simp
qed

subsection \<open>The incident after any decision\<close>

lemma evaluated_phase:
  assumes "evaluatedState asOf i s"
  shows "phase s = Active \<longleftrightarrow> status s \<noteq> None"
  using assms by (auto simp: evaluatedState_def split: alertLifecyclePhase.splits)

lemma boundState_active [simp]:
  "activeEvidence (boundState e p asOf) = activeEvidence p" "openedAt (boundState e p asOf) = openedAt p"
  "breachSeverity (boundState e p asOf) = breachSeverity p"
  by (simp_all add: boundState_def)

lemma incident_step:
  assumes h: "rowHolds digest env (identityFor e) db row p" and w: "writtenRow e row intent s' new"
    and rep: "replaced db row new db1" and e: "soundEvaluation e"
    and step: "alertStep e (eval_asOf e) (boundState e p (eval_asOf e)) intent s'"
    and s: "evaluatedState (eval_asOf e) (identityFor e) (boundState e p (eval_asOf e))"
    and s': "evaluatedState (eval_asOf e) (identityFor e) s'"
    and ev: "eval_severity e \<noteq> None \<Longrightarrow> (\<exists>x. columnsEvidence s' = Some x \<and> ev = Some (evidenceColumnsOf x))"
    and cols: "eval_severity e \<noteq> None \<Longrightarrow> columnsStore new s'"
    and fresh: "uuidV4 incidentId" "\<And>b. b \<in> set (db_incidents db) \<Longrightarrow> inc_id b \<noteq> incidentId"
    and room: "deliveryRoom digest db (decidedDelivery incidentId db (row_generation row) (currentIncidents db row) intent)"
  obtains desired writes event db' changes
  where "planIncident (row_key row) incidentId (row_generation row + (if isOpen intent then 1 else 0)) e
      (intent, s') ev (currentIncident db row p) db = Inr (desired, writes, event)"
    and "runBatch writes db1 1 = Some (db', changes)" and "list_all (\<lambda>n. n = 1) changes"
    and "db_states db' = db_states db1" and "incidentsHold db' new s'" and "outboxHolds db' row"
    and "db_outbox db' = db_outbox db" and "case desired of None \<Rightarrow> True | Some d \<Rightarrow> currentIncidents db' new = [d]"
    and "eventPlanned db' new desired event
      (decidedDelivery incidentId db (row_generation row) (currentIncidents db row) intent)"
proof -
  have shown: "columnsHold new x" "ev = Some (evidenceColumnsOf x)"
    if "eval_severity e \<noteq> None" "columnsEvidence s' = Some x" for x
    using ev[OF that(1)] cols[OF that(1)] that(2) by (auto simp: columnsStore_def)
  have severity: "row_currentSeverity new = status s'"
    using w by (simp add: writtenRow_def)
  have unchanged: "db_outbox db1 = db_outbox db"
    using rep by (simp add: replaced_def)
  from step s s' e show thesis
  proof (cases rule: alertStep_kinds)
    case idle
    then have idle': "intent = None \<or> status p \<noteq> None \<and> (\<exists>b x sev. intent = Some (RemindIntent b x sev) \<and> status p = Some sev)"
      by simp
    note kept = incident_kept[OF h w rep _ _ _ idle' room]
    obtain event where "planIncident (row_key row) incidentId (row_generation row + (if isOpen intent then 1 else 0)) e
          (intent, s') ev (currentIncident db row p) db = Inr (currentIncident db row p, [], event)"
        "eventPlanned db1 new (currentIncident db row p) event
          (decidedDelivery incidentId db (row_generation row) (currentIncidents db row) intent)"
      using kept(1)[where ev = ev] idle by auto
    then show ?thesis
      using that[of "currentIncident db row p" "[]" event db1 "[]"] kept(2-4) idle unchanged by simp
  next
    case (keep sev)
    have keep': "intent = None \<or> status p \<noteq> None \<and> (\<exists>b x sev. intent = Some (RemindIntent b x sev) \<and> status p = Some sev)"
      using keep(1,6) by auto
    note kept = incident_kept[OF h w rep _ _ _ keep' room]
    obtain event where "planIncident (row_key row) incidentId (row_generation row + (if isOpen intent then 1 else 0)) e
          (intent, s') ev (currentIncident db row p) db = Inr (currentIncident db row p, [], event)"
        "eventPlanned db1 new (currentIncident db row p) event
          (decidedDelivery incidentId db (row_generation row) (currentIncidents db row) intent)"
      using kept(1)[where ev = ev] keep by auto
    then show ?thesis
      using that[of "currentIncident db row p" "[]" event db1 "[]"] kept(2-4) keep unchanged by simp
  next
    case (begins sev x b)
    note x = shown[OF _ begins(6)]
    define d where "d = incidentFromEvidence (row_key row) (evidenceColumnsOf x)
          (eval_asOf e) (row_generation row + 1) incidentId sev"
    have d: "inc_id d = incidentId" "inc_generation d = row_generation row + 1" "inc_status d = Open" "inc_severity d = sev"
      by (simp_all add: d_def incidentFromEvidence_def)
    obtain db' where db': "runBatch [incidentInsert d] db1 1 = Some (db', [1])"
        "db_states db' = db_states db1" "incidentsHold db' new s'" "currentIncidents db' new = [d]"
        "outboxHolds db' row" "db_outbox db' = db_outbox db"
      unfolding d_def
      by (rule incident_opened[OF h w rep _ begins(2,4,5,7,8) x(1) _ fresh]) (use begins in simp_all)
    have "inc_id d \<notin> set (map inc_id (db_incidents db))"
      using unused_id[OF fresh(2)] d(1) by simp
    then have "eventFits db' new d Opened 1"
      using eventFits_opened[OF rowHolds_outbox(2)[OF h] _ db'(6)] severity begins(2) d by simp
    then have "eventPlanned db' new (Some d) (Some (eventOn d Opened 1))
        (decidedDelivery incidentId db (row_generation row) (currentIncidents db row) intent)"
      using begins(3) d by (simp add: eventPlanned_def decidedDelivery_def)
    then show ?thesis
      using that[of "Some d" "[incidentInsert d]" "Some (eventOn d Opened 1)" db' "[1]"] begins x(2) db' d
      by (simp add: Let_def d_def[symmetric] eventOn_def del: runBatch.simps)
  next
    case (renew old sev x)
    note x = shown[OF _ renew(6)]
    have st: "status p = Some old"
      using renew(1) by simp
    obtain a where a: "currentIncidents db row = [a]" "currentIncident db row p = Some a" "ownIncident row a"
        "inc_status a \<noteq> Resolved" "inc_severity a = old" "openedAt p = Some (inc_firstSeenAt a)"
      using currentIncident_active[OF h st] by metis
    define d where "d = incidentWithEvidence a (evidenceColumnsOf x) sev (eval_asOf e)"
    have d: "inc_id d = inc_id a" "inc_generation d = row_generation row" "inc_status d = inc_status a" "inc_severity d = sev"
      using a(3) by (simp_all add: d_def incidentWithEvidence_def ownIncident_def)
    have shut: "\<not> isOpen intent"
      using renew(9) by auto
    obtain db' where db': "runBatch [incidentUpdate a d] db1 1 = Some (db', [1])" "db_states db' = db_states db1"
        "incidentsHold db' new s'" "currentIncidents db' new = [d]"
        "outboxHolds db' row" "db_outbox db' = db_outbox db"
      unfolding d_def
      by (rule incident_renewed[OF h w rep st renew(2,4,5,7) _ x(1) _ shut a(2,1,3-6)]) (use renew in auto)
    have "eval_evidence e = Known"
      using renew(3) e sound_known by simp
    then have refresh: "refreshWrites e s' ev (Some a) = Inr (Some d, [incidentUpdate a d])"
      using renew(2,3) x(2) by (simp add: refreshWrites_def refreshesIncident_def d_def Let_def)
    have fits: "eventFits db' new d kind n"
      if "kind = Escalated \<and> old = Warning \<and> sev = Critical \<or> kind = Reminder"
        "n = (if kind = Reminder then nextSequence db (inc_id a) (row_generation row) else 1)" "n \<le> MAX_EVENT_SEQUENCE"
      for kind n
      by (rule eventFits_later[OF rowHolds_outbox(3)[OF h a(1)] d(1) db'(6)])
        (use that severity renew(2) d a(4,5) in auto)
    obtain event where "planIncident (row_key row) incidentId (row_generation row + (if isOpen intent then 1 else 0)) e
          (intent, s') ev (currentIncident db row p) db = Inr (Some d, [incidentUpdate a d], event)"
        "eventPlanned db' new (Some d) event
          (decidedDelivery incidentId db (row_generation row) (currentIncidents db row) intent)"
    proof -
      consider "intent = None" | b y where "intent = Some (RemindIntent b y sev)"
        | b y where "intent = Some (EscalateIntent b y)" "old = Warning" "sev = Critical"
        using renew(9) by blast
      then show thesis
      proof cases
        case 1
        then show ?thesis
          using that[of None] refresh a(2) by (simp add: eventPlanned_def decidedDelivery_def)
      next
        case (2 b y)
        let ?n = "nextSequence db (inc_id a) (row_generation row)"
        have n: "?n \<le> MAX_EVENT_SEQUENCE"
          using room 2 a(1) by (simp add: decidedDelivery_def deliveryRoom_def)
        have f: "eventFits db' new d Reminder ?n"
          by (rule fits) (use n in simp_all)
        then have "nextReminderSequence db d = Inr ?n"
          using n d(1,2) by (simp add: nextReminderSequence_def eventFits_def)
        then show ?thesis
          using that[of "Some (eventOn d Reminder ?n)"] refresh a(1,2) 2 d f
          by (simp add: eventPlanned_def decidedDelivery_def eventOn_def)
      next
        case (3 b y)
        have f: "eventFits db' new d Escalated 1"
          by (rule fits) (use 3 in \<open>simp_all add: MAX_EVENT_SEQUENCE_def\<close>)
        then show ?thesis
          using that[of "Some (eventOn d Escalated 1)"] a(1,2) 3 d x(2) renew(3)
            d_def[unfolded 3(3), symmetric]
          by (simp add: eventPlanned_def decidedDelivery_def eventOn_def Let_def)
      qed
    qed
    then show ?thesis
      using that[of "Some d" "[incidentUpdate a d]" event db' "[1]"] db' by (simp del: runBatch.simps)
  next
    case (resolve sev b)
    have st: "status p = Some sev"
      using resolve(1) by simp
    obtain a x where a: "currentIncidents db row = [a]" "currentIncident db row p = Some a" "ownIncident row a"
        "showsEvidence a x" "inc_status a \<noteq> Resolved" "inc_severity a = sev"
      using currentIncident_active[OF h st] by metis
    have shut: "\<not> isOpen intent"
      using resolve(3) by simp
    define d where "d = a\<lparr>inc_status := Resolved, inc_updatedAt := eval_asOf e\<rparr>"
    have d: "inc_id d = inc_id a" "inc_generation d = row_generation row" "inc_status d = Resolved" "inc_severity d = sev"
      using a(3,6) by (simp_all add: d_def ownIncident_def)
    obtain db' where db': "runBatch [incidentUpdate a d] db1 1 = Some (db', [1])" "db_states db' = db_states db1"
        "incidentsHold db' new s'" "currentIncidents db' new = [d]"
        "outboxHolds db' row" "db_outbox db' = db_outbox db"
      unfolding d_def by (rule incident_resolved[OF h w rep st resolve(2) shut resolve(5) a(1,3-5)])
    have "eventFits db' new d ResolvedEvent 1"
      by (rule eventFits_later[OF rowHolds_outbox(3)[OF h a(1)] d(1) db'(6)])
        (use severity resolve(2) d a(5) in \<open>simp_all add: MAX_EVENT_SEQUENCE_def\<close>)
    then have "eventPlanned db' new (Some d) (Some (eventOn d ResolvedEvent 1))
        (decidedDelivery incidentId db (row_generation row) (currentIncidents db row) intent)"
      using resolve(3) d a(1) by (simp add: eventPlanned_def decidedDelivery_def)
    then show ?thesis
      using that[of "Some d" "[incidentUpdate a d]" "Some (eventOn d ResolvedEvent 1)" db' "[1]"] resolve a(2) db' d
      by (simp add: Let_def d_def[symmetric] resolvedIncident_def eventOn_def del: runBatch.simps)
  qed
qed

subsection \<open>A stored row\<close>

lemma rowHolds_stores:
  "rowHolds digest env i db row p \<Longrightarrow> rowStores row p \<and> columnsStore row p"
  by (simp add: rowHolds_def rowShape_def)

lemma rowShape_replaced:
  assumes h: "rowHolds digest env i db row p" and rep: "replaced db row new db1" and st: "db_states db' = db_states db1"
    and "row_key new = row_key row" and "inDomain MAX_STATE_GENERATION (row_generation new)"
    and "inDomain MAX_STATE_REVISION (row_revision new)" and "rowStores new s'" and "\<exists>x. columnsHold new x"
    and "incidentsHold db' new s'" and "outboxHolds db' new" and "shortInstants s'"
    and "evaluatedState (row_lastEvaluatedAt new) i s'" and "canonical (row_lastEvaluatedAt new)"
  shows "rowShape digest env i db' new s'"
proof -
  have "filter (\<lambda>r. key_id (row_key r) = key_id (row_key row)) (db_states db) = [row]"
    using h by (simp add: rowHolds_def rowShape_def)
  then have "filter (\<lambda>r. key_id (row_key r) = key_id (row_key new)) (db_states db') = [new]"
    using replaced_id[OF rep] st assms(4) by simp
  then show ?thesis
    using assms(5-) h assms(4) by (simp add: rowShape_def rowHolds_def)
qed

lemma columns_after:
  assumes old: "columnsHold row x" and s': "evaluatedState asOf i s'" and i: "row_ruleId row = id_ruleId i"
    and ev: "ev = None \<or> (\<exists>y. columnsEvidence s' = Some y \<and> ev = Some (evidenceColumnsOf y))"
  shows "\<exists>y. columnsHold (prepareStateUpdate row e intent s' ev asOf) y \<and> (ev = None \<longrightarrow> y = x)"
  using written_columns[OF old i s' ev] by metis

text \<open>The batch planned for a decision on a stored row.\<close>

definition storedPlan ::
  "digestFunction \<Rightarrow> alertRuleEvaluation \<Rightarrow> alertStateRow \<Rightarrow> alertActionIntent option \<Rightarrow> evidenceColumns option \<Rightarrow>
   statement \<Rightarrow> incidentRow option \<times> statement list \<times> plannedEvent option \<Rightarrow> persistencePlan" where
  "storedPlan digest e row intent ev st planned =
     (case planned of (desired, writes, event) \<Rightarrow>
        \<lparr>plan_statements = st # writes @ deliveryWrites digest event (row_key row) (eval_asOf e),
         plan_key = row_key row, plan_evidence = ev,
         plan_generation = row_generation row + (if isOpen intent then 1 else 0),
         plan_revision = row_revision row + 1, plan_incident = desired, plan_event = event\<rparr>)"

lemma storedPlan_fold:
  "(\<lambda>planned. Inr (Some (storedPlan digest e row intent ev st planned))) =
     (\<lambda>(desired, writes, event). Inr (Some
        \<lparr>plan_statements = st # writes @ deliveryWrites digest event (row_key row) (eval_asOf e),
         plan_key = row_key row, plan_evidence = ev,
         plan_generation = row_generation row + (if isOpen intent then 1 else 0),
         plan_revision = row_revision row + 1, plan_incident = desired, plan_event = event\<rparr>))"
  by (rule ext) (simp add: storedPlan_def case_prod_unfold)

lemma storedPlan_fields:
  "plan_key (storedPlan digest e row intent ev st (desired, writes, event)) = row_key row"
  "plan_evidence (storedPlan digest e row intent ev st (desired, writes, event)) = ev"
  "plan_generation (storedPlan digest e row intent ev st (desired, writes, event)) =
     row_generation row + (if isOpen intent then 1 else 0)"
  "plan_revision (storedPlan digest e row intent ev st (desired, writes, event)) = row_revision row + 1"
  "plan_incident (storedPlan digest e row intent ev st (desired, writes, event)) = desired"
  "plan_event (storedPlan digest e row intent ev st (desired, writes, event)) = event"
  by (simp_all add: storedPlan_def)

lemma stored_step:
  fixes newStateId :: string
  assumes valid: "validState (getTime (eval_asOf e)) p" and e: "soundEvaluation e" "immediateEvidence e"
    and h: "rowHolds digest env (identityFor e) db row p"
    and bounds: "row_generation row < MAX_STATE_GENERATION" "row_revision row < MAX_STATE_REVISION"
    and r: "advanceEvaluated e p (eval_asOf e) = Inr (intent, s')" and short: "length (eval_asOf e) = 24"
  obtains ev new st
  where "alertStep e (eval_asOf e) (boundState e p (eval_asOf e)) intent s'"
    and "evaluatedState (eval_asOf e) (identityFor e) (boundState e p (eval_asOf e))"
    and "evaluatedState (eval_asOf e) (identityFor e) s'" and "rowStores new s'" and "writtenRow e row intent s' new"
    and "ev = None \<or> (\<exists>x. columnsEvidence s' = Some x \<and> ev = Some (evidenceColumnsOf x))"
    and "eval_severity e = None \<longleftrightarrow> ev = None"
    and "new = prepareStateUpdate row e intent s' ev (eval_asOf e)"
    and "columnsStore new s' \<longleftrightarrow> \<not> pendingWithdrawn e p"
    and "if pendingCleared e p then st db 0 = None
      else \<exists>db1. st db 0 = Some (db1, 1) \<and> replaced db row new db1"
    and "planDecision digest newStateId incidentId env e (intent, s') (Some (expectedOf db row p)) db =
      and_then (planIncident (row_key row) incidentId (row_generation row + (if isOpen intent then 1 else 0)) e
          (intent, s') ev (currentIncident db row p) db)
        (\<lambda>planned. Inr (Some (storedPlan digest e row intent ev st planned)))"
proof -
  note m = rowShape_match[OF rowHolds_shape[OF h]]
  have bound: "identity p \<noteq> None"
    using m(8) by simp
  obtain s: "evaluatedState (eval_asOf e) (identityFor e) (boundState e p (eval_asOf e))"
    and s': "evaluatedState (eval_asOf e) (identityFor e) s'"
    and step: "alertStep e (eval_asOf e) (boundState e p (eval_asOf e)) intent s'"
    and "\<exists>t. lastEvaluatedAt p = Some t \<and> getTime t < getTime (eval_asOf e)"
    using advanceEvaluated_bound[OF valid e(1) refl disjI1[OF bound] r] bound by metis
  then have time: "getTime (row_lastEvaluatedAt row) < getTime (eval_asOf e)"
    using m(6) by auto
  obtain ev new where ev: "persistedEvidence s' e = Inr ev"
      and new: "new = prepareStateUpdate row e intent s' ev (eval_asOf e)"
      and acc: "\<not> decisionRejected (Some (row_lastEvaluatedAt row)) e (intent, s')" "rowStores new s'"
        "columnsStore new s' \<longleftrightarrow> \<not> pendingWithdrawn e p" "updateAccepted False row new \<longleftrightarrow> \<not> pendingCleared e p"
    by (rule update_accepted[OF valid e refl bound rowHolds_stores[OF h, THEN conjunct1]
          rowHolds_stores[OF h, THEN conjunct2] r, of False])
  note evs = persistedEvidence_columns[OF ev e(1)]
  have canon: "canonical (eval_asOf e)"
    using e(1) by (simp add: soundEvaluation_def)
  have open_none: "status p = None" if "isOpen intent"
    using step that by (cases intent rule: isOpen.cases) (auto elim: alertStep_openE)
  have needs: "status p \<noteq> None" if "needsExpectedIncident (intent, s')"
    using step s s' e(1)
  proof (cases rule: alertStep_kinds)
    case idle
    then show ?thesis
      using that evaluated_phase[OF s'] by (simp add: needsExpectedIncident_def)
  next
    case (begins sev x b)
    then show ?thesis
      using that by (simp add: needsExpectedIncident_def)
  qed simp_all
  have unknown: "status s' = status p" if "eval_evidence e = Unknown"
  proof -
    have "eval_severity e = None"
      using that e(1) by (simp add: soundEvaluation_def)
    then show ?thesis
      using that by (cases rule: alertStep.cases[OF step]) (auto simp: clearSample_def confirms_def)
  qed
  have w: "writtenRow e row intent s' new"
    using time m short canon rowShape_key(1)[OF rowHolds_shape[OF h]]
    by (simp add: writtenRow_def new shortInstant_def identityFor_def)
  note plan = planDecision_bound[OF h time short bounds acc(1) ev open_none needs, of newStateId incidentId]
  note runs = stateUpdate_runs[OF h time bounds(2) unknown, where intent = intent and ev = ev and previous = 0, folded new]
  show thesis
    by (rule that[OF step s s' acc(2) w _ _ new acc(3) _ plan[folded storedPlan_fold]])
      (use evs acc(4) runs in \<open>cases "eval_severity e"; auto\<close>)+
qed

lemma pendingCleared_kept:
  assumes step: "alertStep e asOf s intent s'" and s: "evaluatedState asOf i s" and cleared: "pendingCleared e s"
  shows "intent = None"
proof -
  have "status s' = Some Warning"
    by (rule pendingCleared_stays[OF step s cleared])
  with step show ?thesis
    by cases (use cleared in \<open>auto simp: pendingCleared_def clearSample_def\<close>)
qed

lemma persist_aborted:
  assumes "validState (getTime (eval_asOf e)) p" and "soundEvaluation e" and "immediateEvidence e"
    and "rowHolds digest env (identityFor e) db row p"
    and "row_generation row < MAX_STATE_GENERATION" and "row_revision row < MAX_STATE_REVISION"
    and "advanceEvaluated e p (eval_asOf e) = Inr (intent, s')" and "length (eval_asOf e) = 24"
    and cleared: "pendingCleared e p"
  shows "persistDecision digest newStateId incidentId env e (intent, s')
    (Some (expectedOf db row p)) db = (db, repoWriteFailed)"
proof -
  obtain ev new st where step: "alertStep e (eval_asOf e) (boundState e p (eval_asOf e)) intent s'"
    and s: "evaluatedState (eval_asOf e) (identityFor e) (boundState e p (eval_asOf e))"
    and s': "evaluatedState (eval_asOf e) (identityFor e) s'"
    and run: "if pendingCleared e p then st db 0 = None
      else \<exists>db1. st db 0 = Some (db1, 1) \<and> replaced db row new db1"
    and plan: "planDecision digest newStateId incidentId env e (intent, s') (Some (expectedOf db row p)) db =
      and_then (planIncident (row_key row) incidentId (row_generation row + (if isOpen intent then 1 else 0)) e
          (intent, s') ev (currentIncident db row p) db)
        (\<lambda>planned. Inr (Some (storedPlan digest e row intent ev st planned)))"
    by (rule stored_step[OF assms(1-8), of newStateId incidentId])
  have "intent = None"
    using pendingCleared_kept[OF step s] cleared by simp
  moreover have "eval_severity e = None"
    using cleared by (simp add: pendingCleared_def clearSample_def)
  ultimately show ?thesis
    using plan run cleared s'
    by (auto simp: persistDecision_def refreshWrites_def refreshesIncident_def evaluatedState_def storedPlan_def)
qed

text \<open>The outbox gains the delivery decided, and nothing else.\<close>

definition deliveredRows ::
  "digestFunction \<Rightarrow> alertDb \<Rightarrow> alertDb \<Rightarrow> stateKey \<Rightarrow> string \<Rightarrow> (string \<times> int \<times> eventKind \<times> int) option \<Rightarrow> bool" where
  "deliveredRows digest db db' key at delivery \<longleftrightarrow>
     (case delivery of None \<Rightarrow> db_outbox db' = db_outbox db
      | Some (incidentId, generation, kind, sequence) \<Rightarrow>
          \<exists>d \<in> set (db_incidents db'). inc_id d = incidentId \<and> inc_generation d = generation \<and>
            db_outbox db' = db_outbox db @ [queuedRow digest (eventOn d kind sequence) key at])"

lemma incidents_same:
  assumes "db_incidents db' = db_incidents db"
  shows "incidentsHold db' row s \<longleftrightarrow> incidentsHold db row s" and "currentIncidents db' row = currentIncidents db row"
proof -
  have own: "incidentsOf db' = incidentsOf db"
    by (rule ext) (simp add: incidentsOf_def assms)
  then show cur: "currentIncidents db' row = currentIncidents db row"
    by (simp add: currentIncidents_def)
  show "incidentsHold db' row s \<longleftrightarrow> incidentsHold db row s"
    unfolding incidentsHold_def own cur ..
qed

lemma deliveryRoom_same:
  "deliveryRoom digest db delivery \<Longrightarrow> db_outbox db2 = db_outbox db \<Longrightarrow> deliveryRoom digest db2 delivery"
  by (cases delivery) (auto simp: deliveryRoom_def deliveryFree_def)

lemma currentIncidents_member: "currentIncidents db row = [d] \<Longrightarrow> d \<in> set (db_incidents db)"
  using filter_mem unfolding currentIncidents_filter by fastforce

lemma persist_stored:
  assumes given: "validState (getTime (eval_asOf e)) p" "soundEvaluation e" "immediateEvidence e"
    "rowHolds digest env (identityFor e) db row p"
    "row_generation row < MAX_STATE_GENERATION" "row_revision row < MAX_STATE_REVISION"
    "advanceEvaluated e p (eval_asOf e) = Inr (intent, s')" "length (eval_asOf e) = 24"
    and sel: "selectStates env (identityFor e) db = [row]" and short: "shortInstants s'"
    and fresh: "uuidV4 incidentId" "\<And>b. b \<in> set (db_incidents db) \<Longrightarrow> inc_id b \<noteq> incidentId"
    and kept: "\<not> pendingCleared e p" and digest: "digest32 digest"
    and room: "deliveryRoom digest db (decidedDelivery incidentId db (row_generation row) (currentIncidents db row) intent)"
  obtains db' new where "persistDecision digest newStateId incidentId env e (intent, s')
      (Some (expectedOf db row p)) db = (db', Inr Applied)"
    and "selectStates env (identityFor e) db' = [new]" and "rowShape digest env (identityFor e) db' new s'"
    and "columnsStore new s' \<longleftrightarrow> \<not> pendingWithdrawn e p"
    and "pendingWithdrawn e p \<Longrightarrow> row_columns new = row_columns row"
    and "row_key new = row_key row" and "row_revision new = row_revision row + 1"
    and "deliveredRows digest db db' (row_key row) (eval_asOf e)
      (decidedDelivery incidentId db (row_generation row) (currentIncidents db row) intent)"
proof -
  note h = given(4)
  obtain ev new st where step: "alertStep e (eval_asOf e) (boundState e p (eval_asOf e)) intent s'"
    and s: "evaluatedState (eval_asOf e) (identityFor e) (boundState e p (eval_asOf e))"
    and s': "evaluatedState (eval_asOf e) (identityFor e) s'" and stores: "rowStores new s'"
    and w: "writtenRow e row intent s' new"
    and ev: "ev = None \<or> (\<exists>x. columnsEvidence s' = Some x \<and> ev = Some (evidenceColumnsOf x))"
      "eval_severity e = None \<longleftrightarrow> ev = None"
    and new: "new = prepareStateUpdate row e intent s' ev (eval_asOf e)"
    and cols: "columnsStore new s' \<longleftrightarrow> \<not> pendingWithdrawn e p"
    and run: "if pendingCleared e p then st db 0 = None
      else \<exists>db1. st db 0 = Some (db1, 1) \<and> replaced db row new db1"
    and plan: "planDecision digest newStateId incidentId env e (intent, s') (Some (expectedOf db row p)) db =
      and_then (planIncident (row_key row) incidentId (row_generation row + (if isOpen intent then 1 else 0)) e
          (intent, s') ev (currentIncident db row p) db)
        (\<lambda>planned. Inr (Some (storedPlan digest e row intent ev st planned)))"
    by (rule stored_step[OF given, of newStateId incidentId])
  obtain db1 where db1: "st db 0 = Some (db1, 1)" and rep: "replaced db row new db1"
    using run kept by auto
  have x: "eval_severity e \<noteq> None \<Longrightarrow> (\<exists>x. columnsEvidence s' = Some x \<and> ev = Some (evidenceColumnsOf x))"
    "eval_severity e \<noteq> None \<Longrightarrow> columnsStore new s'"
    using ev cols by (auto simp: pendingWithdrawn_def)
  obtain desired writes event db2 changes where inc: "planIncident (row_key row) incidentId
        (row_generation row + (if isOpen intent then 1 else 0)) e (intent, s') ev (currentIncident db row p) db
        = Inr (desired, writes, event)" "runBatch writes db1 1 = Some (db2, changes)" "list_all (\<lambda>n. n = 1) changes"
      "db_states db2 = db_states db1" "incidentsHold db2 new s'" "outboxHolds db2 row" "db_outbox db2 = db_outbox db"
      "case desired of None \<Rightarrow> True | Some d \<Rightarrow> currentIncidents db2 new = [d]"
      "eventPlanned db2 new desired event
        (decidedDelivery incidentId db (row_generation row) (currentIncidents db row) intent)"
    by (rule incident_step[OF h w rep given(2) step s s' x fresh room])
  have key: "row_key new = row_key row" "row_lastEvaluatedAt new = eval_asOf e"
    "row_generation new = row_generation row + (if isOpen intent then 1 else 0)"
    "row_revision new = row_revision row + 1"
    using w by (simp_all add: writtenRow_def) (simp add: new)
  have sel2: "selectStates env (identityFor e) db2 = [new]"
    using replaced_select[OF rep sel] inc(4) by (simp add: selectStates_def)
  obtain x where "columnsHold row x"
    using h by (auto simp: rowHolds_def rowShape_def)
  then have held: "\<exists>x. columnsHold new x"
    using columns_after[OF _ s' rowShape_key(1)[OF rowHolds_shape[OF h]] ev(1)] new by blast
  have dom: "inDomain MAX_STATE_GENERATION (row_generation new)" "inDomain MAX_STATE_REVISION (row_revision new)"
    using h given(5,6) key by (auto simp: rowHolds_def rowShape_def inDomain_def)
  have allowed: "validDimension (ruleDimensions (ALERT_RULE_DEFINITIONS (id_ruleId (identityFor e)))) (id_dimension (identityFor e))"
    using h by (simp add: rowHolds_def rowShape_def validIdentity_def)
  have dims: "key_dimensions (row_key new) = dimensionColumnsOf (id_dimension (identityFor e))"
    using rowShape_key(4)[OF rowHolds_shape[OF h]] key(1) by simp
  have gen: "1 \<le> row_generation new" if "event \<noteq> None"
    using inc(5,8,9) that hold_generation[OF inc(5) stores]
    by (auto simp: eventPlanned_def split: option.splits)
  have top: "row_generation new \<le> MAX_STATE_GENERATION"
    using dom(1) by (simp add: inDomain_def)
  have later: "getTime (row_lastEvaluatedAt row) < getTime (eval_asOf e)"
    using w by (simp add: writtenRow_def)
  obtain db' more_changes where out: "runBatch (deliveryWrites digest event (row_key new) (eval_asOf e)) db2 1
        = Some (db', more_changes)" "list_all (\<lambda>n. n = 1) more_changes"
      "db_states db' = db_states db2" "db_incidents db' = db_incidents db2"
      "db_outbox db' = db_outbox db2 @ queuedRows digest event (row_key new) (eval_asOf e)" "outboxHolds db' new"
      "case event of None \<Rightarrow> True | Some ev \<Rightarrow> desired = Some (event_incident ev) \<and> 1 \<le> event_sequence ev \<and>
        event_sequence ev \<le> MAX_EVENT_SEQUENCE \<and>
        selectOutbox env (identityFor e) (event_kind ev) (row_generation new) (eval_asOf e) db'
          = [queuedRow digest ev (row_key new) (eval_asOf e)]"
    by (rule delivery_step[OF digest sel2 inc(5,6) key(1) inc(8) gen top allowed dims inc(9)
          deliveryRoom_same[OF room inc(7)] key(2) later])
  have same: "incidentsHold db' new s'" "currentIncidents db' new = currentIncidents db2 new"
    "selectStates env (identityFor e) db' = [new]" "db_states db' = db_states db1"
    using inc(4,5) sel2 out(3) incidents_same[OF out(4)] by (simp_all add: selectStates_def)
  have "canonical (eval_asOf e)"
    using given(2) by (simp add: soundEvaluation_def)
  then have shape: "rowShape digest env (identityFor e) db' new s'"
    using rowShape_replaced[OF h rep same(4) key(1) dom stores held same(1) out(6) short] s' key(2) by simp
  have matched: "case ev of None \<Rightarrow> True | Some x \<Rightarrow> row_columns new = stateColumnsOf x"
    unfolding new by (simp split: option.split)
  have shown: "case desired of None \<Rightarrow> True | Some d \<Rightarrow> currentIncidents db' new = [d]"
    using inc(8) same(2) by (auto split: option.splits)
  let ?plan = "storedPlan digest e row intent ev st (desired, writes, event)"
  have planned: "planDecision digest newStateId incidentId env e (intent, s') (Some (expectedOf db row p)) db
      = Inr (Some ?plan)"
    using plan inc(1) by simp
  have "runBatch (writes @ deliveryWrites digest event (row_key row) (eval_asOf e)) db1 1 = Some (db', changes @ more_changes)"
    using runBatch_append[OF inc(2) refl inc(3)] out(1) key(1) by simp
  then have run: "runBatch (plan_statements ?plan) db 0 = Some (db', 1 # changes @ more_changes)"
    using db1 by (simp add: storedPlan_def)
  have "persistDecision digest newStateId incidentId env e (intent, s')
      (Some (expectedOf db row p)) db = (db', Inr Applied)"
    by (rule persist_applied[OF planned run _ same(3) shape, unfolded storedPlan_fields])
      (use inc(3) out(2,7) key matched shown given(8) in simp_all)
  moreover have "deliveredRows digest db db' (row_key row) (eval_asOf e)
      (decidedDelivery incidentId db (row_generation row) (currentIncidents db row) intent)"
    using inc(7,8,9) out(4,5) key(1) currentIncidents_member
    unfolding deliveredRows_def eventPlanned_def queuedRows_def by (fastforce split: option.splits)
  moreover have "row_columns new = row_columns row" if "pendingWithdrawn e p"
    using ev(2) that unfolding new by (simp add: pendingWithdrawn_def)
  ultimately show thesis
    using that same(3) shape cols key by blast
qed

subsection \<open>The first row of an alert\<close>

text \<open>The keys the first write draws are not used yet.\<close>

definition freshKeys ::
  "digestFunction \<Rightarrow> alertEnvironment \<Rightarrow> alertLifecycleIdentity \<Rightarrow> string \<Rightarrow> string \<Rightarrow> alertDb \<Rightarrow> bool" where
  "freshKeys digest env i newStateId incidentId db \<longleftrightarrow>
     uuidV4 newStateId \<and> uuidV4 incidentId \<and>
     list_all (\<lambda>r. key_id (row_key r) \<noteq> newStateId \<and>
       key_dedupeKey (row_key r) \<noteq> key_dedupeKey (stateKeyFor digest env newStateId i)) (db_states db) \<and>
     list_all (\<lambda>b. inc_id b \<noteq> incidentId \<and> inc_stateId b \<noteq> newStateId) (db_incidents db)"

lemma stateKeyFor_id [simp]: "key_id (stateKeyFor digest env k i) = k"
  by (simp add: stateKeyFor_def Let_def)

lemma stateKeyFor_fields:
  "key_ruleId (stateKeyFor digest env k i) = id_ruleId i"
  "key_environment (stateKeyFor digest env k i) = env"
  "key_sourceKind (stateKeyFor digest env k i) = sourceKindFor (id_ruleId i)"
  "key_dimensions (stateKeyFor digest env k i) = dimensionColumnsOf (id_dimension i)"
  by (simp_all add: stateKeyFor_def Let_def)

lemma selectsKey_own: "selectsKey env i (stateKeyFor digest env k i)"
  by (simp add: selectsKey_def stateKeyFor_fields)

lemma fresh_appended:
  assumes fresh: "freshKeys digest env i newStateId incidentId db" and none: "selectStates env i db = []"
    and st: "db_states db' = db_states db @ [new]" and key: "row_key new = stateKeyFor digest env newStateId i"
  shows "selectStates env i db' = [new]"
    and "filter (\<lambda>r. key_id (row_key r) = key_id (row_key new)) (db_states db') = [new]"
proof -
  show "selectStates env i db' = [new]"
    using none st selectsKey_own[of env i digest newStateId] key
    by (simp add: selectStates_def selects_key)
  have "filter (\<lambda>r. key_id (row_key r) = key_id (row_key new)) (db_states db) = []"
    using fresh key by (auto simp: freshKeys_def list_all_iff filter_empty_conv)
  then show "filter (\<lambda>r. key_id (row_key r) = key_id (row_key new)) (db_states db') = [new]"
    using st by simp
qed

lemma stateInsert_runs:
  assumes fresh: "freshKeys digest env i newStateId incidentId db" and none: "selectStates env i db = []"
    and ok: "insertAccepted (prepareStateInsert (stateKeyFor digest env newStateId i) ev at)"
  shows "stateInsert env i (stateKeyFor digest env newStateId i) ev at db previous =
    Some (db\<lparr>db_states := db_states db @ [prepareStateInsert (stateKeyFor digest env newStateId i) ev at]\<rparr>, 1)"
proof -
  have "\<not> list_ex (\<lambda>other. key_id (row_key other) = newStateId \<or>
      key_dedupeKey (row_key other) = key_dedupeKey (stateKeyFor digest env newStateId i)) (db_states db)"
    using fresh by (auto simp: freshKeys_def list_all_iff list_ex_iff)
  then show ?thesis
    using none ok by (simp add: stateInsert_def Let_def)
qed

lemma immediateConfirmation_runs:
  assumes fresh: "list_all (\<lambda>r. key_id (row_key r) \<noteq> key_id key) rows"
    and a: "row_key a = key" "prepareImmediateConfirmation a at = Some b" "updateAccepted False a b"
  shows "immediateConfirmation key at (db\<lparr>db_states := rows @ [a]\<rparr>) 1 =
    Some (db\<lparr>db_states := rows @ [b]\<rparr>, 1)"
proof -
  let ?m = "\<lambda>row. (1::int) = 1 \<and> key_id (row_key row) = key_id key \<and> row_ruleId row = key_ruleId key \<and>
          key_environment (row_key row) = key_environment key \<and>
          key_sourceKind (row_key row) = key_sourceKind key \<and>
          prepareImmediateConfirmation row at \<noteq> None"
  have others: "\<not> ?m r" if "r \<in> set rows" for r
    using fresh that by (auto simp: list_all_iff)
  then have m: "filter ?m (rows @ [a]) = [a]"
    using a by (simp add: filter_empty_conv)
  have "map (\<lambda>r. if ?m r then the (prepareImmediateConfirmation r at) else r) rows = rows"
    by (rule map_idI) (use others in metis)
  then show ?thesis
    using updateStates_one[of ?m "db\<lparr>db_states := rows @ [a]\<rparr>" a] m a by (simp add: immediateConfirmation_def)
qed

lemma rowShape_first:
  assumes fresh: "freshKeys digest env i newStateId incidentId db" and none: "selectStates env i db = []"
    and st: "db_states db' = db_states db @ [new]" and key: "row_key new = stateKeyFor digest env newStateId i"
    and "inDomain MAX_STATE_GENERATION (row_generation new)" "inDomain MAX_STATE_REVISION (row_revision new)"
    and "rowStores new s'" "columnsStore new s'" "incidentsHold db' new s'" "outboxHolds db' new" "shortInstants s'"
    "validIdentity i"
    and s': "evaluatedState (row_lastEvaluatedAt new) i s'" "canonical (row_lastEvaluatedAt new)"
  shows "rowHolds digest env i db' new s'"
  using assms fresh_appended(2)[OF fresh none st key]
  by (auto simp: rowHolds_def rowShape_def freshKeys_def columnsStore_def)

lemma no_incidents:
  assumes "freshKeys digest env i newStateId incidentId db" and "key_id (row_key row) = newStateId"
  shows "incidentsOf db row = []"
  using assms by (auto simp: freshKeys_def list_all_iff incidentsOf_def filter_empty_conv)

text \<open>The plan of a first write.\<close>

lemma planDecision_first:
  fixes digest :: digestFunction and env :: alertEnvironment and newStateId :: string
  assumes "\<not> decisionRejected None e (intent, s')" and "\<not> needsExpectedIncident (intent, s')"
    and "persistedEvidence s' e = Inr (Some ev)" and "\<not> initialRejected e (intent, s') (Some ev)"
    and imm: "eval_immediateCritical e \<longleftrightarrow> isOpen intent"
    and at: "if isOpen intent then toISOString (getTime (eval_asOf e) - 1) = Inr at else at = eval_asOf e"
    and "length at = 24"
  defines "n \<equiv> (if isOpen intent then 1 else 0)" and "key \<equiv> stateKeyFor digest env newStateId (identityFor e)"
  shows "planDecision digest newStateId incidentId env e (intent, s') None db =
    and_then (planIncident key incidentId n e (intent, s') (Some ev) None db)
      (\<lambda>(desired, incidentWrites, event). Inr (Some
        \<lparr>plan_statements = (stateInsert env (identityFor e) key ev at #
           (if isOpen intent then [immediateConfirmation key (eval_asOf e)] else [])) @ incidentWrites @
           deliveryWrites digest event key (eval_asOf e),
         plan_key = key, plan_evidence = Some ev, plan_generation = n, plan_revision = n, plan_incident = desired,
         plan_event = event\<rparr>))"
proof -
  have "inDomain MAX_STATE_GENERATION n" "inDomain MAX_STATE_REVISION n"
    by (simp_all add: n_def inDomain_def MAX_STATE_GENERATION_def MAX_STATE_REVISION_def)
  then show ?thesis
    using assms(1-4,7) at imm
    by (cases "isOpen intent") (simp_all add: planDecision_def Let_def n_def key_def incidentConflict_def
        case_prod_unfold)
qed

lemma persist_first:
  assumes valid: "validState (getTime (eval_asOf e)) p" and e: "soundEvaluation e" "immediateEvidence e"
    and unbound: "identity p = None" and none: "selectStates env (identityFor e) db = []"
    and r: "advanceEvaluated e p (eval_asOf e) = Inr (intent, s')" and bound: "identity s' \<noteq> None"
    and range: "time_in_range (getTime (eval_asOf e) - 1)"
    and first24: "\<And>at. toISOString (getTime (eval_asOf e) - 1) = Inr at \<Longrightarrow> length at = 24"
    and short: "length (eval_asOf e) = 24" "shortInstants s'"
    and fresh: "freshKeys digest env (identityFor e) newStateId incidentId db" and sound: "keysSound db"
    and digest: "digest32 digest" and room: "deliveryRoom digest db (decidedDelivery incidentId db 0 [] intent)"
  obtains db' new where "persistDecision digest newStateId incidentId env e (intent, s') None db
      = (db', Inr Applied)"
    and "selectStates env (identityFor e) db' = [new]" and "rowHolds digest env (identityFor e) db' new s'"
    and "deliveredRows digest db db' (row_key new) (eval_asOf e) (decidedDelivery incidentId db 0 [] intent)"
proof -
  define key where "key = stateKeyFor digest env newStateId (identityFor e)"
  have key: "key_ruleId key = eval_ruleId e" "key_dimensions key = dimensionColumnsOf (eval_dimension e)" "key_id key = newStateId"
    by (simp_all add: key_def stateKeyFor_fields identityFor_def)
  have s': "evaluatedState (eval_asOf e) (identityFor e) s'"
    using advanceEvaluated_bound[OF valid e(1) refl disjI2[OF bound] r] by metis
  have canon: "canonical (eval_asOf e)" "validIdentity (identityFor e)"
    using e(1) by (simp_all add: soundEvaluation_def)
  show thesis
  proof (cases rule: insert_accepted[OF valid e refl unbound r bound range key(1,2)])
    case (1 x)
    define new where "new = prepareStateInsert key (evidenceColumnsOf x) (eval_asOf e)"
    let ?db' = "db\<lparr>db_states := db_states db @ [new]\<rparr>"
    have needs: "\<not> needsExpectedIncident (intent, s')"
      using 1 evaluated_phase[OF s'] by (simp add: needsExpectedIncident_def)
    have plan: "planDecision digest newStateId incidentId env e (intent, s') None db =
        Inr (Some \<lparr>plan_statements = [stateInsert env (identityFor e) key (evidenceColumnsOf x) (eval_asOf e)],
         plan_key = key, plan_evidence = Some (evidenceColumnsOf x), plan_generation = 0, plan_revision = 0,
         plan_incident = None, plan_event = None\<rparr>)"
      using planDecision_first[OF 1(2) needs 1(1,3), where digest = digest and env = env
          and newStateId = newStateId and incidentId = incidentId and db = db and at = "eval_asOf e"]
        1 short(1) by (simp add: key_def refreshWrites_def refreshesIncident_def deliveryWrites_def)
    have fields: "row_key new = key" "row_generation new = 0" "row_revision new = 0" "row_lastEvaluatedAt new = eval_asOf e"
      "row_columns new = stateColumnsOf (evidenceColumnsOf x)"
      by (simp_all add: new_def prepareStateInsert_def)
    have "incidentsHold ?db' new s'"
      using no_incidents[OF fresh, of new] fields key 1(6)
      by (simp add: incidentsHold_def currentIncidents_def)
    moreover have "outboxHolds ?db' new"
      using no_incidents[OF fresh, of new] fields key sound by (simp add: outboxHolds_def keysSound_def)
    ultimately have hold: "rowHolds digest env (identityFor e) ?db' new s'"
      using 1 fields key_def s' canon short new_def
      by (intro rowShape_first[OF fresh none]) (simp_all add: inDomain_def MAX_STATE_GENERATION_def MAX_STATE_REVISION_def)
    have sel: "selectStates env (identityFor e) ?db' = [new]"
      by (rule fresh_appended(1)[OF fresh none]) (simp_all add: fields key_def)
    have "stateInsert env (identityFor e) key (evidenceColumnsOf x) (eval_asOf e) db 0 = Some (?db', 1)"
      unfolding new_def key_def by (rule stateInsert_runs[OF fresh none]) (use 1(7) key_def in simp)
    then have "persistDecision digest newStateId incidentId env e (intent, s') None db
      = (?db', Inr Applied)"
      by (intro persist_applied[OF plan, of ?db' "[1]", OF _ _ sel rowHolds_shape[OF hold]])
        (simp_all add: fields short(1))
    moreover have "deliveredRows digest db ?db' (row_key new) (eval_asOf e) (decidedDelivery incidentId db 0 [] intent)"
      using 1 by (simp add: deliveredRows_def decidedDelivery_def)
    ultimately show ?thesis
      using that sel hold by blast
  next
    case (2 x first b)
    let ?a = "prepareStateInsert key (evidenceColumnsOf x) first"
    let ?db2 = "db\<lparr>db_states := db_states db @ [b]\<rparr>"
    define d where "d = incidentFromEvidence key (evidenceColumnsOf x) (eval_asOf e) 1 incidentId Critical"
    have op: "isOpen intent"
      using 2(5) by simp
    have needs: "\<not> needsExpectedIncident (intent, s')"
      using op by (simp add: needsExpectedIncident_def)
    have plan: "planDecision digest newStateId incidentId env e (intent, s') None db =
        Inr (Some \<lparr>plan_statements = [stateInsert env (identityFor e) key (evidenceColumnsOf x) first,
           immediateConfirmation key (eval_asOf e), incidentInsert d] @
             deliveryWrites digest (Some (eventOn d Opened 1)) key (eval_asOf e),
         plan_key = key, plan_evidence = Some (evidenceColumnsOf x), plan_generation = 1, plan_revision = 1,
         plan_incident = Some d, plan_event = Some (eventOn d Opened 1)\<rparr>)"
      using planDecision_first[OF 2(2) needs 2(1,3), where digest = digest and env = env
          and newStateId = newStateId and incidentId = incidentId and db = db and at = first]
        2(4,5,10) first24[OF 2(10)] by (simp add: key_def d_def Let_def eventOn_def incidentFromEvidence_def)
    have evidence: "columnsEvidence s' = Some x" "breachSeverity s' = None"
      using s' 2(6,8) by (auto simp: evaluated_defs columnsEvidence_def split: alertLifecyclePhase.splits)
    then have cols: "columnsHold b x"
      using 2(17) by (auto simp: columnsStore_def)
    have fields: "row_currentSeverity b = Some Critical" "row_breachSeverity b = None"
      "row_lastEvaluatedAt b = eval_asOf e" "row_columns b = stateColumnsOf (evidenceColumnsOf x)"
      using 2(6,16) evidence(2) s' cols
      by (auto simp: rowStores_def lifecycleColumnsMatch_def evaluatedState_def columnsHold_def)
    have d: "inc_severity d = Critical" "inc_status d = Open" "inc_stateId d = key_id key" "inc_id d = incidentId"
      "inc_generation d = 1" "inc_firstSeenAt d = eval_asOf e" "inc_metrics d = metricColumnsOf x"
      "inc_threshold d = ev_threshold x"
      by (simp_all add: d_def incidentFromEvidence_def)
    have ids: "uuidV4 newStateId" "uuidV4 incidentId"
      using fresh by (simp_all add: freshKeys_def)
    have own: "ownIncident b d"
      using ids 2(15,18) canon short(1) fields(3)
      by (simp add: ownIncident_def acknowledgementFits_def d_def incidentFromEvidence_def optionally_def shortInstant_def)
    have shows_d: "showsEvidence d x"
      using cols own d 2(9) by (simp add: showsEvidence_def columnsHold_def ownIncident_def)
    have confirmed: "incidentConfirmed ?db2 d"
      by (rule incidentConfirmed_row[OF _ own cols shows_d]) (use fields d in simp_all)
    have older: "incidentsOf ?db2 b = []"
      using no_incidents[OF fresh, of b] key(3) 2(15) by simp
    obtain db3 where db': "incidentInsert d ?db2 1 = Some (db3, 1)" "db_states db3 = db_states ?db2"
        "currentIncidents db3 b = [d]" "\<And>c. c \<in> set (incidentsOf db3 b) \<Longrightarrow> c = d \<or> c \<in> set (incidentsOf ?db2 b)"
        "db_outbox db3 = db_outbox ?db2" "map inc_id (db_incidents db3) = map inc_id (db_incidents ?db2) @ [inc_id d]"
    proof (rule incidentInsert_runs[OF confirmed, of b])
      show "inc_id c \<noteq> inc_id d" if "c \<in> set (db_incidents ?db2)" for c
        using fresh that d(4) by (auto simp: freshKeys_def list_all_iff)
    qed (use d 2(15,18) older in simp_all)
    have st3: "db_states db3 = db_states db @ [b]"
      using db'(2) by simp
    have key_b: "row_key b = stateKeyFor digest env newStateId (identityFor e)"
      using 2(15) by (simp add: key_def)
    have inc3: "incidentsHold db3 b s'"
      by (rule incidentsHold_active[OF db'(3) own shows_d]) (use d 2 db'(4) older in fastforce)+
    have unused: "inc_id d \<notin> set (map inc_id (db_incidents db))"
      using fresh d(4) by (auto simp: freshKeys_def list_all_iff)
    have same: "db_outbox db3 = db_outbox db" "map inc_id (db_incidents db3) = map inc_id (db_incidents db) @ [inc_id d]"
      using db'(5,6) by simp_all
    have keys: "row_key b = row_key ?a"
      using 2(15) by (simp add: prepareStateInsert_def)
    have box3: "outboxHolds db3 ?a"
    proof -
      have "deliveriesFit ?a (db_outbox db) d"
        by (rule deliveriesFit_unused[OF sound unused])
      moreover have "c = d" if "c \<in> set (incidentsOf db3 ?a)" for c
        using db'(4)[of c] that older incidentsOf_key[OF keys, of db3] by simp
      ultimately show ?thesis
        using keysSound_more[OF sound same(2) unused same(1)] same(1) by (auto simp: outboxHolds_def)
    qed
    have fits: "eventFits db3 b d Opened 1"
      by (rule eventFits_opened[OF sound unused same(1)]) (use fields d in simp_all)
    have planned: "eventPlanned db3 b (Some d) (Some (eventOn d Opened 1)) (decidedDelivery incidentId db 0 [] intent)"
      using fits d 2(5) by (simp add: eventPlanned_def decidedDelivery_def)
    have room3: "deliveryRoom digest db3 (decidedDelivery incidentId db 0 [] intent)"
      by (rule deliveryRoom_same[OF room same(1)])
    have allowed: "validDimension (ruleDimensions (ALERT_RULE_DEFINITIONS (id_ruleId (identityFor e)))) (id_dimension (identityFor e))"
      using canon(2) by (simp add: validIdentity_def)
    have dims: "key_dimensions (row_key b) = dimensionColumnsOf (id_dimension (identityFor e))"
      unfolding key_b stateKeyFor_fields ..
    have later: "getTime (row_lastEvaluatedAt ?a) < getTime (eval_asOf e)"
      using 2(10) range by (auto simp: prepareStateInsert_def toISOString_def)
    have current: "case Some d of None \<Rightarrow> True | Some d \<Rightarrow> currentIncidents db3 b = [d]"
      using db'(3) by simp
    have gen: "1 \<le> row_generation b" "row_generation b \<le> MAX_STATE_GENERATION"
      using 2(18) by (simp_all add: MAX_STATE_GENERATION_def)
    note sel3 = fresh_appended(1)[OF fresh none st3 key_b]
    obtain db' changes where out: "runBatch (deliveryWrites digest (Some (eventOn d Opened 1)) (row_key b) (eval_asOf e)) db3 1
          = Some (db', changes)" "list_all (\<lambda>n. n = 1) changes"
        "db_states db' = db_states db3" "db_incidents db' = db_incidents db3"
        "db_outbox db' = db_outbox db3 @ queuedRows digest (Some (eventOn d Opened 1)) (row_key b) (eval_asOf e)"
        "outboxHolds db' b"
        "case Some (eventOn d Opened 1) of None \<Rightarrow> True | Some ev \<Rightarrow> Some d = Some (event_incident ev) \<and>
          1 \<le> event_sequence ev \<and> event_sequence ev \<le> MAX_EVENT_SEQUENCE \<and>
          selectOutbox env (identityFor e) (event_kind ev) (row_generation b) (eval_asOf e) db'
            = [queuedRow digest ev (row_key b) (eval_asOf e)]"
      by (rule delivery_step[OF digest sel3 inc3 box3 keys current gen allowed dims planned room3 fields(3) later])
    have st: "db_states db' = db_states db @ [b]"
      using st3 out(3) by simp
    have inc: "incidentsHold db' b s'" "currentIncidents db' b = [d]"
      using inc3 db'(3) incidents_same[OF out(4)] by simp_all
    have hold: "rowHolds digest env (identityFor e) db' b s'"
      using 2(16-19) fields s' canon short inc(1) out(6)
      by (intro rowShape_first[OF fresh none st key_b])
        (simp_all add: inDomain_def MAX_STATE_GENERATION_def MAX_STATE_REVISION_def)
    note sel = fresh_appended(1)[OF fresh none st key_b]
    have ins: "stateInsert env (identityFor e) key (evidenceColumnsOf x) first db 0
        = Some (db\<lparr>db_states := db_states db @ [?a]\<rparr>, 1)"
      unfolding key_def by (rule stateInsert_runs[OF fresh none]) (use 2(12) key_def in simp)
    have conf: "immediateConfirmation key (eval_asOf e) (db\<lparr>db_states := db_states db @ [?a]\<rparr>) 1 = Some (?db2, 1)"
      by (rule immediateConfirmation_runs[OF _ _ 2(13,14)])
        (use fresh key(3) in \<open>auto simp: freshKeys_def list_all_iff prepareStateInsert_def\<close>)
    have "persistDecision digest newStateId incidentId env e (intent, s') None db
      = (db', Inr Applied)"
      by (rule persist_applied[OF plan, of db' "1 # 1 # 1 # changes", OF _ _ sel rowHolds_shape[OF hold]])
        (use ins conf db'(1) inc(2) out(1,2,7) fields 2(15,18,19) short(1) in simp_all)
    moreover have "deliveredRows digest db db' (row_key b) (eval_asOf e) (decidedDelivery incidentId db 0 [] intent)"
      using 2(5) d out(5) same(1) currentIncidents_member[OF inc(2)]
      by (auto simp: deliveredRows_def decidedDelivery_def queuedRows_def)
    ultimately show ?thesis
      using that sel hold by blast
  qed
qed

end
