(* ===== verification/Alert_State_Repository.thy ===== *)
theory Alert_State_Repository
  imports Alert_State_Persisted
begin

section \<open>The operations of the state repository\<close>

text \<open>
  \<open>readAlertLifecycleSnapshot\<close> and \<open>persistAlertLifecycleDecision\<close> of
  \<^verbatim>\<open>apps/sso/worker/alert-state-repository.ts\<close> on the values a caller passes: the input is checked
  and read, the typed operation runs, and any error leaves with a code of the repository. A write
  that carries the proof of an evaluator run is outside the model (\<open>None\<close>).
\<close>

subsection \<open>Inputs\<close>

definition redactedRepositoryError :: "js_error \<Rightarrow> string \<Rightarrow> js_error" where
  "redactedRepositoryError err fallback =
     (case err of
        CodedError origin code \<Rightarrow>
          if origin = ''alert state repository'' then err else CodedError ''alert state repository'' fallback
      | _ \<Rightarrow> CodedError ''alert state repository'' fallback)"

definition redacted :: "string \<Rightarrow> 'a result \<Rightarrow> 'a result" where
  "redacted fallback r = (case r of Inl err \<Rightarrow> Inl (redactedRepositoryError err fallback) | Inr x \<Rightarrow> Inr x)"

definition repoUuidV4 :: "js \<Rightarrow> string result" where
  "repoUuidV4 value = (case value of JStr s \<Rightarrow> if uuidV4 s then Inr s else invalidInput | _ \<Rightarrow> invalidInput)"

definition repoEnvironment :: "js \<Rightarrow> alertEnvironment result" where
  "repoEnvironment value =
     (if value = JStr ''local'' then Inr Local
      else if value = JStr ''preview'' then Inr Preview
      else if value = JStr ''production'' then Inr Production else invalidInput)"

definition normalizeExpectedIncident :: "js \<Rightarrow> (string \<times> incidentStatus) result" where
  "normalizeExpectedIncident value =
     and_then (repoRecord value [''id'', ''status'']) (\<lambda>record.
     and_then (if field_of record ''status'' = JStr ''open'' then Inr Open
       else if field_of record ''status'' = JStr ''acknowledged'' then Inr Acknowledged else invalidInput) (\<lambda>st.
     and_then (repoUuidV4 (field_of record ''id'')) (\<lambda>expectedId. Inr (expectedId, st))))"

definition normalizeExpectation :: "js \<Rightarrow> alertStateExpectation option result" where
  "normalizeExpectation value =
     (if value = JNull then Inr None
      else and_then (repoRecord value
          [''generation'', ''incident'', ''lastEvaluatedAt'', ''revision'', ''stateId'']) (\<lambda>record.
        and_then (decNullable normalizeExpectedIncident (field_of record ''incident'')) (\<lambda>incident.
        and_then (boundedInteger (field_of record ''generation'') 0 MAX_STATE_GENERATION) (\<lambda>generation.
        and_then (repoTimestamp (field_of record ''lastEvaluatedAt'')) (\<lambda>lastEvaluated.
        and_then (boundedInteger (field_of record ''revision'') 0 MAX_STATE_REVISION) (\<lambda>revision.
        and_then (repoUuidV4 (field_of record ''stateId'')) (\<lambda>stateId.
          Inr (Some \<lparr>exp_generation = generation, exp_incident = incident, exp_lastEvaluatedAt = lastEvaluated,
            exp_revision = revision, exp_stateId = stateId\<rparr>))))))))"

subsection \<open>The operations\<close>

definition readAlertLifecycleSnapshot ::
  "digestFunction \<Rightarrow> js \<Rightarrow> alertDb \<Rightarrow> (alertStateExpectation option \<times> alertLifecycleState) result" where
  "readAlertLifecycleSnapshot digest input db =
     redacted ''source_invalid''
       (and_then (repoRecord input [''dimension'', ''environment'', ''ruleId'']) (\<lambda>record.
        and_then (parseAlertRuleId (field_of record ''ruleId'')) (\<lambda>rule.
        and_then (parseAlertDimension (field_of record ''dimension'')
            (ruleDimensions (ALERT_RULE_DEFINITIONS rule))) (\<lambda>dimension.
        and_then (repoEnvironment (field_of record ''environment'')) (\<lambda>env.
          readSnapshot digest env \<lparr>id_dimension = dimension, id_ruleId = rule\<rparr> db)))))"

definition persistInputs ::
  "js \<Rightarrow> (alertRuleEvaluation \<times> alertLifecycleResult \<times> alertEnvironment \<times> alertStateExpectation option) result" where
  "persistInputs input =
     and_then (repoRecord input [''decision'', ''environment'', ''evaluation'', ''expected'']) (\<lambda>record.
     and_then (normalizeEvaluation (field_of record ''evaluation'')) (\<lambda>evaluation.
     and_then (normalizeDecision (field_of record ''decision'') evaluation) (\<lambda>decision.
     and_then (repoEnvironment (field_of record ''environment'')) (\<lambda>env.
     and_then (normalizeExpectation (field_of record ''expected'')) (\<lambda>expected.
       Inr (evaluation, decision, env, expected))))))"

definition carriesRunProof :: "js \<Rightarrow> bool" where
  "carriesRunProof input =
     (case recordValue input '''' of Inl _ \<Rightarrow> False | Inr record \<Rightarrow> ''runProof'' \<in> set (map fst record))"

definition persistAlertLifecycleDecision ::
  "digestFunction \<Rightarrow> string \<Rightarrow> string \<Rightarrow> js \<Rightarrow> alertDb \<Rightarrow> (alertDb \<times> persistenceResult result) option" where
  "persistAlertLifecycleDecision digest newStateId incidentId input db =
     (if carriesRunProof input then None
      else case persistInputs input of
        Inl err \<Rightarrow> Some (db, redacted ''write_failed'' (Inl err))
      | Inr (evaluation, decision, env, expected) \<Rightarrow>
          (case persistDecision digest newStateId incidentId env evaluation decision expected db of
             (db', r) \<Rightarrow> Some (db', redacted ''write_failed'' r)))"

subsection \<open>The values a caller passes\<close>

definition jsOfExpectedIncident :: "string \<times> incidentStatus \<Rightarrow> js" where
  "jsOfExpectedIncident x = JObj [(''id'', JStr (fst x)), (''status'', JStr (incidentStatusString (snd x)))]"

definition jsOfExpectation :: "alertStateExpectation \<Rightarrow> js" where
  "jsOfExpectation x = JObj
     [(''generation'', JInt (exp_generation x)),
      (''incident'', encNullable jsOfExpectedIncident (exp_incident x)),
      (''lastEvaluatedAt'', JStr (exp_lastEvaluatedAt x)), (''revision'', JInt (exp_revision x)),
      (''stateId'', JStr (exp_stateId x))]"

definition readInput :: "alertEnvironment \<Rightarrow> alertLifecycleIdentity \<Rightarrow> js" where
  "readInput env i = JObj
     [(''dimension'', jsOfDimension (id_dimension i)), (''environment'', JStr (environmentString env)),
      (''ruleId'', JStr (ruleIdString (id_ruleId i)))]"

definition persistInput ::
  "alertEnvironment \<Rightarrow> alertRuleEvaluation \<Rightarrow> alertLifecycleResult \<Rightarrow> alertStateExpectation option \<Rightarrow> js" where
  "persistInput env e decision expected = JObj
     [(''decision'', jsOfDecision decision), (''environment'', JStr (environmentString env)),
      (''evaluation'', jsOfEvaluation e), (''expected'', encNullable jsOfExpectation expected)]"

lemma repoEnvironment_built [codec_simps]: "repoEnvironment (JStr (environmentString env)) = Inr env"
  by (cases env) (simp_all add: repoEnvironment_def)

definition validExpectation :: "alertStateExpectation \<Rightarrow> bool" where
  "validExpectation x \<longleftrightarrow>
     inDomain MAX_STATE_GENERATION (exp_generation x) \<and> inDomain MAX_STATE_REVISION (exp_revision x) \<and>
     shortInstant (exp_lastEvaluatedAt x) \<and> uuidV4 (exp_stateId x) \<and>
     pred_option (\<lambda>(k, st). uuidV4 k \<and> st \<noteq> Resolved) (exp_incident x)"

lemma normalizeExpectedIncident_built:
  assumes "uuidV4 k" and "st \<noteq> Resolved"
  shows "normalizeExpectedIncident (jsOfExpectedIncident (k, st)) = Inr (k, st)"
  using assms by (cases st)
    (simp_all add: normalizeExpectedIncident_def jsOfExpectedIncident_def codec_simps repoUuidV4_def)

lemma normalizeExpectation_built:
  assumes "pred_option validExpectation expected"
  shows "normalizeExpectation (encNullable jsOfExpectation expected) = Inr expected"
proof (cases expected)
  case None
  then show ?thesis
    by (simp add: normalizeExpectation_def encNullable_def)
next
  case (Some x)
  then have x: "validExpectation x"
    using assms by simp
  have numbers: "boundedInteger (JInt (exp_generation x)) 0 MAX_STATE_GENERATION = Inr (exp_generation x)"
    "boundedInteger (JInt (exp_revision x)) 0 MAX_STATE_REVISION = Inr (exp_revision x)"
    using x by (simp_all add: validExpectation_def inDomain_def boundedInteger_def MAX_SAFE_INTEGER_def
        MAX_STATE_GENERATION_def MAX_STATE_REVISION_def)
  have incident: "decNullable normalizeExpectedIncident (encNullable jsOfExpectedIncident (exp_incident x))
      = Inr (exp_incident x)"
  proof (cases "exp_incident x")
    case (Some y)
    then have "uuidV4 (fst y)" "snd y \<noteq> Resolved"
      using x by (auto simp: validExpectation_def)
    then have "normalizeExpectedIncident (jsOfExpectedIncident y) = Inr y"
      using normalizeExpectedIncident_built[of "fst y" "snd y"] by simp
    then show ?thesis
      using Some by (simp add: encNullable_def decNullable_def jsOfExpectedIncident_def)
  qed (simp add: encNullable_def decNullable_def)
  have "encNullable jsOfExpectation expected = jsOfExpectation x"
    by (simp add: encNullable_def Some)
  then show ?thesis
    using x numbers incident Some
    by (simp add: normalizeExpectation_def jsOfExpectation_def codec_simps repoUuidV4_def
        repoTimestamp_def validExpectation_def shortInstant_def)
qed

lemma redacted_coded [simp]: "redacted fallback (repoFail code) = repoFail code"
  by (simp add: redacted_def redactedRepositoryError_def repoFail_def)

lemma redacted_Inr [simp]: "redacted fallback (Inr x) = Inr x"
  by (simp add: redacted_def)

lemma read_built:
  assumes "validIdentity i"
  shows "readAlertLifecycleSnapshot digest (readInput env i) db = redacted ''source_invalid'' (readSnapshot digest env i db)"
  using assms codec.dec_enc[OF dimension_codec]
  by (cases i) (simp add: readAlertLifecycleSnapshot_def readInput_def codec_simps validIdentity_def)

lemma persist_built:
  assumes "normalizeEvaluation (jsOfEvaluation e) = Inr e" and "normalizeDecision (jsOfDecision decision) e = Inr decision"
    and "pred_option validExpectation expected"
    and "persistDecision digest newStateId incidentId env e decision expected db = (db', r)"
  shows "persistAlertLifecycleDecision digest newStateId incidentId (persistInput env e decision expected) db =
    Some (db', redacted ''write_failed'' r)"
  using assms normalizeExpectation_built[OF assms(3)]
  by (simp add: persistAlertLifecycleDecision_def carriesRunProof_def persistInputs_def persistInput_def codec_simps)

text \<open>What the reader returns can be passed back.\<close>

lemma expectedOf_valid:
  assumes h: "rowHolds digest env i db row s"
  shows "validExpectation (expectedOf db row s)"
proof -
  have "pred_option (\<lambda>(k, st). uuidV4 k \<and> st \<noteq> Resolved) (exp_incident (expectedOf db row s))"
  proof (cases "status s")
    case (Some sev)
    obtain a where "ownIncident row a" "inc_status a \<noteq> Resolved"
        "exp_incident (expectedOf db row s) = Some (inc_id a, inc_status a)"
      using currentIncident_active[OF h Some] by metis
    then show ?thesis
      by (simp add: ownIncident_def)
  qed (simp add: expectedOf_def)
  moreover have "length (row_lastEvaluatedAt row) = 24"
    using h rowShape_match(6)[OF rowHolds_shape[OF h]] by (simp add: rowHolds_def rowShape_def shortInstants_def)
  ultimately show ?thesis
    using h by (simp add: validExpectation_def rowHolds_def rowShape_def expectedOf_def shortInstant_def)
qed

end
