(* ===== verification/Alert_State_Properties.thy ===== *)
theory Alert_State_Properties
  imports Alert_State_Repository Alert_Lifecycle_Samples
begin

section \<open>Properties of the stored alert state\<close>

text \<open>
  The properties of \<^verbatim>\<open>apps/sso/worker/alert-state-repository.ts\<close> as \<open>runAlertEvaluator\<close> uses it:
  the snapshot read before a decision, the decision of the lifecycle on it, the write, and the
  next read. \<open>holds\<close> says that the two tables store a lifecycle state.
\<close>

subsection \<open>The facts of one decision\<close>














subsection \<open>Sample tables\<close>


definition sampleStateId :: string where "sampleStateId = ''11111111-1111-4111-8111-111111111111''"
definition sampleIncidentId :: string where "sampleIncidentId = ''22222222-2222-4222-8222-222222222222''"
definition sampleNextId :: string where "sampleNextId = ''33333333-3333-4333-8333-333333333333''"

lemma sample_uuids [simp]: "uuidV4 sampleStateId" "uuidV4 sampleIncidentId" "uuidV4 sampleNextId"
  by code_simp+

lemma sample_ids [simp]: "sampleIncidentId \<noteq> sampleNextId" "sampleStateId \<noteq> sampleNextId"
  by code_simp+

lemma sample_lengths [simp]: "length t0 = 24" "length t1 = 24" "length t2 = 24" "length t3 = 24"
  by (simp_all add: t0_def t1_def t2_def t3_def)




















lemma iso_lengths [simp]:
  "length (iso_of_time 1772366399999) = 24" "length (iso_of_time 1772367299999) = 24"
  by code_simp+




subsection \<open>Reading and writing\<close>













end
