(* ===== verification/Alert_Runtime_Source.thy ===== *)
theory Alert_Runtime_Source
  imports Alert_Selection
begin

section \<open>The row the evaluator is judged by\<close>

text \<open>
  \<open>parseAlertRuntimeSourceCompleteness\<close> of \<^verbatim>\<open>apps/sso/worker/alert-rules.ts\<close>: the row the runtime
  repository projects of the evaluator itself. Before the first success there is nothing to judge
  (\<open>None\<close>); afterwards a row that is not fully trustworthy counts as a missing evaluator
  (an age of \<open>None\<close>).
\<close>

record alertRuntimeThresholdInput =
  ti_evaluatorAgeSeconds :: "int option"

definition ALERT_RUNTIME_ERROR_CODES :: "string list" where
  "ALERT_RUNTIME_ERROR_CODES =
     [''metrics_unavailable'', ''evaluator_failed'', ''delivery_failed'', ''fanout_failed'',
      ''logout_failed'', ''source_incomplete'', ''unknown'']"

definition ALERT_RUNTIME_SOURCE_PROJECTION_KEYS :: "string list" where
  "ALERT_RUNTIME_SOURCE_PROJECTION_KEYS =
     [''bootstrap_component'', ''first_success_at'', ''source_generation'', ''source_revision'',
      ''runtime_component'', ''runtime_status'', ''runtime_generation'', ''runtime_revision'',
      ''runtime_last_started_at'', ''runtime_last_success_at'', ''runtime_last_error_at'',
      ''runtime_last_error_code'', ''runtime_updated_at'']"

definition runtimeSourceTimestamp :: "js \<Rightarrow> string \<Rightarrow> string option" where
  "runtimeSourceTimestamp value name =
     (case canonicalTimestamp value name of Inr s \<Rightarrow> Some s | Inl _ \<Rightarrow> None)"

definition runtimeSourceInteger :: "js \<Rightarrow> int \<Rightarrow> int \<Rightarrow> int option" where
  "runtimeSourceInteger value minimum maximum =
     (case safeInteger value of
        Some n \<Rightarrow> (if n \<ge> minimum \<and> n \<le> maximum then Some n else None)
      | None \<Rightarrow> None)"

definition stringIn :: "string list \<Rightarrow> js \<Rightarrow> bool" where
  "stringIn choices value = (case value of JStr s \<Rightarrow> s \<in> set choices | _ \<Rightarrow> False)"

text \<open>The success that ended the bootstrap: its instant, generation and revision.\<close>

definition bootstrapOf :: "js_record \<Rightarrow> int \<Rightarrow> (string \<times> int \<times> int) option" where
  "bootstrapOf record evaluationTime =
     (case (runtimeSourceTimestamp (field_of record ''first_success_at'') ''bootstrap first_success_at'',
            runtimeSourceInteger (field_of record ''source_generation'') 1 ALERT_RUNTIME_GENERATION_MAX,
            runtimeSourceInteger (field_of record ''source_revision'') 1 ALERT_RUNTIME_REVISION_MAX) of
        (Some firstSuccessAt, Some sourceGeneration, Some sourceRevision) \<Rightarrow>
          (if field_of record ''bootstrap_component'' \<noteq> JStr ''evaluator'' \<or>
              getTime firstSuccessAt > evaluationTime
           then None else Some (firstSuccessAt, sourceGeneration, sourceRevision))
      | _ \<Rightarrow> None)"

text \<open>The row itself, not older than the bootstrap: last start, last success, last update.\<close>

definition runtimeOf :: "js_record \<Rightarrow> int \<Rightarrow> int \<Rightarrow> (string \<times> string \<times> string) option" where
  "runtimeOf record sourceGeneration sourceRevision =
     (case (runtimeSourceInteger (field_of record ''runtime_generation'') 0 ALERT_RUNTIME_GENERATION_MAX,
            runtimeSourceInteger (field_of record ''runtime_revision'') 0 ALERT_RUNTIME_REVISION_MAX,
            runtimeSourceTimestamp (field_of record ''runtime_last_started_at'') ''runtime last_started_at'',
            runtimeSourceTimestamp (field_of record ''runtime_last_success_at'') ''runtime last_success_at'',
            runtimeSourceTimestamp (field_of record ''runtime_updated_at'') ''runtime updated_at'') of
        (Some generation, Some revision, Some lastStartedAt, Some lastSuccessAt, Some updatedAt) \<Rightarrow>
          (if field_of record ''runtime_component'' \<noteq> JStr ''evaluator'' \<or>
              \<not> stringIn ALERT_RUNTIME_STATUSES (field_of record ''runtime_status'') \<or>
              generation < sourceGeneration \<or> revision < sourceRevision
           then None else Some (lastStartedAt, lastSuccessAt, updatedAt))
      | _ \<Rightarrow> None)"

text \<open>The last error is absent as a whole, or known and not later than the row.\<close>

definition errorAccepted :: "js_record \<Rightarrow> int \<Rightarrow> bool" where
  "errorAccepted record updatedTime \<longleftrightarrow>
     (let hasErrorAt = field_of record ''runtime_last_error_at'' \<noteq> JNull;
          hasErrorCode = field_of record ''runtime_last_error_code'' \<noteq> JNull
      in hasErrorAt = hasErrorCode \<and>
         (hasErrorAt \<longrightarrow>
            (case runtimeSourceTimestamp (field_of record ''runtime_last_error_at'') ''runtime last_error_at'' of
               None \<Rightarrow> False
             | Some lastErrorAt \<Rightarrow>
                 stringIn ALERT_RUNTIME_ERROR_CODES (field_of record ''runtime_last_error_code'') \<and>
                 \<not> getTime lastErrorAt > updatedTime)))"

definition parseAlertRuntimeSourceCompleteness ::
  "js \<Rightarrow> string \<Rightarrow> alertRuntimeThresholdInput option result" where
  "parseAlertRuntimeSourceCompleteness value asOf =
     and_then (canonicalTimestamp (JStr asOf) ''asOf'') (\<lambda>c.
     and_then (exactRecord value ALERT_RUNTIME_SOURCE_PROJECTION_KEYS ''alert runtime source projection'') (\<lambda>record.
       let evaluationTime = getTime c;
           missing = Inr (Some \<lparr>ti_evaluatorAgeSeconds = None\<rparr>)
       in if list_all (\<lambda>key. field_of record key = JNull)
             [''bootstrap_component'', ''first_success_at'', ''source_generation'', ''source_revision'']
          then Inr None
          else case bootstrapOf record evaluationTime of
            None \<Rightarrow> missing
          | Some (firstSuccessAt, sourceGeneration, sourceRevision) \<Rightarrow>
              (case runtimeOf record sourceGeneration sourceRevision of
                 None \<Rightarrow> missing
               | Some (lastStartedAt, lastSuccessAt, updatedAt) \<Rightarrow>
                   let updatedTime = getTime updatedAt
                   in if getTime firstSuccessAt > updatedTime \<or> getTime lastStartedAt > updatedTime \<or>
                         getTime lastSuccessAt < getTime firstSuccessAt \<or>
                         getTime lastSuccessAt > updatedTime \<or> updatedTime > evaluationTime
                      then missing
                      else if \<not> errorAccepted record updatedTime then missing
                      else let age = (evaluationTime - getTime lastSuccessAt) div 1000
                           in if age \<le> MAX_EVIDENCE_VALUE
                              then Inr (Some \<lparr>ti_evaluatorAgeSeconds = Some age\<rparr>)
                              else missing)))"


lemma runtimeSourceInteger_Some_iff [js_simps]:
  "runtimeSourceInteger v lo hi = Some n \<longleftrightarrow> v = JInt n \<and> lo \<le> n \<and> n \<le> hi \<and> \<bar>n\<bar> \<le> MAX_SAFE_INTEGER"
  by (auto simp: runtimeSourceInteger_def safeInteger_Some_iff split: option.splits)



text \<open>An accepted projection either is from before the bootstrap or gives an input; it never throws.\<close>

lemma runtime_source_total:
  assumes "canonical asOf" and "exactRecord v ALERT_RUNTIME_SOURCE_PROJECTION_KEYS ''alert runtime source projection'' = Inr record"
  shows "is_ok (parseAlertRuntimeSourceCompleteness v asOf)"
  using assms
  by (auto simp: parseAlertRuntimeSourceCompleteness_def canonicalTimestamp_def Let_def
      split: option.splits prod.splits)











end
