(* ===== verification/Js_Stringify.thy ===== *)
theory Js_Stringify
  imports Js_Json Js_Values
begin

section \<open>JSON text of a value, and that it determines the value\<close>

text \<open>
  \<open>JSON.stringify\<close> on a whole \<open>js\<close> value made of null, booleans, integers, strings, arrays and
  objects, the values the alert modules hash. The text determines the value, and no text is a
  proper prefix of another one unless a number goes on; so a hash of the text is a hash of the value.
\<close>

fun stringify :: "js \<Rightarrow> string" where
  "stringify JNull = ''null''"
| "stringify (JBool b) = (if b then ''true'' else ''false'')"
| "stringify (JNum (NInt n)) = jsonInt n"
| "stringify (JStr s) = jsonString s"
| "stringify (JArr vs) = jsonArray (map stringify vs)"
| "stringify (JObj r) = jsonObject (map (\<lambda>(k, v). (k, stringify v)) r)"
| "stringify _ = ''''"

text \<open>The values it is used on.\<close>

fun jsonValue :: "js \<Rightarrow> bool" where
  "jsonValue JNull = True"
| "jsonValue (JBool b) = True"
| "jsonValue (JNum (NInt n)) = True"
| "jsonValue (JStr s) = True"
| "jsonValue (JArr vs) = list_all jsonValue vs"
| "jsonValue (JObj r) = list_all (\<lambda>(k, v). jsonValue v) r"
| "jsonValue _ = False"

subsection \<open>Strings\<close>

definition hexValue :: "char \<Rightarrow> nat" where
  "hexValue c = (let n = of_char c in if n < 87 then n - 48 else n - 87)"

lemma hexValue_hexDigit: "n < 16 \<Longrightarrow> hexValue (hexDigit n) = n"
  by (auto simp: hexValue_def hexDigit_def Let_def)

text \<open>Reading back one printed character.\<close>

fun readChar :: "string \<Rightarrow> (char \<times> string) option" where
  "readChar (c # s) =
     (if c \<noteq> CHR 0x5C then Some (c, s)
      else case s of
        [] \<Rightarrow> None
      | d # t \<Rightarrow>
          if d = CHR ''b'' then Some (char_of (8 :: nat), t) else if d = CHR ''t'' then Some (char_of (9 :: nat), t)
          else if d = CHR ''n'' then Some (char_of (10 :: nat), t) else if d = CHR ''f'' then Some (char_of (12 :: nat), t)
          else if d = CHR ''r'' then Some (char_of (13 :: nat), t)
          else if d = CHR ''u'' then
            (case t of _ # _ # h # l # u \<Rightarrow> Some (char_of (16 * hexValue h + hexValue l), u) | _ \<Rightarrow> None)
          else Some (d, t))"
| "readChar [] = None"

lemma char_eqI: "(of_char c :: nat) = n \<Longrightarrow> char_of n = c"
  by auto

lemma readChar_jsonChar: "readChar (jsonChar c @ xs) = Some (c, xs)"
proof -
  define n where "n = (of_char c :: nat)"
  have c: "c = char_of n"
    by (simp add: n_def)
  consider "c = CHR 0x22 \<or> c = CHR 0x5C" | "n \<in> {8, 9, 10, 12, 13}" | "n < 32" "n \<notin> {8, 9, 10, 12, 13}"
    | "\<not> n < 32" "c \<noteq> CHR 0x22 \<and> c \<noteq> CHR 0x5C"
    by (auto simp: n_def)
  then show ?thesis
  proof cases
    case 2
    then show ?thesis by (auto simp: c jsonChar_def)
  next
    case 3
    then have "c \<noteq> CHR 0x22" "c \<noteq> CHR 0x5C"
      by (auto simp: n_def)
    moreover have "16 * hexValue (hexDigit (n div 16 mod 16)) + hexValue (hexDigit (n mod 16)) = n"
      using 3(1) by (simp add: hexValue_hexDigit)
    ultimately show ?thesis
      using 3 unfolding jsonChar_def by (simp add: n_def[symmetric] hexByte_def c[symmetric])
  next
    case 4
    then show ?thesis by (auto simp: jsonChar_def n_def)
  qed (auto simp: jsonChar_def)
qed

lemma jsonChar_prefix: "jsonChar c @ xs = jsonChar d @ ys \<Longrightarrow> c = d \<and> xs = ys"
  by (metis Pair_inject option.inject readChar_jsonChar)

lemma jsonChar_no_quote: "jsonChar c @ xs \<noteq> CHR 0x22 # ys"
  by (auto simp: jsonChar_def Let_def)

lemma jsonChars_prefix:
  "concat (map jsonChar s) @ CHR 0x22 # xs = concat (map jsonChar t) @ CHR 0x22 # ys \<Longrightarrow> s = t \<and> xs = ys"
proof (induction s arbitrary: t)
  case Nil
  then show ?case
    using jsonChar_no_quote by (cases t) (auto simp: eq_commute[of "CHR 0x22 # _"])
next
  case (Cons c s)
  show ?case
  proof (cases t)
    case Nil
    then show ?thesis
      using Cons.prems jsonChar_no_quote[of c] by simp
  next
    case (Cons d t')
    then show ?thesis
      using Cons.prems jsonChar_prefix[of c _ d] Cons.IH[of t'] by simp
  qed
qed

lemma jsonString_prefix: "jsonString s @ xs = jsonString t @ ys \<Longrightarrow> s = t \<and> xs = ys"
  using jsonChars_prefix[of s xs t ys] by (simp add: jsonString_def)

subsection \<open>Numbers\<close>

definition isDigit :: "char \<Rightarrow> bool" where
  "isDigit c \<longleftrightarrow> (of_char c :: nat) \<in> {48..57}"

definition textValue :: "nat \<Rightarrow> string \<Rightarrow> nat" where
  "textValue = foldl (\<lambda>n c. 10 * n + (of_char c - 48))"

lemma isDigit_digit: "0 \<le> n \<Longrightarrow> n \<le> 9 \<Longrightarrow> isDigit (digit n)"
  by (auto simp: isDigit_def digit_def)

lemma of_char_digit: "n < 10 \<Longrightarrow> (of_char (digit (int n)) :: nat) = 48 + n"
  by (simp add: digit_def)

lemma natText_digits: "list_all isDigit (natText n) \<and> natText n \<noteq> [] \<and> textValue 0 (natText n) = n"
proof (induction n rule: natText.induct)
  case (1 n)
  show ?case
  proof (cases "n < 10")
    case True
    then show ?thesis
      by (subst (1 2 3) natText.simps) (simp add: isDigit_digit textValue_def of_char_digit)
  next
    case False
    have "list_all isDigit (natText (n div 10)) \<and> natText (n div 10) \<noteq> [] \<and> textValue 0 (natText (n div 10)) = n div 10"
      using 1 False by blast
    then show ?thesis
      using False by (subst (1 2 3) natText.simps)
        (simp add: isDigit_digit textValue_def of_char_digit)
  qed
qed

definition endsNumber :: "string \<Rightarrow> bool" where
  "endsNumber s \<longleftrightarrow> (case s of [] \<Rightarrow> True | c # _ \<Rightarrow> \<not> isDigit c)"

lemma takeWhile_digits: "list_all isDigit s \<Longrightarrow> endsNumber xs \<Longrightarrow> takeWhile isDigit (s @ xs) = s"
  by (induction s) (auto simp: endsNumber_def split: list.splits)

lemma natText_prefix:
  assumes "natText m @ xs = natText n @ ys" and "endsNumber xs" and "endsNumber ys"
  shows "m = n \<and> xs = ys"
proof -
  have "takeWhile isDigit (natText m @ xs) = natText m" "takeWhile isDigit (natText n @ ys) = natText n"
    using natText_digits assms(2,3) by (simp_all add: takeWhile_digits)
  then have same: "natText m = natText n"
    unfolding assms(1) by simp
  moreover from same have "m = n"
    using natText_digits[of m] natText_digits[of n] by metis
  ultimately show ?thesis
    using assms(1) by simp
qed

lemma natText_head: "natText n @ xs = c # ys \<Longrightarrow> isDigit c"
  using natText_digits[of n] by (cases "natText n") auto

lemma jsonInt_prefix:
  assumes "jsonInt m @ xs = jsonInt n @ ys" and "endsNumber xs" and "endsNumber ys"
  shows "m = n \<and> xs = ys"
proof -
  have minus: "natText k @ us \<noteq> CHR ''-'' # vs" for k us vs
    using natText_head[of k us "CHR ''-''" vs] by (auto simp: isDigit_def)
  consider "m < 0" "n < 0" | "m < 0" "0 \<le> n" | "0 \<le> m" "n < 0" | "0 \<le> m" "0 \<le> n"
    by linarith
  then show ?thesis
  proof cases
    case 1
    then have "natText (nat (- m)) @ xs = natText (nat (- n)) @ ys"
      using assms(1) by (simp add: jsonInt_def)
    from natText_prefix[OF this assms(2,3)] 1 show ?thesis by (simp add: eq_nat_nat_iff)
  next
    case 2
    then show ?thesis
      using assms(1) minus[of "nat n" ys "natText (nat (- m)) @ xs"] by (simp add: jsonInt_def)
  next
    case 3
    then show ?thesis
      using assms(1) minus[of "nat m" xs "natText (nat (- n)) @ ys"] by (simp add: jsonInt_def)
  next
    case 4
    then have "natText (nat m) @ xs = natText (nat n) @ ys"
      using assms(1) by (simp add: jsonInt_def)
    from natText_prefix[OF this assms(2,3)] 4 show ?thesis by (simp add: eq_nat_nat_iff)
  qed
qed

subsection \<open>Values\<close>

text \<open>The first character tells the kind of the value.\<close>

definition headKind :: "string \<Rightarrow> nat" where
  "headKind s = (case s of [] \<Rightarrow> 0 | c # _ \<Rightarrow>
     if c = CHR ''n'' then 1 else if c = CHR ''t'' then 2 else if c = CHR ''f'' then 3
     else if c = CHR 0x22 then 4 else if c = CHR ''['' then 5 else if c = CHR ''{'' then 6
     else if isDigit c \<or> c = CHR ''-'' then 7 else 0)"

fun kindNumber :: "js \<Rightarrow> nat" where
  "kindNumber JNull = 1"
| "kindNumber (JBool b) = (if b then 2 else 3)"
| "kindNumber (JStr _) = 4"
| "kindNumber (JArr _) = 5"
| "kindNumber (JObj _) = 6"
| "kindNumber _ = 7"

lemma headKind_stringify: "jsonValue a \<Longrightarrow> headKind (stringify a @ xs) = kindNumber a"
proof (cases a)
  case (JNum x)
  assume "jsonValue a"
  then obtain n where x: "x = NInt n"
    using JNum by (cases x) auto
  obtain c s where c: "jsonInt n = c # s" "isDigit c \<or> c = CHR ''-''"
    using natText_digits[of "nat n"] by (cases "n < 0"; cases "natText (nat n)") (simp_all add: jsonInt_def)
  then show ?thesis
    unfolding JNum x by (auto simp: headKind_def isDigit_def)
qed (auto simp: headKind_def jsonString_def jsonArray_def jsonObject_def)

definition delimits :: "string \<Rightarrow> bool" where
  "delimits s \<longleftrightarrow> (case s of [] \<Rightarrow> True | c # _ \<Rightarrow> c \<in> {CHR '','', CHR '']'', CHR ''}''})"

lemma delimits_endsNumber: "delimits s \<Longrightarrow> endsNumber s"
  by (auto simp: delimits_def endsNumber_def isDigit_def split: list.splits)

lemma headKind_delim: "headKind (CHR '']'' # xs) = 0" "headKind (CHR ''}'' # xs) = 0" "headKind (CHR '','' # xs) = 0"
  by (simp_all add: headKind_def isDigit_def)

lemma kindNumber_pos: "0 < kindNumber a"
  by (cases a) auto

definition separates :: "js \<Rightarrow> bool" where
  "separates a \<longleftrightarrow>
     (\<forall>b xs ys. jsonValue b \<longrightarrow> stringify a @ xs = stringify b @ ys \<longrightarrow> delimits xs \<longrightarrow> delimits ys \<longrightarrow>
        a = b \<and> xs = ys)"

lemma separatesD:
  "separates a \<Longrightarrow> stringify a @ xs = stringify b @ ys \<Longrightarrow> jsonValue b \<Longrightarrow> delimits xs \<Longrightarrow> delimits ys \<Longrightarrow>
   a = b \<and> xs = ys"
  by (auto simp: separates_def)

lemma delimits_simps [simp]: "delimits (CHR '','' # xs)" "delimits (CHR '']'' # xs)" "delimits (CHR ''}'' # xs)"
  by (simp_all add: delimits_def)

lemma no_value_delim:
  assumes "jsonValue a" and "headKind ys = 0"
  shows "stringify a @ xs \<noteq> ys"
  using headKind_stringify[OF assms(1), of xs] kindNumber_pos[of a] assms(2) by auto

text \<open>What follows the elements: a comma and the rest, or the closing bracket.\<close>

fun elementsText :: "char \<Rightarrow> string list \<Rightarrow> string \<Rightarrow> string" where
  "elementsText close [] xs = close # xs"
| "elementsText close (x # rest) xs = CHR '','' # x @ elementsText close rest xs"

lemma joinComma_elements: "joinComma (x # rest) @ close # xs = x @ elementsText close rest xs"
  by (induction rest arbitrary: x) simp_all

lemma elements_delimit: "close \<in> {CHR '']'', CHR ''}''} \<Longrightarrow> delimits (elementsText close rest xs)"
  by (cases rest) (auto simp: delimits_def)

lemma elements_prefix:
  assumes "list_all separates vs" and "list_all jsonValue ws"
    and "elementsText CHR '']'' (map stringify vs) xs = elementsText CHR '']'' (map stringify ws) ys"
  shows "vs = ws \<and> xs = ys"
  using assms
proof (induction vs arbitrary: ws)
  case Nil
  then show ?case by (cases ws) auto
next
  case (Cons v vs)
  then obtain w ws' where ws: "ws = w # ws'"
    by (cases ws) auto
  have "v = w \<and> elementsText CHR '']'' (map stringify vs) xs = elementsText CHR '']'' (map stringify ws') ys"
    using Cons.prems by (intro separatesD[of v]) (auto simp: ws intro: elements_delimit)
  then show ?case
    using Cons.IH[of ws'] Cons.prems by (simp add: ws)
qed

abbreviation memberText :: "string \<times> js \<Rightarrow> string" where
  "memberText m \<equiv> jsonString (fst m) @ '':'' @ stringify (snd m)"

lemma member_prefix:
  assumes "separates (snd m)" and "jsonValue (snd m')" and "delimits xs" and "delimits ys"
    and "memberText m @ xs = memberText m' @ ys"
  shows "m = m' \<and> xs = ys"
proof -
  have "fst m = fst m' \<and> stringify (snd m) @ xs = stringify (snd m') @ ys"
    using jsonString_prefix[of "fst m" "'':'' @ stringify (snd m) @ xs" "fst m'"] assms(5) by auto
  then show ?thesis
    using separatesD[OF assms(1) _ assms(2-4)] by (auto simp: prod_eq_iff)
qed

lemma members_prefix:
  assumes "list_all (\<lambda>m. separates (snd m)) r" and "list_all (\<lambda>m. jsonValue (snd m)) q"
    and "elementsText CHR ''}'' (map memberText r) xs = elementsText CHR ''}'' (map memberText q) ys"
  shows "r = q \<and> xs = ys"
  using assms
proof (induction r arbitrary: q)
  case Nil
  then show ?case by (cases q) auto
next
  case (Cons m r)
  then obtain m' q' where q: "q = m' # q'"
    by (cases q) auto
  have "m = m' \<and> elementsText CHR ''}'' (map memberText r) xs = elementsText CHR ''}'' (map memberText q') ys"
    using Cons.prems by (intro member_prefix) (auto simp: q intro: elements_delimit)
  then show ?case
    using Cons.IH[of q'] Cons.prems by (simp add: q)
qed

lemma array_prefix:
  assumes "list_all separates vs" and "list_all jsonValue vs" and "list_all jsonValue ws"
    and "jsonArray (map stringify vs) @ xs = jsonArray (map stringify ws) @ ys"
  shows "vs = ws \<and> xs = ys"
proof -
  have eq: "joinComma (map stringify vs) @ CHR '']'' # xs = joinComma (map stringify ws) @ CHR '']'' # ys"
    using assms(4) by (simp add: jsonArray_def)
  have none: "jsonValue v \<Longrightarrow> stringify v @ us \<noteq> CHR '']'' # zs" for v us zs
    by (rule no_value_delim) (simp_all add: headKind_delim)
  show ?thesis
  proof (cases vs)
    case Nil
    then show ?thesis
      using eq none assms(3) by (cases ws) (auto simp: joinComma_elements eq_commute[of "CHR '']'' # _"])
  next
    case (Cons v vs')
    then obtain w ws' where ws: "ws = w # ws'"
      using eq none assms(2) by (cases ws) (auto simp: joinComma_elements)
    have "v = w \<and> elementsText CHR '']'' (map stringify vs') xs = elementsText CHR '']'' (map stringify ws') ys"
      using assms(1,3) eq by (intro separatesD[of v]) (auto simp: Cons ws joinComma_elements intro: elements_delimit)
    then show ?thesis
      using elements_prefix[of vs' ws' xs ys] assms by (simp add: Cons ws)
  qed
qed

lemma object_prefix:
  assumes "list_all (\<lambda>m. separates (snd m)) r" and "list_all (\<lambda>m. jsonValue (snd m)) q"
    and "jsonObject (map (\<lambda>(k, v). (k, stringify v)) r) @ xs = jsonObject (map (\<lambda>(k, v). (k, stringify v)) q) @ ys"
  shows "r = q \<and> xs = ys"
proof -
  have "jsonObject (map (\<lambda>(k, v). (k, stringify v)) p) @ zs = CHR ''{'' # joinComma (map memberText p) @ CHR ''}'' # zs" for p zs
    by (simp add: jsonObject_def comp_def case_prod_unfold)
  then have eq: "joinComma (map memberText r) @ CHR ''}'' # xs = joinComma (map memberText q) @ CHR ''}'' # ys"
    using assms(3) by simp
  have quote: "memberText m @ zs \<noteq> CHR ''}'' # us" for m zs us
    by (simp add: jsonString_def)
  show ?thesis
  proof (cases r)
    case Nil
    then show ?thesis
      using eq quote[of "hd q" "elementsText CHR ''}'' (map memberText (tl q)) ys" xs]
        joinComma_elements[of "memberText (hd q)" "map memberText (tl q)" "CHR ''}''" ys]
      by (cases q) simp_all
  next
    case (Cons m r')
    then obtain m' q' where q: "q = m' # q'"
      using eq quote[of m "elementsText CHR ''}'' (map memberText r') xs" ys]
      by (cases q) (simp_all only: list.map joinComma_elements joinComma.simps append_Nil simp_thms)
    have "memberText m @ elementsText CHR ''}'' (map memberText r') xs = memberText m' @ elementsText CHR ''}'' (map memberText q') ys"
      using eq by (simp only: Cons q list.map joinComma_elements)
    with assms(1,2) have "m = m' \<and> elementsText CHR ''}'' (map memberText r') xs = elementsText CHR ''}'' (map memberText q') ys"
      by (intro member_prefix) (auto simp: Cons q intro: elements_delimit)
    then show ?thesis
      using members_prefix[of r' q' xs ys] assms by (simp add: Cons q)
  qed
qed

lemma separates_atom:
  assumes "jsonValue a" and "kindNumber a \<notin> {5, 6}"
  shows "separates a"
  unfolding separates_def
proof (intro allI impI)
  fix b xs ys
  assume b: "jsonValue b" and eq: "stringify a @ xs = stringify b @ ys" and ends: "delimits xs" "delimits ys"
  have "kindNumber a = kindNumber b"
    using headKind_stringify[OF assms(1), of xs] headKind_stringify[OF b, of ys] eq by simp
  then show "a = b \<and> xs = ys"
  proof (cases a rule: stringify.cases)
    case (3 n)
    with \<open>kindNumber a = kindNumber b\<close> b obtain k where "b = JInt k"
      by (cases b rule: stringify.cases) (auto split: if_splits)
    then show ?thesis
      using jsonInt_prefix[of n xs k ys] eq 3 ends by (simp add: delimits_endsNumber)
  next
    case (4 s)
    with \<open>kindNumber a = kindNumber b\<close> b obtain u where "b = JStr u"
      by (cases b rule: stringify.cases) (auto split: if_splits)
    then show ?thesis
      using jsonString_prefix[of s xs u ys] eq 4 by simp
  next
    case 1
    with \<open>kindNumber a = kindNumber b\<close> b have "b = JNull"
      by (cases b rule: stringify.cases) (auto split: if_splits)
    then show ?thesis
      using eq 1 by simp
  next
    case (2 x)
    with \<open>kindNumber a = kindNumber b\<close> b have "b = JBool x"
      by (cases b rule: stringify.cases) (auto split: if_splits)
    then show ?thesis
      using eq 2 by (simp split: if_splits)
  qed (use assms in auto)
qed

lemma separates_value: "jsonValue a \<Longrightarrow> separates a"
proof (induction a rule: stringify.induct)
  case (5 vs)
  show ?case
    unfolding separates_def
  proof (intro allI impI)
    fix b xs ys
    assume b: "jsonValue b" and eq: "stringify (JArr vs) @ xs = stringify b @ ys"
    then have "kindNumber b = 5"
      using headKind_stringify[OF 5(2), of xs] headKind_stringify[OF b, of ys] by simp
    then obtain ws where ws: "b = JArr ws"
      by (cases b) (auto split: if_splits)
    have "list_all separates vs"
      using 5 by (auto simp: list_all_iff)
    from array_prefix[OF this, of ws xs ys] show "JArr vs = b \<and> xs = ys"
      using 5(2) b eq by (simp add: ws)
  qed
next
  case (6 r)
  show ?case
    unfolding separates_def
  proof (intro allI impI)
    fix b xs ys
    assume b: "jsonValue b" and eq: "stringify (JObj r) @ xs = stringify b @ ys"
    then have "kindNumber b = 6"
      using headKind_stringify[OF 6(2), of xs] headKind_stringify[OF b, of ys] by simp
    then obtain q where q: "b = JObj q"
      by (cases b) (auto split: if_splits)
    have "list_all (\<lambda>m. separates (snd m)) r"
      using 6 by (fastforce simp: list_all_iff)
    moreover have "list_all (\<lambda>m. jsonValue (snd m)) q"
      using b by (auto simp: q list_all_iff)
    ultimately show "JObj r = b \<and> xs = ys"
      using object_prefix[of r q xs ys] eq by (simp add: q)
  qed
qed (auto intro!: separates_atom split: if_splits)

text \<open>The text determines the value.\<close>

lemma stringify_inj: "jsonValue a \<Longrightarrow> jsonValue b \<Longrightarrow> stringify a = stringify b \<Longrightarrow> a = b"
  using separatesD[OF separates_value, of a "[]" b "[]"] by (simp add: delimits_def)

end
