(* ===== verification/Alert_Run_Proof.thy ===== *)
theory Alert_Run_Proof
  imports Js_Stringify Alert_State_Delivery Alert_Codec_Properties
begin

section \<open>The proofs of an evaluator run\<close>

text \<open>
  \<^verbatim>\<open>apps/sso/worker/alert-run-proof.ts\<close>: what a run records of each source and of each decision,
  the parsers of these records, and the two manifest digests a sealed run is bound to.
\<close>

datatype alertEvaluatorSourceId =
    Queue_source alertQueueName
  | D1_audit | D1_oauth_client_report | D1_security_fanout_gap | D1_logout_delivery | D1_alert_runtime

datatype alertEvaluatorSourceStatus = Source_complete | Source_invalid | Source_partial | Source_unavailable

datatype alertEvaluatorDecisionDisposition = Applied_decision | No_state_change | Suppressed_partial

definition ALERT_EVALUATOR_SOURCE_IDS :: "alertEvaluatorSourceId list" where
  "ALERT_EVALUATOR_SOURCE_IDS =
     [Queue_source Security_events_dlq, Queue_source Logout_deliveries_dlq,
      Queue_source Alert_deliveries_dlq, Queue_source Audit_archive_dlq,
      D1_audit, D1_oauth_client_report, D1_security_fanout_gap, D1_logout_delivery, D1_alert_runtime]"

fun sourceIdString :: "alertEvaluatorSourceId \<Rightarrow> string" where
  "sourceIdString (Queue_source q) = ''queue.'' @ queueNameString q"
| "sourceIdString D1_audit = ''d1.audit''"
| "sourceIdString D1_oauth_client_report = ''d1.oauth_client_report''"
| "sourceIdString D1_security_fanout_gap = ''d1.security_fanout_gap''"
| "sourceIdString D1_logout_delivery = ''d1.logout_delivery''"
| "sourceIdString D1_alert_runtime = ''d1.alert_runtime''"

fun sourceStatusString :: "alertEvaluatorSourceStatus \<Rightarrow> string" where
  "sourceStatusString Source_complete = ''complete''"
| "sourceStatusString Source_invalid = ''invalid''"
| "sourceStatusString Source_partial = ''partial''"
| "sourceStatusString Source_unavailable = ''unavailable''"

fun dispositionString :: "alertEvaluatorDecisionDisposition \<Rightarrow> string" where
  "dispositionString Applied_decision = ''applied''"
| "dispositionString No_state_change = ''no_state_change''"
| "dispositionString Suppressed_partial = ''suppressed_partial''"

record alertEvaluatorSourceProofValue =
  sp_incompleteCount :: int
  sp_observationCount :: int
  sp_proofSha256 :: string
  sp_sourceId :: alertEvaluatorSourceId
  sp_status :: alertEvaluatorSourceStatus

record alertEvaluatorDecisionProofValue =
  dp_decisionSha256 :: string
  dp_disposition :: alertEvaluatorDecisionDisposition
  dp_evaluationSha256 :: string
  dp_identitySha256 :: string
  dp_ordinal :: int
  dp_sourceId :: alertEvaluatorSourceId

subsection \<open>Parsers\<close>

definition invalidProof :: "'a result" where
  "invalidProof = Inl (TypeError ''invalid alert run proof'')"

definition proofRecord :: "js \<Rightarrow> string list \<Rightarrow> js_record result" where
  "proofRecord value keys =
     (case exactRecord value keys '''' of Inl _ \<Rightarrow> invalidProof | Inr r \<Rightarrow> Inr r)"

definition proofInteger :: "js \<Rightarrow> int \<Rightarrow> int result" where
  "proofInteger value maximum =
     (case safeInteger value of
        Some n \<Rightarrow> (if n < 0 \<or> n > maximum then invalidProof else Inr n)
      | None \<Rightarrow> invalidProof)"

definition BASE64URL_SHA256 :: "string \<Rightarrow> bool" where
  "BASE64URL_SHA256 s \<longleftrightarrow>
     length s = 43 \<and> list_all is_base64url_char (butlast s) \<and> last s \<in> set ''AEIMQUYcgkosw048''"

definition parseAlertEvaluatorSourceId :: "js \<Rightarrow> alertEvaluatorSourceId result" where
  "parseAlertEvaluatorSourceId value =
     (case value of
        JStr s \<Rightarrow>
          (case find (\<lambda>i. sourceIdString i = s) ALERT_EVALUATOR_SOURCE_IDS of
             Some i \<Rightarrow> Inr i
           | None \<Rightarrow> invalidProof)
      | _ \<Rightarrow> invalidProof)"

definition parseAlertEvaluatorDigest :: "js \<Rightarrow> string result" where
  "parseAlertEvaluatorDigest value =
     (case value of JStr s \<Rightarrow> (if BASE64URL_SHA256 s then Inr s else invalidProof) | _ \<Rightarrow> invalidProof)"

definition proofStatus :: "js \<Rightarrow> alertEvaluatorSourceStatus result" where
  "proofStatus value =
     (case value of
        JStr s \<Rightarrow>
          (case find (\<lambda>i. sourceStatusString i = s)
              [Source_complete, Source_invalid, Source_partial, Source_unavailable] of
             Some i \<Rightarrow> Inr i
           | None \<Rightarrow> invalidProof)
      | _ \<Rightarrow> invalidProof)"

definition proofDisposition :: "js \<Rightarrow> alertEvaluatorDecisionDisposition result" where
  "proofDisposition value =
     (case value of
        JStr s \<Rightarrow>
          (case find (\<lambda>i. dispositionString i = s) [Applied_decision, No_state_change, Suppressed_partial] of
             Some i \<Rightarrow> Inr i
           | None \<Rightarrow> invalidProof)
      | _ \<Rightarrow> invalidProof)"

definition countsContradict :: "alertEvaluatorSourceStatus \<Rightarrow> int \<Rightarrow> int \<Rightarrow> bool" where
  "countsContradict outcome observationCount incompleteCount \<longleftrightarrow>
     (outcome = Source_complete \<and> incompleteCount \<noteq> 0) \<or>
     (outcome = Source_partial \<and> incompleteCount = 0) \<or>
     ((outcome = Source_invalid \<or> outcome = Source_unavailable) \<and>
        (observationCount \<noteq> 0 \<or> incompleteCount \<noteq> 0))"

definition parseAlertEvaluatorSourceProofValue :: "js \<Rightarrow> alertEvaluatorSourceProofValue result" where
  "parseAlertEvaluatorSourceProofValue value =
     and_then (proofRecord value [''incompleteCount'', ''observationCount'', ''proofSha256'', ''sourceId'', ''status'']) (\<lambda>r.
     and_then (proofStatus (field_of r ''status'')) (\<lambda>status.
     and_then (proofInteger (field_of r ''observationCount'') 10000) (\<lambda>observationCount.
     and_then (proofInteger (field_of r ''incompleteCount'') 10000) (\<lambda>incompleteCount.
       if countsContradict status observationCount incompleteCount then invalidProof
       else
     and_then (parseAlertEvaluatorDigest (field_of r ''proofSha256'')) (\<lambda>proofSha256.
     and_then (parseAlertEvaluatorSourceId (field_of r ''sourceId'')) (\<lambda>sourceId.
       Inr \<lparr>sp_incompleteCount = incompleteCount, sp_observationCount = observationCount,
            sp_proofSha256 = proofSha256, sp_sourceId = sourceId, sp_status = status\<rparr>))))))"

definition parseAlertEvaluatorDecisionProofValue :: "js \<Rightarrow> alertEvaluatorDecisionProofValue result" where
  "parseAlertEvaluatorDecisionProofValue value =
     and_then (proofRecord value [''decisionSha256'', ''disposition'', ''evaluationSha256'', ''identitySha256'',
         ''ordinal'', ''sourceId'']) (\<lambda>r.
     and_then (proofDisposition (field_of r ''disposition'')) (\<lambda>disposition.
     and_then (parseAlertEvaluatorDigest (field_of r ''decisionSha256'')) (\<lambda>decisionSha256.
     and_then (parseAlertEvaluatorDigest (field_of r ''evaluationSha256'')) (\<lambda>evaluationSha256.
     and_then (parseAlertEvaluatorDigest (field_of r ''identitySha256'')) (\<lambda>identitySha256.
     and_then (proofInteger (field_of r ''ordinal'') 9999) (\<lambda>ordinal.
     and_then (parseAlertEvaluatorSourceId (field_of r ''sourceId'')) (\<lambda>sourceId.
       Inr \<lparr>dp_decisionSha256 = decisionSha256, dp_disposition = disposition,
            dp_evaluationSha256 = evaluationSha256, dp_identitySha256 = identitySha256,
            dp_ordinal = ordinal, dp_sourceId = sourceId\<rparr>)))))))"

subsection \<open>Manifests\<close>

definition canonicalDigest :: "digestFunction \<Rightarrow> js \<Rightarrow> string" where
  "canonicalDigest digest value = base64Url (digestBytes digest (stringify value))"

text \<open>What is hashed: the proofs in the fixed order of the sources.\<close>

definition sourceManifestEntry :: "alertEvaluatorSourceProofValue \<Rightarrow> js" where
  "sourceManifestEntry p =
     JObj [(''sourceId'', JStr (sourceIdString (sp_sourceId p))), (''status'', JStr (sourceStatusString (sp_status p))),
       (''observationCount'', JInt (sp_observationCount p)), (''incompleteCount'', JInt (sp_incompleteCount p)),
       (''proofSha256'', JStr (sp_proofSha256 p))]"

definition proofBySource ::
  "alertEvaluatorSourceProofValue list \<Rightarrow> alertEvaluatorSourceId \<Rightarrow> alertEvaluatorSourceProofValue option" where
  "proofBySource parsed sourceId = find (\<lambda>p. sp_sourceId p = sourceId) (rev parsed)"

definition sourceManifest :: "js list \<Rightarrow> js result" where
  "sourceManifest values =
     (if length values \<noteq> length ALERT_EVALUATOR_SOURCE_IDS then invalidProof
      else and_then (map_result parseAlertEvaluatorSourceProofValue values) (\<lambda>parsed.
        if length (remdups (map sp_sourceId parsed)) \<noteq> length ALERT_EVALUATOR_SOURCE_IDS then invalidProof
        else and_then (map_result (\<lambda>sourceId.
            case proofBySource parsed sourceId of
              None \<Rightarrow> invalidProof
            | Some p \<Rightarrow> Inr (sourceManifestEntry p)) ALERT_EVALUATOR_SOURCE_IDS) (\<lambda>entries.
          Inr (JArr (JStr ''pgid.alert.evaluator.source-manifest.v1'' # entries)))))"

definition alertEvaluatorSourceManifestDigest :: "digestFunction \<Rightarrow> js list \<Rightarrow> string result" where
  "alertEvaluatorSourceManifestDigest digest values =
     and_then (sourceManifest values) (\<lambda>m. Inr (canonicalDigest digest m))"

definition decisionManifestEntry :: "alertEvaluatorDecisionProofValue \<Rightarrow> js" where
  "decisionManifestEntry p =
     JObj [(''ordinal'', JInt (dp_ordinal p)), (''sourceId'', JStr (sourceIdString (dp_sourceId p))),
       (''identitySha256'', JStr (dp_identitySha256 p)), (''evaluationSha256'', JStr (dp_evaluationSha256 p)),
       (''decisionSha256'', JStr (dp_decisionSha256 p)), (''disposition'', JStr (dispositionString (dp_disposition p)))]"

text \<open>The loop over the parsed proofs: ordinals count up from zero, identities do not repeat.\<close>

fun decisionsInOrder :: "int \<Rightarrow> string list \<Rightarrow> alertEvaluatorDecisionProofValue list \<Rightarrow> bool" where
  "decisionsInOrder ordinal identities [] = True"
| "decisionsInOrder ordinal identities (p # ps) =
     (if dp_ordinal p \<noteq> ordinal \<or> dp_identitySha256 p \<in> set identities then False
      else decisionsInOrder (ordinal + 1) (dp_identitySha256 p # identities) ps)"

definition decisionManifest :: "js list \<Rightarrow> js result" where
  "decisionManifest values =
     (if length values > 10000 then invalidProof
      else and_then (map_result parseAlertEvaluatorDecisionProofValue values) (\<lambda>parsed.
        if \<not> decisionsInOrder 0 [] parsed then invalidProof
        else Inr (JArr (JStr ''pgid.alert.evaluator.decision-manifest.v1'' # map decisionManifestEntry parsed))))"

definition alertEvaluatorDecisionManifestDigest :: "digestFunction \<Rightarrow> js list \<Rightarrow> string result" where
  "alertEvaluatorDecisionManifestDigest digest values =
     and_then (decisionManifest values) (\<lambda>m. Inr (canonicalDigest digest m))"

subsection \<open>The parsers accept what a run records\<close>

definition jsOfSourceProof :: "alertEvaluatorSourceProofValue \<Rightarrow> js" where
  "jsOfSourceProof p =
     JObj [(''incompleteCount'', JInt (sp_incompleteCount p)), (''observationCount'', JInt (sp_observationCount p)),
       (''proofSha256'', JStr (sp_proofSha256 p)), (''sourceId'', JStr (sourceIdString (sp_sourceId p))),
       (''status'', JStr (sourceStatusString (sp_status p)))]"

definition validSourceProof :: "alertEvaluatorSourceProofValue \<Rightarrow> bool" where
  "validSourceProof p \<longleftrightarrow>
     inDomain 10000 (sp_incompleteCount p) \<and> inDomain 10000 (sp_observationCount p) \<and>
     BASE64URL_SHA256 (sp_proofSha256 p) \<and>
     \<not> countsContradict (sp_status p) (sp_observationCount p) (sp_incompleteCount p)"

definition jsOfDecisionProof :: "alertEvaluatorDecisionProofValue \<Rightarrow> js" where
  "jsOfDecisionProof p =
     JObj [(''decisionSha256'', JStr (dp_decisionSha256 p)), (''disposition'', JStr (dispositionString (dp_disposition p))),
       (''evaluationSha256'', JStr (dp_evaluationSha256 p)), (''identitySha256'', JStr (dp_identitySha256 p)),
       (''ordinal'', JInt (dp_ordinal p)), (''sourceId'', JStr (sourceIdString (dp_sourceId p)))]"

definition validDecisionProof :: "alertEvaluatorDecisionProofValue \<Rightarrow> bool" where
  "validDecisionProof p \<longleftrightarrow>
     inDomain 9999 (dp_ordinal p) \<and> BASE64URL_SHA256 (dp_decisionSha256 p) \<and>
     BASE64URL_SHA256 (dp_evaluationSha256 p) \<and> BASE64URL_SHA256 (dp_identitySha256 p)"

lemma sourceIdString_inj [simp]: "sourceIdString i = sourceIdString j \<longleftrightarrow> i = j"
proof -
  have "queueNameString q = queueNameString q' \<longleftrightarrow> q = q'" for q q'
    by (cases q; cases q') simp_all
  then show ?thesis
    by (cases i; cases j) simp_all
qed

lemma all_sources: "i \<in> set ALERT_EVALUATOR_SOURCE_IDS"
proof (cases i)
  case (Queue_source q)
  then show ?thesis by (cases q) (simp_all add: ALERT_EVALUATOR_SOURCE_IDS_def)
qed (simp_all add: ALERT_EVALUATOR_SOURCE_IDS_def)

lemma find_source [simp]: "find (\<lambda>j. j = i) ALERT_EVALUATOR_SOURCE_IDS = Some i"
proof -
  have "i \<in> set is \<Longrightarrow> find (\<lambda>j. j = i) is = Some i" for "is"
    by (induction "is") auto
  with all_sources show ?thesis by blast
qed

lemma parse_sourceId [simp, codec_simps]: "parseAlertEvaluatorSourceId (JStr (sourceIdString i)) = Inr i"
  by (simp add: parseAlertEvaluatorSourceId_def)

lemma parse_sourceId_iff: "parseAlertEvaluatorSourceId v = Inr i \<longleftrightarrow> v = JStr (sourceIdString i)"
  by (auto simp: parseAlertEvaluatorSourceId_def invalidProof_def find_Some_iff split: js.splits option.splits)

lemma sourceStatusString_inj [simp]: "sourceStatusString s = sourceStatusString t \<longleftrightarrow> s = t"
  by (cases s; cases t) simp_all

lemma dispositionString_inj [simp]: "dispositionString s = dispositionString t \<longleftrightarrow> s = t"
  by (cases s; cases t) simp_all

lemma proofStatus_iff: "proofStatus v = Inr st \<longleftrightarrow> v = JStr (sourceStatusString st)"
proof
  show "v = JStr (sourceStatusString st) \<Longrightarrow> proofStatus v = Inr st"
    by (cases st) (simp_all add: proofStatus_def)
qed (auto simp: proofStatus_def invalidProof_def split: js.splits if_splits)

lemma proofDisposition_iff: "proofDisposition v = Inr d \<longleftrightarrow> v = JStr (dispositionString d)"
proof
  show "v = JStr (dispositionString d) \<Longrightarrow> proofDisposition v = Inr d"
    by (cases d) (simp_all add: proofDisposition_def)
qed (auto simp: proofDisposition_def invalidProof_def split: js.splits if_splits)

lemma proofInteger_iff:
  "m \<le> MAX_SAFE_INTEGER \<Longrightarrow> proofInteger v m = Inr n \<longleftrightarrow> v = JInt n \<and> inDomain m n"
  by (auto simp: proofInteger_def invalidProof_def safeInteger_Some_iff inDomain_def split: option.splits)

lemma parse_digest_iff: "parseAlertEvaluatorDigest v = Inr s \<longleftrightarrow> v = JStr s \<and> BASE64URL_SHA256 s"
  by (auto simp: parseAlertEvaluatorDigest_def invalidProof_def split: js.splits)

lemma proofRecord_iff: "proofRecord v keys = Inr r \<longleftrightarrow> exactRecord v keys '''' = Inr r"
  by (auto simp: proofRecord_def invalidProof_def split: sum.splits)

lemmas proof_iffs = parse_sourceId_iff proofStatus_iff proofDisposition_iff parse_digest_iff proofRecord_iff
  and_then_eq_Inr throw_if_eq_Inr

lemma small_bounds: "10000 \<le> MAX_SAFE_INTEGER" "9999 \<le> MAX_SAFE_INTEGER"
  by (simp_all add: MAX_SAFE_INTEGER_def)

interpretation sourceProof: codec jsOfSourceProof parseAlertEvaluatorSourceProofValue validSourceProof
proof
  show "validSourceProof p \<Longrightarrow> parseAlertEvaluatorSourceProofValue (jsOfSourceProof p) = Inr p" for p
    by (cases p) (simp add: parseAlertEvaluatorSourceProofValue_def jsOfSourceProof_def validSourceProof_def
        proof_iffs proofInteger_iff small_bounds)
  show "parseAlertEvaluatorSourceProofValue v = Inr p \<Longrightarrow> validSourceProof p" for v p
    by (auto simp: parseAlertEvaluatorSourceProofValue_def validSourceProof_def invalidProof_def proof_iffs
        proofInteger_iff small_bounds split: if_splits)
qed

interpretation decisionProof: codec jsOfDecisionProof parseAlertEvaluatorDecisionProofValue validDecisionProof
proof
  show "validDecisionProof p \<Longrightarrow> parseAlertEvaluatorDecisionProofValue (jsOfDecisionProof p) = Inr p" for p
    by (cases p) (simp add: parseAlertEvaluatorDecisionProofValue_def jsOfDecisionProof_def validDecisionProof_def
        proof_iffs proofInteger_iff small_bounds)
  show "parseAlertEvaluatorDecisionProofValue v = Inr p \<Longrightarrow> validDecisionProof p" for v p
    by (auto simp: parseAlertEvaluatorDecisionProofValue_def validDecisionProof_def invalidProof_def proof_iffs
        proofInteger_iff small_bounds)
qed

text \<open>A digest of 32 bytes is accepted.\<close>

lemma urlChar_table: "list_all (\<lambda>k. urlChar (4 * k) \<in> set ''AEIMQUYcgkosw048'') [0..<16]"
  by (simp add: upt_rec[of _ 16] urlChar_def base64Char_def char_eq_nat)

lemma urlChar_last: "i < 64 \<Longrightarrow> i mod 4 = 0 \<Longrightarrow> urlChar i \<in> set ''AEIMQUYcgkosw048''"
proof -
  assume i: "i < 64" "i mod 4 = 0"
  then have "i div 4 \<in> set [0..<16]" "4 * (i div 4) = i"
    by auto
  then show ?thesis
    using urlChar_table unfolding list_all_iff by fastforce
qed

lemma pattern_of_canonical: "isCanonicalBase64Url32 s \<Longrightarrow> BASE64URL_SHA256 s"
proof -
  assume "isCanonicalBase64Url32 s"
  then obtain bs where bs: "length bs = 32" "base64Url bs = s"
    by (auto simp: isCanonicalBase64Url32_iff)
  then have l: "length (sextets bs) = 43"
    using length_sextets[of bs] by simp
  then have ne: "sextets bs \<noteq> []"
    by auto
  then have "last s = urlChar (last (sextets bs))" "last (sextets bs) < 64"
    using bs(2) sextets_bound[OF last_in_set[OF ne]] ne by (auto simp: base64Url_eq last_map)
  moreover have "last (sextets bs) mod 4 = 0"
    using zero_tail_sextets[of bs] zero_tail_last[of "sextets bs"] l by simp
  moreover have "list_all is_base64url_char s" "length s = 43"
    using pattern_base64Url[OF bs(1)] bs(2) by (simp_all add: HMAC_REFERENCE_PATTERN_def)
  ultimately show "BASE64URL_SHA256 s"
    using urlChar_last by (auto simp: BASE64URL_SHA256_def list_all_iff dest: in_set_butlastD)
qed

lemma canonicalDigest_pattern: "digest32 digest \<Longrightarrow> BASE64URL_SHA256 (canonicalDigest digest v)"
  by (rule pattern_of_canonical)
    (unfold isCanonicalBase64Url32_iff canonicalDigest_def digestBytes_def digest32_def, blast)

subsection \<open>What a manifest says\<close>

text \<open>
  The value hashed determines the proofs: the source manifest the proof of every source, the
  decision manifest the list of decisions in order.
\<close>

lemma sourceManifestEntry_inj [simp]: "sourceManifestEntry p = sourceManifestEntry q \<longleftrightarrow> p = q"
  by (cases p; cases q) (auto simp: sourceManifestEntry_def)

lemma decisionManifestEntry_inj [simp]: "decisionManifestEntry p = decisionManifestEntry q \<longleftrightarrow> p = q"
  by (cases p; cases q) (auto simp: decisionManifestEntry_def)

lemma map_decisionManifestEntry_inj: "map decisionManifestEntry ps = map decisionManifestEntry qs \<longleftrightarrow> ps = qs"
  by (metis decisionManifestEntry_inj injI inj_map_eq_map)

lemma jsonValue_entries [simp]: "jsonValue (sourceManifestEntry p)" "jsonValue (decisionManifestEntry q)"
  by (simp_all add: sourceManifestEntry_def decisionManifestEntry_def)

text \<open>The source manifest of parsed proofs: one proof of each source, in the fixed order.\<close>

definition orderedProofs :: "(alertEvaluatorSourceId \<Rightarrow> alertEvaluatorSourceProofValue) \<Rightarrow> js" where
  "orderedProofs f =
     JArr (JStr ''pgid.alert.evaluator.source-manifest.v1'' # map (sourceManifestEntry \<circ> f) ALERT_EVALUATOR_SOURCE_IDS)"

lemma find_distinct:
  assumes "distinct (map f xs)" and "x \<in> set xs"
  shows "find (\<lambda>y. f y = f x) xs = Some x"
  using assms by (induction xs) auto

lemma map_result_total: "(\<And>x. x \<in> set xs \<Longrightarrow> f x = Inr (g x)) \<Longrightarrow> map_result f xs = Inr (map g xs)"
  by (induction xs) simp_all

lemma distinct_sources: "distinct ALERT_EVALUATOR_SOURCE_IDS"
  by (simp add: ALERT_EVALUATOR_SOURCE_IDS_def)

lemma sourceManifest_Inr:
  assumes "sourceManifest values = Inr m"
  obtains f parsed where "m = orderedProofs f" and "\<And>i. sp_sourceId (f i) = i"
    and "map_result parseAlertEvaluatorSourceProofValue values = Inr parsed" and "set parsed = range f"
    and "distinct (map sp_sourceId parsed)"
proof -
  from assms obtain parsed where len: "length values = length ALERT_EVALUATOR_SOURCE_IDS"
    and parsed: "map_result parseAlertEvaluatorSourceProofValue values = Inr parsed"
    and ids: "length (remdups (map sp_sourceId parsed)) = length ALERT_EVALUATOR_SOURCE_IDS"
    and run: "and_then (map_result (\<lambda>sourceId. case proofBySource parsed sourceId of
          None \<Rightarrow> invalidProof | Some p \<Rightarrow> Inr (sourceManifestEntry p)) ALERT_EVALUATOR_SOURCE_IDS)
        (\<lambda>entries. Inr (JArr (JStr ''pgid.alert.evaluator.source-manifest.v1'' # entries))) = Inr m"
    by (auto simp: sourceManifest_def invalidProof_def and_then_eq_Inr split: if_splits)
  have "length parsed = length ALERT_EVALUATOR_SOURCE_IDS"
    using parsed len by (simp add: map_result_Inr_iff list_all2_lengthD)
  then have d: "distinct (map sp_sourceId parsed)"
    using ids by (metis distinct_remdups length_map length_remdups_eq)
  have all: "i \<in> sp_sourceId ` set parsed" for i
  proof -
    have "set ALERT_EVALUATOR_SOURCE_IDS = set (map sp_sourceId parsed)"
      using set_subset_card_eq[OF d, of ALERT_EVALUATOR_SOURCE_IDS] all_sources
        \<open>length parsed = length ALERT_EVALUATOR_SOURCE_IDS\<close> by auto
    with all_sources[of i] show ?thesis by simp
  qed
  define f where "f i = the (proofBySource parsed i)" for i
  have f: "proofBySource parsed (sp_sourceId p) = Some p" if "p \<in> set parsed" for p
    unfolding proofBySource_def using d that by (intro find_distinct) (simp_all add: rev_map[symmetric])
  then have some: "proofBySource parsed i = Some (f i) \<and> sp_sourceId (f i) = i \<and> f i \<in> set parsed" for i
    using all[of i] by (auto simp: f_def)
  have m: "m = orderedProofs f"
    using run some by (simp add: map_result_total[where g = "sourceManifestEntry \<circ> f"] orderedProofs_def)
  have "p \<in> range f" if "p \<in> set parsed" for p
    using f[OF that] some[of "sp_sourceId p"] by (metis option.inject rangeI)
  then have "set parsed = range f"
    using some by auto
  with m some parsed d that show ?thesis
    by blast
qed

lemma orderedProofs_inj: "orderedProofs f = orderedProofs g \<Longrightarrow> f = g"
proof
  fix i assume "orderedProofs f = orderedProofs g"
  then show "f i = g i"
    using all_sources[of i] by (simp add: orderedProofs_def)
qed

lemma jsonValue_manifests:
  "sourceManifest values = Inr m \<Longrightarrow> jsonValue m" "decisionManifest values = Inr m' \<Longrightarrow> jsonValue m'"
  by (auto elim!: sourceManifest_Inr simp: orderedProofs_def list_all_iff decisionManifest_def invalidProof_def
      and_then_eq_Inr split: if_splits)

text \<open>The bytes that are hashed.\<close>

definition manifestMessage :: "js result \<Rightarrow> bytes" where
  "manifestMessage m = (case m of Inl _ \<Rightarrow> [] | Inr value \<Rightarrow> utf8 (stringify value))"

lemma manifestMessage_digest:
  "alertEvaluatorSourceManifestDigest digest vs = and_then (sourceManifest vs) (\<lambda>m. Inr (base64Url (digest (manifestMessage (Inr m)))))"
  "alertEvaluatorDecisionManifestDigest digest vs = and_then (decisionManifest vs) (\<lambda>m. Inr (base64Url (digest (manifestMessage (Inr m)))))"
  by (simp_all add: alertEvaluatorSourceManifestDigest_def alertEvaluatorDecisionManifestDigest_def
      canonicalDigest_def digestBytes_def manifestMessage_def)

lemma manifestMessage_eq:
  "jsonValue m \<Longrightarrow> jsonValue m' \<Longrightarrow> manifestMessage (Inr m) = manifestMessage (Inr m') \<longleftrightarrow> m = m'"
  using stringify_inj by (auto simp: manifestMessage_def)

lemma sourceManifest_messages:
  assumes "is_ok (sourceManifest vs)" and "is_ok (sourceManifest ws)"
    and "map_result parseAlertEvaluatorSourceProofValue vs = Inr ps"
    and "map_result parseAlertEvaluatorSourceProofValue ws = Inr qs"
  shows "manifestMessage (sourceManifest vs) = manifestMessage (sourceManifest ws) \<longleftrightarrow> mset ps = mset qs"
proof -
  obtain m m' where m: "sourceManifest vs = Inr m" "sourceManifest ws = Inr m'"
    using assms(1,2) by (auto elim!: is_okE)
  obtain f where f: "m = orderedProofs f" "\<And>i. sp_sourceId (f i) = i" "set ps = range f" "distinct (map sp_sourceId ps)"
    using sourceManifest_Inr[OF m(1)] assms(3) by (metis sum.inject(2))
  obtain g where g: "m' = orderedProofs g" "\<And>i. sp_sourceId (g i) = i" "set qs = range g" "distinct (map sp_sourceId qs)"
    using sourceManifest_Inr[OF m(2)] assms(4) by (metis sum.inject(2))
  have "f = g \<longleftrightarrow> range f = range g"
    using f(2) g(2) by (metis (no_types, lifting) ext imageE rangeI)
  moreover have "range f = range g \<longleftrightarrow> mset ps = mset qs"
    using f(3,4) g(3,4) by (metis distinct_map set_eq_iff_mset_eq_distinct)
  moreover have "manifestMessage (Inr m) = manifestMessage (Inr m') \<longleftrightarrow> f = g"
    using manifestMessage_eq jsonValue_manifests(1)[OF m(1)] jsonValue_manifests(1)[OF m(2)] orderedProofs_inj f(1) g(1)
    by metis
  ultimately show ?thesis
    using m by simp
qed

lemma decisionManifest_messages:
  assumes "is_ok (decisionManifest vs)" and "is_ok (decisionManifest ws)"
    and "map_result parseAlertEvaluatorDecisionProofValue vs = Inr ps"
    and "map_result parseAlertEvaluatorDecisionProofValue ws = Inr qs"
  shows "manifestMessage (decisionManifest vs) = manifestMessage (decisionManifest ws) \<longleftrightarrow> ps = qs"
proof -
  obtain m m' where m: "decisionManifest vs = Inr m" "decisionManifest ws = Inr m'"
    using assms(1,2) by (auto elim!: is_okE)
  have "m = JArr (JStr ''pgid.alert.evaluator.decision-manifest.v1'' # map decisionManifestEntry ps)"
    "m' = JArr (JStr ''pgid.alert.evaluator.decision-manifest.v1'' # map decisionManifestEntry qs)"
    using m assms(3,4) by (auto simp: decisionManifest_def invalidProof_def split: if_splits)
  then show ?thesis
    using m manifestMessage_eq[OF jsonValue_manifests(2)[OF m(1)] jsonValue_manifests(2)[OF m(2)]]
    by (simp add: map_decisionManifestEntry_inj)
qed

text \<open>
  C23. A manifest digest is a digest of the proofs. Two accepted source manifests hash the same bytes
  exactly if they hold the same proofs, in any order; two accepted decision manifests exactly if
  they hold the same decisions in the same order.
\<close>

theorem manifest_messages:
  assumes "is_ok (sourceManifest vs)" and "is_ok (sourceManifest ws)"
    and "map_result parseAlertEvaluatorSourceProofValue vs = Inr ps"
    and "map_result parseAlertEvaluatorSourceProofValue ws = Inr qs"
    and "is_ok (decisionManifest us)" and "is_ok (decisionManifest xs)"
    and "map_result parseAlertEvaluatorDecisionProofValue us = Inr ds"
    and "map_result parseAlertEvaluatorDecisionProofValue xs = Inr es"
  shows "alertEvaluatorSourceManifestDigest digest vs = Inr (base64Url (digest (manifestMessage (sourceManifest vs)))) \<and>
    alertEvaluatorDecisionManifestDigest digest us = Inr (base64Url (digest (manifestMessage (decisionManifest us)))) \<and>
    (manifestMessage (sourceManifest vs) = manifestMessage (sourceManifest ws) \<longleftrightarrow> mset ps = mset qs) \<and>
    (manifestMessage (decisionManifest us) = manifestMessage (decisionManifest xs) \<longleftrightarrow> ds = es)"
  using sourceManifest_messages[OF assms(1-4)] decisionManifest_messages[OF assms(5-8)] assms(1,5)
  by (auto simp: manifestMessage_digest elim!: is_okE)

definition sampleHash :: digestFunction where "sampleHash message = replicate 32 0"

definition sampleProofDigest :: string where "sampleProofDigest = replicate 43 CHR ''A''"

definition sampleSourceProofs :: "alertEvaluatorSourceProofValue list" where
  "sampleSourceProofs = map (\<lambda>i. \<lparr>sp_incompleteCount = 0, sp_observationCount = 1,
     sp_proofSha256 = sampleProofDigest, sp_sourceId = i, sp_status = Source_complete\<rparr>) ALERT_EVALUATOR_SOURCE_IDS"

definition sampleDecisionProof :: alertEvaluatorDecisionProofValue where
  "sampleDecisionProof = \<lparr>dp_decisionSha256 = sampleProofDigest, dp_disposition = Applied_decision,
     dp_evaluationSha256 = sampleProofDigest, dp_identitySha256 = sampleProofDigest, dp_ordinal = 0,
     dp_sourceId = D1_audit\<rparr>"

lemma sampleProofDigest_pattern: "BASE64URL_SHA256 sampleProofDigest"
  unfolding sampleProofDigest_def by code_simp

lemma valid_sampleProofs:
  "p \<in> set sampleSourceProofs \<Longrightarrow> validSourceProof p" "validDecisionProof sampleDecisionProof"
  by (auto simp: sampleSourceProofs_def sampleDecisionProof_def validSourceProof_def validDecisionProof_def
      inDomain_def countsContradict_def sampleProofDigest_pattern)

lemma parse_built:
  "list_all valid ps \<Longrightarrow> (\<And>p. valid p \<Longrightarrow> parse (js p) = Inr p) \<Longrightarrow> map_result parse (map js ps) = Inr ps"
  by (induction ps) simp_all

lemma parse_sampleProofs:
  "map_result parseAlertEvaluatorSourceProofValue (map jsOfSourceProof sampleSourceProofs) = Inr sampleSourceProofs"
  "map_result parseAlertEvaluatorSourceProofValue (map jsOfSourceProof (rev sampleSourceProofs)) = Inr (rev sampleSourceProofs)"
  "map_result parseAlertEvaluatorDecisionProofValue [jsOfDecisionProof sampleDecisionProof] = Inr [sampleDecisionProof]"
  using valid_sampleProofs
    parse_built[of validSourceProof _ parseAlertEvaluatorSourceProofValue jsOfSourceProof, OF _ sourceProof.dec_enc]
    decisionProof.dec_enc[of sampleDecisionProof]
  by (simp_all add: list_all_iff)

lemma sampleManifests_ok:
  "is_ok (sourceManifest (map jsOfSourceProof sampleSourceProofs))"
  "is_ok (sourceManifest (map jsOfSourceProof (rev sampleSourceProofs)))"
  "is_ok (decisionManifest [jsOfDecisionProof sampleDecisionProof])"
proof -
  show "is_ok (sourceManifest (map jsOfSourceProof sampleSourceProofs))"
    by (simp only: sourceManifest_def parse_sampleProofs)
      (simp add: sampleSourceProofs_def ALERT_EVALUATOR_SOURCE_IDS_def proofBySource_def)
  show "is_ok (sourceManifest (map jsOfSourceProof (rev sampleSourceProofs)))"
    by (simp only: sourceManifest_def parse_sampleProofs)
      (simp add: sampleSourceProofs_def ALERT_EVALUATOR_SOURCE_IDS_def proofBySource_def)
  show "is_ok (decisionManifest [jsOfDecisionProof sampleDecisionProof])"
    by (simp only: decisionManifest_def parse_sampleProofs) (simp add: sampleDecisionProof_def)
qed

theorem manifest_messages_witness:
  "alertEvaluatorSourceManifestDigest sampleHash (map jsOfSourceProof sampleSourceProofs) =
     Inr (base64Url (sampleHash (manifestMessage (sourceManifest (map jsOfSourceProof sampleSourceProofs))))) \<and>
   alertEvaluatorDecisionManifestDigest sampleHash [jsOfDecisionProof sampleDecisionProof] =
     Inr (base64Url (sampleHash (manifestMessage (decisionManifest [jsOfDecisionProof sampleDecisionProof])))) \<and>
   (manifestMessage (sourceManifest (map jsOfSourceProof sampleSourceProofs)) =
      manifestMessage (sourceManifest (map jsOfSourceProof (rev sampleSourceProofs))) \<longleftrightarrow>
      mset sampleSourceProofs = mset (rev sampleSourceProofs)) \<and>
   (manifestMessage (decisionManifest [jsOfDecisionProof sampleDecisionProof]) =
      manifestMessage (decisionManifest [jsOfDecisionProof sampleDecisionProof]) \<longleftrightarrow>
      [sampleDecisionProof] = [sampleDecisionProof])"
  by (rule manifest_messages) (rule sampleManifests_ok parse_sampleProofs)+

end
