(* ===== verification/Alert_Evaluator_Work.thy ===== *)
theory Alert_Evaluator_Work
  imports Alert_Run_Proof Alert_State_Repository "HOL-Library.List_Lexorder" "HOL-Library.Char_ord" "HOL-Library.Product_Lexorder"
begin

section \<open>The work of one evaluator run\<close>

text \<open>
  The parts of \<^verbatim>\<open>apps/sso/worker/alert-evaluator-orchestration.ts\<close> that call nothing: the canonical
  digests, the order of the work, the check of what a source returned, the work cap, and what is
  done with incomplete evidence.
\<close>

subsection \<open>Query budgets\<close>

definition budgetFixed :: "int list" where
  "budgetFixed = [8, 15 + 4 + 2 + 9 + 2, 4 * 3, 9 * 3, 4, 5 * 2, 9 + 8]"

definition budgetPerWorkItem :: "int list" where
  "budgetPerWorkItem = [2, 2, 15, 2, 15]"

definition freeInvocationLimit :: int where "freeInvocationLimit = 50"
definition paidInvocationLimit :: int where "paidInvocationLimit = 1000"
definition reservedPaidHeadroom :: int where "reservedPaidHeadroom = 150"

definition ALERT_EVALUATOR_FIXED_D1_QUERY_BUDGET :: int where
  "ALERT_EVALUATOR_FIXED_D1_QUERY_BUDGET = sum_list budgetFixed"

definition ALERT_EVALUATOR_PER_WORK_ITEM_D1_QUERY_BUDGET :: int where
  "ALERT_EVALUATOR_PER_WORK_ITEM_D1_QUERY_BUDGET = sum_list budgetPerWorkItem"

definition ALERT_EVALUATOR_MAX_WORK_ITEMS :: int where
  "ALERT_EVALUATOR_MAX_WORK_ITEMS =
     (paidInvocationLimit - reservedPaidHeadroom - ALERT_EVALUATOR_FIXED_D1_QUERY_BUDGET)
       div ALERT_EVALUATOR_PER_WORK_ITEM_D1_QUERY_BUDGET"

definition ALERT_EVALUATOR_FREE_PLAN_SUPPORTED :: bool where
  "ALERT_EVALUATOR_FREE_PLAN_SUPPORTED \<longleftrightarrow> ALERT_EVALUATOR_FIXED_D1_QUERY_BUDGET \<le> freeInvocationLimit"

subsection \<open>Errors and types\<close>

datatype alertEvaluatorOrchestrationErrorCode =
    Clock_invalid | Evaluator_failed | Lease_lost | Metrics_unavailable | Source_incomplete

fun orchestrationCodeString :: "alertEvaluatorOrchestrationErrorCode \<Rightarrow> string" where
  "orchestrationCodeString Clock_invalid = ''clock_invalid''"
| "orchestrationCodeString Evaluator_failed = ''evaluator_failed''"
| "orchestrationCodeString Lease_lost = ''lease_lost''"
| "orchestrationCodeString Metrics_unavailable = ''metrics_unavailable''"
| "orchestrationCodeString Source_incomplete = ''source_incomplete''"

definition orchestrationError :: "alertEvaluatorOrchestrationErrorCode \<Rightarrow> js_error" where
  "orchestrationError code = CodedError ''AlertEvaluatorOrchestrationError'' (orchestrationCodeString code)"

type_synonym sourceIncompleteIdentity = "alertRuleId \<times> dimensionKind"

text \<open>What a source returns; the observations are parsed again.\<close>

record sourceReaderResult =
  read_incomplete :: "sourceIncompleteIdentity list"
  read_observations :: "js list"

record collectedSource =
  cs_forcePartial :: bool
  cs_incomplete :: "sourceIncompleteIdentity list"
  cs_observations :: "alertRuleObservation list"
  cs_planningObservations :: "alertRuleObservation list"
  cs_proof :: alertEvaluatorSourceProofValue
  cs_sourceId :: alertEvaluatorSourceId

subsection \<open>Canonical digests\<close>

text \<open>
  \<open>canonicalJsonValue\<close> sorts the keys of every object. A fraction, which no alert value contains,
  has no text in the model and is refused with the other values that cannot be hashed. Keys that
  are array indices, which JavaScript would move to the front, do not occur.
\<close>

definition invalidProofValue :: "'a result" where
  "invalidProofValue = Inl (TypeError ''invalid alert proof value'')"

fun canonicalJsonValue :: "js \<Rightarrow> js result"
  and canonicalJsonValues :: "js list \<Rightarrow> js list result"
  and canonicalJsonMembers :: "js_record \<Rightarrow> js_record result" where
  "canonicalJsonValue JNull = Inr JNull"
| "canonicalJsonValue (JBool b) = Inr (JBool b)"
| "canonicalJsonValue (JNum (NInt n)) = Inr (JNum (NInt n))"
| "canonicalJsonValue (JStr s) = Inr (JStr s)"
| "canonicalJsonValue (JArr vs) = and_then (canonicalJsonValues vs) (\<lambda>ws. Inr (JArr ws))"
| "canonicalJsonValue (JObj r) = and_then (canonicalJsonMembers r) (\<lambda>q. Inr (JObj (sort_key fst q)))"
| "canonicalJsonValue _ = invalidProofValue"
| "canonicalJsonValues [] = Inr []"
| "canonicalJsonValues (v # vs) =
     and_then (canonicalJsonValue v) (\<lambda>w. and_then (canonicalJsonValues vs) (\<lambda>ws. Inr (w # ws)))"
| "canonicalJsonMembers [] = Inr []"
| "canonicalJsonMembers ((k, v) # r) =
     and_then (canonicalJsonValue v) (\<lambda>w. and_then (canonicalJsonMembers r) (\<lambda>q. Inr ((k, w) # q)))"

datatype proofDigestDomain = Decision_domain | Evaluation_domain | Identity_domain | Source_domain

fun proofDomainString :: "proofDigestDomain \<Rightarrow> string" where
  "proofDomainString Decision_domain = ''decision''"
| "proofDomainString Evaluation_domain = ''evaluation''"
| "proofDomainString Identity_domain = ''identity''"
| "proofDomainString Source_domain = ''source''"

definition canonicalAlertEvaluatorProofDigest ::
  "digestFunction \<Rightarrow> proofDigestDomain \<Rightarrow> js \<Rightarrow> string result" where
  "canonicalAlertEvaluatorProofDigest digest domain value =
     and_then (canonicalJsonValue value) (\<lambda>canonical.
       let encoded = stringify (JArr [JStr (''pgid.alert.evaluator.'' @ proofDomainString domain @ ''.v1''), canonical])
       in Inr (base64Url (digest (utf8 encoded))))"

subsection \<open>The order of the work\<close>

fun dimensionOrder :: "dimensionKind \<Rightarrow> int" where
  "dimensionOrder KGlobal = 0"
| "dimensionOrder (KHashed Subject_hmac) = 1"
| "dimensionOrder (KHashed Actor_hmac) = 2"
| "dimensionOrder (KHashed Client_hmac) = 3"
| "dimensionOrder KQueue = 4"

fun dimensionValue :: "alertDimension \<Rightarrow> string" where
  "dimensionValue Global = ''''"
| "dimensionValue (QueueDimension q) = queueNameString q"
| "dimensionValue (Hashed _ ref) = jsonInt (keyVersion ref) @ '':'' @ refValue ref"

text \<open>A string is a list of code units below 256, so its code points are its elements.\<close>

fun compareCodePoints :: "string \<Rightarrow> string \<Rightarrow> int" where
  "compareCodePoints [] [] = 0"
| "compareCodePoints [] (d # ds) = -1"
| "compareCodePoints (c # cs) [] = 1"
| "compareCodePoints (c # cs) (d # ds) =
     (let difference = int (of_char c) - int (of_char d)
      in if difference \<noteq> 0 then difference else compareCodePoints cs ds)"

definition compareObservations :: "alertRuleObservation \<Rightarrow> alertRuleObservation \<Rightarrow> int" where
  "compareObservations left right =
     (let rule = int (ruleIndex (obs_ruleId left)) - int (ruleIndex (obs_ruleId right))
      in if rule \<noteq> 0 then rule
         else let dimension = dimensionOrder (kindOf (obs_dimension left)) - dimensionOrder (kindOf (obs_dimension right))
              in if dimension \<noteq> 0 then dimension
                 else compareCodePoints (dimensionValue (obs_dimension left)) (dimensionValue (obs_dimension right)))"

text \<open>\<open>toSorted\<close> is stable: an element goes before the first later one it does not exceed.\<close>

fun insertSorted :: "('a \<Rightarrow> 'a \<Rightarrow> int) \<Rightarrow> 'a \<Rightarrow> 'a list \<Rightarrow> 'a list" where
  "insertSorted cmp x [] = [x]"
| "insertSorted cmp x (y # ys) = (if cmp x y \<le> 0 then x # y # ys else y # insertSorted cmp x ys)"

definition toSorted :: "('a \<Rightarrow> 'a \<Rightarrow> int) \<Rightarrow> 'a list \<Rightarrow> 'a list" where
  "toSorted cmp xs = foldr (insertSorted cmp) xs []"

subsection \<open>What a source may return\<close>

definition jsOfObservationIdentity :: "alertRuleObservation \<Rightarrow> js" where
  "jsOfObservationIdentity obs =
     JObj [(''dimension'', jsOfDimension (obs_dimension obs)), (''ruleId'', JStr (ruleIdString (obs_ruleId obs)))]"

definition semanticIdentity :: "alertRuleObservation \<Rightarrow> string result" where
  "semanticIdentity obs = and_then (canonicalJsonValue (jsOfObservationIdentity obs)) (\<lambda>v. Inr (stringify v))"

definition canonicalObservation :: "alertRuleObservation \<Rightarrow> string result" where
  "canonicalObservation obs = and_then (canonicalJsonValue (jsOfObservation obs)) (\<lambda>v. Inr (stringify v))"

definition AUDIT_ALERT_RULE_IDS :: "alertRuleId list" where
  "AUDIT_ALERT_RULE_IDS =
     [Registration_rate_limited, Registration_denied, Registration_challenge_unavailable,
      Registration_restricted_created, Restricted_sensitive_denied, Recovery_entry_abuse,
      Recovery_passkey_failure, Passkey_step_up_failure, Admin_sensitive_activity, Admin_directory_volume]"

fun sourceAllowsRule :: "alertEvaluatorSourceId \<Rightarrow> alertRuleId \<Rightarrow> bool" where
  "sourceAllowsRule D1_audit r = (r \<in> set AUDIT_ALERT_RULE_IDS)"
| "sourceAllowsRule D1_oauth_client_report r = (r = Oauth_client_report)"
| "sourceAllowsRule D1_security_fanout_gap r = (r = Security_fanout_gap)"
| "sourceAllowsRule D1_logout_delivery r = (r = Logout_delivery_health)"
| "sourceAllowsRule D1_alert_runtime r = (r = Alert_runtime_health)"
| "sourceAllowsRule (Queue_source _) r = (r = Queue_dlq_approximate)"

definition sourceAllowsObservation :: "alertEvaluatorSourceId \<Rightarrow> alertRuleObservation \<Rightarrow> bool" where
  "sourceAllowsObservation sourceId obs \<longleftrightarrow>
     sourceAllowsRule sourceId (obs_ruleId obs) \<and>
     (case sourceId of
        Queue_source queue \<Rightarrow> obs_dimension obs = QueueDimension queue
      | _ \<Rightarrow> True)"

definition invalidSourceResult :: "'a result" where
  "invalidSourceResult = Inl (TypeError ''invalid alert source result'')"

text \<open>The two maps of \<open>normalizeSourceResult\<close> keep the order of insertion.\<close>

fun normalizeObservations ::
  "alertEvaluatorSourceId \<Rightarrow> string \<Rightarrow> js list \<Rightarrow> (string \<times> string \<times> alertRuleObservation) list \<Rightarrow>
   (string \<times> string \<times> alertRuleObservation) list result" where
  "normalizeObservations sourceId asOf [] seen = Inr seen"
| "normalizeObservations sourceId asOf (candidate # candidates) seen =
     and_then (parseAlertObservation candidate) (\<lambda>observation.
       if obs_asOf observation \<noteq> asOf \<or> \<not> sourceAllowsObservation sourceId observation then invalidSourceResult
       else
     and_then (semanticIdentity observation) (\<lambda>identity.
     and_then (canonicalObservation observation) (\<lambda>canonical.
       case map_of seen identity of
         Some (existing, _) \<Rightarrow>
           (if existing \<noteq> canonical then invalidSourceResult
            else normalizeObservations sourceId asOf candidates seen)
       | None \<Rightarrow> normalizeObservations sourceId asOf candidates (seen @ [(identity, canonical, observation)]))))"

fun normalizeIncomplete ::
  "alertEvaluatorSourceId \<Rightarrow> sourceIncompleteIdentity list \<Rightarrow> sourceIncompleteIdentity list \<Rightarrow>
   sourceIncompleteIdentity list result" where
  "normalizeIncomplete sourceId [] seen = Inr seen"
| "normalizeIncomplete sourceId (candidate # candidates) seen =
     (if \<not> sourceAllowsRule sourceId (fst candidate) then invalidSourceResult
      else normalizeIncomplete sourceId candidates (if candidate \<in> set seen then seen else seen @ [candidate]))"

definition compareIncomplete :: "sourceIncompleteIdentity \<Rightarrow> sourceIncompleteIdentity \<Rightarrow> int" where
  "compareIncomplete left right =
     (let rule = compareCodePoints (ruleIdString (fst left)) (ruleIdString (fst right))
      in if rule \<noteq> 0 then rule
         else compareCodePoints (dimensionKindString (snd left)) (dimensionKindString (snd right)))"

definition normalizeSourceResult ::
  "alertEvaluatorSourceId \<Rightarrow> sourceReaderResult \<Rightarrow> string \<Rightarrow>
   (sourceIncompleteIdentity list \<times> alertRuleObservation list) result" where
  "normalizeSourceResult sourceId reading asOf =
     and_then (normalizeObservations sourceId asOf (read_observations reading) []) (\<lambda>observations.
     and_then (normalizeIncomplete sourceId (read_incomplete reading) []) (\<lambda>incomplete.
       Inr (toSorted compareIncomplete incomplete,
            toSorted compareObservations (map (snd \<circ> snd) observations))))"

subsection \<open>Collected sources\<close>

definition SOURCE_ERRORS :: "string list" where
  "SOURCE_ERRORS =
     [''AlertAuditSourceRepositoryError'', ''AlertFanoutSourceRepositoryError'', ''AlertLogoutSourceRepositoryError'',
      ''AlertOAuthSourceRepositoryError'', ''AlertQueueSourceRepositoryError'', ''AlertRuntimeHealthSourceRepositoryError'']"

fun sourceErrorStatus :: "js_error \<Rightarrow> alertEvaluatorSourceStatus" where
  "sourceErrorStatus (CodedError name code) =
     (if name \<notin> set SOURCE_ERRORS then Source_unavailable
      else if code = ''invalid_input'' \<or> code = ''source_invalid'' then Source_invalid else Source_unavailable)"
| "sourceErrorStatus _ = Source_unavailable"

definition failedSource ::
  "digestFunction \<Rightarrow> alertEvaluatorSourceId \<Rightarrow> alertEvaluatorSourceStatus \<Rightarrow> collectedSource result" where
  "failedSource digest sourceId outcome =
     and_then (canonicalAlertEvaluatorProofDigest digest Source_domain
         (JObj [(''sourceId'', JStr (sourceIdString sourceId)), (''status'', JStr (sourceStatusString outcome))])) (\<lambda>proof.
       Inr \<lparr>cs_forcePartial = False, cs_incomplete = [], cs_observations = [], cs_planningObservations = [],
         cs_proof = \<lparr>sp_incompleteCount = 0, sp_observationCount = 0, sp_proofSha256 = proof,
           sp_sourceId = sourceId, sp_status = outcome\<rparr>,
         cs_sourceId = sourceId\<rparr>)"

definition jsOfIncomplete :: "sourceIncompleteIdentity \<Rightarrow> js" where
  "jsOfIncomplete i = JObj [(''dimensionKind'', JStr (dimensionKindString (snd i))), (''ruleId'', JStr (ruleIdString (fst i)))]"

definition completedSource ::
  "digestFunction \<Rightarrow> alertEvaluatorSourceId \<Rightarrow> sourceReaderResult \<Rightarrow> string \<Rightarrow> collectedSource result" where
  "completedSource digest sourceId reading asOf =
     (case and_then (normalizeSourceResult sourceId reading asOf) (\<lambda>(incomplete, observations).
        let outcome = (if incomplete = [] then Source_complete else Source_partial) in
        and_then (canonicalAlertEvaluatorProofDigest digest Source_domain
            (JObj [(''incomplete'', JArr (map jsOfIncomplete incomplete)),
              (''observations'', JArr (map jsOfObservation observations)),
              (''sourceId'', JStr (sourceIdString sourceId)), (''status'', JStr (sourceStatusString outcome))])) (\<lambda>proof.
          Inr \<lparr>cs_forcePartial = False, cs_incomplete = incomplete, cs_observations = observations,
            cs_planningObservations = observations,
            cs_proof = \<lparr>sp_incompleteCount = int (length incomplete), sp_observationCount = int (length observations),
              sp_proofSha256 = proof, sp_sourceId = sourceId, sp_status = outcome\<rparr>,
            cs_sourceId = sourceId\<rparr>)) of
        Inl _ \<Rightarrow> failedSource digest sourceId Source_invalid
      | Inr source \<Rightarrow> Inr source)"

definition unusable :: "collectedSource \<Rightarrow> bool" where
  "unusable source \<longleftrightarrow> sp_status (cs_proof source) = Source_invalid \<or> sp_status (cs_proof source) = Source_unavailable"

subsection \<open>Observations two sources return\<close>

type_synonym seenObservations = "(string \<times> string list \<times> alertEvaluatorSourceId list) list"

fun seenUpdate ::
  "string \<Rightarrow> string \<Rightarrow> alertEvaluatorSourceId \<Rightarrow> seenObservations \<Rightarrow> seenObservations" where
  "seenUpdate ident content sourceId [] = []"
| "seenUpdate ident content sourceId ((key, canonicals, sources) # seen) =
     (if key = ident then (key, List.insert content canonicals, List.insert sourceId sources) # seen
      else (key, canonicals, sources) # seenUpdate ident content sourceId seen)"

fun seenObservationsOf ::
  "alertEvaluatorSourceId \<Rightarrow> alertRuleObservation list \<Rightarrow> seenObservations \<Rightarrow>
   (alertRuleObservation list \<times> seenObservations) result" where
  "seenObservationsOf sourceId [] seen = Inr ([], seen)"
| "seenObservationsOf sourceId (observation # observations) seen =
     and_then (semanticIdentity observation) (\<lambda>identity.
     and_then (canonicalObservation observation) (\<lambda>canonical.
       case map_of seen identity of
         None \<Rightarrow>
           and_then (seenObservationsOf sourceId observations (seen @ [(identity, [canonical], [sourceId])])) (\<lambda>(planning, seen').
             Inr (observation # planning, seen'))
       | Some _ \<Rightarrow> seenObservationsOf sourceId observations (seenUpdate identity canonical sourceId seen)))"

fun seenInSources ::
  "collectedSource list \<Rightarrow> seenObservations \<Rightarrow> (collectedSource list \<times> seenObservations) result" where
  "seenInSources [] seen = Inr ([], seen)"
| "seenInSources (source # sources) seen =
     (if unusable source
      then and_then (seenInSources sources seen) (\<lambda>(rest, seen'). Inr (source # rest, seen'))
      else and_then (seenObservationsOf (cs_sourceId source) (cs_observations source) seen) (\<lambda>(planning, seen').
        and_then (seenInSources sources seen') (\<lambda>(rest, seen'').
          Inr (source\<lparr>cs_planningObservations := planning\<rparr> # rest, seen''))))"

definition conflictingSources :: "seenObservations \<Rightarrow> alertEvaluatorSourceId list" where
  "conflictingSources seen =
     concat (map (\<lambda>(_, canonicals, sources). if length canonicals < 2 then [] else sources) seen)"

definition invalidateConflictingSources ::
  "digestFunction \<Rightarrow> collectedSource list \<Rightarrow> collectedSource list result" where
  "invalidateConflictingSources digest sources =
     and_then (seenInSources sources []) (\<lambda>(marked, seen).
       map_result (\<lambda>source.
         if cs_sourceId source \<in> set (conflictingSources seen)
         then failedSource digest (cs_sourceId source) Source_invalid else Inr source) marked)"

subsection \<open>The work cap\<close>

definition workOf :: "collectedSource list \<Rightarrow> alertRuleObservation list" where
  "workOf sources =
     toSorted compareObservations
       (concat (map (\<lambda>source. if unusable source then [] else cs_planningObservations source) sources))"

text \<open>
  \<open>retained\<close> is a set of references; the planned observations are pairwise different values, so
  membership by value is the same. First one observation of each source, then the work in order.
\<close>

definition firstOfEach :: "collectedSource list \<Rightarrow> alertRuleObservation list" where
  "firstOfEach sources =
     foldl (\<lambda>retained source. case cs_planningObservations source of
       [] \<Rightarrow> retained | first # _ \<Rightarrow> List.insert first retained) [] sources"

fun fillRetained :: "alertRuleObservation list \<Rightarrow> alertRuleObservation list \<Rightarrow> alertRuleObservation list" where
  "fillRetained retained [] = retained"
| "fillRetained retained (observation # work) =
     (if int (length retained) \<ge> ALERT_EVALUATOR_MAX_WORK_ITEMS then retained
      else fillRetained (List.insert observation retained) work)"

definition capSource ::
  "digestFunction \<Rightarrow> alertRuleObservation list \<Rightarrow> collectedSource \<Rightarrow> collectedSource result" where
  "capSource digest retained source =
     (if unusable source then Inr source
      else
        let planned = filter (\<lambda>observation. observation \<in> set retained) (cs_planningObservations source);
            dropped = int (length (cs_planningObservations source)) - int (length planned);
            incompleteCount = int (length (cs_incomplete source)) + dropped
        in if dropped = 0 then Inr (source\<lparr>cs_planningObservations := planned\<rparr>)
           else if incompleteCount > 10000
           then Inl (TypeError ''alert evaluator incomplete count exceeds proof bound'')
           else and_then (canonicalAlertEvaluatorProofDigest digest Source_domain
               (JObj [(''droppedByWorkCap'', JInt dropped),
                 (''incomplete'', JArr (map jsOfIncomplete (cs_incomplete source))),
                 (''observations'', JArr (map jsOfObservation (cs_observations source))),
                 (''sourceId'', JStr (sourceIdString (cs_sourceId source))), (''status'', JStr ''partial'')])) (\<lambda>proof.
             Inr (source\<lparr>cs_planningObservations := planned, cs_forcePartial := True,
               cs_proof := \<lparr>sp_incompleteCount = incompleteCount, sp_observationCount = int (length (cs_observations source)),
                 sp_proofSha256 = proof, sp_sourceId = cs_sourceId source, sp_status = Source_partial\<rparr>\<rparr>)))"

definition applyWorkCap :: "digestFunction \<Rightarrow> collectedSource list \<Rightarrow> collectedSource list result" where
  "applyWorkCap digest sources =
     (if ALERT_EVALUATOR_MAX_WORK_ITEMS < int (length ALERT_EVALUATOR_SOURCE_IDS)
      then Inl (TypeError ''alert evaluator work cap cannot represent all sources'')
      else map_result (capSource digest (fillRetained (firstOfEach sources) (workOf sources))) sources)"

subsection \<open>Partial evidence and dispositions\<close>

definition observationIsPartial :: "collectedSource \<Rightarrow> alertRuleObservation \<Rightarrow> bool" where
  "observationIsPartial source observation \<longleftrightarrow>
     cs_forcePartial source \<or>
     list_ex (\<lambda>item. fst item = obs_ruleId observation \<and> snd item = kindOf (obs_dimension observation)) (cs_incomplete source)"

fun severityRank :: "alertSeverity \<Rightarrow> int" where
  "severityRank (Some Critical) = 2"
| "severityRank (Some Warning) = 1"
| "severityRank None = 0"

definition partialDecisionAllowed :: "alertRuleEvaluation \<Rightarrow> alertLifecycleState \<Rightarrow> bool" where
  "partialDecisionAllowed evaluation previous \<longleftrightarrow>
     (if eval_evidence evaluation \<noteq> Known \<or> eval_severity evaluation = None then False
      else severityRank (eval_severity evaluation) \<ge>
        max (severityRank (status previous)) (severityRank (breachSeverity previous)))"

definition dispositionOf ::
  "bool \<Rightarrow> alertRuleEvaluation \<Rightarrow> alertLifecycleState \<Rightarrow> alertLifecycleResult \<Rightarrow> alertEvaluatorDecisionDisposition" where
  "dispositionOf sourcePartial evaluation previous decision =
     (if sourcePartial \<and> \<not> partialDecisionAllowed evaluation previous then Suppressed_partial
      else if identity (snd decision) = None then No_state_change else Applied_decision)"

definition decisionProof ::
  "digestFunction \<Rightarrow> alertEnvironment \<Rightarrow> alertRuleObservation \<Rightarrow> alertRuleEvaluation \<Rightarrow> alertLifecycleResult \<Rightarrow>
   alertEvaluatorDecisionDisposition \<Rightarrow> int \<Rightarrow> alertEvaluatorSourceId \<Rightarrow> alertEvaluatorDecisionProofValue result" where
  "decisionProof digest environment observation evaluation decision disposition ordinal sourceId =
     and_then (canonicalAlertEvaluatorProofDigest digest Decision_domain (jsOfDecision decision)) (\<lambda>decisionSha.
     and_then (canonicalAlertEvaluatorProofDigest digest Evaluation_domain (jsOfEvaluation evaluation)) (\<lambda>evaluationSha.
     and_then (canonicalAlertEvaluatorProofDigest digest Identity_domain
         (JObj [(''dimension'', jsOfDimension (obs_dimension observation)), (''environment'', JStr (environmentString environment)),
           (''ruleId'', JStr (ruleIdString (obs_ruleId observation)))])) (\<lambda>identitySha.
       Inr \<lparr>dp_decisionSha256 = decisionSha, dp_disposition = disposition, dp_evaluationSha256 = evaluationSha,
            dp_identitySha256 = identitySha, dp_ordinal = ordinal, dp_sourceId = sourceId\<rparr>)))"

text \<open>How a run with sources that are not complete ends.\<close>

datatype alertEvaluatorRunFailureStatus = Degraded | Failing | Run_unavailable
datatype alertEvaluatorRunErrorCode = Run_evaluator_failed | Run_metrics_unavailable | Run_source_incomplete | Run_unknown

definition failureDisposition ::
  "collectedSource list \<Rightarrow>
   (alertEvaluatorOrchestrationErrorCode \<times> alertEvaluatorRunErrorCode \<times> alertEvaluatorRunFailureStatus) option" where
  "failureDisposition sources =
     (if list_ex (\<lambda>source. sp_status (cs_proof source) = Source_invalid) sources
      then Some (Evaluator_failed, Run_evaluator_failed, Failing)
      else if list_ex (\<lambda>source. sp_status (cs_proof source) = Source_unavailable) sources
      then Some (Metrics_unavailable, Run_metrics_unavailable, Run_unavailable)
      else if list_ex (\<lambda>source. sp_status (cs_proof source) = Source_partial) sources
      then Some (Source_incomplete, Run_source_incomplete, Degraded)
      else None)"

end
