(* ===== verification/Alert_Evaluator_Sources.thy ===== *)
theory Alert_Evaluator_Sources
  imports Alert_Evaluator_Work
begin

section \<open>The sources of a run, normalized, compared and capped\<close>

text \<open>
  What \<open>normalizeSourceResult\<close>, \<open>invalidateConflictingSources\<close> and \<open>applyWorkCap\<close> of
  \<^verbatim>\<open>alert-evaluator-orchestration.ts\<close> leave of what the sources returned, whatever the order they
  returned it in.
\<close>

subsection \<open>Sorting with a comparison\<close>

lemma toSorted_sort_key:
  assumes "\<And>x y. cmp x y \<le> 0 \<longleftrightarrow> f x \<le> f y"
  shows "toSorted cmp xs = sort_key f xs"
proof -
  have "insertSorted cmp x ys = insort_key f x ys" for x ys
    by (induction ys) (simp_all add: assms)
  then have "insertSorted cmp = insort_key f"
    by (intro ext)
  then show ?thesis
    by (simp add: toSorted_def sort_key_def)
qed

lemma compareCodePoints_less:
  "compareCodePoints s t < 0 \<longleftrightarrow> s < t" "compareCodePoints s t = 0 \<longleftrightarrow> s = t"
  by (induction s t rule: compareCodePoints.induct) (auto simp: less_char_def Let_def)

lemma compareCodePoints_le: "compareCodePoints s t \<le> 0 \<longleftrightarrow> s \<le> t"
  using compareCodePoints_less[of s t] by (auto simp: order_le_less)

definition workKey :: "alertRuleObservation \<Rightarrow> nat \<times> int \<times> string" where
  "workKey obs = (ruleIndex (obs_ruleId obs), dimensionOrder (kindOf (obs_dimension obs)), dimensionValue (obs_dimension obs))"

lemma compareObservations_le: "compareObservations x y \<le> 0 \<longleftrightarrow> workKey x \<le> workKey y"
  by (auto simp: compareObservations_def workKey_def Let_def compareCodePoints_le less_eq_prod_def)

lemma sorted_observations: "toSorted compareObservations xs = sort_key workKey xs"
  by (rule toSorted_sort_key) (rule compareObservations_le)

definition incompleteKey :: "sourceIncompleteIdentity \<Rightarrow> string \<times> string" where
  "incompleteKey i = (ruleIdString (fst i), dimensionKindString (snd i))"

lemma sorted_incomplete: "toSorted compareIncomplete xs = sort_key incompleteKey xs"
proof (rule toSorted_sort_key)
  show "compareIncomplete x y \<le> 0 \<longleftrightarrow> incompleteKey x \<le> incompleteKey y" for x y
    using compareCodePoints_less[of "ruleIdString (fst x)" "ruleIdString (fst y)"]
    by (auto simp: compareIncomplete_def incompleteKey_def Let_def compareCodePoints_le less_eq_prod_def)
qed

text \<open>The key of the order names the rule and the dimension.\<close>

lemma dimensionOrder_inj: "dimensionOrder k = dimensionOrder l \<longleftrightarrow> k = l"
  by (cases k rule: dimensionOrder.cases; cases l rule: dimensionOrder.cases) simp_all

lemma reference_text_inj:
  assumes "jsonInt (keyVersion r) @ '':'' @ refValue r = jsonInt (keyVersion r') @ '':'' @ refValue r'"
  shows "(r :: hashedAlertReference) = r'"
proof -
  have "endsNumber ('':'' @ s)" for s
    by (simp add: endsNumber_def isDigit_def)
  from jsonInt_prefix[OF assms this this] show ?thesis
    by (cases r; cases r') simp
qed

lemma dimensionValue_inj: "kindOf d = kindOf d' \<Longrightarrow> dimensionValue d = dimensionValue d' \<longleftrightarrow> d = d'"
  using reference_text_inj by (cases d; cases d') auto

lemma workKey_inj:
  "workKey x = workKey y \<longleftrightarrow> obs_ruleId x = obs_ruleId y \<and> obs_dimension x = obs_dimension y"
  using dimensionValue_inj[of "obs_dimension x" "obs_dimension y"]
  by (auto simp: workKey_def ruleIndex_inj dimensionOrder_inj)

subsection \<open>Canonical values\<close>

text \<open>Two values with the same keys in the same order everywhere.\<close>

inductive sameShape :: "js \<Rightarrow> js \<Rightarrow> bool" where
  atom: "kindNumber a \<notin> {5, 6} \<Longrightarrow> kindNumber b \<notin> {5, 6} \<Longrightarrow> sameShape a b"
| arr: "list_all2 sameShape vs ws \<Longrightarrow> sameShape (JArr vs) (JArr ws)"
| obj: "list_all2 (\<lambda>m n. fst m = fst n \<and> sameShape (snd m) (snd n)) r q \<Longrightarrow> sameShape (JObj r) (JObj q)"
  monos list_all2_mono

lemma canonicalJsonValues_map: "canonicalJsonValues vs = map_result canonicalJsonValue vs"
  by (induction vs) simp_all

lemma canonicalJsonMembers_map:
  "canonicalJsonMembers r = map_result (\<lambda>m. and_then (canonicalJsonValue (snd m)) (\<lambda>w. Inr (fst m, w))) r"
  by (induction r) (auto simp: and_then_assoc)

lemma sort_key_keys_inj:
  assumes "map f xs = map f ys" and "sort_key f xs = sort_key f ys"
  shows "xs = ys"
proof -
  have "filter (\<lambda>x. f x = k) xs = filter (\<lambda>x. f x = k) ys" for k
    using assms(2) by (metis sort_key_stable)
  with assms(1) show ?thesis
  proof (induction xs arbitrary: ys)
    case (Cons x xs)
    then obtain y ys' where y: "ys = y # ys'" "f x = f y" "map f xs = map f ys'"
      by (cases ys) auto
    have "x = y"
      using Cons.prems(2)[of "f x"] y by simp
    moreover have "filter (\<lambda>z. f z = k) xs = filter (\<lambda>z. f z = k) ys'" for k
      using Cons.prems(2)[of k] y \<open>x = y\<close> by (auto split: if_splits)
    ultimately show ?case
      using Cons.IH[of ys'] y by simp
  qed simp
qed

lemma canonical_inj:
  "sameShape v w \<Longrightarrow> canonicalJsonValue v = Inr x \<Longrightarrow> canonicalJsonValue w = Inr x \<Longrightarrow> v = w"
proof (induction arbitrary: x rule: sameShape.induct)
  case (atom a b)
  have "canonicalJsonValue c = Inr x \<Longrightarrow> c = x" if "kindNumber c \<notin> {5, 6}" for c
    using that by (cases c rule: stringify.cases) (auto simp: invalidProofValue_def)
  with atom show ?case by metis
next
  case (arr vs ws)
  then obtain us where us: "map_result canonicalJsonValue vs = Inr us" "map_result canonicalJsonValue ws = Inr us"
    by (auto simp: canonicalJsonValues_map and_then_eq_Inr)
  have "vs = ws"
    using arr.IH us unfolding map_result_Inr_iff
    by (auto simp: list_all2_conv_all_nth list_eq_iff_nth_eq)
  then show ?case by simp
next
  case (obj r q)
  then obtain r1 q1 where c: "canonicalJsonMembers r = Inr r1" "canonicalJsonMembers q = Inr q1"
      "sort_key fst r1 = sort_key fst q1"
    by (auto simp: and_then_eq_Inr)
  have keys: "map fst s = map fst s1" if "canonicalJsonMembers s = Inr s1" for s s1
    using that by (induction s arbitrary: s1) (auto simp: and_then_eq_Inr)
  have "map fst r = map fst q"
    using obj.IH by (auto simp: list_all2_conv_all_nth list_eq_iff_nth_eq)
  then have "r1 = q1"
    using sort_key_keys_inj[OF _ c(3)] keys[OF c(1)] keys[OF c(2)] by simp
  then have "r = q"
    using obj.IH c(1,2) unfolding canonicalJsonMembers_map map_result_Inr_iff
    by (auto simp: list_all2_conv_all_nth list_eq_iff_nth_eq and_then_eq_Inr prod_eq_iff)
  then show ?case by simp
qed

lemma canonical_ok: "jsonValue v \<Longrightarrow> \<exists>x. canonicalJsonValue v = Inr x \<and> jsonValue x"
proof (induction v rule: stringify.induct)
  case (5 vs)
  then have "list_all (\<lambda>v. \<exists>x. canonicalJsonValue v = Inr x \<and> jsonValue x) vs"
    by (simp add: list_all_iff)
  then have "\<exists>ws. map_result canonicalJsonValue vs = Inr ws \<and> list_all jsonValue ws"
    by (induction vs) auto
  then show ?case
    by (auto simp: canonicalJsonValues_map)
next
  case (6 r)
  then have "list_all (\<lambda>m. \<exists>x. canonicalJsonValue (snd m) = Inr x \<and> jsonValue x) r"
    by (fastforce simp: list_all_iff)
  then have "\<exists>q. canonicalJsonMembers r = Inr q \<and> list_all (\<lambda>m. jsonValue (snd m)) q"
    by (induction r) auto
  then show ?case
    by (auto simp: list_all_iff case_prod_unfold)
qed auto

lemma canonical_text_inj:
  assumes "sameShape v w" and "jsonValue v" and "jsonValue w"
    and "and_then (canonicalJsonValue v) (\<lambda>x. Inr (stringify x)) = and_then (canonicalJsonValue w) (\<lambda>x. Inr (stringify x))"
  shows "v = w"
proof -
  obtain x y where x: "canonicalJsonValue v = Inr x" "jsonValue x" and y: "canonicalJsonValue w = Inr y" "jsonValue y"
    using canonical_ok assms(2,3) by blast
  then have "x = y"
    using assms(4) stringify_inj by simp
  with canonical_inj[OF assms(1)] x y show ?thesis by simp
qed

inductive_simps sameShape_obj: "sameShape (JObj r) (JObj q)"

lemma sameShape_atoms [simp]:
  "sameShape (JStr s) (JStr t)" "sameShape (JInt m) (JInt n)" "sameShape (jsOfIntOption i) (jsOfIntOption j)"
  "sameShape (jsOfStringOption u) (jsOfStringOption v)"
  by (cases i; cases j; cases u; cases v; simp add: sameShape.atom)+

lemma sameShape_dimension [simp]: "sameShape (jsOfDimension d) (jsOfDimension d)"
  by (cases d) (simp_all add: sameShape_obj jsOfReference_def)

lemmas metric_objects = jsOfCount_def jsOfRatio_def jsOfRestricted_def jsOfRecovery_def jsOfOAuth_def
  jsOfAdmin_def jsOfLogout_def jsOfLogoutCurrent_def jsOfFanout_def jsOfRuntime_def jsOfQueueSnapshot_def
  jsOfWindows_def

lemma jsonValue_options [simp]: "jsonValue (jsOfIntOption i)" "jsonValue (jsOfStringOption u)"
  by (cases i; cases u; simp)+

lemma jsonValue_dimension [simp]: "jsonValue (jsOfDimension d)"
  by (cases d) (simp_all add: jsOfReference_def)

lemma jsonValue_observation [simp]: "jsonValue (jsOfObservation obs)"
proof (cases "obs_body obs")
  case (WindowsBody w)
  then show ?thesis
    by (cases w) (simp_all add: jsOfObservation_def observationFields_def metric_objects)
qed (simp_all add: jsOfObservation_def observationFields_def metric_objects)

lemma sameShape_windows:
  "familyOf r w \<Longrightarrow> familyOf r w' \<Longrightarrow> sameShape (jsOfRuleWindows w) (jsOfRuleWindows w')"
  by (cases w; cases w') (auto simp: metric_objects sameShape_obj)

lemma sameShape_observation:
  assumes "validObservation a" and "validObservation b"
    and "obs_ruleId a = obs_ruleId b" and "obs_dimension a = obs_dimension b"
  shows "sameShape (jsOfObservation a) (jsOfObservation b)"
proof (cases "obs_body a")
  case (WindowsBody w)
  then obtain w' where w': "obs_body b = WindowsBody w'" "validRuleWindows (obs_ruleId a) w" "validRuleWindows (obs_ruleId a) w'"
    using assms by (cases "obs_body b") (auto simp: validObservation_def validRuleWindows_def dest!: familyOf_windowed simp: windowedRule_def)
  then show ?thesis
    using WindowsBody assms(3,4) sameShape_windows[of "obs_ruleId a" w w']
    by (simp add: jsOfObservation_def observationFields_def sameShape_obj validRuleWindows_def)
next
  case (LogoutBody c w)
  then show ?thesis
    using assms by (cases "obs_body b")
      (auto simp: validObservation_def jsOfObservation_def observationFields_def metric_objects sameShape_obj
        validRuleWindows_def windowedRule_def dest!: familyOf_windowed)
next
  case (FanoutBody s)
  then show ?thesis
    using assms by (cases "obs_body b")
      (auto simp: validObservation_def jsOfObservation_def observationFields_def metric_objects sameShape_obj
        validRuleWindows_def windowedRule_def dest!: familyOf_windowed)
next
  case (RuntimeBody s)
  then show ?thesis
    using assms by (cases "obs_body b")
      (auto simp: validObservation_def jsOfObservation_def observationFields_def metric_objects sameShape_obj
        validRuleWindows_def windowedRule_def dest!: familyOf_windowed)
next
  case (QueueBody s)
  then show ?thesis
    using assms by (cases "obs_body b")
      (auto simp: validObservation_def jsOfObservation_def observationFields_def metric_objects sameShape_obj
        validRuleWindows_def windowedRule_def dest!: familyOf_windowed)
qed

lemma jsOfObservation_inj:
  "validObservation a \<Longrightarrow> validObservation b \<Longrightarrow> jsOfObservation a = jsOfObservation b \<Longrightarrow> a = b"
  using observation.enc_inj by blast

text \<open>The two texts \<open>normalizeSourceResult\<close> compares, and what they say.\<close>

definition identityText :: "alertRuleObservation \<Rightarrow> string" where
  "identityText obs = (case semanticIdentity obs of Inr s \<Rightarrow> s | Inl _ \<Rightarrow> [])"

definition contentText :: "alertRuleObservation \<Rightarrow> string" where
  "contentText obs = (case canonicalObservation obs of Inr s \<Rightarrow> s | Inl _ \<Rightarrow> [])"

lemma semanticIdentity_text: "semanticIdentity obs = Inr (identityText obs)"
proof -
  have "jsonValue (jsOfObservationIdentity obs)"
    by (simp add: jsOfObservationIdentity_def)
  then show ?thesis
    using canonical_ok[of "jsOfObservationIdentity obs"] by (auto simp: semanticIdentity_def identityText_def)
qed

lemma canonicalObservation_text: "canonicalObservation obs = Inr (contentText obs)"
  using canonical_ok[OF jsonValue_observation, of obs] by (auto simp: canonicalObservation_def contentText_def)

lemma canonical_dimension: "canonicalJsonValue (jsOfDimension d) = Inr (jsOfDimension d)"
  by (cases d) (simp_all add: jsOfReference_def less_char_def)

lemma canonical_identity: "canonicalJsonValue (jsOfObservationIdentity obs) = Inr (jsOfObservationIdentity obs)"
  by (simp add: jsOfObservationIdentity_def canonical_dimension less_char_def)

lemma jsOfDimension_inj: "jsOfDimension d = jsOfDimension d' \<longleftrightarrow> d = d'"
proof -
  have "hashedKindString k = hashedKindString k' \<longleftrightarrow> k = k'" for k k'
    by (cases k; cases k') simp_all
  then show ?thesis
    by (cases d; cases d') (auto simp: jsOfReference_def)
qed

lemma identityText_eq: "identityText a = identityText b \<longleftrightarrow> workKey a = workKey b"
proof -
  have "identityText obs = stringify (jsOfObservationIdentity obs)" for obs
    by (simp add: identityText_def semanticIdentity_def canonical_identity)
  moreover have "jsonValue (jsOfObservationIdentity obs)" for obs
    by (simp add: jsOfObservationIdentity_def)
  ultimately have "identityText a = identityText b \<longleftrightarrow> jsOfObservationIdentity a = jsOfObservationIdentity b"
    using stringify_inj by metis
  then show ?thesis
    by (auto simp: jsOfObservationIdentity_def jsOfDimension_inj workKey_inj)
qed

lemma contentText_eq:
  assumes "validObservation a" and "validObservation b" and "workKey a = workKey b"
  shows "contentText a = contentText b \<longleftrightarrow> a = b"
proof
  assume "contentText a = contentText b"
  then have "canonicalObservation a = canonicalObservation b"
    by (simp add: canonicalObservation_text)
  then have "jsOfObservation a = jsOfObservation b"
    using assms sameShape_observation[of a b] unfolding canonicalObservation_def
    by (intro canonical_text_inj) (auto simp: workKey_inj)
  then show "a = b"
    using jsOfObservation_inj assms(1,2) by blast
qed simp

subsection \<open>The observations of one source\<close>

text \<open>
  A reading is accepted if all observations parse, belong to the source and to the instant of the
  run, and no two of them contradict each other.
\<close>

definition acceptedObservation :: "alertEvaluatorSourceId \<Rightarrow> string \<Rightarrow> js \<Rightarrow> alertRuleObservation \<Rightarrow> bool" where
  "acceptedObservation sourceId asOf candidate obs \<longleftrightarrow>
     parseAlertObservation candidate = Inr obs \<and> obs_asOf obs = asOf \<and> sourceAllowsObservation sourceId obs"

definition consistentObservations :: "alertRuleObservation list \<Rightarrow> bool" where
  "consistentObservations obs \<longleftrightarrow> (\<forall>a \<in> set obs. \<forall>b \<in> set obs. workKey a = workKey b \<longrightarrow> a = b)"

definition indexed :: "alertRuleObservation list \<Rightarrow> (string \<times> string \<times> alertRuleObservation) list" where
  "indexed obs = map (\<lambda>a. (identityText a, contentText a, a)) obs"

lemma indexed_snoc: "indexed seen @ [(identityText a, contentText a, a)] = indexed (seen @ [a])"
  by (simp add: indexed_def)

lemma map_of_indexed:
  "map_of (indexed obs) (identityText a) =
     map_option (\<lambda>b. (contentText b, b)) (find (\<lambda>b. workKey b = workKey a) obs)"
  by (induction obs) (auto simp: indexed_def identityText_eq)

lemma ex_Cons: "(\<exists>obs. (\<exists>zs. obs = a # zs \<and> P zs) \<and> Q obs) \<longleftrightarrow> (\<exists>zs. P zs \<and> Q (a # zs))"
  by blast

lemma normalizeObservations_eq:
  assumes "list_all validObservation seen" and "distinct (map workKey seen)"
  shows "normalizeObservations sourceId asOf candidates (indexed seen) = Inr out \<longleftrightarrow>
    (\<exists>obs. list_all2 (acceptedObservation sourceId asOf) candidates obs \<and> consistentObservations (seen @ obs) \<and>
       out = indexed (rev (remdups (rev (seen @ obs)))))"
  using assms
proof (induction candidates arbitrary: seen)
  case Nil
  have consistent: "consistentObservations seen"
    using Nil(2) by (auto simp: consistentObservations_def distinct_map inj_on_def)
  have same: "rev (remdups (rev seen)) = seen"
    using Nil(2) by (metis distinct_map distinct_remdups_id distinct_rev rev_rev_ident)
  show ?case
    by (auto simp: same consistent)
next
  case (Cons candidate candidates)
  show ?case
  proof (cases "\<exists>a. acceptedObservation sourceId asOf candidate a")
    case False
    then have "normalizeObservations sourceId asOf (candidate # candidates) (indexed seen) \<noteq> Inr out"
      by (cases "parseAlertObservation candidate") (auto simp: acceptedObservation_def invalidSourceResult_def)
    with False show ?thesis
      by (auto simp: list_all2_Cons1)
  next
    case True
    then obtain a where a: "acceptedObservation sourceId asOf candidate a" by blast
    then have valid: "validObservation a"
      by (auto simp: acceptedObservation_def dest: parseAlertObservation_valid)
    have only: "acceptedObservation sourceId asOf candidate b \<longleftrightarrow> b = a" for b
      using a by (auto simp: acceptedObservation_def)
    show ?thesis
    proof (cases "find (\<lambda>b. workKey b = workKey a) seen")
      case None
      have new: "distinct (map workKey (seen @ [a]))"
        using None Cons.prems(2) by (auto simp: find_None_iff)
      have step: "normalizeObservations sourceId asOf (candidate # candidates) (indexed seen) =
          normalizeObservations sourceId asOf candidates (indexed (seen @ [a]))"
        using a by (simp add: acceptedObservation_def semanticIdentity_text canonicalObservation_text map_of_indexed None indexed_snoc)
      show ?thesis
        unfolding step using Cons.IH[of "seen @ [a]"] Cons.prems(1) valid new
        by (simp add: list_all2_Cons1 only ex_Cons)
    next
      case (Some b)
      then have b: "b \<in> set seen" "workKey b = workKey a"
        by (auto simp: find_Some_iff)
      have vb: "validObservation b"
        using b(1) Cons.prems(1) by (auto simp: list_all_iff)
      show ?thesis
      proof (cases "b = a")
        case True
        have step: "normalizeObservations sourceId asOf (candidate # candidates) (indexed seen) =
            normalizeObservations sourceId asOf candidates (indexed seen)"
          using a Some True by (simp add: acceptedObservation_def semanticIdentity_text canonicalObservation_text map_of_indexed)
        have "remdups (rev (seen @ a # obs)) = remdups (rev (seen @ obs))" for obs
          using b(1) True by (induction obs rule: rev_induct) auto
        moreover have "consistentObservations (seen @ a # obs) = consistentObservations (seen @ obs)" for obs
          using b(1) True by (auto simp: consistentObservations_def)
        ultimately show ?thesis
          unfolding step using Cons.IH[OF Cons.prems] by (simp add: list_all2_Cons1 only ex_Cons)
      next
        case False
        then have "contentText b \<noteq> contentText a"
          using contentText_eq[OF vb valid b(2)] by simp
        then have "normalizeObservations sourceId asOf (candidate # candidates) (indexed seen) = invalidSourceResult"
          using a Some by (simp add: acceptedObservation_def semanticIdentity_text canonicalObservation_text map_of_indexed)
        moreover have "\<not> consistentObservations (seen @ a # obs)" for obs
          using b False by (auto simp: consistentObservations_def)
        ultimately show ?thesis
          by (auto simp: list_all2_Cons1 only invalidSourceResult_def)
      qed
    qed
  qed
qed

lemma dimensionKindString_inj: "dimensionKindString k = dimensionKindString l \<longleftrightarrow> k = l"
  by (cases k rule: dimensionOrder.cases; cases l rule: dimensionOrder.cases) simp_all

lemma incompleteKey_inj: "incompleteKey i = incompleteKey j \<longleftrightarrow> i = j"
  by (auto simp: incompleteKey_def dimensionKindString_inj prod_eq_iff)

lemma normalizeIncomplete_eq:
  "distinct seen \<Longrightarrow> normalizeIncomplete sourceId candidates seen = Inr out \<longleftrightarrow>
     list_all (\<lambda>i. sourceAllowsRule sourceId (fst i)) candidates \<and> out = rev (remdups (rev (seen @ candidates)))"
proof (induction candidates arbitrary: seen)
  case Nil
  then have "rev (remdups (rev seen)) = seen"
    by (metis distinct_remdups_id distinct_rev rev_rev_ident)
  then show ?case by auto
next
  case (Cons c cs)
  have "remdups (rev cs @ c # rev seen) = remdups (rev cs @ rev seen)" if "c \<in> set seen"
    using that by (induction cs rule: rev_induct) auto
  then show ?case
    using Cons by (auto simp: invalidSourceResult_def)
qed

text \<open>Lists in the strict order of a key are determined by their elements.\<close>

definition strictly :: "('a \<Rightarrow> 'k :: linorder) \<Rightarrow> 'a list \<Rightarrow> bool" where
  "strictly f xs \<longleftrightarrow> sorted_wrt (<) (map f xs)"

lemma strictly_iff: "strictly f xs \<longleftrightarrow> sorted (map f xs) \<and> distinct (map f xs)"
  unfolding strictly_def by (rule strict_sorted_iff)

lemma strictly_unique:
  assumes "strictly f xs" and "strictly f ys" and "set xs = set ys" and "inj_on f (set xs)"
  shows "xs = ys"
proof (rule map_sorted_distinct_set_unique)
  show "inj_on f (set xs \<union> set ys)"
    using assms(3,4) by simp
  show "sorted (map f xs)" "distinct (map f xs)" "sorted (map f ys)" "distinct (map f ys)"
    using assms(1,2) unfolding strictly_iff by simp_all
qed (rule assms(3))

lemma strictly_sort_key: "distinct xs \<Longrightarrow> inj_on f (set xs) \<Longrightarrow> strictly f (sort_key f xs)"
  unfolding strictly_iff by (simp add: distinct_map)

lemma sort_key_strictly:
  assumes "distinct xs" and "inj_on f (set xs)"
  shows "ys = sort_key f xs \<longleftrightarrow> strictly f ys \<and> set ys = set xs"
proof
  assume "ys = sort_key f xs"
  then show "strictly f ys \<and> set ys = set xs"
    using strictly_sort_key[OF assms] by simp
next
  assume ys: "strictly f ys \<and> set ys = set xs"
  show "ys = sort_key f xs"
    by (rule strictly_unique[OF _ strictly_sort_key[OF assms]]) (use ys assms(2) in simp_all)
qed

lemma consistent_inj: "consistentObservations obs \<longleftrightarrow> inj_on workKey (set obs)"
  by (auto simp: consistentObservations_def inj_on_def)

text \<open>
  C21. What a run takes from a source does not depend on the order it was returned in. The result is
  accepted exactly if every observation parses, is of this source and of the instant of the run,
  no two with the same rule and dimension differ, and every incomplete rule belongs to the
  source; then the observations and the incomplete entries are those returned, each once, in
  strict order.
\<close>

theorem normalize_source_result:
  "normalizeSourceResult sourceId reading asOf = Inr (incomplete, observations) \<longleftrightarrow>
     (\<exists>obs. list_all2 (acceptedObservation sourceId asOf) (read_observations reading) obs \<and>
        consistentObservations obs \<and>
        list_all (\<lambda>i. sourceAllowsRule sourceId (fst i)) (read_incomplete reading) \<and>
        set observations = set obs \<and> strictly workKey observations \<and>
        set incomplete = set (read_incomplete reading) \<and> strictly incompleteKey incomplete)"
proof -
  have normal: "normalizeObservations sourceId asOf candidates [] = Inr out \<longleftrightarrow>
      (\<exists>obs. list_all2 (acceptedObservation sourceId asOf) candidates obs \<and> consistentObservations obs \<and>
        out = indexed (rev (remdups (rev obs))))" for candidates out
    using normalizeObservations_eq[of "[]" sourceId asOf candidates out] by (simp add: indexed_def)
  have snds: "map (snd \<circ> snd) (indexed obs) = obs" for obs
    by (simp add: indexed_def comp_def)
  have obs: "observations = sort_key workKey (rev (remdups (rev obs))) \<longleftrightarrow>
      strictly workKey observations \<and> set observations = set obs" if "consistentObservations obs" for obs
    using that by (subst sort_key_strictly) (auto simp: consistent_inj)
  have inc: "incomplete = sort_key incompleteKey (rev (remdups (rev xs))) \<longleftrightarrow>
      strictly incompleteKey incomplete \<and> set incomplete = set xs" for xs
    by (subst sort_key_strictly) (auto simp: incompleteKey_inj inj_on_def)
  have "normalizeSourceResult sourceId reading asOf = Inr (incomplete, observations) \<longleftrightarrow>
      (\<exists>obs. list_all2 (acceptedObservation sourceId asOf) (read_observations reading) obs \<and> consistentObservations obs \<and>
        list_all (\<lambda>i. sourceAllowsRule sourceId (fst i)) (read_incomplete reading) \<and>
        incomplete = sort_key incompleteKey (rev (remdups (rev (read_incomplete reading)))) \<and>
        observations = sort_key workKey (rev (remdups (rev obs))))"
    unfolding normalizeSourceResult_def sorted_observations sorted_incomplete and_then_eq_Inr normal normalizeIncomplete_eq[OF distinct.simps(1)[THEN iffD2, OF TrueI]]
    by (auto simp: snds)
  then show ?thesis
    using obs inc by auto
qed

subsection \<open>Collected sources\<close>

definition usableSource :: "string \<Rightarrow> collectedSource \<Rightarrow> bool" where
  "usableSource asOf source \<longleftrightarrow>
     list_all (\<lambda>obs. validObservation obs \<and> obs_asOf obs = asOf \<and> sourceAllowsObservation (cs_sourceId source) obs)
       (cs_observations source) \<and>
     strictly workKey (cs_observations source) \<and> distinct (cs_incomplete source) \<and>
     cs_planningObservations source = cs_observations source \<and>
     sp_status (cs_proof source) = (if cs_incomplete source = [] then Source_complete else Source_partial) \<and>
     sp_incompleteCount (cs_proof source) = int (length (cs_incomplete source)) \<and>
     sp_observationCount (cs_proof source) = int (length (cs_observations source))"

definition emptySource :: "collectedSource \<Rightarrow> bool" where
  "emptySource source \<longleftrightarrow>
     cs_incomplete source = [] \<and> cs_observations source = [] \<and> cs_planningObservations source = [] \<and>
     sp_status (cs_proof source) \<in> {Source_invalid, Source_unavailable} \<and>
     sp_incompleteCount (cs_proof source) = 0 \<and> sp_observationCount (cs_proof source) = 0"

definition goodSource :: "string \<Rightarrow> collectedSource \<Rightarrow> bool" where
  "goodSource asOf source \<longleftrightarrow>
     \<not> cs_forcePartial source \<and> sp_sourceId (cs_proof source) = cs_sourceId source \<and>
     (usableSource asOf source \<or> emptySource source)"

definition goodSources :: "string \<Rightarrow> collectedSource list \<Rightarrow> bool" where
  "goodSources asOf sources \<longleftrightarrow>
     map cs_sourceId sources = ALERT_EVALUATOR_SOURCE_IDS \<and> list_all (goodSource asOf) sources"

lemma proofDigest_ok: "jsonValue v \<Longrightarrow> \<exists>s. canonicalAlertEvaluatorProofDigest digest domain v = Inr s"
  using canonical_ok[of v] by (auto simp: canonicalAlertEvaluatorProofDigest_def Let_def)

lemma failedSource_good:
  assumes "outcome \<in> {Source_invalid, Source_unavailable}"
  obtains source where "failedSource digest sourceId outcome = Inr source" and "goodSource asOf source"
    and "cs_sourceId source = sourceId" and "sp_status (cs_proof source) = outcome"
proof -
  obtain s where "canonicalAlertEvaluatorProofDigest digest Source_domain
      (JObj [(''sourceId'', JStr (sourceIdString sourceId)), (''status'', JStr (sourceStatusString outcome))]) = Inr s"
    using proofDigest_ok[of "JObj [(''sourceId'', JStr (sourceIdString sourceId)), (''status'', JStr (sourceStatusString outcome))]"]
    by auto
  with assms show ?thesis
    by (intro that) (auto simp: failedSource_def goodSource_def emptySource_def)
qed

lemma completedSource_good:
  obtains source where "completedSource digest sourceId reading asOf = Inr source" and "goodSource asOf source"
    and "cs_sourceId source = sourceId"
proof (cases "normalizeSourceResult sourceId reading asOf")
  case (Inl e)
  obtain source where "failedSource digest sourceId Source_invalid = Inr source" "goodSource asOf source"
      "cs_sourceId source = sourceId"
    by (rule failedSource_good[of Source_invalid digest sourceId asOf]) auto
  with Inl show ?thesis
    by (intro that) (simp_all add: completedSource_def)
next
  case (Inr r)
  obtain incomplete observations where r: "r = (incomplete, observations)"
    by (cases r)
  let ?v = "JObj [(''incomplete'', JArr (map jsOfIncomplete incomplete)),
      (''observations'', JArr (map jsOfObservation observations)), (''sourceId'', JStr (sourceIdString sourceId)),
      (''status'', JStr (sourceStatusString (if incomplete = [] then Source_complete else Source_partial)))]"
  have "jsonValue ?v"
    by (simp add: list_all_iff jsOfIncomplete_def)
  then obtain s where s: "canonicalAlertEvaluatorProofDigest digest Source_domain ?v = Inr s"
    using proofDigest_ok by blast
  obtain obs where obs: "list_all2 (acceptedObservation sourceId asOf) (read_observations reading) obs"
      "set observations = set obs" "strictly workKey observations" "strictly incompleteKey incomplete"
    using Inr unfolding r normalize_source_result by blast
  have "list_all (\<lambda>obs. validObservation obs \<and> obs_asOf obs = asOf \<and> sourceAllowsObservation sourceId obs) observations"
    using obs(1,2) by (auto simp: list_all_iff acceptedObservation_def in_set_conv_nth list_all2_conv_all_nth
        dest!: parseAlertObservation_valid)
  moreover have "distinct incomplete"
    using obs(4) by (simp add: strictly_iff distinct_map)
  ultimately show ?thesis
    using obs(3) s by (intro that)
      (auto simp: completedSource_def Inr r Let_def goodSource_def usableSource_def)
qed

subsection \<open>No two sources return the same observation\<close>

lemma allowed_once:
  assumes "sourceAllowsObservation i obs" and "sourceAllowsObservation j obs"
  shows "i = j"
  using assms
  by (cases i; cases j) (auto simp: sourceAllowsObservation_def AUDIT_ALERT_RULE_IDS_def split: alertEvaluatorSourceId.splits)

definition recordedAs :: "alertEvaluatorSourceId \<Rightarrow> alertRuleObservation list \<Rightarrow> seenObservations" where
  "recordedAs sourceId obs = map (\<lambda>a. (identityText a, [contentText a], [sourceId])) obs"

lemma seenObservationsOf_new:
  assumes "distinct (map workKey obs)" and "\<And>a. a \<in> set obs \<Longrightarrow> identityText a \<notin> fst ` set seen"
  shows "seenObservationsOf sourceId obs seen = Inr (obs, seen @ recordedAs sourceId obs)"
  using assms
proof (induction obs arbitrary: seen)
  case (Cons a obs)
  have "seenObservationsOf sourceId obs (seen @ [(identityText a, [contentText a], [sourceId])]) =
      Inr (obs, (seen @ [(identityText a, [contentText a], [sourceId])]) @ recordedAs sourceId obs)"
    using Cons.prems by (intro Cons.IH) (auto simp: identityText_eq, metis image_eqI)
  moreover have "map_of seen (identityText a) = None"
    using Cons.prems(2)[of a] by (simp add: map_of_eq_None_iff)
  ultimately show ?case
    by (simp add: semanticIdentity_text canonicalObservation_text recordedAs_def)
qed (simp add: recordedAs_def)

definition goodPart :: "string \<Rightarrow> collectedSource list \<Rightarrow> bool" where
  "goodPart asOf sources \<longleftrightarrow> distinct (map cs_sourceId sources) \<and> list_all (goodSource asOf) sources"

lemma goodSources_part: "goodSources asOf sources \<Longrightarrow> goodPart asOf sources"
  by (simp add: goodSources_def goodPart_def distinct_sources)

lemma good_allowed:
  "goodSource asOf source \<Longrightarrow> a \<in> set (cs_observations source) \<Longrightarrow>
   sourceAllowsObservation (cs_sourceId source) a \<and> validObservation a \<and> obs_asOf a = asOf"
  by (auto simp: goodSource_def usableSource_def emptySource_def list_all_iff)

lemma good_strict:
  "goodSource asOf source \<Longrightarrow> strictly workKey (cs_observations source) \<and>
   cs_planningObservations source = cs_observations source"
  by (auto simp: goodSource_def usableSource_def emptySource_def strictly_def)

lemma seenInSources_good:
  assumes "goodPart asOf sources"
    and "\<And>source a. source \<in> set sources \<Longrightarrow> a \<in> set (cs_observations source) \<Longrightarrow> identityText a \<notin> fst ` set seen"
    and "\<And>entry. entry \<in> set seen \<Longrightarrow> length (fst (snd entry)) = 1"
  shows "\<exists>seen'. seenInSources sources seen = Inr (sources, seen') \<and> (\<forall>entry \<in> set seen'. length (fst (snd entry)) = 1)"
  using assms
proof (induction sources arbitrary: seen)
  case (Cons source sources)
  have part: "goodPart asOf sources" and good: "goodSource asOf source"
    using Cons.prems(1) by (auto simp: goodPart_def)
  have plan: "source\<lparr>cs_planningObservations := cs_observations source\<rparr> = source"
    using good_strict[OF good] by simp
  show ?case
  proof (cases "unusable source")
    case True
    have "\<exists>seen'. seenInSources sources seen = Inr (sources, seen') \<and> (\<forall>entry \<in> set seen'. length (fst (snd entry)) = 1)"
      by (rule Cons.IH[OF part]) (use Cons.prems(2,3) in auto)
    with True show ?thesis by auto
  next
    case False
    have "distinct (map workKey (cs_observations source))"
      using good_strict[OF good] by (simp add: strictly_iff)
    then have new: "seenObservationsOf (cs_sourceId source) (cs_observations source) seen =
        Inr (cs_observations source, seen @ recordedAs (cs_sourceId source) (cs_observations source))"
      by (rule seenObservationsOf_new) (use Cons.prems(2) in auto)
    have "\<exists>seen'. seenInSources sources (seen @ recordedAs (cs_sourceId source) (cs_observations source)) =
        Inr (sources, seen') \<and> (\<forall>entry \<in> set seen'. length (fst (snd entry)) = 1)"
    proof (rule Cons.IH[OF part])
      fix other a
      assume other: "other \<in> set sources" "a \<in> set (cs_observations other)"
      have "goodSource asOf other" "cs_sourceId other \<noteq> cs_sourceId source"
        using Cons.prems(1) other(1) by (auto simp: goodPart_def list_all_iff, metis image_eqI)
      then have "identityText a \<noteq> identityText b" if "b \<in> set (cs_observations source)" for b
        using good_allowed[of asOf other a] good_allowed[OF good that] allowed_once other(2)
        by (metis identityText_eq sourceAllowsObservation_def workKey_inj)
      then have "identityText a \<notin> identityText ` set (cs_observations source)"
        by blast
      then show "identityText a \<notin> fst ` set (seen @ recordedAs (cs_sourceId source) (cs_observations source))"
        using Cons.prems(2)[of other a] other by (simp add: recordedAs_def image_image image_Un)
    qed (use Cons.prems(3) in \<open>auto simp: recordedAs_def\<close>)
    with new False plan show ?thesis by auto
  qed
qed auto

lemma no_conflicts: "goodPart asOf sources \<Longrightarrow> invalidateConflictingSources digest sources = Inr sources"
proof -
  assume "goodPart asOf sources"
  then obtain seen where seen: "seenInSources sources [] = Inr (sources, seen)"
      "\<forall>entry \<in> set seen. length (fst (snd entry)) = 1"
    using seenInSources_good[of asOf sources "[]"] by auto
  have "conflictingSources seen = []"
    using seen(2) by (auto simp: conflictingSources_def split: if_splits)
  moreover have "map_result (\<lambda>x. Inr x) xs = Inr xs" for xs :: "collectedSource list"
    by (induction xs) simp_all
  ultimately show ?thesis
    using seen(1) by (simp add: invalidateConflictingSources_def)
qed

end
