(* ===== verification/Alert_Evaluator_Cap.thy ===== *)
theory Alert_Evaluator_Cap
  imports Alert_Evaluator_Sources Alert_Rule_Properties Alert_Lifecycle_Samples
begin

section \<open>The work cap of a run\<close>

text \<open>
  \<open>applyWorkCap\<close> of \<^verbatim>\<open>alert-evaluator-orchestration.ts\<close> on collected sources: how much it keeps,
  what it never drops, and what it says about a source it dropped something from.
\<close>

lemma budget_values:
  "ALERT_EVALUATOR_FIXED_D1_QUERY_BUDGET = 110" "ALERT_EVALUATOR_PER_WORK_ITEM_D1_QUERY_BUDGET = 36"
  "ALERT_EVALUATOR_MAX_WORK_ITEMS = 20" "\<not> ALERT_EVALUATOR_FREE_PLAN_SUPPORTED"
  by code_simp+

lemma length_sources: "length ALERT_EVALUATOR_SOURCE_IDS = 9"
  by (simp add: ALERT_EVALUATOR_SOURCE_IDS_def)

subsection \<open>What is retained\<close>

lemma distinct_List_insert: "distinct xs \<Longrightarrow> distinct (List.insert x xs)"
  by (simp add: List.insert_def)

lemma length_List_insert: "length (List.insert x xs) \<le> Suc (length xs)"
  by (simp add: List.insert_def)

lemma fillRetained_spec:
  assumes "distinct retained"
  shows "\<exists>k. set (fillRetained retained work) = set retained \<union> set (take k work) \<and>
    distinct (fillRetained retained work) \<and> length (fillRetained retained work) \<le> max (length retained) 20 \<and>
    (k < length work \<longrightarrow> 20 \<le> length (fillRetained retained work))"
  using assms
proof (induction work arbitrary: retained)
    case (Cons a work)
    show ?case
    proof (cases "20 \<le> length retained")
      case True
      with Cons.prems show ?thesis
        by (intro exI[of _ 0]) (simp add: budget_values)
    next
      case False
      obtain k where k: "set (fillRetained (List.insert a retained) work) = insert a (set retained) \<union> set (take k work)"
          "distinct (fillRetained (List.insert a retained) work)"
          "length (fillRetained (List.insert a retained) work) \<le> max (length (List.insert a retained)) 20"
          "k < length work \<longrightarrow> 20 \<le> length (fillRetained (List.insert a retained) work)"
        using Cons.IH[OF distinct_List_insert[OF Cons.prems], of a] by auto
      have "length (List.insert a retained) \<le> 20"
        using False length_List_insert[of a retained] by simp
      then show ?thesis
        using False k by (intro exI[of _ "Suc k"]) (auto simp: budget_values)
    qed
qed simp

definition firstPlanned :: "collectedSource \<Rightarrow> alertRuleObservation \<Rightarrow> bool" where
  "firstPlanned source a \<longleftrightarrow> (case cs_planningObservations source of [] \<Rightarrow> False | first # _ \<Rightarrow> a = first)"

lemma firstOfEach_spec:
  "distinct (firstOfEach sources) \<and> length (firstOfEach sources) \<le> length sources \<and>
   (a \<in> set (firstOfEach sources) \<longleftrightarrow> (\<exists>source \<in> set sources. firstPlanned source a))"
proof -
  let ?f = "\<lambda>retained source. case cs_planningObservations source of [] \<Rightarrow> retained | first # _ \<Rightarrow> List.insert first retained"
  have "distinct (foldl ?f acc sources) \<and> length (foldl ?f acc sources) \<le> length acc + length sources \<and>
      (a \<in> set (foldl ?f acc sources) \<longleftrightarrow> a \<in> set acc \<or> (\<exists>source \<in> set sources. firstPlanned source a))"
    if "distinct acc" for acc
    using that
  proof (induction sources arbitrary: acc)
    case (Cons source sources)
    show ?case
    proof (cases "cs_planningObservations source")
      case Nil
      then show ?thesis
        using Cons.IH[OF Cons.prems] by (simp add: firstPlanned_def le_Suc_eq)
    next
      case (Cons b bs)
      then show ?thesis
        using Cons.IH[OF distinct_List_insert[OF Cons.prems], of b] length_List_insert[of b acc]
        by (auto simp: firstPlanned_def)
    qed
  qed simp
  from this[of "[]"] show ?thesis
    by (simp add: firstOfEach_def)
qed

subsection \<open>What is planned\<close>

definition plannedWork :: "collectedSource list \<Rightarrow> alertRuleObservation list" where
  "plannedWork sources = concat (map cs_planningObservations sources)"

lemma good_planned:
  "goodSource asOf source \<Longrightarrow> (if unusable source then [] else cs_planningObservations source) = cs_planningObservations source"
  by (auto simp: goodSource_def usableSource_def emptySource_def unusable_def split: if_splits)

lemma workOf_good: "goodPart asOf sources \<Longrightarrow> workOf sources = sort_key workKey (plannedWork sources)"
proof -
  assume "goodPart asOf sources"
  then have eq: "map (\<lambda>source. if unusable source then [] else cs_planningObservations source) sources =
      map cs_planningObservations sources"
    using good_planned by (intro map_cong refl) (metis goodPart_def list_all_iff)
  then show ?thesis
    by (simp only: workOf_def sorted_observations plannedWork_def eq)
qed

lemma planned_distinct: "goodPart asOf sources \<Longrightarrow> distinct (map workKey (plannedWork sources))"
proof (induction sources)
  case (Cons source sources)
  have good: "goodSource asOf source" and part: "goodPart asOf sources"
    using Cons.prems by (auto simp: goodPart_def)
  have d: "distinct (map workKey (cs_planningObservations source))"
    using good_strict[OF good] by (simp add: strictly_iff)
  have "workKey a \<noteq> workKey b" if a: "a \<in> set (cs_planningObservations source)" and b: "b \<in> set (plannedWork sources)" for a b
  proof -
    obtain other where other: "other \<in> set sources" "b \<in> set (cs_planningObservations other)"
      using b by (auto simp: plannedWork_def)
    then have g: "goodSource asOf other" and "cs_sourceId other \<noteq> cs_sourceId source"
      using Cons.prems by (auto simp: goodPart_def list_all_iff, metis image_eqI)
    have "sourceAllowsObservation (cs_sourceId source) a" "sourceAllowsObservation (cs_sourceId other) b"
      using good_allowed[OF good, of a] good_allowed[OF g, of b] good_strict[OF good] good_strict[OF g] a other(2)
      by auto
    then show ?thesis
      using \<open>cs_sourceId other \<noteq> cs_sourceId source\<close> allowed_once by (metis sourceAllowsObservation_def workKey_inj)
  qed
  then have "set (map workKey (cs_planningObservations source)) \<inter> set (map workKey (plannedWork sources)) = {}"
    unfolding set_map by blast
  with d Cons.IH[OF part] show ?case
    by (simp add: plannedWork_def)
qed (simp add: plannedWork_def)

lemma take_sorted_before:
  assumes "distinct (map f xs)" and "a \<in> set (take k (sort_key f xs))" and "b \<in> set xs"
    and "b \<notin> set (take k (sort_key f xs))"
  shows "f a < f b"
proof -
  let ?s = "sort_key f xs"
  have strict: "sorted_wrt (<) (map f ?s)"
    using strictly_sort_key[of xs f] assms(1) by (simp add: strictly_def distinct_map)
  have "b \<in> set (take k ?s @ drop k ?s)"
    using assms(3) by simp
  then have "b \<in> set (drop k ?s)"
    using assms(4) by (metis Un_iff set_append)
  moreover have "sorted_wrt (<) (map f (take k ?s) @ map f (drop k ?s))"
    using strict by (metis append_take_drop_id map_append)
  ultimately show ?thesis
    using assms(2) by (auto simp: sorted_wrt_append)
qed

text \<open>A source after the cap. A source something was dropped from is no longer complete.\<close>

definition cappedFrom :: "(alertRuleObservation \<Rightarrow> bool) \<Rightarrow> collectedSource \<Rightarrow> collectedSource \<Rightarrow> bool" where
  "cappedFrom keep source capped \<longleftrightarrow>
     cs_sourceId capped = cs_sourceId source \<and> cs_observations capped = cs_observations source \<and>
     cs_incomplete capped = cs_incomplete source \<and>
     cs_planningObservations capped = filter keep (cs_observations source) \<and>
     sp_sourceId (cs_proof capped) = cs_sourceId source \<and>
     (if cs_planningObservations capped = cs_observations source
      then cs_proof capped = cs_proof source \<and> \<not> cs_forcePartial capped
      else sp_status (cs_proof capped) = Source_partial \<and> cs_forcePartial capped \<and>
        sp_incompleteCount (cs_proof capped) =
          int (length (cs_incomplete source)) + int (length (cs_observations source)) - int (length (cs_planningObservations capped)))"

lemma filter_length_eq: "length (filter P xs) = length xs \<longleftrightarrow> filter P xs = xs"
proof
  assume "length (filter P xs) = length xs"
  then have "\<forall>x \<in> set xs. P x"
    by (metis length_filter_less less_irrefl)
  then show "filter P xs = xs"
    by (simp add: filter_id_conv)
qed simp

lemma capSource_cappedFrom:
  assumes "goodSource asOf source" and "capSource digest retained source = Inr capped"
  shows "cappedFrom (\<lambda>a. a \<in> set retained) source capped"
proof (cases "unusable source")
  case True
  then have "emptySource source" "capped = source"
    using assms by (auto simp: goodSource_def usableSource_def unusable_def capSource_def split: if_splits)
  then show ?thesis
    using assms(1) by (auto simp: cappedFrom_def emptySource_def goodSource_def)
next
  case False
  let ?planned = "filter (\<lambda>a. a \<in> set retained) (cs_observations source)"
  have plan: "cs_planningObservations source = cs_observations source"
    using good_strict[OF assms(1)] by simp
  show ?thesis
  proof (cases "length ?planned = length (cs_observations source)")
    case True
    then have "capped = source\<lparr>cs_planningObservations := ?planned\<rparr>"
      using assms(2) False by (simp add: capSource_def plan Let_def)
    then show ?thesis
      using True assms(1) by (simp add: cappedFrom_def filter_length_eq goodSource_def)
  next
    case dropped: False
    then have "?planned \<noteq> cs_observations source"
      by auto
    with dropped show ?thesis
      using assms(2) False
      by (auto simp: capSource_def plan Let_def cappedFrom_def and_then_eq_Inr throw_if_eq_Inr)
  qed
qed

lemma applyWorkCap_parts:
  assumes "goodPart asOf sources" and "applyWorkCap digest sources = Inr capped"
  shows "list_all2 (cappedFrom (\<lambda>a. a \<in> set (fillRetained (firstOfEach sources) (workOf sources)))) sources capped"
proof -
  have "list_all2 (\<lambda>x y. capSource digest (fillRetained (firstOfEach sources) (workOf sources)) x = Inr y) sources capped"
    using assms(2) by (simp add: applyWorkCap_def map_result_Inr_iff split: if_splits)
  moreover have "goodSource asOf x" if "x \<in> set sources" for x
    using assms(1) that by (auto simp: goodPart_def list_all_iff)
  ultimately show ?thesis
    by (auto simp: list_all2_conv_all_nth intro!: capSource_cappedFrom[of asOf])
qed

lemma capped_planned:
  "list_all2 (cappedFrom keep) sources capped \<Longrightarrow>
   (\<And>s. s \<in> set sources \<Longrightarrow> cs_planningObservations s = cs_observations s) \<Longrightarrow>
   plannedWork capped = filter keep (plannedWork sources)"
  by (induction rule: list_all2_induct) (auto simp: plannedWork_def cappedFrom_def)

definition retainedWork :: "collectedSource list \<Rightarrow> alertRuleObservation list" where
  "retainedWork sources = fillRetained (firstOfEach sources) (workOf sources)"

text \<open>What the cap retains: the first of each source, and the \<open>k\<close> least of the work.\<close>

lemma retained_work:
  assumes "goodSources asOf sources"
  shows "\<exists>k. set (retainedWork sources) =
      set (firstOfEach sources) \<union> set (take k (sort_key workKey (plannedWork sources))) \<and>
    set (retainedWork sources) \<subseteq> set (plannedWork sources) \<and> distinct (retainedWork sources) \<and>
    length (retainedWork sources) \<le> 20 \<and>
    (k < length (plannedWork sources) \<longrightarrow> 20 \<le> length (retainedWork sources))"
proof -
  have part: "goodPart asOf sources" and n: "length sources = 9"
    using goodSources_part[OF assms] assms length_sources
    by (auto simp: goodSources_def dest: arg_cong[of _ _ length])
  note firsts = firstOfEach_spec[of sources]
  obtain k where k: "set (retainedWork sources) = set (firstOfEach sources) \<union> set (take k (sort_key workKey (plannedWork sources)))"
      "distinct (retainedWork sources)" "length (retainedWork sources) \<le> max (length (firstOfEach sources)) 20"
      "k < length (sort_key workKey (plannedWork sources)) \<longrightarrow> 20 \<le> length (retainedWork sources)"
    using fillRetained_spec[OF conjunct1[OF firsts], of "sort_key workKey (plannedWork sources)"]
    unfolding retainedWork_def workOf_good[OF part] by blast
  have "a \<in> set (plannedWork sources)" if "s \<in> set sources" "firstPlanned s a" for s a
    using that by (auto simp: plannedWork_def firstPlanned_def split: list.splits intro!: bexI[of _ s])
  then have "set (retainedWork sources) \<subseteq> set (plannedWork sources)"
    using k(1) firsts by (auto dest: in_set_takeD)
  moreover have "length (firstOfEach sources) \<le> 9"
    using conjunct1[OF conjunct2[OF firsts]] n by simp
  ultimately show ?thesis
    using k by (intro exI[of _ k]) auto
qed

lemma capped_work:
  assumes "goodSources asOf sources" and "applyWorkCap digest sources = Inr capped"
  shows "list_all2 (cappedFrom (\<lambda>a. a \<in> set (retainedWork sources))) sources capped"
    and "plannedWork capped = filter (\<lambda>a. a \<in> set (retainedWork sources)) (plannedWork sources)"
    and "length (plannedWork capped) = length (retainedWork sources)"
proof -
  have part: "goodPart asOf sources"
    by (rule goodSources_part[OF assms(1)])
  show capped: "list_all2 (cappedFrom (\<lambda>a. a \<in> set (retainedWork sources))) sources capped"
    unfolding retainedWork_def by (rule applyWorkCap_parts[OF part assms(2)])
  have "cs_planningObservations s = cs_observations s" if "s \<in> set sources" for s
    using part that good_strict by (auto simp: goodPart_def list_all_iff)
  then show planned: "plannedWork capped = filter (\<lambda>a. a \<in> set (retainedWork sources)) (plannedWork sources)"
    by (rule capped_planned[OF capped])
  have "set (retainedWork sources) \<subseteq> set (plannedWork sources)" "distinct (retainedWork sources)"
    using retained_work[OF assms(1)] by blast+
  moreover from this(1) have "set (plannedWork capped) = set (retainedWork sources)"
    unfolding planned by auto
  moreover have "distinct (plannedWork capped)"
    unfolding planned using planned_distinct[OF part] by (simp add: distinct_map)
  ultimately show "length (plannedWork capped) = length (retainedWork sources)"
    by (metis distinct_card)
qed

text \<open>
  C20. The work of a run is bounded and no source is silenced. The cap keeps at most 20 observations of
  the nine sources and the first one of each; whatever else it drops comes later in the order of
  rules and dimensions than whatever else it keeps; it drops nothing unless 20 are kept; and a source
  it dropped something from is reported as partial, with the count of what is missing, and its
  observations are treated as partial evidence.
\<close>

theorem work_cap:
  assumes "goodSources asOf sources" and "applyWorkCap digest sources = Inr capped"
  shows "\<exists>keep. list_all2 (cappedFrom keep) sources capped \<and>
    length (plannedWork capped) \<le> 20 \<and>
    (\<forall>source \<in> set sources. \<forall>a. firstPlanned source a \<longrightarrow> keep a) \<and>
    (\<forall>a \<in> set (plannedWork sources). \<forall>b \<in> set (plannedWork sources).
       keep a \<and> \<not> keep b \<longrightarrow> workKey a < workKey b \<or> (\<exists>source \<in> set sources. firstPlanned source a)) \<and>
    (length (plannedWork capped) < 20 \<longrightarrow> plannedWork capped = plannedWork sources)"
proof -
  let ?R = "retainedWork sources"
  have d: "distinct (map workKey (plannedWork sources))"
    by (rule planned_distinct[OF goodSources_part[OF assms(1)]])
  note capped = capped_work[OF assms]
  obtain k where k: "set ?R = set (firstOfEach sources) \<union> set (take k (sort_key workKey (plannedWork sources)))"
      "length ?R \<le> 20" "k < length (plannedWork sources) \<longrightarrow> 20 \<le> length ?R"
    using retained_work[OF assms(1)] by blast
  have "a \<in> set ?R" if "s \<in> set sources" "firstPlanned s a" for s a
    using that firstOfEach_spec[of sources] k(1) by auto
  moreover have "workKey a < workKey b" if "a \<in> set ?R" "b \<in> set (plannedWork sources)" "b \<notin> set ?R"
      "\<not> (\<exists>s \<in> set sources. firstPlanned s a)" for a b
    using take_sorted_before[OF d, of a k b] that k(1) firstOfEach_spec[of sources] by auto
  moreover have "plannedWork capped = plannedWork sources" if "length ?R < 20"
  proof -
    have "length (plannedWork sources) \<le> k"
      using k(3) that by (meson not_less)
    then show ?thesis
      unfolding capped(2) using k(1) by (simp add: filter_id_conv)
  qed
  ultimately show ?thesis
    using capped k(2) by (intro exI[of _ "\<lambda>a. a \<in> set ?R"]) auto
qed

text \<open>Nine sources, of which one returned an observation and the others were not available.\<close>

definition sampleSource :: "alertEvaluatorSourceId \<Rightarrow> collectedSource" where
  "sampleSource i =
     (let obs = (if i = D1_security_fanout_gap then [sampleFanoutObservation] else []) in
      \<lparr>cs_forcePartial = False, cs_incomplete = [], cs_observations = obs, cs_planningObservations = obs,
       cs_proof = \<lparr>sp_incompleteCount = 0, sp_observationCount = int (length obs), sp_proofSha256 = sampleProofDigest,
         sp_sourceId = i, sp_status = (if obs = [] then Source_unavailable else Source_complete)\<rparr>,
       cs_sourceId = i\<rparr>)"

definition sampleSources :: "collectedSource list" where
  "sampleSources = map sampleSource ALERT_EVALUATOR_SOURCE_IDS"

lemma sampleSource_values:
  "sampleSource i = (if i = D1_security_fanout_gap
     then \<lparr>cs_forcePartial = False, cs_incomplete = [], cs_observations = [sampleFanoutObservation],
       cs_planningObservations = [sampleFanoutObservation],
       cs_proof = \<lparr>sp_incompleteCount = 0, sp_observationCount = 1, sp_proofSha256 = sampleProofDigest,
         sp_sourceId = D1_security_fanout_gap, sp_status = Source_complete\<rparr>, cs_sourceId = D1_security_fanout_gap\<rparr>
     else \<lparr>cs_forcePartial = False, cs_incomplete = [], cs_observations = [], cs_planningObservations = [],
       cs_proof = \<lparr>sp_incompleteCount = 0, sp_observationCount = 0, sp_proofSha256 = sampleProofDigest,
         sp_sourceId = i, sp_status = Source_unavailable\<rparr>, cs_sourceId = i\<rparr>)"
  by (simp add: sampleSource_def Let_def)

lemma sampleSources_good: "goodSources ''2026-03-01T12:00:00.000Z'' sampleSources"
proof -
  have "validObservation sampleFanoutObservation"
    by (rule parseAlertObservation_valid[OF parse_sampleFanout])
  then have "goodSource ''2026-03-01T12:00:00.000Z'' (sampleSource i)" for i
    by (cases i) (simp_all add: goodSource_def usableSource_def emptySource_def sampleSource_values strictly_def
        sampleFanoutObservation_def sourceAllowsObservation_def)
  moreover have "map cs_sourceId sampleSources = ALERT_EVALUATOR_SOURCE_IDS"
    by (simp add: sampleSources_def ALERT_EVALUATOR_SOURCE_IDS_def sampleSource_values)
  ultimately show ?thesis
    by (auto simp: goodSources_def sampleSources_def list_all_iff)
qed

lemma sampleSources_planned:
  "workOf sampleSources = [sampleFanoutObservation]" "firstOfEach sampleSources = [sampleFanoutObservation]"
  by (simp_all add: sampleSources_def ALERT_EVALUATOR_SOURCE_IDS_def sampleSource_values workOf_def firstOfEach_def
      unusable_def toSorted_def)

lemma sampleSources_cap: "applyWorkCap sampleHash sampleSources = Inr sampleSources"
proof -
  have "capSource sampleHash (fillRetained [sampleFanoutObservation] [sampleFanoutObservation]) (sampleSource i)
      = Inr (sampleSource i)" for i
    by (simp add: capSource_def sampleSource_values budget_values)
  then show ?thesis
    unfolding applyWorkCap_def sampleSources_planned
    by (simp add: budget_values ALERT_EVALUATOR_SOURCE_IDS_def sampleSources_def)
qed

theorem work_cap_witness:
  "\<exists>keep. list_all2 (cappedFrom keep) sampleSources sampleSources \<and>
    length (plannedWork sampleSources) \<le> 20 \<and>
    (\<forall>source \<in> set sampleSources. \<forall>a. firstPlanned source a \<longrightarrow> keep a) \<and>
    (\<forall>a \<in> set (plannedWork sampleSources). \<forall>b \<in> set (plannedWork sampleSources).
       keep a \<and> \<not> keep b \<longrightarrow> workKey a < workKey b \<or> (\<exists>source \<in> set sampleSources. firstPlanned source a)) \<and>
    (length (plannedWork sampleSources) < 20 \<longrightarrow> plannedWork sampleSources = plannedWork sampleSources)"
  by (rule work_cap[OF sampleSources_good sampleSources_cap])

subsection \<open>Partial evidence\<close>

lemma breach_transition:
  assumes "storedState s" and "lifecycleStep s (asOf, v) = Inr (intent, s')" and "evaluateAlertRule v = Inr e"
    and "eval_severity e \<noteq> None" and "eval_evidence e = Known"
  shows "alertStep e asOf (boundState e s asOf) intent s'" and "0 \<le> consecutiveClears s"
proof -
  obtain e' where e': "evaluateAlertRule v = Inr e'" "soundEvaluation e'" "eval_asOf e' = asOf"
      "validState (getTime asOf) s" "advanceEvaluated e' s asOf = Inr (intent, s')"
    using lifecycleStep_parts[OF assms(1,2)] by (metis fst_conv snd_conv)
  then have e: "soundEvaluation e" "eval_asOf e = asOf" "advanceEvaluated e s asOf = Inr (intent, s')"
    using assms(3) by auto
  have canon: "canonical asOf"
    using e by (simp add: soundEvaluation_def)
  have b: "identity s = None \<or> identity s = Some (identityFor e) \<and>
        (\<exists>t. lastEvaluatedAt s = Some t \<and> getTime t < getTime asOf)"
      "advanceBound e (boundState e s asOf) asOf = Inr (intent, s')"
    using e(3) assms(4,5) by (auto elim: advanceEvaluated_cases)
  have st: "evaluatedState asOf (identityFor e) (boundState e s asOf)"
    by (rule boundState_evaluated[OF e'(4) e(1) canon b(1)])
  show "alertStep e asOf (boundState e s asOf) intent s'"
    by (rule advanceBound_step[OF st e(1) _ canon b(2)]) (simp add: identityFor_def)
  show "0 \<le> consecutiveClears s"
    using e'(4) by (auto simp: validState_def inDomain_def validFields_def)
qed

lemma rank_simps [simp]: "0 \<le> severityRank x" "severityRank x \<le> 2" "severityRank x \<le> 0 \<longleftrightarrow> x = None"
  "2 \<le> severityRank x \<longleftrightarrow> x = Some Critical" "severityRank x \<le> 1 \<longleftrightarrow> x \<noteq> Some Critical"
  by (cases x rule: severityRank.cases; simp)+

text \<open>
  C22. Partial evidence never lowers an alert. A decision of the lifecycle that is applied although its
  source is partial comes from a known breach; it never resolves, never leaves a lower severity
  than before, and never withdraws a pending breach of a higher one; in particular it is no clear.
\<close>

theorem partial_never_lowers:
  assumes "storedState s" and "lifecycleStep s (asOf, v) = Inr decision" and "evaluateAlertRule v = Inr e"
    and "dispositionOf True e s decision \<noteq> Suppressed_partial"
  shows "eval_evidence e = Known \<and> eval_severity e \<noteq> None \<and>
    severityRank (status s) \<le> severityRank (status (snd decision)) \<and>
    severityRank (breachSeverity s) \<le> max (severityRank (status (snd decision))) (severityRank (breachSeverity (snd decision))) \<and>
    (\<forall>base from_severity. fst decision \<noteq> Some (ResolveIntent base from_severity)) \<and>
    consecutiveClears (snd decision) \<le> consecutiveClears s"
proof -
  obtain intent s' where d: "decision = (intent, s')"
    by (cases decision)
  have allowed: "eval_evidence e = Known" "eval_severity e \<noteq> None"
      "severityRank (status s) \<le> severityRank (eval_severity e)"
      "severityRank (breachSeverity s) \<le> severityRank (eval_severity e)"
    using assms(4) by (auto simp: dispositionOf_def partialDecisionAllowed_def split: if_splits)
  have step: "alertStep e asOf (boundState e s asOf) intent s'" and clears: "0 \<le> consecutiveClears s"
    using breach_transition[OF assms(1,2)[unfolded d] assms(3) allowed(2,1)] by auto
  have bound: "status (boundState e s asOf) = status s" "breachSeverity (boundState e s asOf) = breachSeverity s"
      "consecutiveClears (boundState e s asOf) = consecutiveClears s"
    by (simp_all add: boundState_def)
  from step have "severityRank (status s) \<le> severityRank (status s') \<and>
      severityRank (breachSeverity s) \<le> max (severityRank (status s')) (severityRank (breachSeverity s')) \<and>
      (\<forall>base from_severity. intent \<noteq> Some (ResolveIntent base from_severity)) \<and> consecutiveClears s' \<le> consecutiveClears s"
    using allowed clears
    by (cases rule: alertStep.cases)
      (auto simp: bound clearSample_def confirms_def countersReset_def noBreach_def breachAt_def rank_simps
        split: if_splits)
  with allowed show ?thesis
    by (simp add: d)
qed

theorem partial_never_lowers_witness:
  "severityRank (status sampleActive) \<le> severityRank (status sampleWorse)"
proof -
  have e: "evaluateAlertRule (sampleRate t2 0 40) = Inr (sampleEvaluation t2 (Some Critical))"
    by (rule sample_evaluation) (auto simp: sample_hour)
  have "dispositionOf True (sampleEvaluation t2 (Some Critical)) sampleActive (None, sampleWorse) \<noteq> Suppressed_partial"
    by (simp add: dispositionOf_def partialDecisionAllowed_def sampleEvaluation_def sample_state_defs)
  from partial_never_lowers[OF sample_stored(2) sample_steps(3)[OF sample_stored(2)] e this]
  show ?thesis by simp
qed

end
