(* ===== verification/Effect.thy ===== *)
theory Effect
  imports Prelude
begin

section \<open>Calls with effects\<close>

text \<open>
  An \<open>async\<close> function of the worker reads and writes variables, calls other functions and returns
  or throws. It is modelled by a function from a state to its result and the state it leaves; what
  happened before an exception stays. The contract of such a function is a triple: from
  a state of \<open>P\<close>, a returned value meets \<open>Q\<close> and an exception \<open>E\<close>, each with the state left behind.
  \<open>triple_intros\<close> collects the rules that take a triple apart along the code.
\<close>

named_theorems triple_intros "contracts of the ways to compose calls"

type_synonym ('s, 'a) effect = "'s \<Rightarrow> 'a result \<times> 's"

definition returns :: "'a \<Rightarrow> ('s, 'a) effect" where
  "returns x s = (Inr x, s)"

definition throws :: "js_error \<Rightarrow> ('s, 'a) effect" where
  "throws err s = (Inl err, s)"

definition lifts :: "'a result \<Rightarrow> ('s, 'a) effect" where
  "lifts r s = (r, s)"

definition gets :: "('s \<Rightarrow> 'a) \<Rightarrow> ('s, 'a) effect" where
  "gets f s = (Inr (f s), s)"

definition modifies :: "('s \<Rightarrow> 's) \<Rightarrow> ('s, unit) effect" where
  "modifies f s = (Inr (), f s)"

definition seq :: "('s, 'a) effect \<Rightarrow> ('a \<Rightarrow> ('s, 'b) effect) \<Rightarrow> ('s, 'b) effect" where
  "seq m k s = (case m s of (Inl err, s') \<Rightarrow> (Inl err, s') | (Inr x, s') \<Rightarrow> k x s')"

definition catches :: "('s, 'a) effect \<Rightarrow> (js_error \<Rightarrow> ('s, 'a) effect) \<Rightarrow> ('s, 'a) effect" where
  "catches m h s = (case m s of (Inl err, s') \<Rightarrow> h err s' | (Inr x, s') \<Rightarrow> (Inr x, s'))"

text \<open>The outcome of a call as a value, as \<open>Promise.allSettled\<close> gives it.\<close>

definition settled :: "('s, 'a) effect \<Rightarrow> ('s, 'a result) effect" where
  "settled m s = (case m s of (r, s') \<Rightarrow> (Inr r, s'))"

fun for_each :: "('a \<Rightarrow> ('s, 'b) effect) \<Rightarrow> 'a list \<Rightarrow> ('s, 'b list) effect" where
  "for_each f [] = returns []"
| "for_each f (x # xs) = seq (f x) (\<lambda>y. seq (for_each f xs) (\<lambda>ys. returns (y # ys)))"

subsection \<open>Contracts\<close>

definition triple ::
  "('s \<Rightarrow> bool) \<Rightarrow> ('s, 'a) effect \<Rightarrow> ('a \<Rightarrow> 's \<Rightarrow> bool) \<Rightarrow> (js_error \<Rightarrow> 's \<Rightarrow> bool) \<Rightarrow> bool" where
  "triple P m Q E \<longleftrightarrow> (\<forall>s. P s \<longrightarrow> (case m s of (Inl err, s') \<Rightarrow> E err s' | (Inr x, s') \<Rightarrow> Q x s'))"

lemma tripleI:
  assumes "\<And>s err s'. P s \<Longrightarrow> m s = (Inl err, s') \<Longrightarrow> E err s'"
    and "\<And>s x s'. P s \<Longrightarrow> m s = (Inr x, s') \<Longrightarrow> Q x s'"
  shows "triple P m Q E"
  using assms by (auto simp: triple_def split: prod.splits sum.splits)

lemma tripleD:
  assumes "triple P m Q E" and "P s"
  shows "m s = (Inr x, s') \<Longrightarrow> Q x s'" and "m s = (Inl err, s') \<Longrightarrow> E err s'"
  using assms by (auto simp: triple_def split: prod.splits sum.splits)

lemma triple_conseq:
  assumes "triple P m Q E" and "\<And>s. P' s \<Longrightarrow> P s" and "\<And>x s. Q x s \<Longrightarrow> Q' x s" and "\<And>err s. E err s \<Longrightarrow> E' err s"
  shows "triple P' m Q' E'"
  using assms by (fastforce simp: triple_def split: prod.splits sum.splits)

lemma triple_pre: "triple P m Q E \<Longrightarrow> (\<And>s. P' s \<Longrightarrow> P s) \<Longrightarrow> triple P' m Q E"
  by (rule triple_conseq)

lemma triple_post: "triple P m Q E \<Longrightarrow> (\<And>x s. Q x s \<Longrightarrow> Q' x s) \<Longrightarrow> triple P m Q' E"
  by (rule triple_conseq)

lemma triple_exists:
  assumes "\<And>y. triple (P y) m Q E"
  shows "triple (\<lambda>s. \<exists>y. P y s) m Q E"
  by (rule tripleI) (use assms in \<open>auto dest: tripleD\<close>)

lemma triple_assume: "(p \<Longrightarrow> triple P m Q E) \<Longrightarrow> triple (\<lambda>s. p \<and> P s) m Q E"
  by (auto simp: triple_def)

lemma triple_returns [triple_intros]: "(\<And>s. P s \<Longrightarrow> Q x s) \<Longrightarrow> triple P (returns x) Q E"
  by (simp add: triple_def returns_def)

lemma triple_throws [triple_intros]: "(\<And>s. P s \<Longrightarrow> E err s) \<Longrightarrow> triple P (throws err) Q E"
  by (simp add: triple_def throws_def)

lemma triple_lifts [triple_intros]:
  assumes "\<And>s x. P s \<Longrightarrow> r = Inr x \<Longrightarrow> Q x s" and "\<And>s err. P s \<Longrightarrow> r = Inl err \<Longrightarrow> E err s"
  shows "triple P (lifts r) Q E"
  using assms by (auto simp: triple_def lifts_def split: sum.splits)

lemma triple_gets [triple_intros]: "(\<And>s. P s \<Longrightarrow> Q (f s) s) \<Longrightarrow> triple P (gets f) Q E"
  by (simp add: triple_def gets_def)

lemma triple_modifies [triple_intros]: "(\<And>s. P s \<Longrightarrow> Q () (f s)) \<Longrightarrow> triple P (modifies f) Q E"
  by (simp add: triple_def modifies_def)

lemma triple_seq:
  assumes "triple P m R E" and "\<And>x. triple (R x) (k x) Q E"
  shows "triple P (seq m k) Q E"
  using assms by (fastforce simp: triple_def seq_def split: prod.splits sum.splits)

lemma triple_catches:
  assumes "triple P m Q F" and "\<And>err. triple (F err) (h err) Q E"
  shows "triple P (catches m h) Q E"
  using assms by (fastforce simp: triple_def catches_def split: prod.splits sum.splits)

lemma triple_settled:
  assumes "triple P m (\<lambda>x. Q (Inr x)) (\<lambda>err. Q (Inl err))"
  shows "triple P (settled m) Q E"
  unfolding triple_def settled_def
proof (intro allI impI)
  fix s assume "P s"
  with assms show "case case m s of (r, s') \<Rightarrow> (Inr r, s') of (Inl err, s') \<Rightarrow> E err s' | (Inr x, s') \<Rightarrow> Q x s'"
    by (cases "m s"; cases "fst (m s)") (auto dest: tripleD)
qed

lemma triple_if [triple_intros]:
  assumes "b \<Longrightarrow> triple P m Q E" and "\<not> b \<Longrightarrow> triple P n Q E"
  shows "triple P (if b then m else n) Q E"
  using assms by simp

text \<open>A loop: the contract of the step at each prefix gives the contract of the whole.\<close>

lemma triple_for_each:
  assumes "\<And>before x after ys. xs = before @ x # after \<Longrightarrow> length ys = length before \<Longrightarrow>
      triple (I ys) (f x) (\<lambda>y. I (ys @ [y])) E"
  shows "triple (I []) (for_each f xs) (\<lambda>ys s. length ys = length xs \<and> I ys s) E"
proof -
  have "triple (I ys) (for_each f zs) (\<lambda>out s. length out = length zs \<and> I (ys @ out) s) E" if "xs = before @ zs" "length ys = length before" for before ys zs
    using that
  proof (induction zs arbitrary: before ys)
    case Nil
    then show ?case by (auto intro!: triple_intros)
  next
    case (Cons z zs)
    have step: "triple (I ys) (f z) (\<lambda>y. I (ys @ [y])) E"
      by (rule assms[OF Cons.prems])
    have rest: "triple (I (ys @ [y])) (for_each f zs) (\<lambda>out s. length out = length zs \<and> I ((ys @ [y]) @ out) s) E" for y
      by (rule Cons.IH[of "before @ [z]"]) (use Cons.prems in auto)
    show ?case
      by (simp, rule triple_seq[OF step], rule triple_seq[OF rest]) (auto intro!: triple_intros)
  qed
  from this[where before = "[]" and ys = "[]" and zs = xs] show ?thesis by simp
qed

end
