(* ===== verification/Alert_Evaluator_Run.thy ===== *)
theory Alert_Evaluator_Run
  imports Effect Alert_Evaluator_Work
begin

section \<open>A run of the evaluator\<close>

text \<open>
  \<open>runAlertEvaluator\<close> of \<^verbatim>\<open>apps/sso/worker/alert-evaluator-orchestration.ts\<close>. Everything it calls
  (the repositories, the queue providers, the clock) is an argument, as in the source: functions on
  a world the evaluator knows nothing about. The state of a run holds that world, the variables its
  closures share, and, for the contracts only, the calls made so far with their arguments and
  results (\<open>es_calls\<close>), which no operation reads.
\<close>

subsection \<open>The types of the run repository\<close>

record alertEvaluatorRunFence =
  fence_leaseExpiresAt :: string
  fence_leaseId :: string
  fence_leaseRevision :: int
  fence_leaseUpdatedAt :: string
  fence_runId :: string
  fence_runtimeGeneration :: int
  fence_startedAt :: string

datatype alertEvaluatorRunStatus = Run_abandoned | Run_failed | Run_running | Run_sealed | Run_succeeded

record alertEvaluatorRun =
  run_acquiredRevision :: int
  run_asOf :: "string option"
  run_completedAt :: "string option"
  run_createdAt :: string
  run_decisionCount :: "int option"
  run_decisionManifestSha256 :: "string option"
  run_failureErrorCode :: "alertEvaluatorRunErrorCode option"
  run_failureStatus :: "alertEvaluatorRunFailureStatus option"
  run_id :: string
  run_leaseExpiresAt :: string
  run_leaseId :: string
  run_leaseRevision :: int
  run_leaseUpdatedAt :: string
  run_partialSourceCount :: "int option"
  run_runtimeGeneration :: int
  run_sourceCount :: "int option"
  run_sourceManifestSha256 :: "string option"
  run_startedAt :: string
  run_status :: alertEvaluatorRunStatus
  run_terminalRuntimeRevision :: "int option"
  run_triggerCron :: string
  run_triggerScheduledAt :: string
  run_updatedAt :: string
  run_watermarkAt :: "string option"

record acquireAlertEvaluatorRunInput =
  acq_leaseDurationSeconds :: int
  acq_scheduledAt :: string
  acq_startedAt :: string
  acq_triggerCron :: string

datatype acquireAlertEvaluatorRunResult =
    Acquired_run alertEvaluatorRunFence alertEvaluatorRun
  | Duplicate_run alertEvaluatorRun

record renewAlertEvaluatorRunInput =
  ren_leaseDurationSeconds :: int
  ren_renewedAt :: string

datatype alertEvaluatorRunMutationResult =
    Run_committed alertEvaluatorRunFence alertEvaluatorRun
  | Run_replayed alertEvaluatorRunFence alertEvaluatorRun
  | Run_lost

record bindAlertEvaluatorRunAsOfInput =
  bind_asOf :: string
  bind_boundAt :: string

record recordAlertEvaluatorRunSourceInput =
  rsi_asOf :: string
  rsi_proof :: alertEvaluatorSourceProofValue
  rsi_recordedAt :: string

datatype alertEvaluatorProofWriteResult = Proof_recorded | Proof_replayed | Proof_lost

record sealAlertEvaluatorRunInput =
  seal_decisions :: "alertEvaluatorDecisionProofValue list"
  seal_sealedAt :: string

record recordSuppressedAlertEvaluatorDecisionInput =
  sup_asOf :: string
  sup_proof :: alertEvaluatorDecisionProofValue
  sup_recordedAt :: string

record recordAlertEvaluatorRunFailureInput =
  fail_completedAt :: string
  fail_errorCode :: alertEvaluatorRunErrorCode
  fail_status :: alertEvaluatorRunFailureStatus

datatype alertEvaluatorTerminalResult =
    Terminal_committed bool alertEvaluatorRun
  | Terminal_replayed bool alertEvaluatorRun
  | Terminal_lost

text \<open>A write to the state repository that carries the proof of its run.\<close>

record alertStateRunProofInput =
  rp_fence :: alertEvaluatorRunFence
  rp_proof :: alertEvaluatorDecisionProofValue
  rp_recordedAt :: string

record persistAlertLifecycleDecisionInput =
  pli_decision :: alertLifecycleResult
  pli_environment :: alertEnvironment
  pli_evaluation :: alertRuleEvaluation
  pli_expected :: "alertStateExpectation option"
  pli_runProof :: alertStateRunProofInput

record alertLifecycleSnapshot =
  snap_expected :: "alertStateExpectation option"
  snap_previous :: alertLifecycleState

datatype queueSourcePersistence = Sample_committed | Sample_replayed | Sample_unknown

record queueMetricsAlertSourceResult =
  qsr_observation :: js
  qsr_persistence :: queueSourcePersistence

record hashedSourceInput =
  hsi_asOf :: string
  hsi_environment :: alertEnvironment
  hsi_hmacKeyBase64Url :: "string option"

subsection \<open>What the evaluator is given\<close>

text \<open>\<open>clock\<close> gives \<open>None\<close> for a value that is no valid \<open>Date\<close>.\<close>

record 'w alertEvaluatorDependencies =
  dep_acquireRun :: "acquireAlertEvaluatorRunInput \<Rightarrow> ('w, acquireAlertEvaluatorRunResult option) effect"
  dep_bindRunAsOf :: "alertEvaluatorRunFence \<Rightarrow> bindAlertEvaluatorRunAsOfInput \<Rightarrow> ('w, alertEvaluatorRunMutationResult) effect"
  dep_clock :: "('w, int option) effect"
  dep_initializeRuntime :: "string \<Rightarrow> ('w, bool) effect"
  dep_persistDecision :: "persistAlertLifecycleDecisionInput \<Rightarrow> ('w, persistenceResult) effect"
  dep_readAuditSource :: "hashedSourceInput \<Rightarrow> ('w, sourceReaderResult) effect"
  dep_readFanoutSource :: "string \<Rightarrow> ('w, sourceReaderResult) effect"
  dep_readLifecycleSnapshot :: "alertEnvironment \<Rightarrow> alertLifecycleIdentity \<Rightarrow> ('w, alertLifecycleSnapshot) effect"
  dep_readLogoutSource :: "hashedSourceInput \<Rightarrow> ('w, sourceReaderResult) effect"
  dep_readOAuthSource :: "hashedSourceInput \<Rightarrow> ('w, sourceReaderResult) effect"
  dep_readQueueSource :: "js result \<Rightarrow> alertQueueName \<Rightarrow> string \<Rightarrow> ('w, queueMetricsAlertSourceResult) effect"
  dep_readRuntimeSource :: "string \<Rightarrow> ('w, sourceReaderResult) effect"
  dep_recordFailure :: "alertEvaluatorRunFence \<Rightarrow> recordAlertEvaluatorRunFailureInput \<Rightarrow> ('w, alertEvaluatorTerminalResult) effect"
  dep_recordSource :: "alertEvaluatorRunFence \<Rightarrow> recordAlertEvaluatorRunSourceInput \<Rightarrow> ('w, alertEvaluatorProofWriteResult) effect"
  dep_recordSuccess :: "alertEvaluatorRunFence \<Rightarrow> string \<Rightarrow> ('w, alertEvaluatorTerminalResult) effect"
  dep_recordSuppressedDecision :: "alertEvaluatorRunFence \<Rightarrow> recordSuppressedAlertEvaluatorDecisionInput \<Rightarrow> ('w, alertEvaluatorProofWriteResult) effect"
  dep_renewRun :: "alertEvaluatorRunFence \<Rightarrow> renewAlertEvaluatorRunInput \<Rightarrow> ('w, alertEvaluatorRunMutationResult) effect"
  dep_sealRun :: "alertEvaluatorRunFence \<Rightarrow> sealAlertEvaluatorRunInput \<Rightarrow> ('w, alertEvaluatorRunMutationResult) effect"

record 'w runAlertEvaluatorInput =
  rai_environment :: alertEnvironment
  rai_hmacKeyBase64Url :: "string option"
  rai_mode :: string
  rai_queueProviders :: "alertQueueName \<Rightarrow> ('w, js) effect"
  rai_scheduledTime :: js

datatype runAlertEvaluatorResult =
    Evaluator_contended
  | Evaluator_disabled
  | Evaluator_duplicate alertEvaluatorRun
  | Evaluator_initialized
  | Evaluator_succeeded alertEvaluatorRun

subsection \<open>The state of a run\<close>

datatype evaluatorCall =
    Initialize_runtime string "bool result"
  | Acquire_run acquireAlertEvaluatorRunInput "acquireAlertEvaluatorRunResult option result"
  | Read_metrics alertQueueName
  | Bind_asOf alertEvaluatorRunFence bindAlertEvaluatorRunAsOfInput "alertEvaluatorRunMutationResult result"
  | Renew_run alertEvaluatorRunFence renewAlertEvaluatorRunInput "alertEvaluatorRunMutationResult result"
  | Read_source alertEvaluatorSourceId string
  | Record_source alertEvaluatorRunFence recordAlertEvaluatorRunSourceInput "alertEvaluatorProofWriteResult result"
  | Read_snapshot alertLifecycleIdentity "alertLifecycleSnapshot result"
  | Seal_run alertEvaluatorRunFence sealAlertEvaluatorRunInput "alertEvaluatorRunMutationResult result"
  | Record_suppressed alertEvaluatorRunFence recordSuppressedAlertEvaluatorDecisionInput "alertEvaluatorProofWriteResult result"
  | Persist_decision persistAlertLifecycleDecisionInput "persistenceResult result"
  | Record_failure alertEvaluatorRunFence recordAlertEvaluatorRunFailureInput "alertEvaluatorTerminalResult result"
  | Record_success alertEvaluatorRunFence string "alertEvaluatorTerminalResult result"

record 'w evaluatorState =
  es_world :: 'w
  es_calls :: "evaluatorCall list"
  es_lastLogical :: "int option"
  es_lastRaw :: "int option"
  es_fence :: "alertEvaluatorRunFence option"
  es_failureAttempted :: bool
  es_ownershipLost :: bool
  es_terminal :: bool

definition initialEvaluatorState :: "'w \<Rightarrow> 'w evaluatorState" where
  "initialEvaluatorState world =
     \<lparr>es_world = world, es_calls = [], es_lastLogical = None, es_lastRaw = None, es_fence = None,
      es_failureAttempted = False, es_ownershipLost = False, es_terminal = False\<rparr>"

definition calls ::
  "('w, 'a) effect \<Rightarrow> ('a result \<Rightarrow> evaluatorCall) \<Rightarrow> ('w evaluatorState, 'a) effect" where
  "calls f label s =
     (case f (es_world s) of (r, w) \<Rightarrow> (r, s\<lparr>es_world := w, es_calls := es_calls s @ [label r]\<rparr>))"

definition fail :: "alertEvaluatorOrchestrationErrorCode \<Rightarrow> ('s, 'a) effect" where
  "fail code = throws (orchestrationError code)"

definition TRIGGER_CRON :: string where "TRIGGER_CRON = ''* * * * *''"
definition LEASE_DURATION_SECONDS :: int where "LEASE_DURATION_SECONDS = 240"
definition RENEWAL_THRESHOLD_MILLISECONDS :: int where "RENEWAL_THRESHOLD_MILLISECONDS = 120000"

subsection \<open>Clocks\<close>

definition expiryTime :: "string \<Rightarrow> int result" where
  "expiryTime value =
     (if canonical value then Inr (getTime value) else Inl (orchestrationError Clock_invalid))"

definition scheduledTimestamp :: "js \<Rightarrow> (string \<times> int) result" where
  "scheduledTimestamp value =
     (case safeInteger value of
        Some n \<Rightarrow> (if n < 0 \<or> \<not> time_in_range n then Inl (orchestrationError Clock_invalid) else Inr (iso_of_time n, n))
      | None \<Rightarrow> Inl (orchestrationError Clock_invalid))"

text \<open>\<open>monotonicClock\<close>: an instant is later than the one before, whatever the raw clock repeats.\<close>

definition logicalTime :: "int option \<Rightarrow> int \<Rightarrow> int" where
  "logicalTime lastLogical raw =
     (case lastLogical of None \<Rightarrow> raw | Some previous \<Rightarrow> (if raw > previous then raw else previous + 1))"

definition nextTime :: "'w alertEvaluatorDependencies \<Rightarrow> ('w evaluatorState, string \<times> int) effect" where
  "nextTime deps s =
     (case dep_clock deps (es_world s) of (reading, w) \<Rightarrow>
        let s' = s\<lparr>es_world := w\<rparr> in
        case reading of
          Inl _ \<Rightarrow> fail Clock_invalid s'
        | Inr None \<Rightarrow> fail Clock_invalid s'
        | Inr (Some raw) \<Rightarrow>
            let time = logicalTime (es_lastLogical s) raw in
            if (case es_lastRaw s of None \<Rightarrow> False | Some previous \<Rightarrow> raw < previous) then fail Clock_invalid s'
            else if \<bar>time\<bar> > MAX_SAFE_INTEGER \<or> \<not> time_in_range time then fail Clock_invalid s'
            else returns (iso_of_time time, time) (s'\<lparr>es_lastRaw := Some raw, es_lastLogical := Some time\<rparr>))"

subsection \<open>The lease\<close>

definition ownershipLost :: "('w evaluatorState, 'a) effect" where
  "ownershipLost = seq (modifies (\<lambda>s. s\<lparr>es_ownershipLost := True\<rparr>)) (\<lambda>_. fail Lease_lost)"

text \<open>What is done with the answer of a fenced write: the fence it returns replaces the old one.\<close>

definition adoptFence :: "alertEvaluatorRunMutationResult \<Rightarrow> ('w evaluatorState, unit) effect" where
  "adoptFence result =
     (case result of
        Run_lost \<Rightarrow> ownershipLost
      | Run_committed fence _ \<Rightarrow> modifies (\<lambda>s. s\<lparr>es_fence := Some fence\<rparr>)
      | Run_replayed fence _ \<Rightarrow> modifies (\<lambda>s. s\<lparr>es_fence := Some fence\<rparr>))"

definition proofWritten :: "alertEvaluatorProofWriteResult \<Rightarrow> ('w evaluatorState, unit) effect" where
  "proofWritten result = (if result = Proof_lost then ownershipLost else returns ())"

text \<open>The variable \<open>fence\<close>; where it is not tested in the source it has been assigned before.\<close>

definition fenced :: "(alertEvaluatorRunFence \<Rightarrow> ('w evaluatorState, 'a) effect) \<Rightarrow> ('w evaluatorState, 'a) effect" where
  "fenced k = seq (gets es_fence) (\<lambda>fence. case fence of None \<Rightarrow> fail Lease_lost | Some f \<Rightarrow> k f)"

definition maybeRenew :: "'w alertEvaluatorDependencies \<Rightarrow> ('w evaluatorState, unit) effect" where
  "maybeRenew deps =
     fenced (\<lambda>fence.
     seq (nextTime deps) (\<lambda>(checkedAt, checkedTime).
     seq (lifts (expiryTime (fence_leaseExpiresAt fence))) (\<lambda>expires.
       if expires - checkedTime > RENEWAL_THRESHOLD_MILLISECONDS then returns ()
       else
         let request = \<lparr>ren_leaseDurationSeconds = LEASE_DURATION_SECONDS, ren_renewedAt = checkedAt\<rparr>
         in seq (calls (dep_renewRun deps fence request) (Renew_run fence request)) adoptFence)))"

definition terminateFailure ::
  "'w alertEvaluatorDependencies \<Rightarrow> alertEvaluatorRunErrorCode \<Rightarrow> alertEvaluatorRunFailureStatus \<Rightarrow>
   ('w evaluatorState, bool) effect" where
  "terminateFailure deps code outcome =
     seq (gets (\<lambda>s. s)) (\<lambda>s.
       if es_fence s = None \<or> es_ownershipLost s \<or> es_terminal s then returns (es_terminal s)
       else if es_failureAttempted s then returns False
       else
         seq (nextTime deps) (\<lambda>(completedAt, _).
         seq (modifies (\<lambda>s. s\<lparr>es_failureAttempted := True\<rparr>)) (\<lambda>_.
         let request = \<lparr>fail_completedAt = completedAt, fail_errorCode = code, fail_status = outcome\<rparr> in
         fenced (\<lambda>fence.
         seq (calls (dep_recordFailure deps fence request) (Record_failure fence request)) (\<lambda>result.
           if result = Terminal_lost
           then seq (modifies (\<lambda>s. s\<lparr>es_ownershipLost := True\<rparr>)) (\<lambda>_. returns False)
           else seq (modifies (\<lambda>s. s\<lparr>es_terminal := True\<rparr>)) (\<lambda>_. returns True))))))"

subsection \<open>Collecting the sources\<close>

definition collectQueueMetricBarrier ::
  "'w alertEvaluatorDependencies \<Rightarrow> 'w runAlertEvaluatorInput \<Rightarrow> ('w evaluatorState, string \<times> js result list) effect" where
  "collectQueueMetricBarrier deps input =
     seq (for_each (\<lambda>queue. settled (calls (rai_queueProviders input queue) (\<lambda>_. Read_metrics queue))) ALERT_QUEUE_NAMES) (\<lambda>metrics.
     seq (nextTime deps) (\<lambda>(asOf, _). returns (asOf, metrics)))"

definition cachedProvider :: "js result \<Rightarrow> js result" where
  "cachedProvider metric = (case metric of Inr value \<Rightarrow> Inr value | Inl _ \<Rightarrow> Inl (Error ''queue metrics unavailable''))"

definition collectSource ::
  "digestFunction \<Rightarrow> alertEvaluatorSourceId \<Rightarrow> ('s, sourceReaderResult) effect \<Rightarrow> string \<Rightarrow> ('s, collectedSource) effect" where
  "collectSource digest sourceId reader asOf =
     seq (settled reader) (\<lambda>reading. lifts (case reading of
         Inr result \<Rightarrow> completedSource digest sourceId result asOf
       | Inl err \<Rightarrow> failedSource digest sourceId (sourceErrorStatus err)))"

definition queueReading :: "queueMetricsAlertSourceResult \<Rightarrow> sourceReaderResult result" where
  "queueReading source =
     (if qsr_persistence source = Sample_unknown
      then Inl (CodedError ''AlertQueueSourceRepositoryError'' ''source_unavailable'')
      else Inr \<lparr>read_incomplete = [], read_observations = [qsr_observation source]\<rparr>)"

definition collectQueueSources ::
  "digestFunction \<Rightarrow> 'w alertEvaluatorDependencies \<Rightarrow> string \<times> js result list \<Rightarrow>
   ('w evaluatorState, collectedSource list) effect" where
  "collectQueueSources digest deps barrier =
     for_each (\<lambda>(queue, metric).
       collectSource digest (Queue_source queue)
         (seq (calls (dep_readQueueSource deps (cachedProvider metric) queue (fst barrier))
             (\<lambda>_. Read_source (Queue_source queue) (fst barrier)))
           (\<lambda>source. lifts (queueReading source)))
         (fst barrier))
       (zip ALERT_QUEUE_NAMES (snd barrier))"

definition sourceReaders ::
  "'w alertEvaluatorDependencies \<Rightarrow> 'w runAlertEvaluatorInput \<Rightarrow> string \<Rightarrow>
   (alertEvaluatorSourceId \<times> ('w, sourceReaderResult) effect) list" where
  "sourceReaders deps input asOf =
     (let hashed = \<lparr>hsi_asOf = asOf, hsi_environment = rai_environment input,
        hsi_hmacKeyBase64Url = rai_hmacKeyBase64Url input\<rparr>
      in [(D1_audit, dep_readAuditSource deps hashed), (D1_oauth_client_report, dep_readOAuthSource deps hashed),
          (D1_security_fanout_gap, dep_readFanoutSource deps asOf), (D1_logout_delivery, dep_readLogoutSource deps hashed),
          (D1_alert_runtime, dep_readRuntimeSource deps asOf)])"

definition collectD1Sources ::
  "digestFunction \<Rightarrow> 'w alertEvaluatorDependencies \<Rightarrow> 'w runAlertEvaluatorInput \<Rightarrow> string \<Rightarrow>
   ('w evaluatorState, collectedSource list) effect" where
  "collectD1Sources digest deps input asOf =
     for_each (\<lambda>(sourceId, reader). collectSource digest sourceId (calls reader (\<lambda>_. Read_source sourceId asOf)) asOf)
       (sourceReaders deps input asOf)"

subsection \<open>Plans\<close>

record plannedDecision =
  plan_decision :: alertLifecycleResult
  plan_evaluation :: alertRuleEvaluation
  plan_observation :: alertRuleObservation
  plan_proof :: alertEvaluatorDecisionProofValue
  plan_snapshot :: alertLifecycleSnapshot
  plan_sourceId :: alertEvaluatorSourceId
  plan_sourcePartial :: bool

definition readSnapshotFor ::
  "'w alertEvaluatorDependencies \<Rightarrow> 'w runAlertEvaluatorInput \<Rightarrow> alertRuleObservation \<Rightarrow>
   ('w evaluatorState, alertLifecycleSnapshot) effect" where
  "readSnapshotFor deps input observation =
     (let i = \<lparr>id_dimension = obs_dimension observation, id_ruleId = obs_ruleId observation\<rparr>
      in calls (dep_readLifecycleSnapshot deps (rai_environment input) i) (Read_snapshot i))"

definition workItems :: "collectedSource list \<Rightarrow> (alertRuleObservation \<times> collectedSource) list" where
  "workItems sources =
     toSorted (\<lambda>left right. compareObservations (fst left) (fst right))
       (concat (map (\<lambda>source. map (\<lambda>observation. (observation, source)) (cs_planningObservations source)) sources))"

definition planItem ::
  "digestFunction \<Rightarrow> 'w alertEvaluatorDependencies \<Rightarrow> 'w runAlertEvaluatorInput \<Rightarrow> string \<Rightarrow>
   nat \<times> alertRuleObservation \<times> collectedSource \<Rightarrow> ('w evaluatorState, plannedDecision) effect" where
  "planItem digest deps input asOf = (\<lambda>(ordinal, observation, source).
     seq (lifts (evaluateAlertRule (jsOfObservation observation))) (\<lambda>evaluation.
       if eval_asOf evaluation \<noteq> asOf then fail Evaluator_failed
       else
     seq (readSnapshotFor deps input observation) (\<lambda>snapshot.
     seq (lifts (advanceAlertLifecycle (lifecycleInput asOf (jsOfObservation observation) (jsOfState (snap_previous snapshot))))) (\<lambda>decision.
     let sourcePartial = observationIsPartial source observation;
         disposition = dispositionOf sourcePartial evaluation (snap_previous snapshot) decision in
     seq (lifts (decisionProof digest (rai_environment input) observation evaluation decision disposition
         (int ordinal) (cs_sourceId source))) (\<lambda>proof.
       returns \<lparr>plan_decision = decision, plan_evaluation = evaluation, plan_observation = observation,
         plan_proof = proof, plan_snapshot = snapshot, plan_sourceId = cs_sourceId source,
         plan_sourcePartial = sourcePartial\<rparr>)))))"

definition planDecisions ::
  "digestFunction \<Rightarrow> 'w alertEvaluatorDependencies \<Rightarrow> 'w runAlertEvaluatorInput \<Rightarrow> collectedSource list \<Rightarrow> string \<Rightarrow>
   ('w evaluatorState, plannedDecision list) effect" where
  "planDecisions digest deps input sources asOf =
     for_each (planItem digest deps input asOf) (enumerate 0 (workItems sources))"

definition sameProof :: "alertEvaluatorDecisionProofValue \<Rightarrow> alertEvaluatorDecisionProofValue \<Rightarrow> bool" where
  "sameProof left right \<longleftrightarrow>
     dp_decisionSha256 left = dp_decisionSha256 right \<and> dp_disposition left = dp_disposition right \<and>
     dp_evaluationSha256 left = dp_evaluationSha256 right \<and> dp_identitySha256 left = dp_identitySha256 right \<and>
     dp_ordinal left = dp_ordinal right \<and> dp_sourceId left = dp_sourceId right"

definition recomputePlan ::
  "digestFunction \<Rightarrow> 'w alertEvaluatorDependencies \<Rightarrow> 'w runAlertEvaluatorInput \<Rightarrow> plannedDecision \<Rightarrow>
   ('w evaluatorState, plannedDecision) effect" where
  "recomputePlan digest deps input plan =
     seq (readSnapshotFor deps input (plan_observation plan)) (\<lambda>snapshot.
     seq (lifts (evaluateAlertRule (jsOfObservation (plan_observation plan)))) (\<lambda>evaluation.
     seq (lifts (advanceAlertLifecycle (lifecycleInput (eval_asOf evaluation) (jsOfObservation (plan_observation plan))
         (jsOfState (snap_previous snapshot))))) (\<lambda>decision.
     let disposition = dispositionOf (plan_sourcePartial plan) evaluation (snap_previous snapshot) decision in
     seq (lifts (decisionProof digest (rai_environment input) (plan_observation plan) evaluation decision disposition
         (dp_ordinal (plan_proof plan)) (plan_sourceId plan))) (\<lambda>proof.
       returns (plan\<lparr>plan_decision := decision, plan_evaluation := evaluation, plan_proof := proof,
         plan_snapshot := snapshot\<rparr>)))))"

subsection \<open>The stages of a run\<close>

text \<open>Bound to the instant of the queue metrics, the run reads its sources.\<close>

definition bindBarrier ::
  "'w alertEvaluatorDependencies \<Rightarrow> string \<Rightarrow> ('w evaluatorState, unit) effect" where
  "bindBarrier deps asOf =
     seq (nextTime deps) (\<lambda>(boundAt, _).
     let request = \<lparr>bind_asOf = asOf, bind_boundAt = boundAt\<rparr> in
     fenced (\<lambda>fence.
     seq (calls (dep_bindRunAsOf deps fence request) (Bind_asOf fence request)) adoptFence))"

definition collectSources ::
  "digestFunction \<Rightarrow> 'w alertEvaluatorDependencies \<Rightarrow> 'w runAlertEvaluatorInput \<Rightarrow> string \<times> js result list \<Rightarrow>
   ('w evaluatorState, collectedSource list) effect" where
  "collectSources digest deps input barrier =
     seq (collectQueueSources digest deps barrier) (\<lambda>queueSources.
     seq (collectD1Sources digest deps input (fst barrier)) (\<lambda>d1.
     seq (lifts (invalidateConflictingSources digest (queueSources @ d1))) (\<lambda>sources.
       if map cs_sourceId sources \<noteq> ALERT_EVALUATOR_SOURCE_IDS then fail Evaluator_failed
       else lifts (applyWorkCap digest sources))))"

definition recordSource ::
  "'w alertEvaluatorDependencies \<Rightarrow> string \<Rightarrow> collectedSource \<Rightarrow> ('w evaluatorState, unit) effect" where
  "recordSource deps asOf source =
     fenced (\<lambda>fence.
     seq (nextTime deps) (\<lambda>(recordedAt, _).
     let request = \<lparr>rsi_asOf = asOf, rsi_proof = cs_proof source, rsi_recordedAt = recordedAt\<rparr> in
     seq (calls (dep_recordSource deps fence request) (Record_source fence request)) proofWritten))"

definition sealPlans ::
  "'w alertEvaluatorDependencies \<Rightarrow> plannedDecision list \<Rightarrow> ('w evaluatorState, unit) effect" where
  "sealPlans deps plans =
     fenced (\<lambda>fence.
     seq (nextTime deps) (\<lambda>(sealedAt, _).
     let request = \<lparr>seal_decisions = map plan_proof plans, seal_sealedAt = sealedAt\<rparr> in
     seq (calls (dep_sealRun deps fence request) (Seal_run fence request)) adoptFence))"

definition suppressDecision ::
  "'w alertEvaluatorDependencies \<Rightarrow> plannedDecision \<Rightarrow> string \<Rightarrow> ('w evaluatorState, unit) effect" where
  "suppressDecision deps plan recordedAt =
     fenced (\<lambda>fence.
     let request = \<lparr>sup_asOf = eval_asOf (plan_evaluation plan),
       sup_proof = (plan_proof plan)\<lparr>dp_disposition := Suppressed_partial\<rparr>, sup_recordedAt = recordedAt\<rparr> in
     seq (calls (dep_recordSuppressedDecision deps fence request) (Record_suppressed fence request)) proofWritten)"

definition persistPlan ::
  "'w alertEvaluatorDependencies \<Rightarrow> 'w runAlertEvaluatorInput \<Rightarrow> plannedDecision \<Rightarrow> string \<Rightarrow>
   ('w evaluatorState, persistenceResult) effect" where
  "persistPlan deps input plan recordedAt =
     fenced (\<lambda>fence.
     let request = \<lparr>pli_decision = plan_decision plan, pli_environment = rai_environment input,
       pli_evaluation = plan_evaluation plan, pli_expected = snap_expected (plan_snapshot plan),
       pli_runProof = \<lparr>rp_fence = fence,
         rp_proof = (if dp_disposition (plan_proof plan) = Applied_decision
           then (plan_proof plan)\<lparr>dp_disposition := Applied_decision\<rparr>
           else (plan_proof plan)\<lparr>dp_disposition := No_state_change\<rparr>),
         rp_recordedAt = recordedAt\<rparr>\<rparr>
     in calls (dep_persistDecision deps request) (Persist_decision request))"

text \<open>A plan that lost the race for its row is decided again, and only the sealed decision is written.\<close>

definition retryPlan ::
  "digestFunction \<Rightarrow> 'w alertEvaluatorDependencies \<Rightarrow> 'w runAlertEvaluatorInput \<Rightarrow> plannedDecision \<Rightarrow>
   ('w evaluatorState, persistenceResult) effect" where
  "retryPlan digest deps input plan =
     seq (recomputePlan digest deps input plan) (\<lambda>recomputed.
       if \<not> sameProof (plan_proof recomputed) (plan_proof plan) then fail Evaluator_failed
       else
     seq (maybeRenew deps) (\<lambda>_.
     seq (nextTime deps) (\<lambda>(recordedAt, _).
       persistPlan deps input recomputed recordedAt)))"

definition settlePlan ::
  "digestFunction \<Rightarrow> 'w alertEvaluatorDependencies \<Rightarrow> 'w runAlertEvaluatorInput \<Rightarrow> nat \<times> plannedDecision \<Rightarrow>
   ('w evaluatorState, unit) effect" where
  "settlePlan digest deps input = (\<lambda>(index, plan).
     seq (if index > 0 \<and> index mod 25 = 0 then maybeRenew deps else returns ()) (\<lambda>_.
     seq (nextTime deps) (\<lambda>(recordedAt, _).
       if dp_disposition (plan_proof plan) = Suppressed_partial then suppressDecision deps plan recordedAt
       else
     seq (persistPlan deps input plan recordedAt) (\<lambda>result.
     seq (if result = Conflict then retryPlan digest deps input plan else returns result) (\<lambda>result.
       if result = Conflict then fail Evaluator_failed else returns ())))))"

text \<open>How a run ends: the failure its sources call for, or the success.\<close>

definition finishRun ::
  "'w alertEvaluatorDependencies \<Rightarrow> collectedSource list \<Rightarrow> ('w evaluatorState, runAlertEvaluatorResult) effect" where
  "finishRun deps sources =
     (case failureDisposition sources of
        Some (code, errorCode, outcome) \<Rightarrow>
          seq (catches (terminateFailure deps errorCode outcome)
            (\<lambda>err. seq (gets es_failureAttempted) (\<lambda>attempted. if attempted then fail code else throws err))) (\<lambda>terminalized.
            if \<not> terminalized then fail Lease_lost else fail code)
      | None \<Rightarrow>
          seq (nextTime deps) (\<lambda>(completedAt, _).
          fenced (\<lambda>fence.
          seq (calls (dep_recordSuccess deps fence completedAt) (Record_success fence completedAt)) (\<lambda>success.
            case success of
              Terminal_lost \<Rightarrow> ownershipLost
            | Terminal_committed _ run \<Rightarrow> seq (modifies (\<lambda>s. s\<lparr>es_terminal := True\<rparr>)) (\<lambda>_. returns (Evaluator_succeeded run))
            | Terminal_replayed _ run \<Rightarrow> seq (modifies (\<lambda>s. s\<lparr>es_terminal := True\<rparr>)) (\<lambda>_. returns (Evaluator_succeeded run))))))"

definition evaluateSources ::
  "digestFunction \<Rightarrow> 'w alertEvaluatorDependencies \<Rightarrow> 'w runAlertEvaluatorInput \<Rightarrow>
   ('w evaluatorState, runAlertEvaluatorResult) effect" where
  "evaluateSources digest deps input =
     seq (collectQueueMetricBarrier deps input) (\<lambda>barrier.
     seq (bindBarrier deps (fst barrier)) (\<lambda>_.
     seq (maybeRenew deps) (\<lambda>_.
     seq (collectSources digest deps input barrier) (\<lambda>sources.
     seq (maybeRenew deps) (\<lambda>_.
     seq (for_each (recordSource deps (fst barrier)) sources) (\<lambda>_.
     seq (maybeRenew deps) (\<lambda>_.
     seq (planDecisions digest deps input sources (fst barrier)) (\<lambda>plans.
     seq (maybeRenew deps) (\<lambda>_.
     seq (sealPlans deps plans) (\<lambda>_.
     seq (for_each (settlePlan digest deps input) (enumerate 0 plans)) (\<lambda>_.
     seq (maybeRenew deps) (\<lambda>_.
       finishRun deps sources))))))))))))"

definition acquireAndEvaluate ::
  "digestFunction \<Rightarrow> 'w alertEvaluatorDependencies \<Rightarrow> 'w runAlertEvaluatorInput \<Rightarrow> string \<Rightarrow> string \<Rightarrow>
   ('w evaluatorState, runAlertEvaluatorResult) effect" where
  "acquireAndEvaluate digest deps input scheduledAt startedAt =
     seq (calls (dep_initializeRuntime deps startedAt) (Initialize_runtime startedAt)) (\<lambda>initialized.
       if initialized then returns Evaluator_initialized
       else
         let request = \<lparr>acq_leaseDurationSeconds = LEASE_DURATION_SECONDS, acq_scheduledAt = scheduledAt,
           acq_startedAt = startedAt, acq_triggerCron = TRIGGER_CRON\<rparr> in
         seq (calls (dep_acquireRun deps request) (Acquire_run request)) (\<lambda>acquired.
           case acquired of
             None \<Rightarrow> returns Evaluator_contended
           | Some (Duplicate_run run) \<Rightarrow> returns (Evaluator_duplicate run)
           | Some (Acquired_run fence _) \<Rightarrow>
               seq (modifies (\<lambda>s. s\<lparr>es_fence := Some fence\<rparr>)) (\<lambda>_. evaluateSources digest deps input)))"

text \<open>The code an exception leaves with: its own, if it is an orchestration error.\<close>

definition orchestrationCode :: "js_error \<Rightarrow> alertEvaluatorOrchestrationErrorCode" where
  "orchestrationCode err =
     (case find (\<lambda>code. orchestrationError code = err)
         [Clock_invalid, Evaluator_failed, Lease_lost, Metrics_unavailable, Source_incomplete] of
        Some code \<Rightarrow> code
      | None \<Rightarrow> Evaluator_failed)"

definition failRun :: "'w alertEvaluatorDependencies \<Rightarrow> js_error \<Rightarrow> ('w evaluatorState, 'a) effect" where
  "failRun deps err =
     seq (gets (\<lambda>s. s)) (\<lambda>s.
       if \<not> es_terminal s \<and> \<not> es_ownershipLost s \<and> es_fence s \<noteq> None \<and> \<not> es_failureAttempted s
       then
         seq (settled (terminateFailure deps Run_evaluator_failed Failing)) (\<lambda>terminated.
         seq (gets es_ownershipLost) (\<lambda>lost.
           fail (if terminated = Inr False \<and> lost then Lease_lost else orchestrationCode err)))
       else fail (orchestrationCode err))"

definition runInObserveMode ::
  "digestFunction \<Rightarrow> 'w alertEvaluatorDependencies \<Rightarrow> 'w runAlertEvaluatorInput \<Rightarrow>
   ('w evaluatorState, runAlertEvaluatorResult) effect" where
  "runInObserveMode digest deps input =
     seq (lifts (scheduledTimestamp (rai_scheduledTime input))) (\<lambda>(scheduledAt, scheduledTime).
     seq (nextTime deps) (\<lambda>(startedAt, startedTime).
       if scheduledTime > startedTime then fail Clock_invalid
       else catches (acquireAndEvaluate digest deps input scheduledAt startedAt) (failRun deps)))"

definition runAlertEvaluator ::
  "digestFunction \<Rightarrow> 'w alertEvaluatorDependencies \<Rightarrow> 'w runAlertEvaluatorInput \<Rightarrow>
   ('w evaluatorState, runAlertEvaluatorResult) effect" where
  "runAlertEvaluator digest deps input =
     (if rai_mode input = ''disabled'' then returns Evaluator_disabled
      else if rai_mode input \<noteq> ''observe_only'' then fail Evaluator_failed
      else runInObserveMode digest deps input)"

end
