(* ===== verification/Alert_Evaluator_Protocol.thy ===== *)
theory Alert_Evaluator_Protocol
  imports Alert_Evaluator_Run Step_System
begin

section \<open>The protocol of a run\<close>

text \<open>
  What the repositories may rely on: the calls of one run, in order, are a word of this automaton.
  Its state is the stage the run is in, the fence it holds, the last instant it issued, and how often
  it renewed its lease and lost a race for a row. A step checks the arguments of the call and
  follows its answer; \<open>None\<close> is a call the protocol does not allow.
\<close>

datatype runEnding =
    Returned runAlertEvaluatorResult
  | Lost_lease
  | Failed_with alertEvaluatorRunErrorCode
  | Aborted

datatype settleAttempt = First_attempt | Conflicted | Reread

datatype runStage =
    Starting
  | Initializing
  | Metering nat
  | Reading string nat
  | Recording string "alertEvaluatorSourceProofValue list"
  | Planning string "alertEvaluatorSourceProofValue list" nat
  | Settling string "alertEvaluatorSourceProofValue list" "alertEvaluatorDecisionProofValue list" nat settleAttempt
  | Failing_run
  | Finished runEnding

record runProtocol =
  pr_stage :: runStage
  pr_fence :: "alertEvaluatorRunFence option"
  pr_time :: int
  pr_renewals :: nat
  pr_conflicts :: nat

definition initialProtocol :: runProtocol where
  "initialProtocol =
     \<lparr>pr_stage = Starting, pr_fence = None, pr_time = - MAX_TIME - 1, pr_renewals = 0, pr_conflicts = 0\<rparr>"

text \<open>An instant of a call is later than every instant issued before.\<close>

definition issued :: "runProtocol \<Rightarrow> string \<Rightarrow> bool" where
  "issued p at \<longleftrightarrow> canonical at \<and> pr_time p < getTime at"

definition holds :: "runProtocol \<Rightarrow> alertEvaluatorRunFence \<Rightarrow> string \<Rightarrow> bool" where
  "holds p fence at \<longleftrightarrow> pr_fence p = Some fence \<and> issued p at"

definition moves :: "runProtocol \<Rightarrow> string \<Rightarrow> runStage \<Rightarrow> runProtocol" where
  "moves p at stage = p\<lparr>pr_stage := stage, pr_time := getTime at\<rparr>"

fun afterMutation :: "runProtocol \<Rightarrow> alertEvaluatorRunMutationResult result \<Rightarrow> runProtocol" where
  "afterMutation p (Inl _) = p\<lparr>pr_stage := Failing_run\<rparr>"
| "afterMutation p (Inr Run_lost) = p\<lparr>pr_stage := Finished Lost_lease\<rparr>"
| "afterMutation p (Inr (Run_committed fence _)) = p\<lparr>pr_fence := Some fence\<rparr>"
| "afterMutation p (Inr (Run_replayed fence _)) = p\<lparr>pr_fence := Some fence\<rparr>"

fun afterWrite :: "runProtocol \<Rightarrow> alertEvaluatorProofWriteResult result \<Rightarrow> runProtocol" where
  "afterWrite p (Inl _) = p\<lparr>pr_stage := Failing_run\<rparr>"
| "afterWrite p (Inr Proof_lost) = p\<lparr>pr_stage := Finished Lost_lease\<rparr>"
| "afterWrite p (Inr _) = p"

fun renewable :: "runStage \<Rightarrow> bool" where
  "renewable (Reading _ k) = (k = 0 \<or> k = 9)"
| "renewable (Planning _ _ _) = True"
| "renewable (Settling _ _ _ _ attempt) = (attempt \<noteq> Conflicted)"
| "renewable _ = False"

fun recordingOf :: "runStage \<Rightarrow> (string \<times> alertEvaluatorSourceProofValue list) option" where
  "recordingOf (Reading asOf k) = (if k = 9 then Some (asOf, []) else None)"
| "recordingOf (Recording asOf proofs) = Some (asOf, proofs)"
| "recordingOf _ = None"

definition recordedStage :: "string \<Rightarrow> alertEvaluatorSourceProofValue list \<Rightarrow> runStage" where
  "recordedStage asOf proofs =
     (if length proofs = length ALERT_EVALUATOR_SOURCE_IDS then Planning asOf proofs 0 else Recording asOf proofs)"

text \<open>A proof that was sealed is the proof of the decision that is written.\<close>

definition provesDecision ::
  "digestFunction \<Rightarrow> alertEvaluatorDecisionProofValue \<Rightarrow> alertLifecycleResult \<Rightarrow> alertRuleEvaluation \<Rightarrow> bool" where
  "provesDecision digest proof decision evaluation \<longleftrightarrow>
     canonicalAlertEvaluatorProofDigest digest Decision_domain (jsOfDecision decision) = Inr (dp_decisionSha256 proof) \<and>
     canonicalAlertEvaluatorProofDigest digest Evaluation_domain (jsOfEvaluation evaluation) = Inr (dp_evaluationSha256 proof)"

text \<open>The failure a run of these proofs has to record; \<open>None\<close> if it may succeed.\<close>

definition calledFailure ::
  "alertEvaluatorSourceProofValue list \<Rightarrow> (alertEvaluatorRunErrorCode \<times> alertEvaluatorRunFailureStatus) option" where
  "calledFailure proofs =
     (let statuses = map sp_status proofs in
      if Source_invalid \<in> set statuses then Some (Run_evaluator_failed, Failing)
      else if Source_unavailable \<in> set statuses then Some (Run_metrics_unavailable, Run_unavailable)
      else if Source_partial \<in> set statuses then Some (Run_source_incomplete, Degraded)
      else None)"

fun settledAll :: "runStage \<Rightarrow> alertEvaluatorSourceProofValue list option" where
  "settledAll (Settling _ proofs decisions k attempt) =
     (if k = length decisions \<and> attempt = First_attempt then Some proofs else None)"
| "settledAll _ = None"

fun finished :: "runStage \<Rightarrow> bool" where
  "finished (Finished _) = True"
| "finished _ = False"

definition failureAllowed :: "runStage \<Rightarrow> alertEvaluatorRunErrorCode \<times> alertEvaluatorRunFailureStatus \<Rightarrow> bool" where
  "failureAllowed stage failure \<longleftrightarrow>
     \<not> finished stage \<and>
     (failure = (Run_evaluator_failed, Failing) \<or>
      (case settledAll stage of None \<Rightarrow> False | Some proofs \<Rightarrow> calledFailure proofs = Some failure))"

definition persistedStage ::
  "string \<Rightarrow> alertEvaluatorSourceProofValue list \<Rightarrow> alertEvaluatorDecisionProofValue list \<Rightarrow> nat \<Rightarrow> settleAttempt \<Rightarrow>
   runProtocol \<Rightarrow> persistenceResult result \<Rightarrow> runProtocol" where
  "persistedStage asOf proofs decisions k attempt p answer =
     (case answer of
        Inl _ \<Rightarrow> p\<lparr>pr_stage := Failing_run\<rparr>
      | Inr result \<Rightarrow>
          (if result = Conflict
           then if attempt = First_attempt
             then p\<lparr>pr_stage := Settling asOf proofs decisions k Conflicted, pr_conflicts := Suc (pr_conflicts p)\<rparr>
             else p\<lparr>pr_stage := Failing_run\<rparr>
           else p\<lparr>pr_stage := Settling asOf proofs decisions (Suc k) First_attempt\<rparr>))"

fun terminated :: "(alertEvaluatorRun \<Rightarrow> runEnding) \<Rightarrow> alertEvaluatorTerminalResult \<Rightarrow> runEnding" where
  "terminated ending Terminal_lost = Lost_lease"
| "terminated ending (Terminal_committed _ run) = ending run"
| "terminated ending (Terminal_replayed _ run) = ending run"

fun protocolStep :: "digestFunction \<Rightarrow> runProtocol \<Rightarrow> evaluatorCall \<Rightarrow> runProtocol option" where
  "protocolStep digest p (Initialize_runtime startedAt answer) =
     (if pr_stage p = Starting \<and> issued p startedAt
      then Some (moves p startedAt (case answer of
          Inl _ \<Rightarrow> Finished Aborted
        | Inr initialized \<Rightarrow> (if initialized then Finished (Returned Evaluator_initialized) else Initializing)))
      else None)"
| "protocolStep digest p (Acquire_run request answer) =
     (if pr_stage p = Initializing \<and> getTime (acq_startedAt request) = pr_time p \<and>
         getTime (acq_scheduledAt request) \<le> pr_time p
      then Some (case answer of
          Inl _ \<Rightarrow> p\<lparr>pr_stage := Finished Aborted\<rparr>
        | Inr None \<Rightarrow> p\<lparr>pr_stage := Finished (Returned Evaluator_contended)\<rparr>
        | Inr (Some (Duplicate_run run)) \<Rightarrow> p\<lparr>pr_stage := Finished (Returned (Evaluator_duplicate run))\<rparr>
        | Inr (Some (Acquired_run fence _)) \<Rightarrow> p\<lparr>pr_stage := Metering 0, pr_fence := Some fence\<rparr>)
      else None)"
| "protocolStep digest p (Read_metrics queue) =
     (case pr_stage p of
        Metering k \<Rightarrow>
          (if k < length ALERT_QUEUE_NAMES \<and> ALERT_QUEUE_NAMES ! k = queue
           then Some (p\<lparr>pr_stage := Metering (Suc k)\<rparr>) else None)
      | _ \<Rightarrow> None)"
| "protocolStep digest p (Bind_asOf fence request answer) =
     (if pr_stage p = Metering (length ALERT_QUEUE_NAMES) \<and> holds p fence (bind_asOf request) \<and>
         canonical (bind_boundAt request) \<and> getTime (bind_asOf request) < getTime (bind_boundAt request)
      then Some (afterMutation (moves p (bind_boundAt request) (Reading (bind_asOf request) 0)) answer)
      else None)"
| "protocolStep digest p (Renew_run fence request answer) =
     (if renewable (pr_stage p) \<and> holds p fence (ren_renewedAt request) \<and> pr_renewals p < 5 + pr_conflicts p \<and>
         getTime (fence_leaseExpiresAt fence) - getTime (ren_renewedAt request) \<le> RENEWAL_THRESHOLD_MILLISECONDS
      then Some (afterMutation ((moves p (ren_renewedAt request) (pr_stage p))\<lparr>pr_renewals := Suc (pr_renewals p)\<rparr>) answer)
      else None)"
| "protocolStep digest p (Read_source sourceId asOf) =
     (case pr_stage p of
        Reading bound k \<Rightarrow>
          (if k < length ALERT_EVALUATOR_SOURCE_IDS \<and> ALERT_EVALUATOR_SOURCE_IDS ! k = sourceId \<and> bound = asOf
           then Some (p\<lparr>pr_stage := Reading bound (Suc k)\<rparr>) else None)
      | _ \<Rightarrow> None)"
| "protocolStep digest p (Record_source fence request answer) =
     (case recordingOf (pr_stage p) of
        Some (asOf, proofs) \<Rightarrow>
          (if holds p fence (rsi_recordedAt request) \<and> rsi_asOf request = asOf \<and>
              length proofs < length ALERT_EVALUATOR_SOURCE_IDS \<and>
              sp_sourceId (rsi_proof request) = ALERT_EVALUATOR_SOURCE_IDS ! length proofs
           then Some (afterWrite (moves p (rsi_recordedAt request) (recordedStage asOf (proofs @ [rsi_proof request]))) answer)
           else None)
      | None \<Rightarrow> None)"
| "protocolStep digest p (Read_snapshot i answer) =
     (case pr_stage p of
        Planning asOf proofs n \<Rightarrow>
          (if n < 20
           then Some (p\<lparr>pr_stage := (case answer of Inl _ \<Rightarrow> Failing_run | Inr _ \<Rightarrow> Planning asOf proofs (Suc n))\<rparr>)
           else None)
      | Settling asOf proofs decisions k Conflicted \<Rightarrow>
          Some (p\<lparr>pr_stage := (case answer of Inl _ \<Rightarrow> Failing_run | Inr _ \<Rightarrow> Settling asOf proofs decisions k Reread)\<rparr>)
      | _ \<Rightarrow> None)"
| "protocolStep digest p (Seal_run fence request answer) =
     (case pr_stage p of
        Planning asOf proofs n \<Rightarrow>
          (if holds p fence (seal_sealedAt request) \<and> map dp_ordinal (seal_decisions request) = map int [0..<n]
           then Some (afterMutation (moves p (seal_sealedAt request)
             (Settling asOf proofs (seal_decisions request) 0 First_attempt)) answer)
           else None)
      | _ \<Rightarrow> None)"
| "protocolStep digest p (Record_suppressed fence request answer) =
     (case pr_stage p of
        Settling asOf proofs decisions k First_attempt \<Rightarrow>
          (if holds p fence (sup_recordedAt request) \<and> sup_asOf request = asOf \<and>
              k < length decisions \<and> decisions ! k = sup_proof request \<and>
              dp_disposition (sup_proof request) = Suppressed_partial
           then Some (afterWrite (moves p (sup_recordedAt request)
             (Settling asOf proofs decisions (Suc k) First_attempt)) answer)
           else None)
      | _ \<Rightarrow> None)"
| "protocolStep digest p (Persist_decision request answer) =
     (case pr_stage p of
        Settling asOf proofs decisions k attempt \<Rightarrow>
          (let proof = rp_proof (pli_runProof request) in
           if attempt \<noteq> Conflicted \<and> holds p (rp_fence (pli_runProof request)) (rp_recordedAt (pli_runProof request)) \<and>
              eval_asOf (pli_evaluation request) = asOf \<and> k < length decisions \<and> decisions ! k = proof \<and>
              dp_disposition proof \<noteq> Suppressed_partial \<and>
              provesDecision digest proof (pli_decision request) (pli_evaluation request)
           then Some (persistedStage asOf proofs decisions k attempt
             (moves p (rp_recordedAt (pli_runProof request)) (pr_stage p)) answer)
           else None)
      | _ \<Rightarrow> None)"
| "protocolStep digest p (Record_failure fence request answer) =
     (if holds p fence (fail_completedAt request) \<and>
         failureAllowed (pr_stage p) (fail_errorCode request, fail_status request)
      then Some (moves p (fail_completedAt request) (Finished (case answer of
          Inl _ \<Rightarrow> Failed_with (fail_errorCode request)
        | Inr result \<Rightarrow> terminated (\<lambda>_. Failed_with (fail_errorCode request)) result)))
      else None)"
| "protocolStep digest p (Record_success fence completedAt answer) =
     (case settledAll (pr_stage p) of
        None \<Rightarrow> None
      | Some proofs \<Rightarrow>
          (if calledFailure proofs = None \<and> holds p fence completedAt
           then Some (moves p completedAt (case answer of
               Inl _ \<Rightarrow> Failing_run
             | Inr result \<Rightarrow> Finished (terminated (\<lambda>run. Returned (Evaluator_succeeded run)) result)))
           else None))"

abbreviation follows :: "digestFunction \<Rightarrow> runProtocol \<Rightarrow> evaluatorCall list \<Rightarrow> runProtocol option" where
  "follows digest \<equiv> replayAll (protocolStep digest)"

lemmas follows_snoc = replayAll_snoc

end
