(* ===== verification/Alert_Evaluator_Conduct.thy ===== *)
theory Alert_Evaluator_Conduct
  imports Alert_Evaluator_Protocol Alert_Evaluator_Cap
begin

section \<open>A run keeps the protocol\<close>

text \<open>
  The contracts of the stages of a run. \<open>inStage\<close> says that the calls so far are allowed, where the
  protocol stands, that the run holds the fence the protocol holds, and which instants were issued but
  not used yet; \<open>stopped\<close> what is known when an exception is thrown.
\<close>

definition instants :: "int \<Rightarrow> string list \<Rightarrow> int option \<Rightarrow> bool" where
  "instants from at latest \<longleftrightarrow>
     list_all canonical at \<and> sorted_wrt (<) (from # map getTime at) \<and>
     (case latest of
        None \<Rightarrow> from < - MAX_TIME \<and> at = []
      | Some t \<Rightarrow> time_in_range t \<and> from \<le> t \<and> (\<forall>x \<in> set at. getTime x \<le> t))"

definition working :: "'w evaluatorState \<Rightarrow> bool" where
  "working s \<longleftrightarrow> \<not> es_failureAttempted s \<and> \<not> es_ownershipLost s \<and> \<not> es_terminal s"

definition inStage ::
  "digestFunction \<Rightarrow> runStage \<Rightarrow> nat \<Rightarrow> string list \<Rightarrow> alertEvaluatorRunFence option \<Rightarrow> 'w evaluatorState \<Rightarrow> bool" where
  "inStage digest stage r at fence s \<longleftrightarrow>
     working s \<and> es_fence s = fence \<and>
     (\<exists>p. follows digest initialProtocol (es_calls s) = Some p \<and> pr_stage p = stage \<and> pr_fence p = fence \<and>
        pr_renewals p \<le> r + pr_conflicts p \<and> instants (pr_time p) at (es_lastLogical s))"

definition held :: "digestFunction \<Rightarrow> runStage \<Rightarrow> nat \<Rightarrow> string list \<Rightarrow> 'w evaluatorState \<Rightarrow> bool" where
  "held digest stage r at s \<longleftrightarrow> (\<exists>fence. inStage digest stage r at (Some fence) s)"

fun orchestrationFor :: "alertEvaluatorRunErrorCode \<Rightarrow> alertEvaluatorOrchestrationErrorCode" where
  "orchestrationFor Run_metrics_unavailable = Metrics_unavailable"
| "orchestrationFor Run_source_incomplete = Source_incomplete"
| "orchestrationFor _ = Evaluator_failed"

definition stopped :: "digestFunction \<Rightarrow> js_error \<Rightarrow> 'w evaluatorState \<Rightarrow> bool" where
  "stopped digest err s \<longleftrightarrow>
     (\<exists>p. follows digest initialProtocol (es_calls s) = Some p \<and>
        ((working s \<and> es_fence s \<noteq> None \<and> pr_fence p = es_fence s \<and> \<not> finished (pr_stage p) \<and>
            instants (pr_time p) [] (es_lastLogical s))
         \<or> (es_fence s = None \<and> (\<forall>r. pr_stage p \<noteq> Finished r \<or> r = Aborted))
         \<or> (es_ownershipLost s \<and> pr_stage p = Finished Lost_lease \<and> err = orchestrationError Lease_lost)
         \<or> ((es_failureAttempted s \<or> es_terminal s) \<and>
            (\<exists>code. pr_stage p = Finished (Failed_with code) \<and> err = orchestrationError (orchestrationFor code)))))"

subsection \<open>Calls and instants\<close>

lemma triple_calls:
  assumes "\<And>s w x. P s \<Longrightarrow> Q x (s\<lparr>es_world := w, es_calls := es_calls s @ [label (Inr x)]\<rparr>)"
    and "\<And>s w err. P s \<Longrightarrow> E err (s\<lparr>es_world := w, es_calls := es_calls s @ [label (Inl err)]\<rparr>)"
  shows "triple P (calls f label) Q E"
  by (rule tripleI) (use assms in \<open>auto simp: calls_def split: prod.splits\<close>)

lemma instants_drop: "instants from at latest \<Longrightarrow> instants from [] latest"
  by (auto simp: instants_def split: option.splits)

lemma instants_use: "instants from (at @ [x]) latest \<Longrightarrow> instants (getTime x) [] latest \<and> from < getTime x \<and> canonical x"
  by (auto simp: instants_def sorted_wrt_append split: option.splits)

lemma inStage_drop: "inStage digest stage r at fence s \<Longrightarrow> inStage digest stage r [] fence s"
  by (auto simp: inStage_def intro: instants_drop)

lemma inStage_renewals: "inStage digest stage r at fence s \<Longrightarrow> r \<le> r' \<Longrightarrow> inStage digest stage r' at fence s"
  by (auto simp: inStage_def)

lemma inStage_stopped: "inStage digest stage r at (Some fence) s \<Longrightarrow> \<not> finished stage \<Longrightarrow> stopped digest err s"
  by (auto simp: inStage_def stopped_def intro: instants_drop)

lemma instants_next:
  assumes "instants from at latest" and "time_in_range (logicalTime latest raw)"
  shows "instants from (at @ [iso_of_time (logicalTime latest raw)]) (Some (logicalTime latest raw))"
  using assms
  by (auto simp: instants_def logicalTime_def sorted_wrt_append time_in_range_def list_all_iff
      split: option.splits if_splits)

lemma nextTime_cases:
  assumes "nextTime deps s = (r, s')"
  obtains (failed) w where "r = Inl (orchestrationError Clock_invalid)" and "s' = s\<lparr>es_world := w\<rparr>"
  | (issued) w raw where "time_in_range (logicalTime (es_lastLogical s) raw)"
      and "r = Inr (iso_of_time (logicalTime (es_lastLogical s) raw), logicalTime (es_lastLogical s) raw)"
      and "s' = s\<lparr>es_world := w, es_lastRaw := Some raw, es_lastLogical := Some (logicalTime (es_lastLogical s) raw)\<rparr>"
  using assms
  by (auto simp: nextTime_def fail_def throws_def returns_def Let_def split: prod.splits sum.splits option.splits if_splits)

lemma triple_nextTime:
  assumes "\<And>s w. P s \<Longrightarrow> E (orchestrationError Clock_invalid) (s\<lparr>es_world := w\<rparr>)"
    and "\<And>s w raw t. P s \<Longrightarrow> time_in_range t \<Longrightarrow> t = logicalTime (es_lastLogical s) raw \<Longrightarrow>
      Q (iso_of_time t, t) (s\<lparr>es_world := w, es_lastRaw := Some raw, es_lastLogical := Some t\<rparr>)"
  shows "triple P (nextTime deps) Q E"
  by (rule tripleI; erule nextTime_cases) (use assms in auto)

lemma inStage_nextTime_keeps:
  "triple (inStage digest stage r at (Some fence)) (nextTime deps)
    (\<lambda>(instant, t) s. getTime instant = t \<and> inStage digest stage r (at @ [instant]) (Some fence) s)
    (\<lambda>err s. err = orchestrationError Clock_invalid \<and> inStage digest stage r at (Some fence) s)"
  by (rule triple_nextTime)
    (auto simp: inStage_def stopped_def working_def intro: instants_next instants_drop)

lemma inStage_nextTime:
  assumes "\<not> finished stage"
  shows "triple (inStage digest stage r at (Some fence)) (nextTime deps)
    (\<lambda>(instant, t) s. getTime instant = t \<and> inStage digest stage r (at @ [instant]) (Some fence) s) (stopped digest)"
  by (rule triple_nextTime)
    (use assms in \<open>auto simp: inStage_def stopped_def working_def intro: instants_next instants_drop\<close>)

subsection \<open>Answers\<close>

lemma fenced_held [simp]: "es_fence s = Some f \<Longrightarrow> fenced k s = k f s"
  by (simp add: fenced_def seq_def gets_def)

lemma triple_fenced:
  assumes "\<And>s. P s \<Longrightarrow> es_fence s = Some f" and "triple P (k f) Q E"
  shows "triple P (fenced k) Q E"
  using assms by (auto simp: triple_def)

lemma inStage_fenced [triple_intros]:
  "triple (inStage digest stage r at (Some f)) (k f) Q E \<Longrightarrow> triple (inStage digest stage r at (Some f)) (fenced k) Q E"
  by (rule triple_fenced) (auto simp: inStage_def)

lemma held_fenced:
  assumes "\<And>f. triple (inStage digest stage r at (Some f)) (k f) Q E"
  shows "triple (held digest stage r at) (fenced k) Q E"
  unfolding held_def by (rule triple_exists, rule inStage_fenced, rule assms)

lemma heldI: "inStage digest stage r at (Some f) s \<Longrightarrow> held digest stage r at s"
  by (auto simp: held_def)

lemma held_drop: "held digest stage r at s \<Longrightarrow> held digest stage r [] s"
  by (auto simp: held_def intro: inStage_drop)

lemma held_stopped: "held digest stage r at s \<Longrightarrow> \<not> finished stage \<Longrightarrow> stopped digest err s"
  by (auto simp: held_def intro: inStage_stopped)

text \<open>
  A write under the fence, and what is done with its answer. In the protocol the answer changes the
  state \<open>q p\<close> the call leads to.
\<close>

definition answered ::
  "digestFunction \<Rightarrow> (runProtocol \<Rightarrow> 'a result \<Rightarrow> runProtocol) \<Rightarrow> runStage \<Rightarrow> nat \<Rightarrow> alertEvaluatorRunFence \<Rightarrow>
   'a result \<Rightarrow> 'w evaluatorState \<Rightarrow> bool" where
  "answered digest reply stage r fence answer s \<longleftrightarrow>
     working s \<and> es_fence s = Some fence \<and>
     (\<exists>q. follows digest initialProtocol (es_calls s) = Some (reply q answer) \<and> instants (pr_time q) [] (es_lastLogical s) \<and>
        pr_stage q = stage \<and> pr_fence q = Some fence \<and> pr_renewals q \<le> r + pr_conflicts q)"

definition leadsTo ::
  "digestFunction \<Rightarrow> (runProtocol \<Rightarrow> 'a result \<Rightarrow> runProtocol) \<Rightarrow> ('a result \<Rightarrow> evaluatorCall) \<Rightarrow> alertEvaluatorRunFence \<Rightarrow>
   runStage \<Rightarrow> nat \<Rightarrow> string list \<Rightarrow> runStage \<Rightarrow> nat \<Rightarrow> bool" where
  "leadsTo digest reply label fence stage r at stage' r' \<longleftrightarrow>
     (\<forall>p latest answer. pr_stage p = stage \<and> pr_fence p = Some fence \<and> pr_renewals p \<le> r + pr_conflicts p \<and>
        instants (pr_time p) at latest \<longrightarrow>
        (\<exists>q. protocolStep digest p (label answer) = Some (reply q answer) \<and> instants (pr_time q) [] latest \<and>
           pr_stage q = stage' \<and> pr_fence q = Some fence \<and> pr_renewals q \<le> r' + pr_conflicts q))"

lemma inStage_answered:
  fixes f :: "('w, 'x) effect"
  assumes "leadsTo digest reply label fence stage r at stage' r'"
    and "\<And>q err. reply q (Inl err) = q\<lparr>pr_stage := Failing_run\<rparr>"
  shows "triple (inStage digest stage r at (Some fence)) (calls f label)
    (\<lambda>x. answered digest reply stage' r' fence (Inr x)) (stopped digest)"
proof (rule triple_calls)
  have step: "\<exists>q. follows digest initialProtocol (es_calls s @ [label answer]) = Some (reply q answer) \<and>
      instants (pr_time q) [] (es_lastLogical s) \<and> pr_stage q = stage' \<and> pr_fence q = Some fence \<and>
      pr_renewals q \<le> r' + pr_conflicts q"
    if "inStage digest stage r at (Some fence) s" for s :: "'w evaluatorState" and answer
    using assms(1) that by (auto simp: leadsTo_def inStage_def follows_snoc)
  show "answered digest reply stage' r' fence (Inr x) (s\<lparr>es_world := w, es_calls := es_calls s @ [label (Inr x)]\<rparr>)"
    if "inStage digest stage r at (Some fence) s" for s :: "'w evaluatorState" and w x
    using step[OF that, of "Inr x"] that by (auto simp: answered_def inStage_def working_def)
  show "stopped digest err (s\<lparr>es_world := w, es_calls := es_calls s @ [label (Inl err)]\<rparr>)"
    if "inStage digest stage r at (Some fence) s" for s :: "'w evaluatorState" and w err
    using step[OF that, of "Inl err"] that by (auto simp: stopped_def inStage_def working_def assms(2))
qed

lemma inStage_mutation:
  assumes "leadsTo digest afterMutation label fence stage r at stage' r'" and "\<not> finished stage'"
  shows "triple (inStage digest stage r at (Some fence)) (seq (calls f label) adoptFence)
    (\<lambda>_. held digest stage' r' []) (stopped digest)"
proof (rule triple_seq[OF inStage_answered[OF assms(1)]])
  show "triple (answered digest afterMutation stage' r' fence (Inr x)) (adoptFence x) (\<lambda>_. held digest stage' r' []) (stopped digest)" for x
    by (rule tripleI; cases x)
      (auto simp: answered_def adoptFence_def ownershipLost_def seq_def modifies_def fail_def throws_def stopped_def
        held_def inStage_def working_def)
qed simp

lemma inStage_write:
  assumes "leadsTo digest afterWrite label fence stage r at stage' r'" and "\<not> finished stage'"
  shows "triple (inStage digest stage r at (Some fence)) (seq (calls f label) proofWritten)
    (\<lambda>_. held digest stage' r' []) (stopped digest)"
proof (rule triple_seq[OF inStage_answered[OF assms(1)]])
  show "triple (answered digest afterWrite stage' r' fence (Inr x)) (proofWritten x) (\<lambda>_. held digest stage' r' []) (stopped digest)" for x
    by (rule tripleI; cases x)
      (auto simp: answered_def proofWritten_def ownershipLost_def seq_def modifies_def fail_def throws_def returns_def
        stopped_def held_def inStage_def working_def)
qed simp

text \<open>A read, or any call whose answer does not touch the lease.\<close>

lemma inStage_read:
  fixes f :: "('w, 'x) effect"
  assumes "\<And>p answer. pr_stage p = stage \<Longrightarrow>
      protocolStep digest p (label answer) = Some (p\<lparr>pr_stage := (case answer of Inl _ \<Rightarrow> onError | Inr _ \<Rightarrow> stage')\<rparr>)"
    and "\<not> finished onError"
  shows "triple (inStage digest stage r at (Some fence)) (calls f label) (\<lambda>_. inStage digest stage' r at (Some fence)) (stopped digest)"
proof (rule triple_calls)
  fix s :: "'w evaluatorState" and w x assume "inStage digest stage r at (Some fence) s"
  then show "inStage digest stage' r at (Some fence) (s\<lparr>es_world := w, es_calls := es_calls s @ [label (Inr x)]\<rparr>)"
    using assms(1)[where answer = "Inr x"] by (auto simp: inStage_def follows_snoc working_def)
next
  fix s :: "'w evaluatorState" and w err assume "inStage digest stage r at (Some fence) s"
  then show "stopped digest err (s\<lparr>es_world := w, es_calls := es_calls s @ [label (Inl err)]\<rparr>)"
    using assms(1)[where answer = "Inl err"] assms(2)
    by (auto simp: inStage_def stopped_def follows_snoc working_def intro: instants_drop)
qed

lemma inStage_settled_read:
  assumes "\<And>p answer. pr_stage p = stage \<Longrightarrow> protocolStep digest p (label answer) = Some (p\<lparr>pr_stage := stage'\<rparr>)"
  shows "triple (inStage digest stage r at (Some fence)) (calls f label)
    (\<lambda>_. inStage digest stage' r at (Some fence)) (\<lambda>_. inStage digest stage' r at (Some fence))"
  by (rule triple_calls) (use assms in \<open>auto simp: inStage_def follows_snoc working_def\<close>)

subsection \<open>The lease\<close>

lemma renew_step:
  assumes "renewable stage" and "r < 5"
    and "getTime (fence_leaseExpiresAt fence) - getTime (ren_renewedAt request) \<le> RENEWAL_THRESHOLD_MILLISECONDS"
  shows "leadsTo digest afterMutation (Renew_run fence request) fence stage r [ren_renewedAt request] stage (Suc r)"
  unfolding leadsTo_def
proof (intro allI impI)
  fix p latest and answer :: "alertEvaluatorRunMutationResult result"
  let ?q = "(moves p (ren_renewedAt request) (pr_stage p))\<lparr>pr_renewals := Suc (pr_renewals p)\<rparr>"
  assume p: "pr_stage p = stage \<and> pr_fence p = Some fence \<and> pr_renewals p \<le> r + pr_conflicts p \<and>
    instants (pr_time p) [ren_renewedAt request] latest"
  then show "\<exists>q. protocolStep digest p (Renew_run fence request answer) = Some (afterMutation q answer) \<and>
      instants (pr_time q) [] latest \<and> pr_stage q = stage \<and> pr_fence q = Some fence \<and> pr_renewals q \<le> Suc r + pr_conflicts q"
    using assms instants_use[of "pr_time p" "[]" "ren_renewedAt request" latest]
    by (intro exI[of _ ?q]) (simp add: holds_def issued_def moves_def)
qed

lemma renewable_unfinished: "renewable stage \<Longrightarrow> \<not> finished stage"
  by (cases stage) auto

lemma maybeRenew_held:
  assumes "renewable stage" and "r < 5"
  shows "triple (held digest stage r []) (maybeRenew deps) (\<lambda>_. held digest stage (Suc r) []) (stopped digest)"
  unfolding maybeRenew_def
proof (rule held_fenced, rule triple_seq[OF inStage_nextTime])
  note unfinished = renewable_unfinished[OF assms(1)]
  then show "\<not> finished stage" .
  fix fence and x :: "string \<times> int"
  obtain instant t where x: "x = (instant, t)"
    by (cases x)
  let ?request = "\<lparr>ren_leaseDurationSeconds = LEASE_DURATION_SECONDS, ren_renewedAt = instant\<rparr>"
  have renew: "triple (inStage digest stage r [instant] (Some fence))
      (seq (calls (dep_renewRun deps fence ?request) (Renew_run fence ?request)) adoptFence)
      (\<lambda>_. held digest stage (Suc r) []) (stopped digest)"
    if "getTime (fence_leaseExpiresAt fence) - getTime instant \<le> RENEWAL_THRESHOLD_MILLISECONDS"
    using inStage_mutation[OF renew_step[of stage r fence ?request digest] unfinished] assms that by simp
  have keep: "triple (inStage digest stage r [instant] (Some fence)) (returns ()) (\<lambda>_. held digest stage (Suc r) []) (stopped digest)"
    by (rule triple_returns, rule heldI, rule inStage_renewals, erule inStage_drop) simp
  show "triple (case x of (instant, t) \<Rightarrow> \<lambda>s. getTime instant = t \<and> inStage digest stage r ([] @ [instant]) (Some fence) s)
      (case x of (checkedAt, checkedTime) \<Rightarrow> seq (lifts (expiryTime (fence_leaseExpiresAt fence))) (\<lambda>expires.
        if expires - checkedTime > RENEWAL_THRESHOLD_MILLISECONDS then returns ()
        else let request = \<lparr>ren_leaseDurationSeconds = LEASE_DURATION_SECONDS, ren_renewedAt = checkedAt\<rparr>
          in seq (calls (dep_renewRun deps fence request) (Renew_run fence request)) adoptFence))
      (\<lambda>_. held digest stage (Suc r) []) (stopped digest)"
    unfolding x prod.case append_Nil
  proof (rule triple_assume, rule triple_seq[where R = "\<lambda>expires s. expires = getTime (fence_leaseExpiresAt fence) \<and>
        inStage digest stage r [instant] (Some fence) s"])
    assume t: "getTime instant = t"
    show "triple (inStage digest stage r [instant] (Some fence)) (lifts (expiryTime (fence_leaseExpiresAt fence)))
        (\<lambda>expires s. expires = getTime (fence_leaseExpiresAt fence) \<and> inStage digest stage r [instant] (Some fence) s) (stopped digest)"
      by (rule triple_lifts) (use unfinished in \<open>auto simp: expiryTime_def intro: inStage_stopped split: if_splits\<close>)
    show "triple (\<lambda>s. expires = getTime (fence_leaseExpiresAt fence) \<and> inStage digest stage r [instant] (Some fence) s)
        (if expires - t > RENEWAL_THRESHOLD_MILLISECONDS then returns ()
         else let request = ?request in seq (calls (dep_renewRun deps fence request) (Renew_run fence request)) adoptFence)
        (\<lambda>_. held digest stage (Suc r) []) (stopped digest)" for expires
      using renew keep t by (intro triple_assume triple_if) (auto simp: Let_def)
  qed
qed

subsection \<open>Failures\<close>

lemma triple_same:
  "(\<And>s. P s \<Longrightarrow> m s = m' s) \<Longrightarrow> triple P m' Q E \<Longrightarrow> triple P m Q E"
  by (simp add: triple_def)

definition endedWith :: "digestFunction \<Rightarrow> runEnding \<Rightarrow> 'w evaluatorState \<Rightarrow> bool" where
  "endedWith digest ending s \<longleftrightarrow>
     (\<exists>p. follows digest initialProtocol (es_calls s) = Some p \<and> pr_stage p = Finished ending)"

lemma endedWith_stopped:
  "endedWith digest (Failed_with code) s \<Longrightarrow> es_failureAttempted s \<or> es_terminal s \<Longrightarrow>
   stopped digest (orchestrationError (orchestrationFor code)) s"
  "endedWith digest Lost_lease s \<Longrightarrow> es_ownershipLost s \<Longrightarrow> stopped digest (orchestrationError Lease_lost) s"
  by (auto simp: endedWith_def stopped_def)

definition failureEnded :: "digestFunction \<Rightarrow> alertEvaluatorRunErrorCode \<Rightarrow> bool \<Rightarrow> 'w evaluatorState \<Rightarrow> bool" where
  "failureEnded digest code ended s \<longleftrightarrow>
     (if ended then es_terminal s \<and> endedWith digest (Failed_with code) s
      else es_ownershipLost s \<and> endedWith digest Lost_lease s)"

definition failureThrown ::
  "digestFunction \<Rightarrow> runStage \<Rightarrow> nat \<Rightarrow> alertEvaluatorRunErrorCode \<Rightarrow> js_error \<Rightarrow> 'w evaluatorState \<Rightarrow> bool" where
  "failureThrown digest stage r code err s \<longleftrightarrow>
     (if es_failureAttempted s then \<not> es_ownershipLost s \<and> endedWith digest (Failed_with code) s
      else held digest stage r [] s \<and> err = orchestrationError Clock_invalid)"

lemma failure_step:
  assumes "follows digest initialProtocol cs = Some p" and "pr_fence p = Some fence" and "instants (pr_time p) [instant] latest"
    and "failureAllowed (pr_stage p) (code, outcome)"
  shows "follows digest initialProtocol (cs @ [Record_failure fence
      \<lparr>fail_completedAt = instant, fail_errorCode = code, fail_status = outcome\<rparr> answer]) =
    Some (moves p instant (Finished (case answer of
      Inl _ \<Rightarrow> Failed_with code | Inr result \<Rightarrow> terminated (\<lambda>_. Failed_with code) result)))"
  using assms instants_use[of "pr_time p" "[]" instant latest]
  by (cases answer) (simp_all add: follows_snoc holds_def issued_def)

lemma recordFailure_held:
  assumes "failureAllowed stage (code, outcome)"
  shows "triple (inStage digest stage r [instant] (Some fence))
    (seq (modifies (\<lambda>s. s\<lparr>es_failureAttempted := True\<rparr>)) (\<lambda>_.
     let request = \<lparr>fail_completedAt = instant, fail_errorCode = code, fail_status = outcome\<rparr> in
     fenced (\<lambda>fence.
     seq (calls (dep_recordFailure deps fence request) (Record_failure fence request)) (\<lambda>result.
       if result = Terminal_lost
       then seq (modifies (\<lambda>s. s\<lparr>es_ownershipLost := True\<rparr>)) (\<lambda>_. returns False)
       else seq (modifies (\<lambda>s. s\<lparr>es_terminal := True\<rparr>)) (\<lambda>_. returns True)))))
    (failureEnded digest code) (failureThrown digest stage r code)"
proof (rule tripleI)
  fix s :: "'a evaluatorState"
  assume "inStage digest stage r [instant] (Some fence) s"
  then obtain p where p: "follows digest initialProtocol (es_calls s) = Some p" "pr_stage p = stage" "pr_fence p = Some fence"
      "instants (pr_time p) [instant] (es_lastLogical s)" "es_fence s = Some fence" "working s"
    by (auto simp: inStage_def)
  note step = failure_step[OF p(1,3,4), of code outcome, unfolded p(2), OF assms]
  note run_defs = seq_def modifies_def calls_def returns_def failureEnded_def failureThrown_def endedWith_def working_def
    fenced_def gets_def
  let ?m = "seq (modifies (\<lambda>s. s\<lparr>es_failureAttempted := True\<rparr>)) (\<lambda>_.
     let request = \<lparr>fail_completedAt = instant, fail_errorCode = code, fail_status = outcome\<rparr> in
     fenced (\<lambda>fence.
     seq (calls (dep_recordFailure deps fence request) (Record_failure fence request)) (\<lambda>result.
       if result = Terminal_lost
       then seq (modifies (\<lambda>s. s\<lparr>es_ownershipLost := True\<rparr>)) (\<lambda>_. returns False)
       else seq (modifies (\<lambda>s. s\<lparr>es_terminal := True\<rparr>)) (\<lambda>_. returns True))))"
  show "failureThrown digest stage r code err s'" if "?m s = (Inl err, s')" for err s'
    using that p step by (auto simp: run_defs Let_def moves_def split: prod.splits sum.splits if_splits)
  show "failureEnded digest code ended s'" if "?m s = (Inr ended, s')" for ended s'
  proof -
    have "terminated (\<lambda>_. Failed_with code) result = (if result = Terminal_lost then Lost_lease else Failed_with code)" for result
      by (cases result) simp_all
    then show ?thesis
      using that p step by (auto simp: run_defs Let_def moves_def split: prod.splits sum.splits if_splits)
  qed
qed

lemma terminateFailure_held:
  assumes "failureAllowed stage (code, outcome)"
  shows "triple (held digest stage r []) (terminateFailure deps code outcome) (failureEnded digest code) (failureThrown digest stage r code)"
  unfolding held_def
proof (rule triple_exists)
  fix fence
  show "triple (inStage digest stage r [] (Some fence)) (terminateFailure deps code outcome)
      (failureEnded digest code) (failureThrown digest stage r code)"
  proof (rule triple_same)
    let ?rest = "\<lambda>(completedAt, _). seq (modifies (\<lambda>s. s\<lparr>es_failureAttempted := True\<rparr>)) (\<lambda>_.
         let request = \<lparr>fail_completedAt = completedAt, fail_errorCode = code, fail_status = outcome\<rparr> in
         fenced (\<lambda>fence.
         seq (calls (dep_recordFailure deps fence request) (Record_failure fence request)) (\<lambda>result.
           if result = Terminal_lost
           then seq (modifies (\<lambda>s. s\<lparr>es_ownershipLost := True\<rparr>)) (\<lambda>_. returns False)
           else seq (modifies (\<lambda>s. s\<lparr>es_terminal := True\<rparr>)) (\<lambda>_. returns True))))"
    show "terminateFailure deps code outcome s = seq (nextTime deps) ?rest s" if "inStage digest stage r [] (Some fence) s" for s
      using that by (simp add: terminateFailure_def seq_def gets_def inStage_def working_def)
    have clock: "triple (inStage digest stage r [] (Some fence)) (nextTime deps)
        (\<lambda>(instant, t) s. getTime instant = t \<and> inStage digest stage r ([] @ [instant]) (Some fence) s) (failureThrown digest stage r code)"
      by (rule triple_conseq[OF inStage_nextTime_keeps]) (auto simp: failureThrown_def held_def inStage_def working_def)
    show "triple (inStage digest stage r [] (Some fence)) (seq (nextTime deps) ?rest)
        (failureEnded digest code) (failureThrown digest stage r code)"
      by (rule triple_seq[OF clock]) (auto intro!: triple_assume recordFailure_held assms split: prod.splits)
  qed
qed

subsection \<open>Collecting the sources\<close>

lemma nth_at: "xs = before @ x # rest \<Longrightarrow> xs ! length before = x \<and> length before < length xs"
  by (erule ssubst) simp

lemma collectQueueMetricBarrier_held:
  "triple (inStage digest (Metering 0) r [] (Some fence)) (collectQueueMetricBarrier deps input)
    (\<lambda>barrier s. length (snd barrier) = length ALERT_QUEUE_NAMES \<and>
      inStage digest (Metering (length ALERT_QUEUE_NAMES)) r [fst barrier] (Some fence) s) (stopped digest)"
  unfolding collectQueueMetricBarrier_def
proof (rule triple_seq[OF triple_for_each[where I = "\<lambda>ys :: js result list. inStage digest (Metering (length ys)) r [] (Some fence)", simplified]])
  fix before queue rest and ys :: "js result list"
  assume at: "ALERT_QUEUE_NAMES = before @ queue # rest" "length ys = length before"
  have step: "protocolStep digest p (Read_metrics queue) = Some (p\<lparr>pr_stage := Metering (Suc (length before))\<rparr>)"
    if "pr_stage p = Metering (length before)" for p
    using that nth_at[OF at(1)] by simp
  show "triple (inStage digest (Metering (length ys)) r [] (Some fence))
      (settled (calls (rai_queueProviders input queue) (\<lambda>_. Read_metrics queue)))
      (\<lambda>_. inStage digest (Metering (Suc (length ys))) r [] (Some fence)) (stopped digest)"
    unfolding at(2) by (rule triple_settled, rule inStage_settled_read, rule step)
next
  fix metrics :: "js result list"
  show "triple (\<lambda>s. length metrics = length ALERT_QUEUE_NAMES \<and> inStage digest (Metering (length metrics)) r [] (Some fence) s)
      (seq (nextTime deps) (\<lambda>(asOf, _). returns (asOf, metrics)))
      (\<lambda>barrier s. length (snd barrier) = length ALERT_QUEUE_NAMES \<and>
        inStage digest (Metering (length ALERT_QUEUE_NAMES)) r [fst barrier] (Some fence) s) (stopped digest)"
    by (rule triple_assume, rule triple_seq[OF inStage_nextTime]) (auto intro!: triple_returns split: prod.splits)
qed

lemma bind_step:
  "leadsTo digest afterMutation (Bind_asOf fence request) fence (Metering (length ALERT_QUEUE_NAMES)) r
    [bind_asOf request, bind_boundAt request] (Reading (bind_asOf request) 0) r"
  unfolding leadsTo_def
proof (intro allI impI)
  fix p latest and answer :: "alertEvaluatorRunMutationResult result"
  let ?q = "moves p (bind_boundAt request) (Reading (bind_asOf request) 0)"
  assume "pr_stage p = Metering (length ALERT_QUEUE_NAMES) \<and> pr_fence p = Some fence \<and> pr_renewals p \<le> r + pr_conflicts p \<and>
    instants (pr_time p) [bind_asOf request, bind_boundAt request] latest"
  then show "\<exists>q. protocolStep digest p (Bind_asOf fence request answer) = Some (afterMutation q answer) \<and>
      instants (pr_time q) [] latest \<and> pr_stage q = Reading (bind_asOf request) 0 \<and> pr_fence q = Some fence \<and>
      pr_renewals q \<le> r + pr_conflicts q"
    by (intro exI[of _ ?q]) (auto simp: holds_def issued_def moves_def instants_def split: option.splits)
qed

lemma bindBarrier_held:
  "triple (inStage digest (Metering (length ALERT_QUEUE_NAMES)) r [asOf] (Some fence)) (bindBarrier deps asOf)
    (\<lambda>_. held digest (Reading asOf 0) r []) (stopped digest)"
  unfolding bindBarrier_def
proof (rule triple_seq[OF inStage_nextTime])
  fix x :: "string \<times> int"
  obtain boundAt t where x: "x = (boundAt, t)" by (cases x)
  let ?request = "\<lparr>bind_asOf = asOf, bind_boundAt = boundAt\<rparr>"
  show "triple (case x of (instant, t) \<Rightarrow> \<lambda>s. getTime instant = t \<and>
        inStage digest (Metering (length ALERT_QUEUE_NAMES)) r ([asOf] @ [instant]) (Some fence) s)
      (case x of (boundAt, _) \<Rightarrow> let request = \<lparr>bind_asOf = asOf, bind_boundAt = boundAt\<rparr> in
        fenced (\<lambda>fence. seq (calls (dep_bindRunAsOf deps fence request) (Bind_asOf fence request)) adoptFence))
      (\<lambda>_. held digest (Reading asOf 0) r []) (stopped digest)"
    unfolding x prod.case Let_def append.simps
    using inStage_mutation[OF bind_step[of digest fence ?request r]]
    by (intro triple_assume inStage_fenced) simp
qed simp

definition collected :: "string \<Rightarrow> alertEvaluatorSourceId \<Rightarrow> collectedSource \<Rightarrow> bool" where
  "collected asOf sourceId source \<longleftrightarrow> goodSource asOf source \<and> cs_sourceId source = sourceId"

lemma collectSource_held:
  assumes "triple (inStage digest (Reading asOf k) r [] (Some fence)) reader
    (\<lambda>_. inStage digest (Reading asOf (Suc k)) r [] (Some fence)) (\<lambda>_. inStage digest (Reading asOf (Suc k)) r [] (Some fence))"
  shows "triple (inStage digest (Reading asOf k) r [] (Some fence)) (collectSource digest sourceId reader asOf)
    (\<lambda>source s. collected asOf sourceId source \<and> inStage digest (Reading asOf (Suc k)) r [] (Some fence) s) (stopped digest)"
  unfolding collectSource_def
proof (rule triple_seq[OF triple_settled[OF assms]])
  fix reading :: "sourceReaderResult result"
  have "\<exists>source. (case reading of Inr result \<Rightarrow> completedSource digest sourceId result asOf
       | Inl err \<Rightarrow> failedSource digest sourceId (sourceErrorStatus err)) = Inr source \<and> collected asOf sourceId source"
  proof (cases reading)
    case (Inl err)
    have "sourceErrorStatus err \<in> {Source_invalid, Source_unavailable}"
      by (cases err) simp_all
    then obtain source where "failedSource digest sourceId (sourceErrorStatus err) = Inr source" "goodSource asOf source"
        "cs_sourceId source = sourceId"
      by (rule failedSource_good)
    with Inl show ?thesis
      by (auto simp: collected_def)
  next
    case (Inr result)
    then show ?thesis
      by (auto simp: collected_def intro: completedSource_good[of digest sourceId result asOf])
  qed
  then show "triple (inStage digest (Reading asOf (Suc k)) r [] (Some fence))
      (lifts (case reading of Inr result \<Rightarrow> completedSource digest sourceId result asOf
         | Inl err \<Rightarrow> failedSource digest sourceId (sourceErrorStatus err)))
      (\<lambda>source s. collected asOf sourceId source \<and> inStage digest (Reading asOf (Suc k)) r [] (Some fence) s) (stopped digest)"
    by (intro triple_lifts) auto
qed

lemma source_step:
  assumes "pr_stage p = Reading asOf k" and "k < length ALERT_EVALUATOR_SOURCE_IDS" and "ALERT_EVALUATOR_SOURCE_IDS ! k = sourceId"
  shows "protocolStep digest p (Read_source sourceId asOf) = Some (p\<lparr>pr_stage := Reading asOf (Suc k)\<rparr>)"
  using assms by simp

text \<open>A loop over sources that reads from the \<open>k\<close>-th on.\<close>

lemma collect_loop:
  assumes "\<And>before x rest. xs = before @ x # rest \<Longrightarrow>
      triple (inStage digest (Reading asOf (k + length before)) r [] (Some fence)) (f x)
        (\<lambda>source s. collected asOf (ALERT_EVALUATOR_SOURCE_IDS ! (k + length before)) source \<and>
          inStage digest (Reading asOf (Suc (k + length before))) r [] (Some fence) s) (stopped digest)"
    and "k + length xs \<le> length ALERT_EVALUATOR_SOURCE_IDS"
  shows "triple (inStage digest (Reading asOf k) r [] (Some fence)) (for_each f xs)
    (\<lambda>sources s. list_all (goodSource asOf) sources \<and>
      map cs_sourceId sources = take (length xs) (drop k ALERT_EVALUATOR_SOURCE_IDS) \<and>
      inStage digest (Reading asOf (k + length xs)) r [] (Some fence) s) (stopped digest)"
proof -
  let ?I = "\<lambda>sources s. list_all (goodSource asOf) sources \<and>
      map cs_sourceId sources = take (length sources) (drop k ALERT_EVALUATOR_SOURCE_IDS) \<and>
      inStage digest (Reading asOf (k + length sources)) r [] (Some fence) s"
  have "triple (?I []) (for_each f xs) (\<lambda>sources s. length sources = length xs \<and> ?I sources s) (stopped digest)"
  proof (rule triple_for_each)
    fix before x rest and sources :: "collectedSource list"
    assume at: "xs = before @ x # rest" "length sources = length before"
    have "take (Suc (length before)) (drop k ALERT_EVALUATOR_SOURCE_IDS) =
        take (length before) (drop k ALERT_EVALUATOR_SOURCE_IDS) @ [ALERT_EVALUATOR_SOURCE_IDS ! (k + length before)]"
      using assms(2) at(1) by (subst take_Suc_conv_app_nth) auto
    then show "triple (?I sources) (f x) (\<lambda>source. ?I (sources @ [source])) (stopped digest)"
      unfolding at(2)
      by (intro triple_assume) (rule triple_post[OF assms(1)[OF at(1)]], auto simp: collected_def at(2))
  qed
  then show ?thesis
    by (rule triple_conseq) auto
qed

lemma collectQueueSources_held:
  assumes "length metrics = length ALERT_QUEUE_NAMES"
  shows "triple (inStage digest (Reading asOf 0) r [] (Some fence)) (collectQueueSources digest deps (asOf, metrics))
    (\<lambda>sources s. list_all (goodSource asOf) sources \<and> map cs_sourceId sources = take 4 ALERT_EVALUATOR_SOURCE_IDS \<and>
      inStage digest (Reading asOf 4) r [] (Some fence) s) (stopped digest)"
proof -
  have len: "length (zip ALERT_QUEUE_NAMES metrics) = 4"
    using assms by (simp add: ALERT_QUEUE_NAMES_def)
  have at: "ALERT_EVALUATOR_SOURCE_IDS ! length before = Queue_source (fst x) \<and> length before < length ALERT_EVALUATOR_SOURCE_IDS"
    if "zip ALERT_QUEUE_NAMES metrics = before @ x # rest" for before x rest
  proof -
    have k: "length before < 4" and x: "zip ALERT_QUEUE_NAMES metrics ! length before = x"
      using nth_at[OF that] len by auto
    then have "fst x = ALERT_QUEUE_NAMES ! length before"
      using assms by (auto simp: ALERT_QUEUE_NAMES_def)
    moreover have "length before \<in> {0, 1, 2, 3}"
      using k unfolding insert_iff empty_iff by linarith
    ultimately show ?thesis
      by (auto simp: ALERT_QUEUE_NAMES_def ALERT_EVALUATOR_SOURCE_IDS_def)
  qed
  have step: "triple (inStage digest (Reading asOf (0 + length before)) r [] (Some fence))
      (case x of (queue, metric) \<Rightarrow> collectSource digest (Queue_source queue)
         (seq (calls (dep_readQueueSource deps (cachedProvider metric) queue asOf) (\<lambda>_. Read_source (Queue_source queue) asOf))
           (\<lambda>source. lifts (queueReading source))) asOf)
      (\<lambda>source s. collected asOf (ALERT_EVALUATOR_SOURCE_IDS ! (0 + length before)) source \<and>
        inStage digest (Reading asOf (Suc (0 + length before))) r [] (Some fence) s) (stopped digest)"
    if "zip ALERT_QUEUE_NAMES metrics = before @ x # rest" for before x rest
  proof -
    obtain queue metric where x: "x = (queue, metric)" by (cases x)
    have queue: "ALERT_EVALUATOR_SOURCE_IDS ! length before = Queue_source queue" "length before < length ALERT_EVALUATOR_SOURCE_IDS"
      using at[OF that] x by auto
    show ?thesis
      unfolding x prod.case queue add_0
      by (intro collectSource_held triple_seq[OF inStage_settled_read] source_step triple_lifts) (use queue in auto)
  qed
  show ?thesis
    using collect_loop[of "zip ALERT_QUEUE_NAMES metrics" digest asOf 0 r fence, OF step] len
    by (simp add: collectQueueSources_def ALERT_EVALUATOR_SOURCE_IDS_def)
qed

lemma collectD1Sources_held:
  "triple (inStage digest (Reading asOf 4) r [] (Some fence)) (collectD1Sources digest deps input asOf)
    (\<lambda>sources s. list_all (goodSource asOf) sources \<and> map cs_sourceId sources = drop 4 ALERT_EVALUATOR_SOURCE_IDS \<and>
      inStage digest (Reading asOf 9) r [] (Some fence) s) (stopped digest)"
proof -
  have len: "length (sourceReaders deps input asOf) = 5" and ids: "map fst (sourceReaders deps input asOf) = drop 4 ALERT_EVALUATOR_SOURCE_IDS"
    by (simp_all add: sourceReaders_def ALERT_EVALUATOR_SOURCE_IDS_def Let_def)
  have at: "ALERT_EVALUATOR_SOURCE_IDS ! (4 + length before) = fst x \<and> 4 + length before < length ALERT_EVALUATOR_SOURCE_IDS"
    if "sourceReaders deps input asOf = before @ x # rest" for before x rest
  proof -
    have "drop 4 ALERT_EVALUATOR_SOURCE_IDS = map fst before @ fst x # map fst rest"
      using ids that by simp
    from nth_at[OF this] show ?thesis by auto
  qed
  have step: "triple (inStage digest (Reading asOf (4 + length before)) r [] (Some fence))
      (case x of (sourceId, reader) \<Rightarrow> collectSource digest sourceId (calls reader (\<lambda>_. Read_source sourceId asOf)) asOf)
      (\<lambda>source s. collected asOf (ALERT_EVALUATOR_SOURCE_IDS ! (4 + length before)) source \<and>
        inStage digest (Reading asOf (Suc (4 + length before))) r [] (Some fence) s) (stopped digest)"
    if "sourceReaders deps input asOf = before @ x # rest" for before x rest
  proof -
    obtain sourceId reader where x: "x = (sourceId, reader)" by (cases x)
    have source: "ALERT_EVALUATOR_SOURCE_IDS ! (4 + length before) = sourceId" "4 + length before < length ALERT_EVALUATOR_SOURCE_IDS"
      using at[OF that] x by auto
    show ?thesis
      unfolding x prod.case source
      by (intro collectSource_held inStage_settled_read source_step) (use source in auto)
  qed
  show ?thesis
    using collect_loop[of "sourceReaders deps input asOf" digest asOf 4 r fence, OF step] len
    by (simp add: collectD1Sources_def ALERT_EVALUATOR_SOURCE_IDS_def)
qed

definition readySources :: "collectedSource list \<Rightarrow> bool" where
  "readySources sources \<longleftrightarrow>
     map (\<lambda>source. sp_sourceId (cs_proof source)) sources = ALERT_EVALUATOR_SOURCE_IDS \<and> length (plannedWork sources) \<le> 20"

lemma capped_ready:
  assumes "goodSources asOf sources" and "applyWorkCap digest sources = Inr capped"
  shows "readySources capped"
proof -
  have "map (\<lambda>source. sp_sourceId (cs_proof source)) capped = map cs_sourceId sources"
    using capped_work(1)[OF assms] by (induction rule: list_all2_induct) (auto simp: cappedFrom_def)
  moreover have "length (plannedWork capped) \<le> 20"
    using capped_work(3)[OF assms] retained_work[OF assms(1)] by auto
  ultimately show ?thesis
    using assms(1) by (simp add: readySources_def goodSources_def)
qed

lemma collectSources_held:
  fixes deps :: "'w alertEvaluatorDependencies"
  assumes "length (snd barrier) = length ALERT_QUEUE_NAMES"
  shows "triple (held digest (Reading (fst barrier) 0) r []) (collectSources digest deps input barrier)
    (\<lambda>sources s. readySources sources \<and> held digest (Reading (fst barrier) 9) r [] s) (stopped digest)"
  unfolding held_def
proof (rule triple_exists)
  fix fence
  let ?asOf = "fst barrier"
  let ?done = "\<lambda>sources s. readySources sources \<and> (\<exists>fence. inStage digest (Reading ?asOf 9) r [] (Some fence) s)"
  have decide: "triple (\<lambda>s :: 'w evaluatorState. list_all (goodSource ?asOf) d1 \<and> map cs_sourceId d1 = drop 4 ALERT_EVALUATOR_SOURCE_IDS \<and>
        inStage digest (Reading ?asOf 9) r [] (Some fence) s)
      (seq (lifts (invalidateConflictingSources digest (queues @ d1))) (\<lambda>sources.
         if map cs_sourceId sources \<noteq> ALERT_EVALUATOR_SOURCE_IDS then fail Evaluator_failed
         else lifts (applyWorkCap digest sources))) ?done (stopped digest)"
    if "list_all (goodSource ?asOf) queues" "map cs_sourceId queues = take 4 ALERT_EVALUATOR_SOURCE_IDS" for queues d1
  proof (intro triple_assume)
    assume d1: "list_all (goodSource ?asOf) d1" "map cs_sourceId d1 = drop 4 ALERT_EVALUATOR_SOURCE_IDS"
    have good: "goodSources ?asOf (queues @ d1)"
      using that d1 by (simp add: goodSources_def)
    then have kept: "invalidateConflictingSources digest (queues @ d1) = Inr (queues @ d1)"
      by (intro no_conflicts goodSources_part)
    have ids: "map cs_sourceId (queues @ d1) = ALERT_EVALUATOR_SOURCE_IDS"
      using good by (simp only: goodSources_def)
    have same: "seq (lifts (invalidateConflictingSources digest (queues @ d1))) (\<lambda>sources.
         if map cs_sourceId sources \<noteq> ALERT_EVALUATOR_SOURCE_IDS then fail Evaluator_failed
         else lifts (applyWorkCap digest sources)) s = lifts (applyWorkCap digest (queues @ d1)) s" for s :: "'w evaluatorState"
      unfolding kept seq_def lifts_def by (simp only: prod.case sum.case ids not_True_eq_False if_False simp_thms)
    have "triple (inStage digest (Reading ?asOf 9) r [] (Some fence) :: 'w evaluatorState \<Rightarrow> bool) (lifts (applyWorkCap digest (queues @ d1))) ?done (stopped digest)"
      by (rule triple_lifts) (auto intro: capped_ready[OF good] inStage_stopped)
    then show "triple (inStage digest (Reading ?asOf 9) r [] (Some fence) :: 'w evaluatorState \<Rightarrow> bool)
      (seq (lifts (invalidateConflictingSources digest (queues @ d1))) (\<lambda>sources.
         if map cs_sourceId sources \<noteq> ALERT_EVALUATOR_SOURCE_IDS then fail Evaluator_failed
         else lifts (applyWorkCap digest sources))) ?done (stopped digest)"
      by (rule triple_same[OF same])
  qed
  show "triple (inStage digest (Reading ?asOf 0) r [] (Some fence)) (collectSources digest deps input barrier) ?done (stopped digest)"
    unfolding collectSources_def
    using collectQueueSources_held[OF assms, of digest ?asOf r fence deps, unfolded prod.collapse]
    by (rule triple_seq) (intro triple_assume triple_seq[OF collectD1Sources_held] decide)
qed

subsection \<open>Proofs and plans\<close>

lemma recordSource_step:
  assumes "recordingOf stage = Some (rsi_asOf request, proofs)" and "length proofs < length ALERT_EVALUATOR_SOURCE_IDS"
    and "sp_sourceId (rsi_proof request) = ALERT_EVALUATOR_SOURCE_IDS ! length proofs"
  shows "leadsTo digest afterWrite (Record_source fence request) fence stage r [rsi_recordedAt request]
    (recordedStage (rsi_asOf request) (proofs @ [rsi_proof request])) r"
  unfolding leadsTo_def
proof (intro allI impI)
  fix p latest and answer :: "alertEvaluatorProofWriteResult result"
  let ?stage = "recordedStage (rsi_asOf request) (proofs @ [rsi_proof request])"
  let ?q = "moves p (rsi_recordedAt request) ?stage"
  assume "pr_stage p = stage \<and> pr_fence p = Some fence \<and> pr_renewals p \<le> r + pr_conflicts p \<and>
    instants (pr_time p) [rsi_recordedAt request] latest"
  then show "\<exists>q. protocolStep digest p (Record_source fence request answer) = Some (afterWrite q answer) \<and>
      instants (pr_time q) [] latest \<and> pr_stage q = ?stage \<and> pr_fence q = Some fence \<and> pr_renewals q \<le> r + pr_conflicts q"
    using assms instants_use[of "pr_time p" "[]" "rsi_recordedAt request" latest]
    by (intro exI[of _ ?q]) (simp add: holds_def issued_def moves_def)
qed

lemma recorded_unfinished: "\<not> finished (recordedStage asOf proofs)"
  by (simp add: recordedStage_def)

lemma recordSource_held:
  assumes "recordingOf stage = Some (asOf, proofs)" and "length proofs < length ALERT_EVALUATOR_SOURCE_IDS"
    and "sp_sourceId (cs_proof source) = ALERT_EVALUATOR_SOURCE_IDS ! length proofs"
  shows "triple (held digest stage r []) (recordSource deps asOf source)
    (\<lambda>_. held digest (recordedStage asOf (proofs @ [cs_proof source])) r []) (stopped digest)"
  unfolding recordSource_def
proof (rule held_fenced, rule triple_seq[OF inStage_nextTime])
  show "\<not> finished stage"
    using assms(1) by (cases stage) auto
  fix fence and x :: "string \<times> int"
  obtain recordedAt t where x: "x = (recordedAt, t)" by (cases x)
  let ?request = "\<lparr>rsi_asOf = asOf, rsi_proof = cs_proof source, rsi_recordedAt = recordedAt\<rparr>"
  show "triple (case x of (instant, t) \<Rightarrow> \<lambda>s. getTime instant = t \<and> inStage digest stage r ([] @ [instant]) (Some fence) s)
      (case x of (recordedAt, _) \<Rightarrow> let request = \<lparr>rsi_asOf = asOf, rsi_proof = cs_proof source, rsi_recordedAt = recordedAt\<rparr> in
        seq (calls (dep_recordSource deps fence request) (Record_source fence request)) proofWritten)
      (\<lambda>_. held digest (recordedStage asOf (proofs @ [cs_proof source])) r []) (stopped digest)"
    unfolding x prod.case Let_def append.simps
    using inStage_write[OF recordSource_step[of stage ?request proofs] recorded_unfinished] assms
    by (intro triple_assume) simp
qed

definition recordingStage :: "string \<Rightarrow> alertEvaluatorSourceProofValue list \<Rightarrow> runStage" where
  "recordingStage asOf proofs = (if proofs = [] then Reading asOf 9 else recordedStage asOf proofs)"

lemma recordSources_held:
  assumes "readySources sources"
  shows "triple (held digest (Reading asOf 9) r []) (for_each (recordSource deps asOf) sources)
    (\<lambda>_. held digest (Planning asOf (map cs_proof sources) 0) r []) (stopped digest)"
proof -
  have ids: "map (\<lambda>source. sp_sourceId (cs_proof source)) sources = ALERT_EVALUATOR_SOURCE_IDS"
    using assms by (simp add: readySources_def)
  then have n: "length sources = length ALERT_EVALUATOR_SOURCE_IDS"
    by (metis length_map)
  let ?I = "\<lambda>ys :: unit list. held digest (recordingStage asOf (map cs_proof (take (length ys) sources))) r []"
  have "triple (?I []) (for_each (recordSource deps asOf) sources) (\<lambda>ys s. length ys = length sources \<and> ?I ys s) (stopped digest)"
  proof (rule triple_for_each)
    fix before source rest and ys :: "unit list"
    assume at: "sources = before @ source # rest" "length ys = length before"
    have k: "length before < length ALERT_EVALUATOR_SOURCE_IDS"
      using at(1) n by auto
    have here: "sp_sourceId (cs_proof source) = ALERT_EVALUATOR_SOURCE_IDS ! length (map cs_proof before)"
      using at(1) unfolding ids[symmetric] by (simp add: nth_append)
    have "recordingOf (recordingStage asOf (map cs_proof before)) = Some (asOf, map cs_proof before)"
      using k by (auto simp: recordingStage_def recordedStage_def)
    from recordSource_held[OF this _ here, of digest r deps] k
    have "triple (held digest (recordingStage asOf (map cs_proof before)) r []) (recordSource deps asOf source)
        (\<lambda>_. held digest (recordingStage asOf (map cs_proof (before @ [source]))) r []) (stopped digest)"
      by (simp add: recordingStage_def)
    moreover have "take (length ys) sources = before" "take (length (ys @ [y])) sources = before @ [source]" for y
      using at by auto
    ultimately show "triple (?I ys) (recordSource deps asOf source) (\<lambda>y. ?I (ys @ [y])) (stopped digest)"
      by simp
  qed
  moreover have "recordingStage asOf (map cs_proof sources) = Planning asOf (map cs_proof sources) 0"
    using n by (auto simp: recordingStage_def recordedStage_def ALERT_EVALUATOR_SOURCE_IDS_def)
  ultimately show ?thesis
    by (elim triple_conseq) (auto simp: recordingStage_def[of asOf "[]"])
qed

definition plannedOk :: "digestFunction \<Rightarrow> string \<Rightarrow> nat \<Rightarrow> plannedDecision \<Rightarrow> bool" where
  "plannedOk digest asOf n plan \<longleftrightarrow>
     dp_ordinal (plan_proof plan) = int n \<and>
     provesDecision digest (plan_proof plan) (plan_decision plan) (plan_evaluation plan) \<and>
     evaluateAlertRule (jsOfObservation (plan_observation plan)) = Inr (plan_evaluation plan) \<and>
     eval_asOf (plan_evaluation plan) = asOf"

lemma decisionProof_ok:
  assumes "decisionProof digest environment observation evaluation decision disposition ordinal sourceId = Inr proof"
  shows "dp_ordinal proof = ordinal \<and> provesDecision digest proof decision evaluation"
  using assms by (auto simp: decisionProof_def provesDecision_def and_then_eq_Inr)

lemma readSnapshot_held:
  assumes "\<And>p answer. pr_stage p = stage \<Longrightarrow> protocolStep digest p (Read_snapshot i answer) =
      Some (p\<lparr>pr_stage := (case answer of Inl _ \<Rightarrow> Failing_run | Inr _ \<Rightarrow> stage')\<rparr>)"
    and "i = \<lparr>id_dimension = obs_dimension observation, id_ruleId = obs_ruleId observation\<rparr>"
  shows "triple (held digest stage r []) (readSnapshotFor deps input observation) (\<lambda>_. held digest stage' r []) (stopped digest)"
  unfolding held_def readSnapshotFor_def Let_def assms(2)[symmetric]
  by (rule triple_exists, rule triple_post[OF inStage_read[where onError = Failing_run]]) (use assms(1) in \<open>auto\<close>)

lemma held_lifts:
  assumes "\<not> finished stage" and "\<And>x. m = Inr x \<Longrightarrow> triple (held digest stage r []) (k x) Q (stopped digest)"
  shows "triple (held digest stage r []) (seq (lifts m) k) Q (stopped digest)"
proof (rule triple_seq[where R = "\<lambda>x s. m = Inr x \<and> held digest stage r [] s"])
  show "triple (held digest stage r []) (lifts m) (\<lambda>x s. m = Inr x \<and> held digest stage r [] s) (stopped digest)"
    by (rule triple_lifts) (auto intro: held_stopped[OF _ assms(1)])
qed (rule triple_assume, rule assms(2))

lemma planItem_held:
  assumes "n < 20"
  shows "triple (held digest (Planning asOf proofs n) r []) (planItem digest deps input asOf (n, observation, source))
    (\<lambda>plan s. plannedOk digest asOf n plan \<and> held digest (Planning asOf proofs (Suc n)) r [] s) (stopped digest)"
proof -
  let ?i = "\<lparr>id_dimension = obs_dimension observation, id_ruleId = obs_ruleId observation\<rparr>"
  have snapshot: "triple (held digest (Planning asOf proofs n) r []) (readSnapshotFor deps input observation)
      (\<lambda>_. held digest (Planning asOf proofs (Suc n)) r []) (stopped digest)"
    by (rule readSnapshot_held[where i = ?i]) (use assms in auto)
  show ?thesis
    unfolding planItem_def prod.case
    by (intro held_lifts triple_if triple_seq[OF snapshot] triple_returns)
      (auto simp: Let_def fail_def plannedOk_def dest: decisionProof_ok
        intro!: held_lifts triple_returns triple_throws held_stopped[where stage = "Planning asOf proofs n"])
qed

lemma length_toSorted: "length (toSorted cmp xs) = length xs"
proof -
  have "length (insertSorted cmp x ys) = Suc (length ys)" for x ys
    by (induction ys) auto
  then show ?thesis
    by (induction xs) (simp_all add: toSorted_def)
qed

lemma length_workItems: "length (workItems sources) = length (plannedWork sources)"
  by (simp add: workItems_def plannedWork_def length_toSorted length_concat comp_def)

lemma enumerate_at:
  assumes "enumerate 0 xs = before @ x # rest"
  shows "fst x = length before" and "length before < length xs" and "xs ! length before = snd x"
  using nth_at[OF assms] by (auto simp: nth_enumerate_eq)

definition plannedAll :: "digestFunction \<Rightarrow> string \<Rightarrow> plannedDecision list \<Rightarrow> bool" where
  "plannedAll digest asOf plans \<longleftrightarrow> (\<forall>n < length plans. plannedOk digest asOf n (plans ! n))"

lemma planDecisions_held:
  assumes "readySources sources"
  shows "triple (held digest (Planning asOf proofs 0) r []) (planDecisions digest deps input sources asOf)
    (\<lambda>plans s. plannedAll digest asOf plans \<and> length plans \<le> 20 \<and> held digest (Planning asOf proofs (length plans)) r [] s)
    (stopped digest)"
  unfolding planDecisions_def
proof -
  let ?I = "\<lambda>plans s. plannedAll digest asOf plans \<and> held digest (Planning asOf proofs (length plans)) r [] s"
  have small: "length (enumerate 0 (workItems sources)) \<le> 20"
    using assms by (simp add: readySources_def length_workItems)
  have "triple (?I []) (for_each (planItem digest deps input asOf) (enumerate 0 (workItems sources)))
      (\<lambda>plans s. length plans = length (enumerate 0 (workItems sources)) \<and> ?I plans s) (stopped digest)"
  proof (rule triple_for_each)
    fix before x rest and plans :: "plannedDecision list"
    assume at: "enumerate 0 (workItems sources) = before @ x # rest" "length plans = length before"
    obtain n observation source where x: "x = (n, observation, source)" by (cases x)
    have n: "n = length plans" "n < 20"
      using enumerate_at(1,2)[OF at(1)] at(2) small x by auto
    have more: "plannedAll digest asOf (plans @ [plan])" if "plannedAll digest asOf plans" "plannedOk digest asOf n plan" for plan
      using that n(1) by (auto simp: plannedAll_def nth_append less_Suc_eq)
    show "triple (?I plans) (planItem digest deps input asOf x) (\<lambda>plan. ?I (plans @ [plan])) (stopped digest)"
      unfolding x
      by (rule triple_assume, rule triple_conseq[OF planItem_held[OF n(2)]]) (use more n in auto)
  qed
  then show "triple (held digest (Planning asOf proofs 0) r []) (for_each (planItem digest deps input asOf) (enumerate 0 (workItems sources)))
    (\<lambda>plans s. plannedAll digest asOf plans \<and> length plans \<le> 20 \<and> held digest (Planning asOf proofs (length plans)) r [] s)
    (stopped digest)"
    using small by (elim triple_conseq) (auto simp: plannedAll_def)
qed

lemma ordinals_planned: "plannedAll digest asOf plans \<Longrightarrow> map dp_ordinal (map plan_proof plans) = map int [0..<length plans]"
  by (intro nth_equalityI) (auto simp: plannedAll_def plannedOk_def)

lemma seal_step:
  assumes "map dp_ordinal (seal_decisions request) = map int [0..<n]"
  shows "leadsTo digest afterMutation (Seal_run fence request) fence (Planning asOf proofs n) r [seal_sealedAt request]
    (Settling asOf proofs (seal_decisions request) 0 First_attempt) r"
  unfolding leadsTo_def
proof (intro allI impI)
  fix p latest and answer :: "alertEvaluatorRunMutationResult result"
  let ?stage = "Settling asOf proofs (seal_decisions request) 0 First_attempt"
  let ?q = "moves p (seal_sealedAt request) ?stage"
  assume "pr_stage p = Planning asOf proofs n \<and> pr_fence p = Some fence \<and> pr_renewals p \<le> r + pr_conflicts p \<and>
    instants (pr_time p) [seal_sealedAt request] latest"
  then show "\<exists>q. protocolStep digest p (Seal_run fence request answer) = Some (afterMutation q answer) \<and>
      instants (pr_time q) [] latest \<and> pr_stage q = ?stage \<and> pr_fence q = Some fence \<and> pr_renewals q \<le> r + pr_conflicts q"
    using assms instants_use[of "pr_time p" "[]" "seal_sealedAt request" latest]
    by (intro exI[of _ ?q]) (simp add: holds_def issued_def moves_def)
qed

lemma sealPlans_held:
  assumes "plannedAll digest asOf plans"
  shows "triple (held digest (Planning asOf proofs (length plans)) r []) (sealPlans deps plans)
    (\<lambda>_. held digest (Settling asOf proofs (map plan_proof plans) 0 First_attempt) r []) (stopped digest)"
  unfolding sealPlans_def
proof (rule held_fenced, rule triple_seq[OF inStage_nextTime])
  fix fence and x :: "string \<times> int"
  obtain sealedAt t where x: "x = (sealedAt, t)" by (cases x)
  let ?request = "\<lparr>seal_decisions = map plan_proof plans, seal_sealedAt = sealedAt\<rparr>"
  show "triple (case x of (instant, t) \<Rightarrow> \<lambda>s. getTime instant = t \<and>
        inStage digest (Planning asOf proofs (length plans)) r ([] @ [instant]) (Some fence) s)
      (case x of (sealedAt, _) \<Rightarrow> let request = \<lparr>seal_decisions = map plan_proof plans, seal_sealedAt = sealedAt\<rparr> in
        seq (calls (dep_sealRun deps fence request) (Seal_run fence request)) adoptFence)
      (\<lambda>_. held digest (Settling asOf proofs (map plan_proof plans) 0 First_attempt) r []) (stopped digest)"
    unfolding x prod.case Let_def append.simps
    using inStage_mutation[OF seal_step[of ?request "length plans" digest fence asOf proofs r]] ordinals_planned[OF assms]
    by (intro triple_assume) simp
qed simp

subsection \<open>Settling the decisions\<close>

lemma sameProof_eq: "sameProof left right \<longleftrightarrow> left = right"
  by (cases left; cases right) (auto simp: sameProof_def)

lemma suppress_step:
  assumes "k < length decisions" and "decisions ! k = sup_proof request"
    and "dp_disposition (sup_proof request) = Suppressed_partial" and "sup_asOf request = asOf"
  shows "leadsTo digest afterWrite (Record_suppressed fence request) fence (Settling asOf proofs decisions k First_attempt) r
    [sup_recordedAt request] (Settling asOf proofs decisions (Suc k) First_attempt) r"
  unfolding leadsTo_def
proof (intro allI impI)
  fix p latest and answer :: "alertEvaluatorProofWriteResult result"
  let ?q = "moves p (sup_recordedAt request) (Settling asOf proofs decisions (Suc k) First_attempt)"
  assume "pr_stage p = Settling asOf proofs decisions k First_attempt \<and> pr_fence p = Some fence \<and>
    pr_renewals p \<le> r + pr_conflicts p \<and> instants (pr_time p) [sup_recordedAt request] latest"
  then show "\<exists>q. protocolStep digest p (Record_suppressed fence request answer) = Some (afterWrite q answer) \<and>
      instants (pr_time q) [] latest \<and> pr_stage q = Settling asOf proofs decisions (Suc k) First_attempt \<and>
      pr_fence q = Some fence \<and> pr_renewals q \<le> r + pr_conflicts q"
    using assms instants_use[of "pr_time p" "[]" "sup_recordedAt request" latest]
    by (intro exI[of _ ?q]) (simp add: holds_def issued_def moves_def)
qed

lemma suppressDecision_held:
  assumes "k < length decisions" and "decisions ! k = plan_proof plan" and "dp_disposition (plan_proof plan) = Suppressed_partial"
    and "eval_asOf (plan_evaluation plan) = asOf"
  shows "triple (inStage digest (Settling asOf proofs decisions k First_attempt) r [recordedAt] (Some fence))
    (suppressDecision deps plan recordedAt)
    (\<lambda>_. held digest (Settling asOf proofs decisions (Suc k) First_attempt) r []) (stopped digest)"
proof -
  let ?request = "\<lparr>sup_asOf = eval_asOf (plan_evaluation plan),
    sup_proof = (plan_proof plan)\<lparr>dp_disposition := Suppressed_partial\<rparr>, sup_recordedAt = recordedAt\<rparr>"
  have "(plan_proof plan)\<lparr>dp_disposition := Suppressed_partial\<rparr> = plan_proof plan"
    using assms(3) by simp
  then show ?thesis
    unfolding suppressDecision_def Let_def
    using inStage_write[OF suppress_step[of k decisions ?request asOf digest fence proofs r]] assms
    by (intro inStage_fenced) simp
qed

definition persistEnd ::
  "digestFunction \<Rightarrow> string \<Rightarrow> alertEvaluatorSourceProofValue list \<Rightarrow> alertEvaluatorDecisionProofValue list \<Rightarrow> nat \<Rightarrow>
   settleAttempt \<Rightarrow> nat \<Rightarrow> persistenceResult \<Rightarrow> 'w evaluatorState \<Rightarrow> bool" where
  "persistEnd digest asOf proofs decisions k attempt r result =
     (if result = Conflict
      then if attempt = First_attempt then held digest (Settling asOf proofs decisions k Conflicted) (r - 1) []
        else held digest Failing_run r []
      else held digest (Settling asOf proofs decisions (Suc k) First_attempt) r [])"

lemma persistPlan_held:
  fixes deps :: "'w alertEvaluatorDependencies"
  assumes plan: "k < length decisions" "decisions ! k = plan_proof plan" "dp_disposition (plan_proof plan) \<noteq> Suppressed_partial"
    "provesDecision digest (plan_proof plan) (plan_decision plan) (plan_evaluation plan)" "eval_asOf (plan_evaluation plan) = asOf"
    and "attempt \<noteq> Conflicted" and "0 < r"
  shows "triple (inStage digest (Settling asOf proofs decisions k attempt) r [recordedAt] (Some fence))
    (persistPlan deps input plan recordedAt) (persistEnd digest asOf proofs decisions k attempt r) (stopped digest)"
proof -
  let ?request = "\<lparr>pli_decision = plan_decision plan, pli_environment = rai_environment input,
       pli_evaluation = plan_evaluation plan, pli_expected = snap_expected (plan_snapshot plan),
       pli_runProof = \<lparr>rp_fence = fence, rp_proof = plan_proof plan, rp_recordedAt = recordedAt\<rparr>\<rparr>"
  have same: "(if dp_disposition (plan_proof plan) = Applied_decision
           then (plan_proof plan)\<lparr>dp_disposition := Applied_decision\<rparr>
           else (plan_proof plan)\<lparr>dp_disposition := No_state_change\<rparr>) = plan_proof plan"
    using plan(3) by (cases "dp_disposition (plan_proof plan)") simp_all
  let ?stage = "Settling asOf proofs decisions k attempt"
  have step: "\<exists>p. follows digest initialProtocol (es_calls s @ [Persist_decision ?request answer]) =
        Some (persistedStage asOf proofs decisions k attempt p answer) \<and> pr_fence p = Some fence \<and>
        pr_renewals p \<le> r + pr_conflicts p \<and> instants (pr_time p) [] (es_lastLogical s)"
    if "inStage digest ?stage r [recordedAt] (Some fence) s" for s :: "'w evaluatorState" and answer
  proof -
    from that obtain p where p: "follows digest initialProtocol (es_calls s) = Some p" "pr_stage p = ?stage"
        "pr_fence p = Some fence" "pr_renewals p \<le> r + pr_conflicts p" "instants (pr_time p) [recordedAt] (es_lastLogical s)"
      by (auto simp: inStage_def)
    then show ?thesis
      using plan assms(6) instants_use[of "pr_time p" "[]" recordedAt]
      by (intro exI[of _ "moves p recordedAt ?stage"]) (simp add: follows_snoc holds_def issued_def moves_def)
  qed
  have "triple (inStage digest ?stage r [recordedAt] (Some fence))
      (calls (dep_persistDecision deps ?request) (Persist_decision ?request))
      (persistEnd digest asOf proofs decisions k attempt r) (stopped digest)"
  proof (rule triple_calls)
    fix s :: "'w evaluatorState" and w x
    assume s: "inStage digest ?stage r [recordedAt] (Some fence) s"
    show "persistEnd digest asOf proofs decisions k attempt r x (s\<lparr>es_world := w, es_calls := es_calls s @ [Persist_decision ?request (Inr x)]\<rparr>)"
      using step[OF s, of "Inr x"] s assms(7)
      by (auto simp: persistEnd_def persistedStage_def held_def inStage_def working_def)
  next
    fix s :: "'w evaluatorState" and w err
    assume s: "inStage digest ?stage r [recordedAt] (Some fence) s"
    show "stopped digest err (s\<lparr>es_world := w, es_calls := es_calls s @ [Persist_decision ?request (Inl err)]\<rparr>)"
      using step[OF s, of "Inl err"] s
      by (auto simp: stopped_def persistedStage_def inStage_def working_def)
  qed
  then show ?thesis
    unfolding persistPlan_def Let_def by (intro inStage_fenced) (simp only: same)
qed

lemma recomputePlan_held:
  assumes "plannedOk digest asOf k plan"
  shows "triple (held digest (Settling asOf proofs decisions k Conflicted) r []) (recomputePlan digest deps input plan)
    (\<lambda>again s. provesDecision digest (plan_proof again) (plan_decision again) (plan_evaluation again) \<and>
      plan_evaluation again = plan_evaluation plan \<and>
      held digest (Settling asOf proofs decisions k Reread) r [] s) (stopped digest)"
proof -
  let ?i = "\<lparr>id_dimension = obs_dimension (plan_observation plan), id_ruleId = obs_ruleId (plan_observation plan)\<rparr>"
  have snapshot: "triple (held digest (Settling asOf proofs decisions k Conflicted) r [])
      (readSnapshotFor deps input (plan_observation plan))
      (\<lambda>_. held digest (Settling asOf proofs decisions k Reread) r []) (stopped digest)"
    by (rule readSnapshot_held[where i = ?i]) auto
  have "evaluateAlertRule (jsOfObservation (plan_observation plan)) = Inr (plan_evaluation plan)"
    using assms by (simp add: plannedOk_def)
  then show ?thesis
    unfolding recomputePlan_def
    by (intro triple_seq[OF snapshot] held_lifts) (auto simp: Let_def dest: decisionProof_ok intro!: held_lifts triple_returns)
qed

lemma retryPlan_held:
  assumes "plannedOk digest asOf k plan" and "k < length decisions" and "decisions ! k = plan_proof plan"
    and "dp_disposition (plan_proof plan) \<noteq> Suppressed_partial" and "r < 5"
  shows "triple (held digest (Settling asOf proofs decisions k Conflicted) r []) (retryPlan digest deps input plan)
    (persistEnd digest asOf proofs decisions k Reread (Suc r)) (stopped digest)"
  unfolding retryPlan_def
proof (rule triple_seq[OF recomputePlan_held[OF assms(1)]], intro triple_assume)
  let ?stage = "Settling asOf proofs decisions k Reread"
  fix again :: plannedDecision
  assume again: "provesDecision digest (plan_proof again) (plan_decision again) (plan_evaluation again)"
    "plan_evaluation again = plan_evaluation plan"
  have asOf: "eval_asOf (plan_evaluation plan) = asOf"
    using assms(1) by (simp add: plannedOk_def)
  have persist: "triple (held digest ?stage (Suc r) []) (seq (nextTime deps) (\<lambda>(recordedAt, _). persistPlan deps input again recordedAt))
      (persistEnd digest asOf proofs decisions k Reread (Suc r)) (stopped digest)" if "plan_proof again = plan_proof plan"
    unfolding held_def
  proof (rule triple_exists, rule triple_seq[OF inStage_nextTime])
    show "triple (case x of (instant, t) \<Rightarrow> \<lambda>s. getTime instant = t \<and> inStage digest ?stage (Suc r) ([] @ [instant]) (Some fence) s)
        (case x of (recordedAt, _) \<Rightarrow> persistPlan deps input again recordedAt)
        (persistEnd digest asOf proofs decisions k Reread (Suc r)) (stopped digest)" for fence x
      using assms again asOf that by (cases x) (auto intro!: triple_assume persistPlan_held)
  qed simp
  have renew: "triple (held digest ?stage r []) (maybeRenew deps) (\<lambda>_. held digest ?stage (Suc r) []) (stopped digest)"
    by (rule maybeRenew_held) (use assms(5) in auto)
  show "triple (held digest ?stage r []) (if \<not> sameProof (plan_proof again) (plan_proof plan) then fail Evaluator_failed
      else seq (maybeRenew deps) (\<lambda>_. seq (nextTime deps) (\<lambda>(recordedAt, _). persistPlan deps input again recordedAt)))
      (persistEnd digest asOf proofs decisions k Reread (Suc r)) (stopped digest)"
    unfolding sameProof_eq fail_def
    by (intro triple_if triple_seq[OF renew] persist triple_throws held_stopped[where stage = ?stage]) auto
qed

lemma settlePlan_held:
  assumes "plannedOk digest asOf k plan" and "k < length decisions" and "decisions ! k = plan_proof plan" and "k < 25"
    and "0 < r" and "r \<le> 5"
  shows "triple (held digest (Settling asOf proofs decisions k First_attempt) r []) (settlePlan digest deps input (k, plan))
    (\<lambda>_. held digest (Settling asOf proofs decisions (Suc k) First_attempt) r []) (stopped digest)"
proof -
  let ?stage = "Settling asOf proofs decisions k First_attempt"
  let ?next = "held digest (Settling asOf proofs decisions (Suc k) First_attempt) r []"
  have ok: "provesDecision digest (plan_proof plan) (plan_decision plan) (plan_evaluation plan)"
      "eval_asOf (plan_evaluation plan) = asOf"
    using assms(1) by (simp_all add: plannedOk_def)
  have retry: "triple (persistEnd digest asOf proofs decisions k First_attempt r result)
      (if result = Conflict then retryPlan digest deps input plan else returns result)
      (persistEnd digest asOf proofs decisions k Reread r) (stopped digest)"
    if "dp_disposition (plan_proof plan) \<noteq> Suppressed_partial" for result
  proof (rule triple_if)
    assume c: "result = Conflict"
    have "triple (held digest (Settling asOf proofs decisions k Conflicted) (r - 1) []) (retryPlan digest deps input plan)
        (persistEnd digest asOf proofs decisions k Reread (Suc (r - 1))) (stopped digest)"
      by (rule retryPlan_held) (use assms that in auto)
    then show "triple (persistEnd digest asOf proofs decisions k First_attempt r result) (retryPlan digest deps input plan)
        (persistEnd digest asOf proofs decisions k Reread r) (stopped digest)"
      using assms(5) c by (simp add: persistEnd_def[of digest asOf proofs decisions k First_attempt])
  qed (auto simp: persistEnd_def intro!: triple_returns)
  have finish: "triple (persistEnd digest asOf proofs decisions k Reread r result)
      (if result = Conflict then fail Evaluator_failed else returns ()) (\<lambda>_. ?next) (stopped digest)" for result
    by (cases "result = Conflict")
      (auto simp: persistEnd_def fail_def intro!: triple_throws triple_returns intro: held_stopped)
  have settle: "triple (inStage digest ?stage r [recordedAt] (Some fence))
      (if dp_disposition (plan_proof plan) = Suppressed_partial then suppressDecision deps plan recordedAt
       else seq (persistPlan deps input plan recordedAt) (\<lambda>result.
         seq (if result = Conflict then retryPlan digest deps input plan else returns result) (\<lambda>result.
           if result = Conflict then fail Evaluator_failed else returns ())))
      (\<lambda>_. ?next) (stopped digest)" for recordedAt fence
    by (intro triple_if suppressDecision_held triple_seq[OF persistPlan_held] triple_seq[OF retry] finish)
      (use assms ok in auto)
  have main: "triple (held digest ?stage r []) (seq (nextTime deps) (\<lambda>(recordedAt, _).
       if dp_disposition (plan_proof plan) = Suppressed_partial then suppressDecision deps plan recordedAt
       else seq (persistPlan deps input plan recordedAt) (\<lambda>result.
         seq (if result = Conflict then retryPlan digest deps input plan else returns result) (\<lambda>result.
           if result = Conflict then fail Evaluator_failed else returns ())))) (\<lambda>_. ?next) (stopped digest)"
    unfolding held_def[of digest ?stage]
    by (rule triple_exists, rule triple_seq[OF inStage_nextTime], simp)
      (simp only: split_def append.simps, intro triple_assume settle)
  have skip: "triple (held digest ?stage r []) (if k > 0 \<and> k mod 25 = 0 then maybeRenew deps else returns ())
      (\<lambda>_. held digest ?stage r []) (stopped digest)"
  proof (rule triple_if)
    assume "k > 0 \<and> k mod 25 = 0"
    then have False
      using assms(4) by auto
    then show "triple (held digest ?stage r []) (maybeRenew deps) (\<lambda>_. held digest ?stage r []) (stopped digest)" ..
  qed (rule triple_returns)
  show ?thesis
    unfolding settlePlan_def prod.case by (rule triple_seq[OF skip main])
qed

lemma settlePlans_held:
  assumes "plannedAll digest asOf plans" and "length plans \<le> 20" and "0 < r" and "r \<le> 5"
  shows "triple (held digest (Settling asOf proofs (map plan_proof plans) 0 First_attempt) r [])
    (for_each (settlePlan digest deps input) (enumerate 0 plans))
    (\<lambda>_. held digest (Settling asOf proofs (map plan_proof plans) (length plans) First_attempt) r []) (stopped digest)"
proof -
  let ?I = "\<lambda>ys :: unit list. held digest (Settling asOf proofs (map plan_proof plans) (length ys) First_attempt) r []"
  have "triple (?I []) (for_each (settlePlan digest deps input) (enumerate 0 plans))
      (\<lambda>ys s. length ys = length (enumerate 0 plans) \<and> ?I ys s) (stopped digest)"
  proof (rule triple_for_each)
    fix before x rest and ys :: "unit list"
    assume at: "enumerate 0 plans = before @ x # rest" "length ys = length before"
    note x = enumerate_at[OF at(1)]
    have "x = (length before, plans ! length before)"
      using x by (cases x) simp
    moreover have "triple (?I ys) (settlePlan digest deps input (length before, plans ! length before))
        (\<lambda>_. held digest (Settling asOf proofs (map plan_proof plans) (Suc (length before)) First_attempt) r []) (stopped digest)"
      unfolding at(2) by (rule settlePlan_held) (use assms x in \<open>auto simp: plannedAll_def\<close>)
    ultimately show "triple (?I ys) (settlePlan digest deps input x) (\<lambda>y. ?I (ys @ [y])) (stopped digest)"
      using at(2) by simp
  qed
  then show ?thesis
    by (elim triple_conseq) auto
qed

subsection \<open>The end of a run\<close>

lemma failureDisposition_called:
  "failureDisposition sources = None \<Longrightarrow> calledFailure (map cs_proof sources) = None"
  "failureDisposition sources = Some (code, errorCode, outcome) \<Longrightarrow>
   calledFailure (map cs_proof sources) = Some (errorCode, outcome) \<and> code = orchestrationFor errorCode"
  by (auto simp: failureDisposition_def calledFailure_def Let_def list_ex_iff image_iff split: if_splits) metis+

lemma success_step:
  assumes "calledFailure proofs = None" and "follows digest initialProtocol cs = Some p" and "pr_fence p = Some fence"
    and "pr_stage p = Settling asOf proofs decisions (length decisions) First_attempt" and "instants (pr_time p) [instant] latest"
  shows "follows digest initialProtocol (cs @ [Record_success fence instant answer]) =
    Some (moves p instant (case answer of Inl _ \<Rightarrow> Failing_run
      | Inr result \<Rightarrow> Finished (terminated (\<lambda>run. Returned (Evaluator_succeeded run)) result)))"
  using assms instants_use[of "pr_time p" "[]" instant latest] by (simp add: follows_snoc holds_def issued_def)

lemma recordSuccess_held:
  assumes "calledFailure proofs = None"
  shows "triple (inStage digest (Settling asOf proofs decisions (length decisions) First_attempt) r [completedAt] (Some fence))
    (fenced (\<lambda>fence.
     seq (calls (dep_recordSuccess deps fence completedAt) (Record_success fence completedAt)) (\<lambda>success.
       case success of
         Terminal_lost \<Rightarrow> ownershipLost
       | Terminal_committed _ run \<Rightarrow> seq (modifies (\<lambda>s. s\<lparr>es_terminal := True\<rparr>)) (\<lambda>_. returns (Evaluator_succeeded run))
       | Terminal_replayed _ run \<Rightarrow> seq (modifies (\<lambda>s. s\<lparr>es_terminal := True\<rparr>)) (\<lambda>_. returns (Evaluator_succeeded run)))))
    (\<lambda>result. endedWith digest (Returned result)) (stopped digest)"
proof (rule inStage_fenced, rule tripleI)
  fix s :: "'a evaluatorState"
  assume "inStage digest (Settling asOf proofs decisions (length decisions) First_attempt) r [completedAt] (Some fence) s"
  then obtain p where p: "follows digest initialProtocol (es_calls s) = Some p" "pr_fence p = Some fence"
      "pr_stage p = Settling asOf proofs decisions (length decisions) First_attempt"
      "instants (pr_time p) [completedAt] (es_lastLogical s)" "es_fence s = Some fence" "working s"
    by (auto simp: inStage_def)
  note step = success_step[OF assms p(1-4)]
  note used = instants_use[of "pr_time p" "[]", simplified, OF p(4)]
  note run_defs = seq_def modifies_def calls_def returns_def endedWith_def stopped_def working_def ownershipLost_def fail_def
    throws_def
  let ?m = "seq (calls (dep_recordSuccess deps fence completedAt) (Record_success fence completedAt)) (\<lambda>success.
       case success of
         Terminal_lost \<Rightarrow> ownershipLost
       | Terminal_committed _ run \<Rightarrow> seq (modifies (\<lambda>s. s\<lparr>es_terminal := True\<rparr>)) (\<lambda>_. returns (Evaluator_succeeded run))
       | Terminal_replayed _ run \<Rightarrow> seq (modifies (\<lambda>s. s\<lparr>es_terminal := True\<rparr>)) (\<lambda>_. returns (Evaluator_succeeded run)))"
  show "stopped digest err s'" if "?m s = (Inl err, s')" for err s'
    using that p(2,5,6) step used
    by (auto simp: run_defs moves_def split: prod.splits sum.splits alertEvaluatorTerminalResult.splits)
  show "endedWith digest (Returned result) s'" if "?m s = (Inr result, s')" for result s'
    using that step by (auto simp: run_defs moves_def split: prod.splits sum.splits alertEvaluatorTerminalResult.splits)
qed

lemma finishRun_held:
  assumes "proofs = map cs_proof sources"
  shows "triple (held digest (Settling asOf proofs decisions (length decisions) First_attempt) r []) (finishRun deps sources)
    (\<lambda>result. endedWith digest (Returned result)) (stopped digest)"
proof (cases "failureDisposition sources")
  case None
  then have none: "calledFailure proofs = None"
    using failureDisposition_called assms by simp
  show ?thesis
    unfolding finishRun_def None option.case held_def
    by (rule triple_exists, rule triple_seq[OF inStage_nextTime], simp)
      (simp only: split_def append.simps, intro triple_assume recordSuccess_held[OF none])
next
  let ?stage = "Settling asOf proofs decisions (length decisions) First_attempt"
  case (Some found)
  obtain code errorCode outcome where found: "found = (code, errorCode, outcome)" by (cases found)
  have called: "calledFailure proofs = Some (errorCode, outcome)" "code = orchestrationFor errorCode"
    using failureDisposition_called(2)[of sources] Some found assms by auto
  have terminate: "triple (held digest ?stage r []) (terminateFailure deps errorCode outcome)
      (failureEnded digest errorCode) (failureThrown digest ?stage r errorCode)"
    by (rule terminateFailure_held) (simp add: failureAllowed_def called)
  have handle: "triple (failureThrown digest ?stage r errorCode err)
      (seq (gets es_failureAttempted) (\<lambda>attempted. if attempted then fail code else throws err))
      (failureEnded digest errorCode) (stopped digest)" for err
    by (rule tripleI)
      (auto simp: seq_def gets_def fail_def throws_def called failureThrown_def intro: endedWith_stopped held_stopped
        split: if_splits)
  show ?thesis
    unfolding finishRun_def Some found option.case prod.case
    by (rule triple_seq[OF triple_catches[OF terminate handle]])
      (rule tripleI, auto simp: fail_def throws_def failureEnded_def called intro: endedWith_stopped split: if_splits)
qed

lemma evaluateSources_held:
  "triple (inStage digest (Metering 0) 0 [] (Some fence)) (evaluateSources digest deps input)
    (\<lambda>result. endedWith digest (Returned result)) (stopped digest)"
proof -
  have renew: "triple (held digest stage r []) (maybeRenew deps) (\<lambda>_. held digest stage (Suc r) []) (stopped digest)"
    if "renewable stage" "r < 5" for stage r
    by (rule maybeRenew_held) (use that in auto)
  have finish: "triple (held digest (Settling asOf (map cs_proof sources) (map plan_proof plans) (length plans) First_attempt) r [])
      (finishRun deps sources) (\<lambda>result. endedWith digest (Returned result)) (stopped digest)" for asOf sources plans r
    using finishRun_held[OF refl, of digest asOf sources "map plan_proof plans" r deps] by simp
  show ?thesis
    unfolding evaluateSources_def numeral_eq_Suc
    by (rule triple_seq[OF collectQueueMetricBarrier_held], rule triple_assume,
        rule triple_seq[OF bindBarrier_held], rule triple_seq[OF renew], simp, simp,
        rule triple_seq[OF collectSources_held], assumption, rule triple_assume, rule triple_seq[OF renew], simp, simp,
        rule triple_seq[OF recordSources_held], assumption, rule triple_seq[OF renew], simp, simp,
        rule triple_seq[OF planDecisions_held], assumption, (rule triple_assume)+, rule triple_seq[OF renew], simp, simp,
        rule triple_seq[OF sealPlans_held], assumption, rule triple_seq[OF settlePlans_held], assumption, assumption, simp, simp,
        rule triple_seq[OF renew], simp, simp, rule finish)
qed

text \<open>Before the run holds a fence.\<close>

definition unfenced :: "digestFunction \<Rightarrow> runStage \<Rightarrow> string \<Rightarrow> 'w evaluatorState \<Rightarrow> bool" where
  "unfenced digest stage startedAt s \<longleftrightarrow>
     working s \<and> es_fence s = None \<and> canonical startedAt \<and>
     (\<exists>p. follows digest initialProtocol (es_calls s) = Some p \<and> pr_stage p = stage \<and> pr_fence p = None \<and>
        pr_renewals p = 0 \<and> es_lastLogical s = Some (getTime startedAt) \<and> time_in_range (getTime startedAt) \<and>
        (if stage = Starting then pr_time p < getTime startedAt else pr_time p = getTime startedAt))"

lemma acquireAndEvaluate_held:
  assumes "getTime scheduledAt \<le> getTime startedAt"
  shows "triple (unfenced digest Starting startedAt) (acquireAndEvaluate digest deps input scheduledAt startedAt)
    (\<lambda>result. endedWith digest (Returned result)) (stopped digest)"
proof -
  let ?request = "\<lparr>acq_leaseDurationSeconds = LEASE_DURATION_SECONDS, acq_scheduledAt = scheduledAt,
    acq_startedAt = startedAt, acq_triggerCron = TRIGGER_CRON\<rparr>"
  let ?after = "\<lambda>initialized. if initialized then endedWith digest (Returned Evaluator_initialized)
    else unfenced digest Initializing startedAt"
  have initialize: "triple (unfenced digest Starting startedAt)
      (calls (dep_initializeRuntime deps startedAt) (Initialize_runtime startedAt)) ?after (stopped digest)"
    by (rule triple_calls)
      (auto simp: unfenced_def endedWith_def stopped_def follows_snoc issued_def moves_def working_def split: if_splits)
  have acquire: "triple (unfenced digest Initializing startedAt) (calls (dep_acquireRun deps ?request) (Acquire_run ?request))
      (\<lambda>acquired. case acquired of
          None \<Rightarrow> endedWith digest (Returned Evaluator_contended)
        | Some (Duplicate_run run) \<Rightarrow> endedWith digest (Returned (Evaluator_duplicate run))
        | Some (Acquired_run fence _) \<Rightarrow> (\<lambda>s. inStage digest (Metering 0) 0 [] (Some fence) (s\<lparr>es_fence := Some fence\<rparr>)))
      (stopped digest)"
    by (rule triple_calls)
      (use assms in \<open>auto simp: unfenced_def endedWith_def stopped_def follows_snoc working_def inStage_def instants_def
        split: option.splits acquireAlertEvaluatorRunResult.splits\<close>)
  have enter: "triple (\<lambda>s. inStage digest (Metering 0) 0 [] (Some fence) (s\<lparr>es_fence := Some fence\<rparr>))
      (seq (modifies (\<lambda>s. s\<lparr>es_fence := Some fence\<rparr>)) (\<lambda>_. evaluateSources digest deps input))
      (\<lambda>result. endedWith digest (Returned result)) (stopped digest)" for fence
    by (rule triple_seq[OF _ evaluateSources_held]) (rule triple_modifies)
  show ?thesis
    unfolding acquireAndEvaluate_def Let_def
  proof (rule triple_seq[OF initialize])
    fix initialized
    have "triple (unfenced digest Initializing startedAt)
        (seq (calls (dep_acquireRun deps ?request) (Acquire_run ?request)) (\<lambda>acquired.
           case acquired of
             None \<Rightarrow> returns Evaluator_contended
           | Some (Duplicate_run run) \<Rightarrow> returns (Evaluator_duplicate run)
           | Some (Acquired_run fence _) \<Rightarrow>
               seq (modifies (\<lambda>s. s\<lparr>es_fence := Some fence\<rparr>)) (\<lambda>_. evaluateSources digest deps input)))
        (\<lambda>result. endedWith digest (Returned result)) (stopped digest)"
      by (rule triple_seq[OF acquire])
        (auto split: option.splits acquireAlertEvaluatorRunResult.splits intro!: triple_returns enter)
    then show "triple (?after initialized) (if initialized then returns Evaluator_initialized
        else seq (calls (dep_acquireRun deps ?request) (Acquire_run ?request)) (\<lambda>acquired.
           case acquired of
             None \<Rightarrow> returns Evaluator_contended
           | Some (Duplicate_run run) \<Rightarrow> returns (Evaluator_duplicate run)
           | Some (Acquired_run fence _) \<Rightarrow>
               seq (modifies (\<lambda>s. s\<lparr>es_fence := Some fence\<rparr>)) (\<lambda>_. evaluateSources digest deps input)))
        (\<lambda>result. endedWith digest (Returned result)) (stopped digest)"
      by (cases initialized) (auto intro!: triple_returns)
  qed
qed

text \<open>What an exception leaves with, against where the protocol ended.\<close>

definition threwFrom :: "digestFunction \<Rightarrow> js_error \<Rightarrow> 'w evaluatorState \<Rightarrow> bool" where
  "threwFrom digest err s \<longleftrightarrow>
     (\<exists>p code. follows digest initialProtocol (es_calls s) = Some p \<and> err = orchestrationError code \<and>
        (\<forall>result. pr_stage p \<noteq> Finished (Returned result)) \<and>
        (pr_stage p = Finished Lost_lease \<longrightarrow> code = Lease_lost) \<and>
        (\<forall>errorCode. pr_stage p = Finished (Failed_with errorCode) \<longrightarrow>
           errorCode = Run_evaluator_failed \<or> code = orchestrationFor errorCode))"

lemma orchestrationCode_own [simp]: "orchestrationCode (orchestrationError code) = code"
  by (cases code) (simp_all add: orchestrationCode_def orchestrationError_def)

lemma failRun_held:
  fixes Q :: "'x \<Rightarrow> 'w evaluatorState \<Rightarrow> bool"
  shows "triple (stopped digest err) (failRun deps err) Q (threwFrom digest)"
proof (rule tripleI)
  fix s :: "'w evaluatorState"
  assume s: "stopped digest err s"
  let ?run = "failRun deps err s :: 'x result \<times> 'w evaluatorState"
  let ?may = "\<not> es_terminal s \<and> \<not> es_ownershipLost s \<and> es_fence s \<noteq> None \<and> \<not> es_failureAttempted s"
  have "\<exists>err'. fst ?run = Inl err' \<and> threwFrom digest err' (snd ?run)"
  proof (cases ?may)
    case False
    then have "?run = fail (orchestrationCode err) s"
      by (auto simp: failRun_def seq_def gets_def)
    moreover have "threwFrom digest (orchestrationError (orchestrationCode err)) s"
      using s False by (auto simp: stopped_def threwFrom_def working_def)
    ultimately show ?thesis
      by (simp add: fail_def throws_def)
  next
    case True
    then obtain p fence where p: "follows digest initialProtocol (es_calls s) = Some p" "\<not> finished (pr_stage p)"
        "es_fence s = Some fence" "pr_fence p = Some fence" "instants (pr_time p) [] (es_lastLogical s)" "working s"
      using s by (auto simp: stopped_def)
    then have held: "held digest (pr_stage p) (pr_renewals p) [] s"
      by (auto simp: held_def inStage_def)
    have allowed: "failureAllowed (pr_stage p) (Run_evaluator_failed, Failing)"
      using p(2) by (simp add: failureAllowed_def)
    note terminate = tripleD[OF terminateFailure_held[OF allowed, of digest "pr_renewals p" deps] held]
    obtain r s' where run: "terminateFailure deps Run_evaluator_failed Failing s = (r, s')"
      by (cases "terminateFailure deps Run_evaluator_failed Failing s")
    have eq: "?run = fail (if r = Inr False \<and> es_ownershipLost s' then Lease_lost else orchestrationCode err) s'"
      using True run by (auto simp: failRun_def seq_def gets_def settled_def)
    have "threwFrom digest (orchestrationError (if r = Inr False \<and> es_ownershipLost s' then Lease_lost else orchestrationCode err)) s'"
    proof (cases r)
      case (Inl err')
      then show ?thesis
        using terminate(2)[of err' s'] run p(2)
        by (cases "pr_stage p") (auto simp: failureThrown_def endedWith_def threwFrom_def held_def inStage_def split: if_splits
          dest: sym[of "Finished _"])
    next
      case (Inr ended)
      then show ?thesis
        using terminate(1)[of ended s'] run by (auto simp: failureEnded_def endedWith_def threwFrom_def split: if_splits)
    qed
    with eq show ?thesis
      by (simp add: fail_def throws_def)
  qed
  then show "?run = (Inl err', s') \<Longrightarrow> threwFrom digest err' s'" and "?run = (Inr x, s') \<Longrightarrow> Q x s'" for err' x s'
    by auto
qed

lemma initial_follows: "follows digest initialProtocol (es_calls (initialEvaluatorState world)) = Some initialProtocol"
  by (simp add: initialEvaluatorState_def)

lemma runInObserveMode_held:
  "triple (\<lambda>s. s = initialEvaluatorState world) (runInObserveMode digest deps input)
    (\<lambda>result. endedWith digest (Returned result)) (threwFrom digest)"
proof -
  have early: "threwFrom digest (orchestrationError code) s" if "es_calls s = []" for code and s :: "'a evaluatorState"
    using that by (auto simp: threwFrom_def initialProtocol_def)
  have schedule: "triple (\<lambda>s. s = initialEvaluatorState world) (lifts (scheduledTimestamp (rai_scheduledTime input)))
      (\<lambda>(scheduledAt, scheduledTime) s. s = initialEvaluatorState world \<and> getTime scheduledAt = scheduledTime) (threwFrom digest)"
    by (rule triple_lifts)
      (auto simp: scheduledTimestamp_def initialEvaluatorState_def intro!: early split: option.splits if_splits)
  have start: "triple (\<lambda>s. s = initialEvaluatorState world) (nextTime deps)
      (\<lambda>(startedAt, startedTime) s. es_calls s = [] \<and> getTime startedAt = startedTime \<and> unfenced digest Starting startedAt s)
      (threwFrom digest)"
    by (rule triple_nextTime)
      (auto simp: initialEvaluatorState_def logicalTime_def unfenced_def working_def initialProtocol_def time_in_range_def
        intro!: early)
  have run: "triple (\<lambda>s. es_calls s = [] \<and> getTime startedAt = startedTime \<and> unfenced digest Starting startedAt s)
      (if scheduledTime > startedTime then fail Clock_invalid
       else catches (acquireAndEvaluate digest deps input scheduledAt startedAt) (failRun deps))
      (\<lambda>result. endedWith digest (Returned result)) (threwFrom digest)"
    if "getTime scheduledAt = scheduledTime" for scheduledAt scheduledTime startedAt startedTime
  proof (rule triple_if)
    assume le: "\<not> startedTime < scheduledTime"
    show "triple (\<lambda>s. es_calls s = [] \<and> getTime startedAt = startedTime \<and> unfenced digest Starting startedAt s)
        (catches (acquireAndEvaluate digest deps input scheduledAt startedAt) (failRun deps))
        (\<lambda>result. endedWith digest (Returned result)) (threwFrom digest)"
    proof (rule triple_catches[OF _ failRun_held])
      show "triple (\<lambda>s. es_calls s = [] \<and> getTime startedAt = startedTime \<and> unfenced digest Starting startedAt s)
          (acquireAndEvaluate digest deps input scheduledAt startedAt)
          (\<lambda>result. endedWith digest (Returned result)) (stopped digest)"
        using acquireAndEvaluate_held[of scheduledAt startedAt digest deps input] le that
        by (auto simp: triple_def)
    qed
  qed (auto simp: triple_def fail_def throws_def intro: early)
  show ?thesis
    unfolding runInObserveMode_def split_def
    by (rule triple_seq[OF schedule[unfolded split_def]], subst conj_commute, rule triple_assume)
      (rule triple_seq[OF start[unfolded split_def]], rule run, assumption)
qed

end
