(* ===== verification/Alert_Evaluator_History.thy ===== *)
theory Alert_Evaluator_History
  imports Alert_Evaluator_Protocol
begin

section \<open>What the calls of a run are like\<close>

text \<open>
  Facts about every word of the protocol, each an interpretation of \<open>log_history\<close>: whose fence a call
  carries, in which order the instants are, what was recorded and sealed before a success, and how
  many statements the calls may cost.
\<close>

subsection \<open>Fences\<close>

fun fenceOf :: "evaluatorCall \<Rightarrow> alertEvaluatorRunFence option" where
  "fenceOf (Bind_asOf fence _ _) = Some fence"
| "fenceOf (Renew_run fence _ _) = Some fence"
| "fenceOf (Record_source fence _ _) = Some fence"
| "fenceOf (Seal_run fence _ _) = Some fence"
| "fenceOf (Record_suppressed fence _ _) = Some fence"
| "fenceOf (Persist_decision request _) = Some (rp_fence (pli_runProof request))"
| "fenceOf (Record_failure fence _ _) = Some fence"
| "fenceOf (Record_success fence _ _) = Some fence"
| "fenceOf _ = None"

fun mutationFence :: "alertEvaluatorRunMutationResult result \<Rightarrow> alertEvaluatorRunFence option" where
  "mutationFence (Inr (Run_committed fence _)) = Some fence"
| "mutationFence (Inr (Run_replayed fence _)) = Some fence"
| "mutationFence _ = None"

fun fenceGiven :: "evaluatorCall \<Rightarrow> alertEvaluatorRunFence option" where
  "fenceGiven (Acquire_run _ (Inr (Some (Acquired_run fence _)))) = Some fence"
| "fenceGiven (Bind_asOf _ _ answer) = mutationFence answer"
| "fenceGiven (Renew_run _ _ answer) = mutationFence answer"
| "fenceGiven (Seal_run _ _ answer) = mutationFence answer"
| "fenceGiven _ = None"

fun lostAnswer :: "evaluatorCall \<Rightarrow> bool" where
  "lostAnswer (Bind_asOf _ _ answer) = (answer = Inr Run_lost)"
| "lostAnswer (Renew_run _ _ answer) = (answer = Inr Run_lost)"
| "lostAnswer (Record_source _ _ answer) = (answer = Inr Proof_lost)"
| "lostAnswer (Seal_run _ _ answer) = (answer = Inr Run_lost)"
| "lostAnswer (Record_suppressed _ _ answer) = (answer = Inr Proof_lost)"
| "lostAnswer (Record_failure _ _ answer) = (answer = Inr Terminal_lost)"
| "lostAnswer (Record_success _ _ answer) = (answer = Inr Terminal_lost)"
| "lostAnswer _ = False"

definition heldAfter :: "evaluatorCall list \<Rightarrow> alertEvaluatorRunFence option" where
  "heldAfter log = foldl (\<lambda>fence call. case fenceGiven call of None \<Rightarrow> fence | Some f \<Rightarrow> Some f) None log"

definition fencingKept :: "evaluatorCall list \<Rightarrow> bool" where
  "fencingKept log \<longleftrightarrow>
     (\<forall>before call after. log = before @ call # after \<longrightarrow>
        (fenceOf call \<noteq> None \<longrightarrow> fenceOf call = heldAfter before) \<and> (lostAnswer call \<longrightarrow> after = []))"

lemma step_unfinished: "protocolStep digest p call = Some q \<Longrightarrow> \<not> finished (pr_stage p)"
  by (cases "pr_stage p"; cases call) (auto simp: failureAllowed_def split: if_splits)

lemma step_fence: "protocolStep digest p call = Some q \<Longrightarrow> fenceOf call \<noteq> None \<Longrightarrow> fenceOf call = pr_fence p"
  by (cases call) (auto simp: holds_def Let_def split: if_splits runStage.splits option.splits prod.splits settleAttempt.splits)

lemma after_fence:
  shows "pr_fence (afterMutation p answer) = (case mutationFence answer of None \<Rightarrow> pr_fence p | Some f \<Rightarrow> Some f)"
    and "pr_fence (afterWrite p written) = pr_fence p"
    and "pr_fence (persistedStage asOf proofs decisions k attempt p persisted) = pr_fence p"
proof -
  show "pr_fence (afterMutation p answer) = (case mutationFence answer of None \<Rightarrow> pr_fence p | Some f \<Rightarrow> Some f)"
    by (cases "(p, answer)" rule: afterMutation.cases) auto
  show "pr_fence (afterWrite p written) = pr_fence p"
    by (cases "(p, written)" rule: afterWrite.cases) auto
  show "pr_fence (persistedStage asOf proofs decisions k attempt p persisted) = pr_fence p"
    by (auto simp: persistedStage_def split: sum.splits)
qed

lemma step_gives:
  "protocolStep digest p call = Some q \<Longrightarrow> pr_fence q = (case fenceGiven call of None \<Rightarrow> pr_fence p | Some f \<Rightarrow> Some f)"
  by (cases call)
    (auto simp: after_fence moves_def Let_def split: if_splits runStage.splits option.splits prod.splits sum.splits
      settleAttempt.splits acquireAlertEvaluatorRunResult.splits)

lemma step_lost: "protocolStep digest p call = Some q \<Longrightarrow> lostAnswer call \<Longrightarrow> pr_stage q = Finished Lost_lease"
  by (cases call) (auto simp: moves_def split: if_splits runStage.splits option.splits prod.splits settleAttempt.splits)

lemma fencingKept_snoc:
  assumes "fencingKept log" and "fenceOf call \<noteq> None \<Longrightarrow> fenceOf call = heldAfter log" and "\<not> list_ex lostAnswer log"
  shows "fencingKept (log @ [call])"
  unfolding fencingKept_def
proof (intro allI impI)
  fix before c after
  assume split: "log @ [call] = before @ c # after"
  show "(fenceOf c \<noteq> None \<longrightarrow> fenceOf c = heldAfter before) \<and> (lostAnswer c \<longrightarrow> after = [])"
  proof (cases after rule: rev_cases)
    case Nil
    with split assms(2) show ?thesis by auto
  next
    case (snoc after' last)
    with split have "log = before @ c # after'" by simp
    with assms(1,3) show ?thesis by (auto simp: fencingKept_def)
  qed
qed

interpretation fences: log_history "protocolStep digest" initialProtocol
  "\<lambda>log p. pr_fence p = heldAfter log \<and> fencingKept log \<and> (list_ex lostAnswer log \<longrightarrow> pr_stage p = Finished Lost_lease)"
  for digest
proof unfold_locales
  show "pr_fence initialProtocol = heldAfter [] \<and> fencingKept [] \<and>
      (list_ex lostAnswer [] \<longrightarrow> pr_stage initialProtocol = Finished Lost_lease)"
    by (simp add: initialProtocol_def heldAfter_def fencingKept_def)
next
  fix log p call q
  assume h: "pr_fence p = heldAfter log \<and> fencingKept log \<and> (list_ex lostAnswer log \<longrightarrow> pr_stage p = Finished Lost_lease)"
    and s: "protocolStep digest p call = Some q"
  have never: "\<not> list_ex lostAnswer log"
    using h step_unfinished[OF s] by auto
  have "heldAfter (log @ [call]) = (case fenceGiven call of None \<Rightarrow> heldAfter log | Some f \<Rightarrow> Some f)"
    by (simp add: heldAfter_def split: option.split)
  then have "heldAfter (log @ [call]) = pr_fence q"
    using h step_gives[OF s] by (simp split: option.split)
  moreover have "fencingKept (log @ [call])"
    using h step_fence[OF s] never by (intro fencingKept_snoc) auto
  ultimately show "pr_fence q = heldAfter (log @ [call]) \<and> fencingKept (log @ [call]) \<and>
      (list_ex lostAnswer (log @ [call]) \<longrightarrow> pr_stage q = Finished Lost_lease)"
    using never step_lost[OF s] by auto
qed

subsection \<open>Instants\<close>

fun issuedIn :: "evaluatorCall \<Rightarrow> string list" where
  "issuedIn (Initialize_runtime startedAt _) = [startedAt]"
| "issuedIn (Bind_asOf _ request _) = [bind_asOf request, bind_boundAt request]"
| "issuedIn (Renew_run _ request _) = [ren_renewedAt request]"
| "issuedIn (Record_source _ request _) = [rsi_recordedAt request]"
| "issuedIn (Seal_run _ request _) = [seal_sealedAt request]"
| "issuedIn (Record_suppressed _ request _) = [sup_recordedAt request]"
| "issuedIn (Persist_decision request _) = [rp_recordedAt (pli_runProof request)]"
| "issuedIn (Record_failure _ request _) = [fail_completedAt request]"
| "issuedIn (Record_success _ completedAt _) = [completedAt]"
| "issuedIn _ = []"

definition issuedBy :: "evaluatorCall list \<Rightarrow> string list" where
  "issuedBy log = concat (map issuedIn log)"

lemma after_time:
  shows "pr_time (afterMutation p answer) = pr_time p" and "pr_time (afterWrite p written) = pr_time p"
    and "pr_time (persistedStage asOf proofs decisions k attempt p persisted) = pr_time p"
proof -
  show "pr_time (afterMutation p answer) = pr_time p"
    by (cases "(p, answer)" rule: afterMutation.cases) auto
  show "pr_time (afterWrite p written) = pr_time p"
    by (cases "(p, written)" rule: afterWrite.cases) auto
  show "pr_time (persistedStage asOf proofs decisions k attempt p persisted) = pr_time p"
    by (auto simp: persistedStage_def split: sum.splits)
qed

lemma step_issues:
  "protocolStep digest p call = Some q \<Longrightarrow>
   list_all canonical (issuedIn call) \<and> sorted_wrt (<) (pr_time p # map getTime (issuedIn call)) \<and>
   pr_time q = last (pr_time p # map getTime (issuedIn call))"
  by (cases call)
    (auto simp: after_time moves_def Let_def holds_def issued_def split: if_splits runStage.splits option.splits prod.splits
      sum.splits settleAttempt.splits acquireAlertEvaluatorRunResult.splits)

interpretation instants: log_history "protocolStep digest" initialProtocol
  "\<lambda>log p. list_all canonical (issuedBy log) \<and> sorted_wrt (<) (map getTime (issuedBy log)) \<and>
     (\<forall>x \<in> set (issuedBy log). getTime x \<le> pr_time p)"
  for digest
proof unfold_locales
  fix log p call q
  assume h: "list_all canonical (issuedBy log) \<and> sorted_wrt (<) (map getTime (issuedBy log)) \<and>
      (\<forall>x \<in> set (issuedBy log). getTime x \<le> pr_time p)"
    and s: "protocolStep digest p call = Some q"
  have le: "pr_time p \<le> pr_time q" "\<forall>x \<in> set (issuedIn call). getTime x \<le> pr_time q"
    using step_issues[OF s] by (cases call; auto)+
  show "list_all canonical (issuedBy (log @ [call])) \<and> sorted_wrt (<) (map getTime (issuedBy (log @ [call]))) \<and>
      (\<forall>x \<in> set (issuedBy (log @ [call])). getTime x \<le> pr_time q)"
    using h step_issues[OF s] le by (fastforce simp: issuedBy_def sorted_wrt_append)
qed (simp add: issuedBy_def)

subsection \<open>Proofs and decisions\<close>

fun recordedBy :: "evaluatorCall \<Rightarrow> alertEvaluatorSourceProofValue list" where
  "recordedBy (Record_source _ request (Inr written)) = (if written = Proof_lost then [] else [rsi_proof request])"
| "recordedBy _ = []"

fun sealedBy :: "evaluatorCall \<Rightarrow> alertEvaluatorDecisionProofValue list list" where
  "sealedBy (Seal_run _ request (Inr result)) = (if result = Run_lost then [] else [seal_decisions request])"
| "sealedBy _ = []"

fun settledBy :: "evaluatorCall \<Rightarrow> alertEvaluatorDecisionProofValue list" where
  "settledBy (Record_suppressed _ request (Inr written)) = (if written = Proof_lost then [] else [sup_proof request])"
| "settledBy (Persist_decision request (Inr result)) = (if result = Conflict then [] else [rp_proof (pli_runProof request)])"
| "settledBy _ = []"

text \<open>What the run has written when the protocol is in a stage.\<close>

definition inSourceOrder :: "alertEvaluatorSourceProofValue list \<Rightarrow> bool" where
  "inSourceOrder proofs \<longleftrightarrow> map sp_sourceId proofs = take (length proofs) ALERT_EVALUATOR_SOURCE_IDS"

definition written :: "evaluatorCall list \<Rightarrow> alertEvaluatorSourceProofValue list \<Rightarrow>
    alertEvaluatorDecisionProofValue list list \<Rightarrow> alertEvaluatorDecisionProofValue list \<Rightarrow> bool" where
  "written log proofs sealed applied \<longleftrightarrow>
     concat (map recordedBy log) = proofs \<and> concat (map sealedBy log) = sealed \<and> concat (map settledBy log) = applied"

definition accounted :: "evaluatorCall list \<Rightarrow> bool" where
  "accounted log \<longleftrightarrow>
     (\<exists>proofs decisions. written log proofs [decisions] decisions \<and> map sp_sourceId proofs = ALERT_EVALUATOR_SOURCE_IDS \<and>
        list_all (\<lambda>value. sp_status value = Source_complete) proofs \<and>
        map dp_ordinal decisions = map int [0..<length decisions])"

fun writtenAt :: "runStage \<Rightarrow> evaluatorCall list \<Rightarrow> bool" where
  "writtenAt (Recording asOf proofs) log = (written log proofs [] [] \<and> inSourceOrder proofs)"
| "writtenAt (Planning asOf proofs n) log =
     (written log proofs [] [] \<and> map sp_sourceId proofs = ALERT_EVALUATOR_SOURCE_IDS)"
| "writtenAt (Settling asOf proofs decisions k attempt) log =
     (written log proofs [decisions] (take k decisions) \<and> map sp_sourceId proofs = ALERT_EVALUATOR_SOURCE_IDS \<and>
      k \<le> length decisions \<and> (attempt \<noteq> First_attempt \<longrightarrow> k < length decisions) \<and>
      map dp_ordinal decisions = map int [0..<length decisions])"
| "writtenAt (Finished (Returned (Evaluator_succeeded run))) log = accounted log"
| "writtenAt (Finished _) log = True"
| "writtenAt Failing_run log = True"
| "writtenAt _ log = written log [] [] []"

lemma written_snoc:
  "written log proofs sealed applied \<Longrightarrow>
   written (log @ [call]) (proofs @ recordedBy call) (sealed @ sealedBy call) (applied @ settledBy call)"
  by (simp add: written_def)

lemma calledFailure_complete:
  "calledFailure proofs = None \<longleftrightarrow> list_all (\<lambda>value. sp_status value = Source_complete) proofs"
proof -
  have complete: "st \<notin> {Source_invalid, Source_unavailable, Source_partial} \<longleftrightarrow> st = Source_complete" for st
    by (cases st) auto
  have "(if Source_invalid \<in> S then Some a else if Source_unavailable \<in> S then Some b
      else if Source_partial \<in> S then Some c else None) = None \<longleftrightarrow>
      (\<forall>st \<in> S. st \<notin> {Source_invalid, Source_unavailable, Source_partial})" for S and a b c :: 'x
    by auto
  from this[of "set (map sp_status proofs)" "(Run_evaluator_failed, Failing)" "(Run_metrics_unavailable, Run_unavailable)"
      "(Run_source_incomplete, Degraded)"]
  have "calledFailure proofs = None \<longleftrightarrow>
      (\<forall>st \<in> set (map sp_status proofs). st \<notin> {Source_invalid, Source_unavailable, Source_partial})"
    unfolding calledFailure_def Let_def .
  then show ?thesis
    unfolding complete by (simp add: list_all_iff)
qed

lemma order_snoc:
  assumes "inSourceOrder proofs" and "length proofs < length ALERT_EVALUATOR_SOURCE_IDS"
    and "sp_sourceId proof = ALERT_EVALUATOR_SOURCE_IDS ! length proofs"
  shows "inSourceOrder (proofs @ [proof])"
  using assms by (simp add: inSourceOrder_def take_Suc_conv_app_nth)

lemma writtenAt_recorded:
  assumes "written log proofs [] []" and "inSourceOrder proofs" and "length proofs \<le> length ALERT_EVALUATOR_SOURCE_IDS"
  shows "writtenAt (recordedStage asOf proofs) log"
  using assms by (auto simp: recordedStage_def inSourceOrder_def)

lemma writtenAt_mutation:
  "(\<And>result. answer = Inr result \<Longrightarrow> result \<noteq> Run_lost \<Longrightarrow> writtenAt (pr_stage p) log) \<Longrightarrow>
   writtenAt (pr_stage (afterMutation p answer)) log"
  by (cases "(p, answer)" rule: afterMutation.cases) auto

lemma writtenAt_write:
  "(\<And>result. answer = Inr result \<Longrightarrow> result \<noteq> Proof_lost \<Longrightarrow> writtenAt (pr_stage p) log) \<Longrightarrow>
   writtenAt (pr_stage (afterWrite p answer)) log"
  by (cases "(p, answer)" rule: afterWrite.cases) auto

lemma writtenAt_ended: "writtenAt (Finished (terminated (\<lambda>_. Failed_with code) result)) log"
  by (cases result) auto

lemma writtenAt_terminated: "accounted log \<Longrightarrow> writtenAt (Finished (terminated (\<lambda>run. Returned (Evaluator_succeeded run)) result)) log"
  by (cases result) auto

lemma step_records:
  assumes "writtenAt (pr_stage p) log" and "protocolStep digest p (Record_source fence request answer) = Some q"
  shows "writtenAt (pr_stage q) (log @ [Record_source fence request answer])"
proof -
  let ?call = "Record_source fence request answer"
  obtain asOf proofs where r: "recordingOf (pr_stage p) = Some (asOf, proofs)"
      "length proofs < length ALERT_EVALUATOR_SOURCE_IDS" "sp_sourceId (rsi_proof request) = ALERT_EVALUATOR_SOURCE_IDS ! length proofs"
      "q = afterWrite (moves p (rsi_recordedAt request) (recordedStage asOf (proofs @ [rsi_proof request]))) answer"
    using assms(2) by (auto split: option.splits if_splits)
  have here: "written log proofs [] []" "inSourceOrder proofs"
    using assms(1) r(1) by (cases "pr_stage p"; auto simp: inSourceOrder_def split: if_splits)+
  have "written (log @ [?call]) (proofs @ [rsi_proof request]) [] []" if "answer = Inr result" "result \<noteq> Proof_lost" for result
    using written_snoc[OF here(1), of ?call] that by simp
  then show ?thesis
    unfolding r(4) using order_snoc[OF here(2) r(2,3)] r(2)
    by (intro writtenAt_write) (auto simp: moves_def intro!: writtenAt_recorded)
qed

lemma step_persists:
  assumes "writtenAt (pr_stage p) log" and "protocolStep digest p (Persist_decision request answer) = Some q"
  shows "writtenAt (pr_stage q) (log @ [Persist_decision request answer])"
  using assms written_snoc[of log _ _ _ "Persist_decision request answer"]
  by (auto simp: moves_def Let_def persistedStage_def take_Suc_conv_app_nth split: if_splits runStage.splits sum.splits)

lemma step_writes:
  assumes "writtenAt (pr_stage p) log" and "protocolStep digest p call = Some q"
  shows "writtenAt (pr_stage q) (log @ [call])"
proof (cases call)
  case (Record_source fence request answer)
  with assms step_records show ?thesis by blast
next
  case (Persist_decision request answer)
  with assms step_persists show ?thesis by blast
next
  case (Bind_asOf fence request answer)
  with assms written_snoc[of log _ _ _ call] show ?thesis
    by (auto simp: moves_def intro!: writtenAt_mutation split: if_splits)
next
  case (Renew_run fence request answer)
  with assms written_snoc[of log _ _ _ call] show ?thesis
    by (cases "pr_stage p") (auto simp: moves_def intro!: writtenAt_mutation split: if_splits)
next
  case (Seal_run fence request answer)
  with assms(2) obtain asOf proofs n where q: "pr_stage p = Planning asOf proofs n"
      "map dp_ordinal (seal_decisions request) = map int [0..<n]"
      "q = afterMutation (moves p (seal_sealedAt request) (Settling asOf proofs (seal_decisions request) 0 First_attempt)) answer"
    by (auto split: if_splits runStage.splits)
  have n: "n = length (seal_decisions request)"
    using arg_cong[OF q(2), of length] by simp
  have "written (log @ [Seal_run fence request (Inr result)]) proofs [seal_decisions request] []"
    if "result \<noteq> Run_lost" for result
    using written_snoc[of log proofs "[]" "[]" "Seal_run fence request (Inr result)"] that assms(1) q(1) by simp
  then show ?thesis
    unfolding q(3) using assms(1) q(1,2) Seal_run
    by (intro writtenAt_mutation) (auto simp: moves_def n)
next
  case (Record_suppressed fence request answer)
  with assms written_snoc[of log _ _ _ call] show ?thesis
    by (auto simp: moves_def take_Suc_conv_app_nth intro!: writtenAt_write split: if_splits runStage.splits settleAttempt.splits)
next
  case (Record_failure fence request answer)
  with assms show ?thesis
    by (auto simp: moves_def writtenAt_ended split: if_splits sum.splits)
next
  case (Record_success fence completedAt answer)
  with assms written_snoc[of log _ _ _ call] show ?thesis
    by (cases "pr_stage p")
      (auto simp: moves_def accounted_def calledFailure_complete intro!: writtenAt_terminated split: if_splits sum.splits,
        blast)
qed (use assms written_snoc[of log _ _ _ call] in
    \<open>auto simp: moves_def split: if_splits runStage.splits option.splits sum.splits settleAttempt.splits
        acquireAlertEvaluatorRunResult.splits\<close>)

interpretation writes: log_history "protocolStep digest" initialProtocol "\<lambda>log p. writtenAt (pr_stage p) log" for digest
  by unfold_locales (auto simp: initialProtocol_def written_def intro: step_writes)

end
