(* ===== verification/Alert_Evaluator_Budget.thy ===== *)
theory Alert_Evaluator_Budget
  imports Alert_Evaluator_History
begin

section \<open>The statements a run may cost\<close>

text \<open>
  \<open>ALERT_EVALUATOR_D1_QUERY_BUDGET\<close> gives the most statements of each call. \<open>withinBudget\<close> reads it as a
  bound on the cost of the calls of a run; \<open>spent\<close> is the most a word of the protocol can have
  cost when the protocol is in a state.
\<close>

fun sourceBudget :: "alertEvaluatorSourceId \<Rightarrow> int" where
  "sourceBudget (Queue_source _) = 3"
| "sourceBudget D1_audit = 15"
| "sourceBudget D1_oauth_client_report = 4"
| "sourceBudget D1_security_fanout_gap = 2"
| "sourceBudget D1_logout_delivery = 9"
| "sourceBudget D1_alert_runtime = 2"

text \<open>The first three calls share one entry of the budget: \<open>start\<close> splits it.\<close>

fun callBudget :: "int \<times> int \<times> int \<Rightarrow> evaluatorCall \<Rightarrow> int" where
  "callBudget (initialize, acquire, bind) (Initialize_runtime _ _) = initialize"
| "callBudget (initialize, acquire, bind) (Acquire_run _ _) = acquire"
| "callBudget (initialize, acquire, bind) (Bind_asOf _ _ _) = bind"
| "callBudget _ (Read_metrics _) = 0"
| "callBudget _ (Renew_run _ _ _) = 2"
| "callBudget _ (Read_source i _) = sourceBudget i"
| "callBudget _ (Record_source _ _ _) = 3"
| "callBudget _ (Read_snapshot _ _) = 2"
| "callBudget _ (Seal_run _ _ _) = 4"
| "callBudget _ (Record_suppressed _ _ _) = 15"
| "callBudget _ (Persist_decision _ _) = 15"
| "callBudget _ (Record_failure _ _ _) = 8"
| "callBudget _ (Record_success _ _ _) = 9"

definition startShare :: "int \<times> int \<times> int \<Rightarrow> bool" where
  "startShare start \<longleftrightarrow> (case start of (initialize, acquire, bind) \<Rightarrow>
     0 \<le> initialize \<and> 0 \<le> acquire \<and> 0 \<le> bind \<and> initialize + acquire + bind = 8)"

definition totalBudget :: "int \<times> int \<times> int \<Rightarrow> evaluatorCall list \<Rightarrow> int" where
  "totalBudget start log = sum_list (map (callBudget start) log)"

definition sourcesBudget :: "nat \<Rightarrow> int" where
  "sourcesBudget k = sum_list (map sourceBudget (take k ALERT_EVALUATOR_SOURCE_IDS))"

lemma sourcesBudget_all: "sourcesBudget 9 = 44"
  by (simp add: sourcesBudget_def ALERT_EVALUATOR_SOURCE_IDS_def)

lemma sourcesBudget_0 [simp]: "sourcesBudget 0 = 0"
  by (simp add: sourcesBudget_def)

lemma sourcesBudget_Suc:
  "k < length ALERT_EVALUATOR_SOURCE_IDS \<Longrightarrow> sourcesBudget (Suc k) = sourcesBudget k + sourceBudget (ALERT_EVALUATOR_SOURCE_IDS ! k)"
  by (simp add: sourcesBudget_def take_Suc_conv_app_nth)

lemma sourcesBudget_le: "k \<le> 9 \<Longrightarrow> sourcesBudget k \<le> 44"
proof -
  assume "k \<le> 9"
  then have "k \<in> {0, 1, 2, 3, 4, 5, 6, 7, 8, 9}"
    unfolding insert_iff empty_iff by presburger
  then show ?thesis
    by (auto simp: sourcesBudget_def ALERT_EVALUATOR_SOURCE_IDS_def)
qed

fun settleCost :: "settleAttempt \<Rightarrow> int" where
  "settleCost First_attempt = 0"
| "settleCost Conflicted = - 2"
| "settleCost Reread = 0"

fun stageCost :: "int \<times> int \<times> int \<Rightarrow> runStage \<Rightarrow> int" where
  "stageCost _ Starting = 0"
| "stageCost (initialize, acquire, bind) Initializing = initialize"
| "stageCost (initialize, acquire, bind) (Metering _) = initialize + acquire"
| "stageCost _ (Reading _ k) = 8 + sourcesBudget k"
| "stageCost _ (Recording _ proofs) = 52 + 3 * int (length proofs)"
| "stageCost _ (Planning _ _ n) = 79 + 2 * int n"
| "stageCost _ (Settling _ _ decisions k attempt) = 83 + 2 * int (length decisions) + 15 * int k + settleCost attempt"
| "stageCost _ Failing_run = 822"
| "stageCost _ (Finished _) = 830"

definition spent :: "int \<times> int \<times> int \<Rightarrow> runProtocol \<Rightarrow> int" where
  "spent start p =
     (if pr_stage p = Failing_run \<or> finished (pr_stage p) then stageCost start (pr_stage p)
      else stageCost start (pr_stage p) + 2 * int (pr_renewals p) + 17 * int (pr_conflicts p))"

fun measured :: "runStage \<Rightarrow> nat \<Rightarrow> bool" where
  "measured (Reading _ k) conflicts = (k \<le> 9 \<and> conflicts = 0)"
| "measured (Recording _ proofs) conflicts = (length proofs < 9 \<and> conflicts = 0)"
| "measured (Planning _ _ n) conflicts = (n \<le> 20 \<and> conflicts = 0)"
| "measured (Settling _ _ decisions k attempt) conflicts =
     (length decisions \<le> 20 \<and> k \<le> length decisions \<and>
      (if attempt = First_attempt then conflicts \<le> k else k < length decisions \<and> conflicts \<le> Suc k))"
| "measured Failing_run conflicts = True"
| "measured (Finished _) conflicts = True"
| "measured _ conflicts = (conflicts = 0)"

definition costKept :: "int \<times> int \<times> int \<Rightarrow> evaluatorCall list \<Rightarrow> runProtocol \<Rightarrow> bool" where
  "costKept start log p \<longleftrightarrow>
     totalBudget start log \<le> spent start p \<and> measured (pr_stage p) (pr_conflicts p) \<and>
     pr_renewals p \<le> 5 + pr_conflicts p"

lemma totalBudget_snoc: "totalBudget start (log @ [call]) = totalBudget start log + callBudget start call"
  by (simp add: totalBudget_def)

lemma spent_working:
  assumes "startShare start" and "measured (pr_stage p) (pr_conflicts p)" and "pr_renewals p \<le> 5 + pr_conflicts p"
    and "\<not> finished (pr_stage p)" and "pr_stage p \<noteq> Failing_run"
  shows "spent start p \<le> 813"
proof -
  have r: "int (pr_renewals p) \<le> 5 + int (pr_conflicts p)"
    using assms(3) by linarith
  have c: "spent start p = stageCost start (pr_stage p) + 2 * int (pr_renewals p) + 17 * int (pr_conflicts p)"
    using assms(4,5) by (simp add: spent_def)
  show ?thesis
  proof (cases "pr_stage p")
    case (Settling asOf proofs decisions k attempt)
    then have "int (length decisions) \<le> 20" "int k \<le> int (length decisions)"
        "attempt = First_attempt \<Longrightarrow> int (pr_conflicts p) \<le> int k"
        "attempt \<noteq> First_attempt \<Longrightarrow> int k + 1 \<le> int (length decisions) \<and> int (pr_conflicts p) \<le> int k + 1"
      using assms(2) by (auto split: if_splits)
    moreover have "settleCost attempt \<le> 0"
      by (cases attempt) simp_all
    moreover have "stageCost start (pr_stage p) = 83 + 2 * int (length decisions) + 15 * int k + settleCost attempt"
      using Settling by simp
    ultimately show ?thesis
      using r unfolding c by (cases "attempt = First_attempt") linarith+
  next
    case (Reading asOf k)
    then show ?thesis
      using r assms(2) sourcesBudget_le[of k] unfolding c by simp
  next
    case (Recording asOf proofs)
    then have "int (length proofs) \<le> 9" "pr_conflicts p = 0"
      using assms(2) by auto
    then show ?thesis
      using r Recording unfolding c by simp
  next
    case (Planning asOf proofs n)
    then have "int n \<le> 20" "pr_conflicts p = 0"
      using assms(2) by auto
    then show ?thesis
      using r Planning unfolding c by simp
  qed (use r assms in \<open>auto simp: c startShare_def\<close>)
qed

lemma spent_le:
  assumes "startShare start" and "measured (pr_stage p) (pr_conflicts p)" and "pr_renewals p \<le> 5 + pr_conflicts p"
    and "\<not> finished (pr_stage p)"
  shows "spent start p \<le> 822"
  using spent_working[OF assms] by (cases "pr_stage p = Failing_run") (auto simp: spent_def)

lemma spent_settling:
  assumes "measured (pr_stage p) (pr_conflicts p)" and "pr_renewals p \<le> 5 + pr_conflicts p"
    and "pr_stage p = Settling asOf proofs decisions k attempt" and "k < length decisions"
  shows "spent start p \<le> 798"
proof -
  have "int (pr_renewals p) \<le> 5 + int (pr_conflicts p)" "int (length decisions) \<le> 20" "int k + 1 \<le> int (length decisions)"
      "int (pr_conflicts p) \<le> int k + 1"
    using assms by (auto split: if_splits)
  moreover have "settleCost attempt \<le> 0"
    by (cases attempt) simp_all
  ultimately show ?thesis
    unfolding spent_def assms(3) by simp
qed

lemma costKept_failing: "totalBudget start log \<le> 822 \<Longrightarrow> pr_renewals p \<le> 5 + pr_conflicts p \<Longrightarrow> costKept start log (p\<lparr>pr_stage := Failing_run\<rparr>)"
  by (simp add: costKept_def spent_def)

lemma costKept_mutation:
  assumes "costKept start log p" and "totalBudget start log \<le> 822"
  shows "costKept start log (afterMutation p answer)"
  using assms by (cases "(p, answer)" rule: afterMutation.cases) (auto simp: costKept_def spent_def)

lemma costKept_write:
  assumes "costKept start log p" and "totalBudget start log \<le> 822"
  shows "costKept start log (afterWrite p answer)"
  using assms by (cases "(p, answer)" rule: afterWrite.cases) (auto simp: costKept_def spent_def)

lemma spent_moves: "spent start (moves p at stage) =
    (if stage = Failing_run \<or> finished stage then stageCost start stage
     else stageCost start stage + 2 * int (pr_renewals p) + 17 * int (pr_conflicts p))"
  by (simp add: spent_def moves_def)

lemma moves_fields [simp]:
  "pr_stage (moves p at stage) = stage" "pr_renewals (moves p at stage) = pr_renewals p" "pr_conflicts (moves p at stage) = pr_conflicts p"
  by (simp_all add: moves_def)


lemma costKept_open:
  assumes "startShare start" and "costKept start log p" and "protocolStep digest p call = Some q"
  shows "totalBudget start log \<le> 822 \<and> (pr_stage p \<noteq> Failing_run \<longrightarrow> totalBudget start log \<le> 813) \<and>
    pr_renewals p \<le> 5 + pr_conflicts p"
  using assms(2) order_trans[of _ "spent start p"] assms(1) spent_le[of start p] spent_working[of start p] step_unfinished[OF assms(3)]
  by (simp add: costKept_def; blast)

lemma cost_initialize:
  assumes "startShare start" and "costKept start log p" and "protocolStep digest p (Initialize_runtime startedAt answer) = Some q"
  shows "costKept start (log @ [Initialize_runtime startedAt answer]) q"
  using assms by (auto simp: costKept_def spent_def totalBudget_snoc startShare_def split: if_splits sum.splits prod.splits)

lemma cost_acquire:
  assumes "startShare start" and "costKept start log p" and "protocolStep digest p (Acquire_run request answer) = Some q"
  shows "costKept start (log @ [Acquire_run request answer]) q"
  using assms by (auto simp: costKept_def spent_def totalBudget_snoc startShare_def
      split: if_splits sum.splits prod.splits option.splits acquireAlertEvaluatorRunResult.splits)

lemma cost_metrics:
  assumes "startShare start" and "costKept start log p" and "protocolStep digest p (Read_metrics queue) = Some q"
  shows "costKept start (log @ [Read_metrics queue]) q"
  using assms by (auto simp: costKept_def spent_def totalBudget_snoc startShare_def split: if_splits prod.splits runStage.splits)

lemma cost_bind:
  assumes "startShare start" and "costKept start log p" and "protocolStep digest p (Bind_asOf fence request answer) = Some q"
  shows "costKept start (log @ [Bind_asOf fence request answer]) q"
proof -
  obtain initialize acquire bind where share: "start = (initialize, acquire, bind)" "0 \<le> bind" "bind \<le> 8" "initialize + acquire + bind = 8"
    using assms(1) by (cases start) (auto simp: startShare_def)
  have q: "pr_stage p = Metering (length ALERT_QUEUE_NAMES)"
      "q = afterMutation (moves p (bind_boundAt request) (Reading (bind_asOf request) 0)) answer"
    using assms(3) by (auto split: if_splits)
  show ?thesis
    unfolding q(2)
  proof (rule costKept_mutation)
    show "costKept start (log @ [Bind_asOf fence request answer]) (moves p (bind_boundAt request) (Reading (bind_asOf request) 0))"
      using assms(2) q(1) share by (simp add: costKept_def spent_moves spent_def totalBudget_snoc)
    show "totalBudget start (log @ [Bind_asOf fence request answer]) \<le> 822"
      using costKept_open[OF assms] q(1) share by (simp add: totalBudget_snoc)
  qed
qed

lemma cost_renew:
  assumes "startShare start" and "costKept start log p" and "protocolStep digest p (Renew_run fence request answer) = Some q"
  shows "costKept start (log @ [Renew_run fence request answer]) q"
proof -
  let ?p = "(moves p (ren_renewedAt request) (pr_stage p))\<lparr>pr_renewals := Suc (pr_renewals p)\<rparr>"
  have q: "renewable (pr_stage p)" "pr_renewals p < 5 + pr_conflicts p" "q = afterMutation ?p answer"
    using assms(3) by (auto split: if_splits)
  have cost: "callBudget start (Renew_run fence request answer) = 2"
    by (cases start) simp
  have open_stage: "pr_stage p \<noteq> Failing_run" "\<not> finished (pr_stage p)"
    using q(1) by (auto elim: finished.elims)
  have spent: "spent start ?p = spent start p + 2"
    using open_stage by (simp add: spent_def moves_def)
  show ?thesis
    unfolding q(3)
  proof (rule costKept_mutation)
    show "costKept start (log @ [Renew_run fence request answer]) ?p"
      using assms(2) q(2) spent cost by (simp add: costKept_def totalBudget_snoc)
    show "totalBudget start (log @ [Renew_run fence request answer]) \<le> 822"
      using costKept_open[OF assms] open_stage(1) cost by (simp add: totalBudget_snoc)
  qed
qed

lemma cost_source:
  assumes "startShare start" and "costKept start log p" and "protocolStep digest p (Read_source sourceId asOf) = Some q"
  shows "costKept start (log @ [Read_source sourceId asOf]) q"
proof -
  have cost: "callBudget start (Read_source sourceId asOf) = sourceBudget sourceId"
    by (cases start) simp
  obtain bound k where q: "pr_stage p = Reading bound k" "k < length ALERT_EVALUATOR_SOURCE_IDS"
      "ALERT_EVALUATOR_SOURCE_IDS ! k = sourceId" "q = p\<lparr>pr_stage := Reading bound (Suc k)\<rparr>"
    using assms(3) by (auto split: runStage.splits if_splits)
  have nine: "length ALERT_EVALUATOR_SOURCE_IDS = 9"
    by (simp add: ALERT_EVALUATOR_SOURCE_IDS_def)
  show ?thesis
    using assms(2) q cost sourcesBudget_Suc[OF q(2)] nine by (simp add: costKept_def spent_def totalBudget_snoc)
qed

lemma cost_record:
  assumes "startShare start" and "costKept start log p" and "protocolStep digest p (Record_source fence request answer) = Some q"
  shows "costKept start (log @ [Record_source fence request answer]) q"
proof -
  let ?log = "log @ [Record_source fence request answer]"
  have cost: "callBudget start (Record_source fence request answer) = 3"
    by (cases start) simp
  obtain asOf proofs where q: "recordingOf (pr_stage p) = Some (asOf, proofs)" "length proofs < length ALERT_EVALUATOR_SOURCE_IDS"
      "q = afterWrite (moves p (rsi_recordedAt request) (recordedStage asOf (proofs @ [rsi_proof request]))) answer"
    using assms(3) by (auto split: option.splits if_splits)
  have nine: "length ALERT_EVALUATOR_SOURCE_IDS = 9"
    by (simp add: ALERT_EVALUATOR_SOURCE_IDS_def)
  have working: "pr_stage p \<noteq> Failing_run" "\<not> finished (pr_stage p)" "pr_conflicts p = 0"
      "stageCost start (pr_stage p) = 52 + 3 * int (length proofs)"
    using q(1) assms(2) sourcesBudget_all by (cases "pr_stage p"; auto simp: costKept_def split: if_splits)+
  have "costKept start ?log (moves p (rsi_recordedAt request) (recordedStage asOf (proofs @ [rsi_proof request])))"
    using assms(2) working q(2) cost nine
    by (auto simp: costKept_def spent_moves spent_def recordedStage_def totalBudget_snoc)
  then show ?thesis
    unfolding q(3) using costKept_open[OF assms] working(1) cost
    by (intro costKept_write) (auto simp: totalBudget_snoc)
qed

lemma cost_snapshot:
  assumes "startShare start" and "costKept start log p" and "protocolStep digest p (Read_snapshot i answer) = Some q"
  shows "costKept start (log @ [Read_snapshot i answer]) q"
proof -
  have cost: "callBudget start (Read_snapshot i answer) = 2"
    by (cases start) simp
  show ?thesis
    using assms(2,3) cost costKept_open[OF assms]
    by (auto simp: costKept_def spent_def totalBudget_snoc split: if_splits runStage.splits settleAttempt.splits sum.splits)
qed

lemma cost_seal:
  assumes "startShare start" and "costKept start log p" and "protocolStep digest p (Seal_run fence request answer) = Some q"
  shows "costKept start (log @ [Seal_run fence request answer]) q"
proof -
  have cost: "callBudget start (Seal_run fence request answer) = 4"
    by (cases start) simp
  obtain asOf proofs n where q: "pr_stage p = Planning asOf proofs n" "map dp_ordinal (seal_decisions request) = map int [0..<n]"
      "q = afterMutation (moves p (seal_sealedAt request) (Settling asOf proofs (seal_decisions request) 0 First_attempt)) answer"
    using assms(3) by (auto split: runStage.splits if_splits)
  have n: "length (seal_decisions request) = n"
    using arg_cong[OF q(2), of length] by simp
  show ?thesis
    unfolding q(3) using assms(2) q(1) n cost costKept_open[OF assms]
    by (intro costKept_mutation) (auto simp: costKept_def spent_moves spent_def totalBudget_snoc)
qed

lemma cost_suppressed:
  assumes "startShare start" and "costKept start log p" and "protocolStep digest p (Record_suppressed fence request answer) = Some q"
  shows "costKept start (log @ [Record_suppressed fence request answer]) q"
proof -
  have cost: "callBudget start (Record_suppressed fence request answer) = 15"
    by (cases start) simp
  obtain asOf proofs decisions k where q: "pr_stage p = Settling asOf proofs decisions k First_attempt" "k < length decisions"
      "q = afterWrite (moves p (sup_recordedAt request) (Settling asOf proofs decisions (Suc k) First_attempt)) answer"
    using assms(3) by (auto split: runStage.splits settleAttempt.splits if_splits)
  have "spent start p \<le> 798"
    using assms(2) q(1,2) by (intro spent_settling) (auto simp: costKept_def)
  then show ?thesis
    unfolding q(3) using assms(2) q(1,2) cost
    by (intro costKept_write) (auto simp: costKept_def spent_moves spent_def totalBudget_snoc)
qed

lemma cost_persist:
  assumes "startShare start" and "costKept start log p" and "protocolStep digest p (Persist_decision request answer) = Some q"
  shows "costKept start (log @ [Persist_decision request answer]) q"
proof -
  have cost: "callBudget start (Persist_decision request answer) = 15"
    by (cases start) simp
  obtain asOf proofs decisions k attempt where q: "pr_stage p = Settling asOf proofs decisions k attempt" "k < length decisions"
      "attempt \<noteq> Conflicted"
      "q = persistedStage asOf proofs decisions k attempt (moves p (rp_recordedAt (pli_runProof request)) (pr_stage p)) answer"
    using assms(3) by (auto simp: Let_def split: runStage.splits if_splits)
  have most: "spent start p \<le> 798"
    using assms(2) q(1,2) by (intro spent_settling) (auto simp: costKept_def)
  have "settleCost attempt = 0"
    using q(3) by (cases attempt) simp_all
  with most show ?thesis
    unfolding q(4) using assms(2) q(1-3) cost
    by (auto simp: costKept_def spent_def totalBudget_snoc persistedStage_def moves_def split: if_splits sum.splits)
qed

lemma cost_failure:
  assumes "startShare start" and "costKept start log p" and "protocolStep digest p (Record_failure fence request answer) = Some q"
  shows "costKept start (log @ [Record_failure fence request answer]) q"
proof -
  have cost: "callBudget start (Record_failure fence request answer) = 8"
    by (cases start) simp
  show ?thesis
    using assms(3) cost costKept_open[OF assms] by (auto simp: costKept_def spent_moves totalBudget_snoc split: if_splits)
qed

lemma cost_success:
  assumes "startShare start" and "costKept start log p" and "protocolStep digest p (Record_success fence completedAt answer) = Some q"
  shows "costKept start (log @ [Record_success fence completedAt answer]) q"
proof -
  have cost: "callBudget start (Record_success fence completedAt answer) = 9"
    by (cases start) simp
  have "pr_stage p \<noteq> Failing_run"
    using assms(3) by auto
  then show ?thesis
    using assms(3) cost costKept_open[OF assms]
    by (auto simp: costKept_def spent_moves totalBudget_snoc split: if_splits option.splits sum.splits)
qed

lemma step_cost:
  "startShare start \<Longrightarrow> costKept start log p \<Longrightarrow> protocolStep digest p call = Some q \<Longrightarrow> costKept start (log @ [call]) q"
  by (cases call)
    (simp_all only: cost_initialize cost_acquire cost_metrics cost_bind cost_renew cost_source cost_record cost_snapshot
      cost_seal cost_suppressed cost_persist cost_failure cost_success)

lemma initial_cost: "startShare start \<Longrightarrow> costKept start [] initialProtocol"
  by (cases start) (simp add: costKept_def initialProtocol_def totalBudget_def spent_def)

interpretation costs: log_history "protocolStep digest" initialProtocol "\<lambda>log p. startShare start \<longrightarrow> costKept start log p"
  for digest start
  by unfold_locales (use initial_cost step_cost in blast)+

lemma follows_budget:
  assumes "startShare start" and "follows digest initialProtocol log = Some p"
  shows "totalBudget start log \<le> 830"
proof -
  have kept: "costKept start log p"
    using costs.accepted_history[OF assms(2), of start] assms(1) by blast
  show ?thesis
  proof (cases "finished (pr_stage p)")
    case True
    then show ?thesis
      using kept by (cases "pr_stage p") (auto simp: costKept_def spent_def)
  next
    case False
    then show ?thesis
      using kept spent_le[OF assms(1), of p] by (simp add: costKept_def)
  qed
qed

end
