(* ===== verification/Alert_Evaluator_Properties.thy ===== *)
theory Alert_Evaluator_Properties
  imports Alert_Evaluator_Conduct Alert_Evaluator_Budget Alert_Evaluator_Cap
begin

section \<open>What a run of the evaluator promises\<close>

text \<open>
  The properties of \<open>runAlertEvaluator\<close>, for every environment: any repositories, queue providers and
  clock, failing or lying in any way. \<open>runResult\<close> is what the run returns or throws, \<open>runCalls\<close> the
  calls it made.
\<close>

definition runResult ::
  "digestFunction \<Rightarrow> 'w alertEvaluatorDependencies \<Rightarrow> 'w runAlertEvaluatorInput \<Rightarrow> 'w \<Rightarrow> runAlertEvaluatorResult result" where
  "runResult digest deps input world = fst (runAlertEvaluator digest deps input (initialEvaluatorState world))"

definition runCalls ::
  "digestFunction \<Rightarrow> 'w alertEvaluatorDependencies \<Rightarrow> 'w runAlertEvaluatorInput \<Rightarrow> 'w \<Rightarrow> evaluatorCall list" where
  "runCalls digest deps input world = es_calls (snd (runAlertEvaluator digest deps input (initialEvaluatorState world)))"

text \<open>
  How the result of a run agrees with the stage its protocol is in. A failure that was recorded as
  \<open>evaluator_failed\<close> leaves with the code of whatever went wrong.
\<close>

definition orchestrationErrors :: "js_error set" where
  "orchestrationErrors = range orchestrationError"

fun endsAs :: "runStage \<Rightarrow> runAlertEvaluatorResult result \<Rightarrow> bool" where
  "endsAs Starting (Inr result) = (result = Evaluator_disabled)"
| "endsAs (Finished (Returned ending)) (Inr result) = (result = ending)"
| "endsAs _ (Inr _) = False"
| "endsAs (Finished (Returned _)) (Inl _) = False"
| "endsAs (Finished Lost_lease) (Inl err) = (err = orchestrationError Lease_lost)"
| "endsAs (Finished (Failed_with code)) (Inl err) =
     (err \<in> (if code = Run_evaluator_failed then orchestrationErrors else {orchestrationError (orchestrationFor code)}))"
| "endsAs _ (Inl err) = (err \<in> orchestrationErrors)"

lemma threw_ends:
  assumes "threwFrom digest err s"
  shows "\<exists>p. follows digest initialProtocol (es_calls s) = Some p \<and> endsAs (pr_stage p) (Inl err)"
proof -
  obtain p code where p: "follows digest initialProtocol (es_calls s) = Some p" "err = orchestrationError code"
      "\<And>result. pr_stage p \<noteq> Finished (Returned result)" "pr_stage p = Finished Lost_lease \<longrightarrow> code = Lease_lost"
      "\<And>errorCode. pr_stage p = Finished (Failed_with errorCode) \<Longrightarrow>
        errorCode = Run_evaluator_failed \<or> code = orchestrationFor errorCode"
    using assms by (auto simp: threwFrom_def)
  have "endsAs (pr_stage p) (Inl err)"
  proof (cases "pr_stage p")
    case (Finished ending)
    then show ?thesis
      using p(2-5) by (cases ending) (auto simp: orchestrationErrors_def)
  qed (auto simp: p(2) orchestrationErrors_def)
  with p(1) show ?thesis by blast
qed

lemma run_follows:
  "\<exists>p. follows digest initialProtocol (runCalls digest deps input world) = Some p \<and>
     endsAs (pr_stage p) (runResult digest deps input world)"
proof (cases "rai_mode input = ''observe_only''")
  case True
  obtain result s where run: "runInObserveMode digest deps input (initialEvaluatorState world) = (result, s)"
    by fastforce
  have "\<exists>p. follows digest initialProtocol (es_calls s) = Some p \<and> endsAs (pr_stage p) result"
  proof (cases result)
    case (Inl err)
    with run runInObserveMode_held[of world digest deps input] have "threwFrom digest err s"
      by (auto simp: triple_def)
    with Inl threw_ends show ?thesis by blast
  next
    case (Inr ending)
    with run runInObserveMode_held[of world digest deps input] have "endedWith digest (Returned ending) s"
      by (auto simp: triple_def)
    with Inr show ?thesis by (fastforce simp: endedWith_def)
  qed
  then show ?thesis
    using True run by (simp add: runResult_def runCalls_def runAlertEvaluator_def)
next
  case False
  then show ?thesis
    by (auto simp: runResult_def runCalls_def runAlertEvaluator_def returns_def fail_def throws_def initialEvaluatorState_def
        initialProtocol_def orchestrationErrors_def)
qed

lemma run_word: obtains p where "follows digest initialProtocol (runCalls digest deps input world) = Some p"
    "endsAs (pr_stage p) (runResult digest deps input world)"
  using run_follows[of digest deps input world] by blast

text \<open>
  C25. The evaluator refines the protocol of a run. Whatever its repositories, queue providers and
  clock do, the calls of \<open>runAlertEvaluator\<close> are a word of the automaton \<open>protocolStep\<close>: it initializes,
  acquires, reads the metrics of every queue once, binds, reads and records the nine sources in
  their order, plans, seals once, settles every decision in order with a retry only after a
  conflict, and terminates. What it returns or throws is what the state of the automaton says.
\<close>

theorem run_keeps_protocol:
  "\<exists>p. follows digest initialProtocol (runCalls digest deps input world) = Some p \<and>
     endsAs (pr_stage p) (runResult digest deps input world)"
  using run_word[of digest deps input world] by blast

text \<open>
  C26. Every fenced call carries the newest fence the repository has given this run, and no other: a
  renewal, a bind or a seal replaces it for all that follows. After the first answer that the lease
  is lost there are no more calls at all.
\<close>

theorem run_is_fenced: "fencingKept (runCalls digest deps input world)"
  using run_word[of digest deps input world] fences.accepted_history by blast

text \<open>
  C27. The instants a run issues are canonical timestamps and strictly increasing, also when the
  clock stands still, so that the repositories can order its writes by them.
\<close>

theorem run_instants_increase:
  "list_all canonical (issuedBy (runCalls digest deps input world)) \<and>
   sorted_wrt (<) (map getTime (issuedBy (runCalls digest deps input world)))"
  using run_word[of digest deps input world] instants.accepted_history by blast

text \<open>What is to be true of the calls of a run that reports success.\<close>

fun accountedFor :: "runAlertEvaluatorResult result \<Rightarrow> evaluatorCall list \<Rightarrow> bool" where
  "accountedFor (Inr (Evaluator_succeeded _)) log = accounted log"
| "accountedFor _ log = True"

text \<open>
  C28. A success accounts for everything. If a run returns \<open>succeeded\<close>, the proofs of all nine sources
  were recorded, in order and each complete; exactly one manifest of decisions was sealed; and
  exactly its decisions, in its order, were applied or recorded as suppressed.
\<close>

theorem run_success_accounted:
  "accountedFor (runResult digest deps input world) (runCalls digest deps input world)"
proof -
  obtain p where p: "follows digest initialProtocol (runCalls digest deps input world) = Some p"
      "endsAs (pr_stage p) (runResult digest deps input world)"
    by (rule run_word)
  have "writtenAt (pr_stage p) (runCalls digest deps input world)"
    by (rule writes.accepted_history[OF p(1)])
  with p(2) show ?thesis
    by (cases "(runResult digest deps input world, runCalls digest deps input world)" rule: accountedFor.cases)
      (auto elim!: endsAs.elims(2))
qed

text \<open>
  C29. A run stays within its query budget. If each call costs no more statements than the budget
  states for it, a run costs no more than the fixed budget and that of \<open>ALERT_EVALUATOR_MAX_WORK_ITEMS\<close>
  items, conflicts, renewals and failures included, and that leaves the reserved headroom of a
  paid invocation free.
\<close>

theorem run_within_budget:
  assumes "startShare start"
  shows "totalBudget start (runCalls digest deps input world)
      \<le> ALERT_EVALUATOR_FIXED_D1_QUERY_BUDGET + ALERT_EVALUATOR_MAX_WORK_ITEMS * ALERT_EVALUATOR_PER_WORK_ITEM_D1_QUERY_BUDGET
    \<and> totalBudget start (runCalls digest deps input world) \<le> paidInvocationLimit - reservedPaidHeadroom"
proof -
  have "totalBudget start (runCalls digest deps input world) \<le> 830"
    using run_word[of digest deps input world] follows_budget[OF assms] by blast
  then show ?thesis
    by (simp add: ALERT_EVALUATOR_FIXED_D1_QUERY_BUDGET_def ALERT_EVALUATOR_MAX_WORK_ITEMS_def
        ALERT_EVALUATOR_PER_WORK_ITEM_D1_QUERY_BUDGET_def budgetFixed_def budgetPerWorkItem_def paidInvocationLimit_def
        reservedPaidHeadroom_def)
qed

text \<open>A run whose lease another evaluator holds, in a world that only counts the readings of its clock.\<close>

definition unavailable :: "('w, 'a) effect" where
  "unavailable = throws (Error ''unavailable'')"

definition sampleDependencies :: "int alertEvaluatorDependencies" where
  "sampleDependencies =
     \<lparr>dep_acquireRun = (\<lambda>_. returns None), dep_bindRunAsOf = (\<lambda>_ _. unavailable),
      dep_clock = (\<lambda>w. (Inr (Some (1772366400000 + w)), w + 1)), dep_initializeRuntime = (\<lambda>_. returns False),
      dep_persistDecision = (\<lambda>_. unavailable), dep_readAuditSource = (\<lambda>_. unavailable),
      dep_readFanoutSource = (\<lambda>_. unavailable), dep_readLifecycleSnapshot = (\<lambda>_ _. unavailable),
      dep_readLogoutSource = (\<lambda>_. unavailable), dep_readOAuthSource = (\<lambda>_. unavailable),
      dep_readQueueSource = (\<lambda>_ _ _. unavailable), dep_readRuntimeSource = (\<lambda>_. unavailable),
      dep_recordFailure = (\<lambda>_ _. unavailable), dep_recordSource = (\<lambda>_ _. unavailable),
      dep_recordSuccess = (\<lambda>_ _. unavailable), dep_recordSuppressedDecision = (\<lambda>_ _. unavailable),
      dep_renewRun = (\<lambda>_ _. unavailable), dep_sealRun = (\<lambda>_ _. unavailable)\<rparr>"

definition sampleRunInput :: "int runAlertEvaluatorInput" where
  "sampleRunInput =
     \<lparr>rai_environment = Local, rai_hmacKeyBase64Url = None, rai_mode = ''observe_only'',
      rai_queueProviders = (\<lambda>_. unavailable), rai_scheduledTime = JInt 1772366400000\<rparr>"

lemma sampleRun:
  "runResult sampleHash sampleDependencies sampleRunInput 0 = Inr Evaluator_contended \<and>
   totalBudget (2, 3, 3) (runCalls sampleHash sampleDependencies sampleRunInput 0) = 5"
  by code_simp

theorem run_within_budget_witness:
  "startShare (2, 3, 3) \<and> runResult sampleHash sampleDependencies sampleRunInput 0 = Inr Evaluator_contended \<and>
   totalBudget (2, 3, 3) (runCalls sampleHash sampleDependencies sampleRunInput 0) = 5 \<and>
   totalBudget (2, 3, 3) (runCalls sampleHash sampleDependencies sampleRunInput 0) \<le> paidInvocationLimit - reservedPaidHeadroom"
proof -
  have start: "startShare (2, 3, 3)"
    by (simp add: startShare_def)
  show ?thesis
    using start sampleRun run_within_budget[OF start, of sampleHash sampleDependencies sampleRunInput 0] by blast
qed

end
