(* ===== verification/Alert_Queue_Table.thy ===== *)
theory Alert_Queue_Table
  imports Alert_Evaluator_Run
begin

section \<open>The runtime rows of the queues\<close>

text \<open>
  The table \<open>alert_runtime_status\<close> of \<^verbatim>\<open>migrations/0020_alert_observability.sql\<close> with its checks and
  its two triggers, and the three statements \<^verbatim>\<open>alert-queue-source-repository.ts\<close> sends in one batch.
  Columns of timestamps hold text the checks have normalised; they are compared as instants.
\<close>

record runtimeRow =
  rt_component :: string
  rt_status :: string
  rt_generation :: int
  rt_revision :: int
  rt_leaseId :: "string option"
  rt_leaseExpiresAt :: "string option"
  rt_lastStartedAt :: "string option"
  rt_lastSuccessAt :: "string option"
  rt_lastErrorAt :: "string option"
  rt_lastErrorCode :: "string option"
  rt_metricSampledAt :: "string option"
  rt_backlogCount :: "int option"
  rt_backlogBytes :: "int option"
  rt_oldestMessageAgeSeconds :: "int option"
  rt_nonzeroSinceAt :: "string option"
  rt_consecutiveNonzeroSamples :: "int option"
  rt_watermarkAt :: "string option"
  rt_updatedAt :: string

type_synonym runtimeTable = "string \<rightharpoonup> runtimeRow"

text \<open>\<open>strftime\<close> with an offset in seconds.\<close>

definition plusSeconds :: "string \<Rightarrow> int \<Rightarrow> string" where
  "plusSeconds at seconds = iso_of_time (getTime at + seconds * 1000)"

definition notAfter :: "string option \<Rightarrow> string \<Rightarrow> bool" where
  "notAfter x at = optionally (\<lambda>s. getTime s \<le> getTime at) x"

subsection \<open>Checks\<close>

definition RUNTIME_COMPONENTS :: "string list" where
  "RUNTIME_COMPONENTS =
     [''evaluator'', ''delivery'', ''security_queue'', ''security_dlq'', ''logout_queue'', ''logout_dlq'',
      ''alert_queue'', ''alert_dlq'', ''audit_archive_queue'', ''audit_archive_dlq'', ''audit_fanout'']"

definition QUEUE_COMPONENTS :: "string list" where
  "QUEUE_COMPONENTS =
     [''security_queue'', ''security_dlq'', ''logout_queue'', ''logout_dlq'',
      ''alert_queue'', ''alert_dlq'', ''audit_archive_queue'', ''audit_archive_dlq'']"

definition runtimeColumnChecks :: "runtimeRow \<Rightarrow> bool" where
  "runtimeColumnChecks r \<longleftrightarrow>
     rt_component r \<in> set RUNTIME_COMPONENTS \<and>
     rt_status r \<in> {''disabled'', ''healthy'', ''degraded'', ''failing'', ''unavailable''} \<and>
     inDomain MAX_SAFE_INTEGER (rt_generation r) \<and> inDomain MAX_SAFE_INTEGER (rt_revision r) \<and>
     optionally (\<lambda>s. length s = 36) (rt_leaseId r) \<and>
     list_all (optionally shortInstant) [rt_leaseExpiresAt r, rt_lastStartedAt r, rt_lastSuccessAt r,
       rt_lastErrorAt r, rt_metricSampledAt r, rt_nonzeroSinceAt r, rt_watermarkAt r] \<and>
     optionally (\<lambda>c. c \<in> {''metrics_unavailable'', ''evaluator_failed'', ''delivery_failed'', ''fanout_failed'',
       ''logout_failed'', ''source_incomplete'', ''unknown''}) (rt_lastErrorCode r) \<and>
     optionally (inDomain 1000000000) (rt_backlogCount r) \<and>
     optionally (inDomain 1000000000000) (rt_backlogBytes r) \<and>
     optionally (inDomain 1000000000) (rt_oldestMessageAgeSeconds r) \<and>
     optionally (inDomain 1000000) (rt_consecutiveNonzeroSamples r) \<and>
     shortInstant (rt_updatedAt r)"

definition leaseChecks :: "runtimeRow \<Rightarrow> bool" where
  "leaseChecks r \<longleftrightarrow>
     (case (rt_leaseId r, rt_leaseExpiresAt r) of
        (None, None) \<Rightarrow> True
      | (Some _, Some expires) \<Rightarrow>
          getTime (rt_updatedAt r) < getTime expires \<and>
          getTime expires \<le> getTime (plusSeconds (rt_updatedAt r) 300)
      | _ \<Rightarrow> False)"

definition metricChecks :: "runtimeRow \<Rightarrow> bool" where
  "metricChecks r \<longleftrightarrow>
     (case rt_metricSampledAt r of
        None \<Rightarrow> rt_backlogCount r = None \<and> rt_backlogBytes r = None \<and> rt_oldestMessageAgeSeconds r = None \<and>
          rt_nonzeroSinceAt r = None \<and> rt_consecutiveNonzeroSamples r = None
      | Some sampledAt \<Rightarrow>
          rt_component r \<in> set QUEUE_COMPONENTS \<and> rt_backlogBytes r \<noteq> None \<and> rt_oldestMessageAgeSeconds r \<noteq> None \<and>
          (case (rt_backlogCount r, rt_consecutiveNonzeroSamples r) of
             (Some backlog, Some samples) \<Rightarrow>
               (case rt_nonzeroSinceAt r of
                  None \<Rightarrow> backlog = 0 \<and> samples = 0
                | Some since \<Rightarrow> 0 < backlog \<and> getTime since \<le> getTime sampledAt \<and> 1 \<le> samples)
           | _ \<Rightarrow> False))"

definition chronologyChecks :: "runtimeRow \<Rightarrow> bool" where
  "chronologyChecks r \<longleftrightarrow>
     (rt_lastErrorAt r = None \<longleftrightarrow> rt_lastErrorCode r = None) \<and>
     list_all (\<lambda>at. notAfter at (rt_updatedAt r))
       [rt_metricSampledAt r, rt_lastStartedAt r, rt_lastSuccessAt r, rt_lastErrorAt r] \<and>
     (case rt_watermarkAt r of
        None \<Rightarrow> True
      | Some watermark \<Rightarrow> (case rt_lastSuccessAt r of None \<Rightarrow> False | Some at \<Rightarrow> getTime watermark \<le> getTime at))"

definition runtimeChecks :: "runtimeRow \<Rightarrow> bool" where
  "runtimeChecks r \<longleftrightarrow> runtimeColumnChecks r \<and> leaseChecks r \<and> metricChecks r \<and> chronologyChecks r"

subsection \<open>Triggers\<close>

definition runtimeInitialGuardAborts :: "runtimeRow \<Rightarrow> bool" where
  "runtimeInitialGuardAborts new \<longleftrightarrow>
     rt_generation new \<noteq> 0 \<or> rt_revision new \<noteq> 0 \<or> rt_leaseId new \<noteq> None \<or> rt_leaseExpiresAt new \<noteq> None \<or>
     (rt_component new = ''evaluator'' \<and>
        (rt_status new \<noteq> ''disabled'' \<or> rt_lastStartedAt new \<noteq> None \<or> rt_lastSuccessAt new \<noteq> None \<or>
         rt_lastErrorAt new \<noteq> None \<or> rt_lastErrorCode new \<noteq> None \<or> rt_watermarkAt new \<noteq> None)) \<or>
     ((case rt_backlogCount new of None \<Rightarrow> False | Some backlog \<Rightarrow> 0 < backlog) \<and>
        ((case rt_consecutiveNonzeroSamples new of None \<Rightarrow> False | Some samples \<Rightarrow> samples \<noteq> 1) \<or>
         (case (rt_nonzeroSinceAt new, rt_metricSampledAt new) of
            (Some since, Some sampledAt) \<Rightarrow> since \<noteq> sampledAt
          | _ \<Rightarrow> False)))"

definition leaseMoves :: "runtimeRow \<Rightarrow> runtimeRow \<Rightarrow> bool" where
  "leaseMoves old new \<longleftrightarrow>
     (case (rt_leaseId old, rt_leaseId new) of
        (None, None) \<Rightarrow> rt_generation new = rt_generation old
      | (None, Some _) \<Rightarrow> rt_generation new = rt_generation old + 1
      | (Some lease, None) \<Rightarrow>
          rt_generation new = rt_generation old \<and>
          optionally (\<lambda>expires. getTime (rt_updatedAt new) < getTime expires) (rt_leaseExpiresAt old)
      | (Some lease, Some lease') \<Rightarrow>
          (case (rt_leaseExpiresAt old, rt_leaseExpiresAt new) of
             (Some expires, Some expires') \<Rightarrow>
               (if lease' = lease
                then rt_generation new = rt_generation old \<and> getTime (rt_updatedAt new) < getTime expires \<and>
                  getTime expires \<le> getTime expires'
                else rt_generation new = rt_generation old + 1 \<and> getTime expires \<le> getTime (rt_updatedAt new))
           | _ \<Rightarrow> True))"

text \<open>A clock of the row is kept or moves on, and is never dropped.\<close>

definition keptOrLater :: "string option \<Rightarrow> string option \<Rightarrow> bool" where
  "keptOrLater old new \<longleftrightarrow>
     (case old of None \<Rightarrow> True
      | Some at \<Rightarrow> (case new of None \<Rightarrow> False | Some at' \<Rightarrow> getTime at \<le> getTime at'))"

definition errorMoves :: "runtimeRow \<Rightarrow> runtimeRow \<Rightarrow> bool" where
  "errorMoves old new \<longleftrightarrow>
     rt_lastErrorAt new = rt_lastErrorAt old \<and> rt_lastErrorCode new = rt_lastErrorCode old \<or>
     (case rt_lastErrorAt new of
        None \<Rightarrow> False
      | Some at \<Rightarrow> optionally (\<lambda>before. getTime before < getTime at) (rt_lastErrorAt old) \<and> rt_lastErrorCode new \<noteq> None)"

definition startedBefore :: "runtimeRow \<Rightarrow> string option \<Rightarrow> bool" where
  "startedBefore new at \<longleftrightarrow>
     (case rt_lastStartedAt new of
        None \<Rightarrow> False
      | Some started \<Rightarrow> optionally (\<lambda>t. getTime started \<le> getTime t) at)"

text \<open>The old sample was nonzero, and the new one is exactly sixty seconds later.\<close>

definition followsSample :: "runtimeRow \<Rightarrow> string \<Rightarrow> bool" where
  "followsSample old at \<longleftrightarrow>
     (case (rt_metricSampledAt old, rt_backlogCount old) of
        (Some before, Some backlog) \<Rightarrow> 0 < backlog \<and> at = plusSeconds before 60
      | _ \<Rightarrow> False)"

definition sampleMoves :: "runtimeRow \<Rightarrow> runtimeRow \<Rightarrow> bool" where
  "sampleMoves old new \<longleftrightarrow>
     (case (rt_metricSampledAt new, rt_backlogCount new) of
        (Some at, Some backlog) \<Rightarrow>
          optionally (\<lambda>before. getTime before < getTime at) (rt_metricSampledAt old) \<and>
          (if backlog = 0
           then rt_nonzeroSinceAt new = None \<and> rt_consecutiveNonzeroSamples new = Some 0
           else 0 < backlog \<and>
             (if followsSample old at
              then rt_nonzeroSinceAt new = rt_nonzeroSinceAt old \<and>
                rt_consecutiveNonzeroSamples new = map_option (\<lambda>n. n + 1) (rt_consecutiveNonzeroSamples old)
              else rt_nonzeroSinceAt new = Some at \<and> rt_consecutiveNonzeroSamples new = Some 1))
      | _ \<Rightarrow> False)"

definition sameMetrics :: "runtimeRow \<Rightarrow> runtimeRow \<Rightarrow> bool" where
  "sameMetrics old new \<longleftrightarrow>
     rt_metricSampledAt new = rt_metricSampledAt old \<and> rt_backlogCount new = rt_backlogCount old \<and>
     rt_backlogBytes new = rt_backlogBytes old \<and>
     rt_oldestMessageAgeSeconds new = rt_oldestMessageAgeSeconds old \<and>
     rt_nonzeroSinceAt new = rt_nonzeroSinceAt old \<and>
     rt_consecutiveNonzeroSamples new = rt_consecutiveNonzeroSamples old"

definition runtimeTransitionGuardAborts :: "runtimeRow \<Rightarrow> runtimeRow \<Rightarrow> bool" where
  "runtimeTransitionGuardAborts old new \<longleftrightarrow>
     rt_component new \<noteq> rt_component old \<or> rt_revision new \<noteq> rt_revision old + 1 \<or>
     getTime (rt_updatedAt new) \<le> getTime (rt_updatedAt old) \<or>
     \<not> leaseMoves old new \<or>
     \<not> keptOrLater (rt_lastStartedAt old) (rt_lastStartedAt new) \<or>
     \<not> keptOrLater (rt_lastSuccessAt old) (rt_lastSuccessAt new) \<or>
     \<not> keptOrLater (rt_lastErrorAt old) (rt_lastErrorAt new) \<or>
     \<not> keptOrLater (rt_watermarkAt old) (rt_watermarkAt new) \<or>
     \<not> errorMoves old new \<or>
     (rt_lastSuccessAt new \<noteq> rt_lastSuccessAt old \<and> \<not> startedBefore new (rt_lastSuccessAt new)) \<or>
     (rt_lastErrorAt new \<noteq> rt_lastErrorAt old \<and> \<not> startedBefore new (rt_lastErrorAt new)) \<or>
     \<not> keptOrLater (rt_metricSampledAt old) (rt_metricSampledAt new) \<or>
     \<not> (sameMetrics old new \<or> sampleMoves old new)"

subsection \<open>The batch of a sample\<close>

record queueMetricSample =
  smp_backlogBytes :: int
  smp_backlogCount :: int
  smp_oldestMessageAgeSeconds :: int
  smp_queueName :: alertQueueName
  smp_sampledAt :: string

definition MAX_REVISION :: int where "MAX_REVISION = 1000000000"

definition insertedRow :: "string \<Rightarrow> queueMetricSample \<Rightarrow> runtimeRow" where
  "insertedRow component sample =
     \<lparr>rt_component = component, rt_status = ''disabled'', rt_generation = 0, rt_revision = 0,
      rt_leaseId = None, rt_leaseExpiresAt = None, rt_lastStartedAt = None, rt_lastSuccessAt = None,
      rt_lastErrorAt = None, rt_lastErrorCode = None, rt_metricSampledAt = Some (smp_sampledAt sample),
      rt_backlogCount = Some (smp_backlogCount sample), rt_backlogBytes = Some (smp_backlogBytes sample),
      rt_oldestMessageAgeSeconds = Some (smp_oldestMessageAgeSeconds sample),
      rt_nonzeroSinceAt = (if 0 < smp_backlogCount sample then Some (smp_sampledAt sample) else None),
      rt_consecutiveNonzeroSamples = Some (if 0 < smp_backlogCount sample then 1 else 0),
      rt_watermarkAt = None, rt_updatedAt = smp_sampledAt sample\<rparr>"

definition updatedRow :: "runtimeRow \<Rightarrow> queueMetricSample \<Rightarrow> runtimeRow" where
  "updatedRow old sample =
     old\<lparr>rt_revision := rt_revision old + 1, rt_metricSampledAt := Some (smp_sampledAt sample),
       rt_backlogCount := Some (smp_backlogCount sample), rt_backlogBytes := Some (smp_backlogBytes sample),
       rt_oldestMessageAgeSeconds := Some (smp_oldestMessageAgeSeconds sample),
       rt_nonzeroSinceAt :=
         (if smp_backlogCount sample = 0 then None
          else if followsSample old (smp_sampledAt sample) then rt_nonzeroSinceAt old
          else Some (smp_sampledAt sample)),
       rt_consecutiveNonzeroSamples :=
         (if smp_backlogCount sample = 0 then Some 0
          else if followsSample old (smp_sampledAt sample)
            then map_option (\<lambda>n. n + 1) (rt_consecutiveNonzeroSamples old)
          else Some 1),
       rt_updatedAt := smp_sampledAt sample\<rparr>"

definition updateApplies :: "runtimeRow \<Rightarrow> queueMetricSample \<Rightarrow> bool" where
  "updateApplies old sample \<longleftrightarrow>
     rt_revision old < MAX_REVISION \<and> rt_leaseId old = None \<and>
     getTime (rt_updatedAt old) < getTime (smp_sampledAt sample) \<and>
     optionally (\<lambda>before. getTime before < getTime (smp_sampledAt sample)) (rt_metricSampledAt old)"

text \<open>
  \<open>ALERT_QUEUE_METRIC_SAMPLE_UPSERT\<close>: the number of changed rows and the row afterwards, or the
  error of a check or a trigger. The checks and the insert trigger see the row to insert even if the
  conflict then updates the old one.
\<close>

definition sqlAbort :: "'a result" where
  "sqlAbort = Inl (Error ''D1_ERROR'')"

definition upsertQueueSample :: "string \<Rightarrow> queueMetricSample \<Rightarrow> runtimeRow option \<Rightarrow> (int \<times> runtimeRow option) result" where
  "upsertQueueSample component sample row =
     (let inserted = insertedRow component sample in
      if runtimeInitialGuardAborts inserted \<or> \<not> runtimeChecks inserted then sqlAbort
      else case row of
        None \<Rightarrow> Inr (1, Some inserted)
      | Some old \<Rightarrow>
          let new = updatedRow old sample in
          if \<not> updateApplies old sample then Inr (0, Some old)
          else if runtimeTransitionGuardAborts old new \<or> \<not> runtimeChecks new then sqlAbort
          else Inr (1, Some new))"

text \<open>The columns of \<open>ALERT_QUEUE_METRIC_PROJECTION_QUERY\<close>.\<close>

definition rowProjection :: "runtimeRow \<Rightarrow> js" where
  "rowProjection r =
     JObj [(''component'', JStr (rt_component r)), (''revision'', JInt (rt_revision r)),
       (''lease_id'', jsOfStringOption (rt_leaseId r)), (''lease_expires_at'', jsOfStringOption (rt_leaseExpiresAt r)),
       (''metric_sampled_at'', jsOfStringOption (rt_metricSampledAt r)),
       (''backlog_count'', jsOfIntOption (rt_backlogCount r)), (''backlog_bytes'', jsOfIntOption (rt_backlogBytes r)),
       (''oldest_message_age_seconds'', jsOfIntOption (rt_oldestMessageAgeSeconds r)),
       (''nonzero_since_at'', jsOfStringOption (rt_nonzeroSinceAt r)),
       (''consecutive_nonzero_samples'', jsOfIntOption (rt_consecutiveNonzeroSamples r)),
       (''updated_at'', JStr (rt_updatedAt r))]"

text \<open>A result of the database, as far as the repository looks at it.\<close>

record d1Result =
  d1_success :: js
  d1_rows :: js
  d1_changes :: js

definition queueBatch :: "string \<Rightarrow> queueMetricSample \<Rightarrow> (runtimeTable, d1Result list) effect" where
  "queueBatch component sample table =
     (case upsertQueueSample component sample (table component) of
        Inl err \<Rightarrow> (Inl err, table)
      | Inr (changed, row) \<Rightarrow>
          (Inr [\<lparr>d1_success = JBool True, d1_rows = JArr [], d1_changes = JInt changed\<rparr>,
             \<lparr>d1_success = JBool True, d1_rows = JArr [JObj [(''changed'', JInt changed)]], d1_changes = JInt 0\<rparr>,
             \<lparr>d1_success = JBool True,
               d1_rows = JArr (case row of None \<Rightarrow> [] | Some r \<Rightarrow> [rowProjection r]), d1_changes = JInt 0\<rparr>],
           table(component := row)))"

end
