(* ===== verification/Alert_Queue_Source.thy ===== *)
theory Alert_Queue_Source
  imports Alert_Queue_Table
begin

section \<open>The source of queue metrics\<close>

text \<open>
  \<^verbatim>\<open>apps/sso/worker/alert-queue-source-repository.ts\<close>: the metrics a queue binding returned are checked,
  stored as the newest sample of the queue, and read back with the streak of nonzero samples they
  continue; whatever goes wrong, the observation is unknown. The provider, the clock and the
  database are arguments.
\<close>

subsection \<open>Errors\<close>

definition queueError :: "string \<Rightarrow> js_error" where
  "queueError code = CodedError ''AlertQueueSourceRepositoryError'' code"

definition queueFail :: "string \<Rightarrow> 'a result" where
  "queueFail code = Inl (queueError code)"

definition QUEUE_ERROR_CODES :: "string list" where
  "QUEUE_ERROR_CODES = [''invalid_input'', ''source_invalid'', ''source_unavailable'', ''write_failed'']"

definition redactedQueueError :: "js_error \<Rightarrow> string \<Rightarrow> js_error" where
  "redactedQueueError err fallback =
     (if err \<in> set (map queueError QUEUE_ERROR_CODES) then err else queueError fallback)"

definition redactsQueue :: "string \<Rightarrow> ('s, 'a) effect \<Rightarrow> ('s, 'a) effect" where
  "redactsQueue fallback m = catches m (\<lambda>err. throws (redactedQueueError err fallback))"

subsection \<open>Checks of values\<close>

definition queueRecord :: "js \<Rightarrow> string \<Rightarrow> js_record result" where
  "queueRecord value code = (case recordValue value '''' of Inl _ \<Rightarrow> queueFail code | Inr r \<Rightarrow> Inr r)"

definition queueExactRecord :: "js \<Rightarrow> string list \<Rightarrow> string \<Rightarrow> js_record result" where
  "queueExactRecord value keys code = (case exactRecord value keys '''' of Inl _ \<Rightarrow> queueFail code | Inr r \<Rightarrow> Inr r)"

definition parseQueueName :: "js \<Rightarrow> alertQueueName result" where
  "parseQueueName value =
     (case value of
        JStr s \<Rightarrow> (case queueOfString s of None \<Rightarrow> queueFail ''invalid_input'' | Some q \<Rightarrow> Inr q)
      | _ \<Rightarrow> queueFail ''invalid_input'')"

definition queueTimestamp :: "js \<Rightarrow> string \<Rightarrow> string result" where
  "queueTimestamp value code =
     (case value of
        JStr s \<Rightarrow> (if shortInstant s then Inr s else queueFail code)
      | _ \<Rightarrow> queueFail code)"

definition queueInteger :: "js \<Rightarrow> int \<Rightarrow> string \<Rightarrow> int result" where
  "queueInteger value maximum code =
     (case safeInteger value of
        Some n \<Rightarrow> (if n < 0 \<or> n > maximum then queueFail code else Inr n)
      | None \<Rightarrow> queueFail code)"

definition MAX_BACKLOG_COUNT :: int where "MAX_BACKLOG_COUNT = 1000000000"
definition MAX_BACKLOG_BYTES :: int where "MAX_BACKLOG_BYTES = 1000000000000"
definition MAX_OLDEST_MESSAGE_AGE_SECONDS :: int where "MAX_OLDEST_MESSAGE_AGE_SECONDS = 1000000000"
definition MAX_CONSECUTIVE_NONZERO_SAMPLES :: int where "MAX_CONSECUTIVE_NONZERO_SAMPLES = 1000000"
definition MAX_LEASE_DURATION_MILLISECONDS :: int where "MAX_LEASE_DURATION_MILLISECONDS = 300000"
definition SAMPLE_CADENCE_MILLISECONDS :: int where "SAMPLE_CADENCE_MILLISECONDS = 60000"

lemmas queue_bounds = MAX_BACKLOG_COUNT_def MAX_BACKLOG_BYTES_def MAX_OLDEST_MESSAGE_AGE_SECONDS_def
  MAX_CONSECUTIVE_NONZERO_SAMPLES_def MAX_LEASE_DURATION_MILLISECONDS_def SAMPLE_CADENCE_MILLISECONDS_def
  MAX_REVISION_def

definition parseQueueInput :: "js \<Rightarrow> alertQueueName result" where
  "parseQueueInput value =
     and_then (queueExactRecord value [''queueName''] ''invalid_input'') (\<lambda>record.
       parseQueueName (field_of record ''queueName''))"

subsection \<open>Samples\<close>

definition parseSample :: "js \<Rightarrow> queueMetricSample result" where
  "parseSample value =
     and_then (queueExactRecord value
       [''backlogBytes'', ''backlogCount'', ''oldestMessageAgeSeconds'', ''queueName'', ''sampledAt'']
       ''invalid_input'') (\<lambda>record.
     and_then (queueInteger (field_of record ''backlogBytes'') MAX_BACKLOG_BYTES ''invalid_input'') (\<lambda>backlogBytes.
     and_then (queueInteger (field_of record ''backlogCount'') MAX_BACKLOG_COUNT ''invalid_input'') (\<lambda>backlogCount.
     and_then (queueInteger (field_of record ''oldestMessageAgeSeconds'') MAX_OLDEST_MESSAGE_AGE_SECONDS
       ''invalid_input'') (\<lambda>age.
       if backlogCount = 0 \<and> (backlogBytes \<noteq> 0 \<or> age \<noteq> 0) then queueFail ''invalid_input''
       else
     and_then (parseQueueName (field_of record ''queueName'')) (\<lambda>queue.
     and_then (queueTimestamp (field_of record ''sampledAt'') ''invalid_input'') (\<lambda>sampledAt.
       Inr \<lparr>smp_backlogBytes = backlogBytes, smp_backlogCount = backlogCount,
         smp_oldestMessageAgeSeconds = age, smp_queueName = queue, smp_sampledAt = sampledAt\<rparr>))))))"

definition jsOfSample :: "queueMetricSample \<Rightarrow> js" where
  "jsOfSample sample =
     JObj [(''backlogBytes'', JInt (smp_backlogBytes sample)), (''backlogCount'', JInt (smp_backlogCount sample)),
       (''oldestMessageAgeSeconds'', JInt (smp_oldestMessageAgeSeconds sample)),
       (''queueName'', JStr (queueNameString (smp_queueName sample))), (''sampledAt'', JStr (smp_sampledAt sample))]"

text \<open>The metrics of a binding at an instant; \<open>None\<close> if they are not to be trusted.\<close>

definition bindingAge :: "js \<Rightarrow> int \<Rightarrow> int option" where
  "bindingAge oldest sampledAt =
     (case oldest of
        JDate (Some t) \<Rightarrow>
          (let age = (sampledAt - t) div 1000 in
           if t > sampledAt \<or> \<bar>age\<bar> > MAX_SAFE_INTEGER \<or> age < 0 \<or> age > MAX_OLDEST_MESSAGE_AGE_SECONDS
           then None else Some age)
      | _ \<Rightarrow> None)"

definition bindingMetrics :: "js_record \<Rightarrow> int \<Rightarrow> (int \<times> int \<times> int) option" where
  "bindingMetrics record sampledAt =
     (case (queueInteger (field_of record ''backlogBytes'') MAX_BACKLOG_BYTES ''source_invalid'',
            queueInteger (field_of record ''backlogCount'') MAX_BACKLOG_COUNT ''source_invalid'') of
        (Inr backlogBytes, Inr backlogCount) \<Rightarrow>
          (let oldest = field_of record ''oldestMessageTimestamp'' in
           if backlogCount = 0
           then if backlogBytes \<noteq> 0 \<or> oldest \<noteq> JUndefined then None else Some (backlogBytes, backlogCount, 0)
           else map_option (\<lambda>age. (backlogBytes, backlogCount, age)) (bindingAge oldest sampledAt))
      | _ \<Rightarrow> None)"

definition normalizeBindingMetrics :: "js \<Rightarrow> alertQueueName \<Rightarrow> string \<times> int \<Rightarrow> queueMetricSample option" where
  "normalizeBindingMetrics value queue sampledAt =
     (case queueRecord value ''source_invalid'' of
        Inl _ \<Rightarrow> None
      | Inr record \<Rightarrow>
          (let actualKeys = map fst record in
           if ''backlogBytes'' \<notin> set actualKeys \<or> ''backlogCount'' \<notin> set actualKeys \<or>
             list_ex (\<lambda>key. key \<notin> {''backlogBytes'', ''backlogCount'', ''oldestMessageTimestamp''}) actualKeys
           then None
           else map_option (\<lambda>(backlogBytes, backlogCount, age).
             \<lparr>smp_backlogBytes = backlogBytes, smp_backlogCount = backlogCount,
              smp_oldestMessageAgeSeconds = age, smp_queueName = queue, smp_sampledAt = fst sampledAt\<rparr>)
             (bindingMetrics record (snd sampledAt))))"

subsection \<open>Reading the row back\<close>

record queueMetricProjection =
  prj_backlogBytes :: int
  prj_backlogCount :: int
  prj_component :: string
  prj_consecutiveNonzeroSamples :: int
  prj_leaseExpiresAt :: "string option"
  prj_leaseId :: "string option"
  prj_metricSampledAt :: string
  prj_nonzeroSinceAt :: "string option"
  prj_oldestMessageAgeSeconds :: int
  prj_revision :: int
  prj_updatedAt :: string

definition resultRows :: "d1Result list \<Rightarrow> nat \<Rightarrow> js_record list result" where
  "resultRows results index =
     (if length results \<le> index then queueFail ''source_invalid''
      else
        let result = results ! index in
        if d1_success result \<noteq> JBool True then queueFail ''source_invalid''
        else case d1_rows result of
          JArr rows \<Rightarrow> map_result (\<lambda>row. queueRecord row ''source_invalid'') rows
        | _ \<Rightarrow> queueFail ''source_invalid'')"

definition oneRow :: "d1Result list \<Rightarrow> nat \<Rightarrow> js_record result" where
  "oneRow results index =
     and_then (resultRows results index) (\<lambda>rows.
       case rows of [row] \<Rightarrow> Inr row | _ \<Rightarrow> queueFail ''source_invalid'')"

definition projectedLease :: "js_record \<Rightarrow> string \<Rightarrow> (string \<times> string) option result" where
  "projectedLease row updatedAt =
     (if field_of row ''lease_id'' = JNull \<and> field_of row ''lease_expires_at'' = JNull then Inr None
      else case field_of row ''lease_id'' of
        JStr lease \<Rightarrow>
          (if \<not> uuidV4 lease \<or> field_of row ''lease_expires_at'' = JNull then queueFail ''source_invalid''
           else and_then (queueTimestamp (field_of row ''lease_expires_at'') ''source_invalid'') (\<lambda>expiresAt.
             if getTime expiresAt \<le> getTime updatedAt \<or>
               getTime expiresAt - getTime updatedAt > MAX_LEASE_DURATION_MILLISECONDS
             then queueFail ''source_invalid''
             else Inr (Some (lease, expiresAt))))
      | _ \<Rightarrow> queueFail ''source_invalid'')"

text \<open>\<open>nonzeroSinceAt\<close>: a streak spans one cadence less than it has samples.\<close>

definition projectedStreak :: "js_record \<Rightarrow> string \<Rightarrow> int \<Rightarrow> int \<Rightarrow> int \<Rightarrow> int \<Rightarrow> string option result" where
  "projectedStreak row sampledAt backlogCount backlogBytes age samples =
     (if backlogCount = 0
      then if backlogBytes \<noteq> 0 \<or> age \<noteq> 0 \<or> field_of row ''nonzero_since_at'' \<noteq> JNull \<or> samples \<noteq> 0
        then queueFail ''source_invalid'' else Inr None
      else if field_of row ''nonzero_since_at'' = JNull \<or> samples < 1 then queueFail ''source_invalid''
      else and_then (queueTimestamp (field_of row ''nonzero_since_at'') ''source_invalid'') (\<lambda>since.
        if getTime sampledAt - getTime since \<noteq> (samples - 1) * SAMPLE_CADENCE_MILLISECONDS
        then queueFail ''source_invalid'' else Inr (Some since)))"

definition QUEUE_PROJECTION_KEYS :: "string list" where
  "QUEUE_PROJECTION_KEYS =
     [''component'', ''revision'', ''lease_id'', ''lease_expires_at'', ''metric_sampled_at'', ''backlog_count'',
      ''backlog_bytes'', ''oldest_message_age_seconds'', ''nonzero_since_at'', ''consecutive_nonzero_samples'',
      ''updated_at'']"

definition parseProjection :: "js_record \<Rightarrow> string \<Rightarrow> queueMetricProjection option result" where
  "parseProjection value expectedComponent =
     and_then (queueExactRecord (JObj value) QUEUE_PROJECTION_KEYS ''source_invalid'') (\<lambda>row.
       if field_of row ''component'' \<noteq> JStr expectedComponent then queueFail ''source_invalid''
       else
     and_then (queueInteger (field_of row ''revision'') MAX_REVISION ''source_invalid'') (\<lambda>revision.
     and_then (queueTimestamp (field_of row ''updated_at'') ''source_invalid'') (\<lambda>updatedAt.
     and_then (projectedLease row updatedAt) (\<lambda>lease.
       if list_all (\<lambda>key. field_of row key = JNull)
         [''metric_sampled_at'', ''backlog_count'', ''backlog_bytes'', ''oldest_message_age_seconds'',
          ''nonzero_since_at'', ''consecutive_nonzero_samples'']
       then Inr None
       else if list_ex (\<lambda>key. field_of row key = JNull)
         [''metric_sampled_at'', ''backlog_count'', ''backlog_bytes'', ''oldest_message_age_seconds'',
          ''consecutive_nonzero_samples'']
       then queueFail ''source_invalid''
       else
     and_then (queueTimestamp (field_of row ''metric_sampled_at'') ''source_invalid'') (\<lambda>sampledAt.
       if getTime sampledAt > getTime updatedAt then queueFail ''source_invalid''
       else
     and_then (queueInteger (field_of row ''backlog_count'') MAX_BACKLOG_COUNT ''source_invalid'') (\<lambda>backlogCount.
     and_then (queueInteger (field_of row ''backlog_bytes'') MAX_BACKLOG_BYTES ''source_invalid'') (\<lambda>backlogBytes.
     and_then (queueInteger (field_of row ''oldest_message_age_seconds'') MAX_OLDEST_MESSAGE_AGE_SECONDS
       ''source_invalid'') (\<lambda>age.
     and_then (queueInteger (field_of row ''consecutive_nonzero_samples'') MAX_CONSECUTIVE_NONZERO_SAMPLES
       ''source_invalid'') (\<lambda>samples.
     and_then (projectedStreak row sampledAt backlogCount backlogBytes age samples) (\<lambda>since.
       Inr (Some \<lparr>prj_backlogBytes = backlogBytes, prj_backlogCount = backlogCount,
         prj_component = expectedComponent, prj_consecutiveNonzeroSamples = samples,
         prj_leaseExpiresAt = map_option snd lease, prj_leaseId = map_option fst lease,
         prj_metricSampledAt = sampledAt, prj_nonzeroSinceAt = since, prj_oldestMessageAgeSeconds = age,
         prj_revision = revision, prj_updatedAt = updatedAt\<rparr>)))))))))))"

definition snapshotFromProjection :: "queueMetricProjection \<Rightarrow> queueDepthSnapshot result" where
  "snapshotFromProjection p =
     and_then
       (if prj_backlogCount p = 0 then Inr None
        else and_then (toISOString (getTime (prj_metricSampledAt p) - prj_oldestMessageAgeSeconds p * 1000))
          (\<lambda>oldest. Inr (Some oldest))) (\<lambda>oldest.
       Inr \<lparr>qs_backlogBytes = Some (prj_backlogBytes p), qs_backlogCount = Some (prj_backlogCount p),
         qs_consecutiveNonzeroSamples = Some (prj_consecutiveNonzeroSamples p),
         qs_nonzeroSinceAt = prj_nonzeroSinceAt p, qs_oldestMessageTimestamp = oldest,
         qs_sampledAt = Some (prj_metricSampledAt p)\<rparr>)"

definition projectionOwnsSample :: "queueMetricProjection option \<Rightarrow> queueMetricSample \<Rightarrow> bool" where
  "projectionOwnsSample projection sample \<longleftrightarrow>
     (case projection of
        None \<Rightarrow> False
      | Some p \<Rightarrow>
          prj_updatedAt p = smp_sampledAt sample \<and> prj_leaseId p = None \<and> prj_leaseExpiresAt p = None \<and>
          prj_metricSampledAt p = smp_sampledAt sample \<and> prj_backlogCount p = smp_backlogCount sample \<and>
          prj_backlogBytes p = smp_backlogBytes sample \<and>
          prj_oldestMessageAgeSeconds p = smp_oldestMessageAgeSeconds sample)"

subsection \<open>Observations\<close>

definition queueObservation :: "string \<Rightarrow> alertQueueName \<Rightarrow> queueDepthSnapshot \<Rightarrow> alertRuleObservation result" where
  "queueObservation asOf queue snapshot =
     (case and_then (parseAlertObservation (JObj
           [(''asOf'', JStr asOf),
            (''dimension'', JObj [(''kind'', JStr ''queue''), (''queue'', JStr (queueNameString queue))]),
            (''ruleId'', JStr (ruleIdString Queue_dlq_approximate)), (''snapshot'', jsOfQueueSnapshot snapshot)]))
         (\<lambda>observation. if obs_ruleId observation \<noteq> Queue_dlq_approximate then queueFail ''source_invalid''
           else Inr observation) of
        Inl err \<Rightarrow> Inl (redactedQueueError err ''source_invalid'')
      | Inr observation \<Rightarrow> Inr observation)"

definition unknownSnapshot :: queueDepthSnapshot where
  "unknownSnapshot =
     \<lparr>qs_backlogBytes = None, qs_backlogCount = None, qs_consecutiveNonzeroSamples = None,
      qs_nonzeroSinceAt = None, qs_oldestMessageTimestamp = None, qs_sampledAt = None\<rparr>"

definition unknownObservation :: "string \<Rightarrow> alertQueueName \<Rightarrow> alertRuleObservation result" where
  "unknownObservation asOf queue = queueObservation asOf queue unknownSnapshot"

subsection \<open>The operations\<close>

datatype queueMetricPersistenceOutcome = Metric_committed | Metric_rejected | Metric_replayed

type_synonym 'w sampleBatch = "string \<Rightarrow> queueMetricSample \<Rightarrow> ('w, d1Result list) effect"

definition persistedSample ::
  "string \<Rightarrow> queueMetricSample \<Rightarrow> d1Result list \<Rightarrow> (queueMetricPersistenceOutcome \<times> queueDepthSnapshot option) result" where
  "persistedSample component sample results =
     (if length results \<noteq> 3 then queueFail ''source_invalid''
      else if d1_success (results ! 0) \<noteq> JBool True then queueFail ''source_invalid''
      else
        and_then (oneRow results 1) (\<lambda>changedValue.
        and_then (queueExactRecord (JObj changedValue) [''changed''] ''source_invalid'') (\<lambda>changedRow.
        and_then (queueInteger (field_of changedRow ''changed'') 1 ''source_invalid'') (\<lambda>changed.
        and_then (queueInteger (d1_changes (results ! 0)) 1 ''source_invalid'') (\<lambda>metaChanges.
          if changed \<noteq> metaChanges then queueFail ''source_invalid''
          else
        and_then (oneRow results 2) (\<lambda>row.
        and_then (parseProjection row component) (\<lambda>projection.
          let ownsSample = projectionOwnsSample projection sample in
          if changed = 1 \<and> \<not> ownsSample then queueFail ''source_invalid''
          else if \<not> ownsSample then Inr (Metric_rejected, None)
          else case projection of
            None \<Rightarrow> queueFail ''source_invalid''
          | Some p \<Rightarrow> and_then (snapshotFromProjection p) (\<lambda>snapshot.
              Inr (if changed = 1 then Metric_committed else Metric_replayed, Some snapshot)))))))))"

definition persistQueueMetricSample ::
  "'w sampleBatch \<Rightarrow> js \<Rightarrow> ('w, queueMetricPersistenceOutcome \<times> queueDepthSnapshot option) effect" where
  "persistQueueMetricSample batch inputValue =
     seq (redactsQueue ''invalid_input'' (lifts (parseSample inputValue))) (\<lambda>sample.
     let component = ALERT_QUEUE_COMPONENTS (smp_queueName sample) in
     seq (redactsQueue ''write_failed'' (batch component sample)) (\<lambda>results.
       redactsQueue ''source_invalid'' (lifts (persistedSample component sample results))))"

definition clockTimestamp :: "('w, js) effect \<Rightarrow> ('w, string \<times> int) effect" where
  "clockTimestamp clock =
     seq (redactsQueue ''source_unavailable'' clock) (\<lambda>value. lifts (case value of
         JDate (Some t) \<Rightarrow> and_then (toISOString t) (\<lambda>s. Inr (s, t))
       | _ \<Rightarrow> queueFail ''source_invalid''))"

definition unknownResult :: "string \<Rightarrow> alertQueueName \<Rightarrow> ('w, queueMetricsAlertSourceResult) effect" where
  "unknownResult asOf queue =
     seq (lifts (unknownObservation asOf queue)) (\<lambda>observation.
       returns \<lparr>qsr_observation = jsOfObservation observation, qsr_persistence = Sample_unknown\<rparr>)"

definition persistedResult ::
  "string \<Rightarrow> alertQueueName \<Rightarrow> queueMetricPersistenceOutcome \<times> queueDepthSnapshot option \<Rightarrow>
   ('w, queueMetricsAlertSourceResult) effect" where
  "persistedResult asOf queue persisted =
     (case snd persisted of
        None \<Rightarrow> unknownResult asOf queue
      | Some snapshot \<Rightarrow>
          if fst persisted = Metric_rejected then unknownResult asOf queue
          else seq (lifts (queueObservation asOf queue snapshot)) (\<lambda>observation.
            returns \<lparr>qsr_observation = jsOfObservation observation,
              qsr_persistence = (if fst persisted = Metric_committed then Sample_committed else Sample_replayed)\<rparr>))"

definition readQueueMetricsAlertSource ::
  "'w sampleBatch \<Rightarrow> ('w, js) effect \<Rightarrow> js \<Rightarrow> ('w, js) effect \<Rightarrow> ('w, queueMetricsAlertSourceResult) effect" where
  "readQueueMetricsAlertSource batch provider inputValue clock =
     seq (redactsQueue ''invalid_input'' (lifts (parseQueueInput inputValue))) (\<lambda>queue.
     seq (settled provider) (\<lambda>metrics.
     seq (clockTimestamp clock) (\<lambda>sampledAt.
       case metrics of
         Inl _ \<Rightarrow> unknownResult (fst sampledAt) queue
       | Inr rawMetrics \<Rightarrow>
           (case normalizeBindingMetrics rawMetrics queue sampledAt of
              None \<Rightarrow> unknownResult (fst sampledAt) queue
            | Some sample \<Rightarrow>
                seq (settled (persistQueueMetricSample batch (jsOfSample sample))) (\<lambda>persisted.
                  case persisted of
                    Inl _ \<Rightarrow> unknownResult (fst sampledAt) queue
                  | Inr outcome \<Rightarrow> persistedResult (fst sampledAt) queue outcome)))))"

text \<open>What \<open>runAlertEvaluator\<close> makes of it: the provider replays a metric read before, the clock its instant.\<close>

definition queueSourceReader ::
  "'w sampleBatch \<Rightarrow> js result \<Rightarrow> alertQueueName \<Rightarrow> string \<Rightarrow> ('w, queueMetricsAlertSourceResult) effect" where
  "queueSourceReader batch metric queue asOf =
     readQueueMetricsAlertSource batch (lifts metric) (JObj [(''queueName'', JStr (queueNameString queue))])
       (returns (JDate (Some (getTime asOf))))"

end
