(* ===== verification/Alert_Queue_Streak.thy ===== *)
theory Alert_Queue_Streak
  imports Alert_Queue_Source Step_System
begin

section \<open>The streak a queue row counts\<close>

text \<open>
  A row is what is left of the samples the table accepted. \<open>streak\<close> is what its two continuity
  columns mean: the newest samples that are nonzero and exactly sixty seconds apart.
\<close>

subsection \<open>Samples and rows\<close>

definition validSample :: "queueMetricSample \<Rightarrow> bool" where
  "validSample s \<longleftrightarrow>
     inDomain MAX_BACKLOG_BYTES (smp_backlogBytes s) \<and> inDomain MAX_BACKLOG_COUNT (smp_backlogCount s) \<and>
     inDomain MAX_OLDEST_MESSAGE_AGE_SECONDS (smp_oldestMessageAgeSeconds s) \<and> shortInstant (smp_sampledAt s) \<and>
     (smp_backlogCount s = 0 \<longrightarrow> smp_backlogBytes s = 0 \<and> smp_oldestMessageAgeSeconds s = 0)"

lemma queueFail_noteq [simp]: "queueFail code \<noteq> Inr x"
  by (simp add: queueFail_def)

lemma queueTimestamp_Inr_iff: "queueTimestamp v code = Inr s \<longleftrightarrow> v = JStr s \<and> shortInstant s"
  by (auto simp: queueTimestamp_def split: js.splits)

lemma queueInteger_Inr_iff:
  "maximum \<le> MAX_SAFE_INTEGER \<Longrightarrow> queueInteger v maximum code = Inr n \<longleftrightarrow> v = JInt n \<and> inDomain maximum n"
  by (auto simp: queueInteger_def inDomain_def safeInteger_Some_iff split: option.splits)

lemma queueInteger_domain: "queueInteger v maximum code = Inr n \<Longrightarrow> inDomain maximum n"
  by (auto simp: queueInteger_def inDomain_def split: option.splits if_splits)

lemma queueExactRecord_Inr_iff: "queueExactRecord v keys code = Inr r \<longleftrightarrow> exactRecord v keys '''' = Inr r"
  by (auto simp: queueExactRecord_def split: sum.splits)

lemma queueExactRecord_built [simp]: "map fst r = keys \<Longrightarrow> queueExactRecord (JObj r) keys code = Inr r"
  by (simp add: queueExactRecord_Inr_iff)

lemma parseQueueName_built [simp]: "parseQueueName (JStr (queueNameString q)) = Inr q"
  by (simp add: parseQueueName_def)

lemma queue_safe [simp]:
  "MAX_BACKLOG_BYTES \<le> MAX_SAFE_INTEGER" "MAX_BACKLOG_COUNT \<le> MAX_SAFE_INTEGER"
  "MAX_OLDEST_MESSAGE_AGE_SECONDS \<le> MAX_SAFE_INTEGER" "MAX_CONSECUTIVE_NONZERO_SAMPLES \<le> MAX_SAFE_INTEGER"
  "MAX_REVISION \<le> MAX_SAFE_INTEGER" "1 \<le> MAX_SAFE_INTEGER"
  by (simp_all add: queue_bounds MAX_SAFE_INTEGER_def)

lemma queueInteger_built [simp]:
  "maximum \<le> MAX_SAFE_INTEGER \<Longrightarrow> inDomain maximum n \<Longrightarrow> queueInteger (JInt n) maximum code = Inr n"
  by (simp add: queueInteger_Inr_iff)

lemma queueTimestamp_built [simp]: "shortInstant s \<Longrightarrow> queueTimestamp (JStr s) code = Inr s"
  by (simp add: queueTimestamp_Inr_iff)

interpretation queueSample: codec jsOfSample parseSample validSample
proof
  show "parseSample (jsOfSample s) = Inr s" if "validSample s" for s
    using that by (simp add: parseSample_def jsOfSample_def validSample_def)
  show "validSample s" if "parseSample v = Inr s" for v s
    using that by (auto simp: parseSample_def and_then_eq_Inr throw_if_eq_Inr queueTimestamp_Inr_iff validSample_def
        dest!: queueInteger_domain split: if_splits)
qed

lemma queueName_component: "ALERT_QUEUE_COMPONENTS q \<in> set QUEUE_COMPONENTS" "ALERT_QUEUE_COMPONENTS q \<in> set RUNTIME_COMPONENTS"
    "ALERT_QUEUE_COMPONENTS q \<noteq> ''evaluator''"
  by (cases q; simp add: QUEUE_COMPONENTS_def RUNTIME_COMPONENTS_def)+

text \<open>
  What the repository keeps of a row, beyond the checks of the table: no lease it could not read,
  a revision it can read, and a streak of the exact cadence.
\<close>

definition queueRowOk :: "string \<Rightarrow> runtimeRow \<Rightarrow> bool" where
  "queueRowOk component r \<longleftrightarrow>
     rt_component r = component \<and> runtimeChecks r \<and> inDomain MAX_REVISION (rt_revision r) \<and>
     pred_option uuidV4 (rt_leaseId r) \<and>
     (rt_backlogCount r = Some 0 \<longrightarrow> rt_backlogBytes r = Some 0 \<and> rt_oldestMessageAgeSeconds r = Some 0) \<and>
     (\<forall>since at samples. rt_nonzeroSinceAt r = Some since \<and> rt_metricSampledAt r = Some at \<and>
        rt_consecutiveNonzeroSamples r = Some samples \<longrightarrow>
        getTime at - getTime since = (samples - 1) * SAMPLE_CADENCE_MILLISECONDS)"

definition projectionOf :: "runtimeRow \<Rightarrow> queueMetricProjection option" where
  "projectionOf r =
     (case (rt_metricSampledAt r, rt_backlogCount r, rt_backlogBytes r, rt_oldestMessageAgeSeconds r,
            rt_consecutiveNonzeroSamples r) of
        (Some at, Some backlog, Some bytes, Some age, Some samples) \<Rightarrow>
          Some \<lparr>prj_backlogBytes = bytes, prj_backlogCount = backlog, prj_component = rt_component r,
            prj_consecutiveNonzeroSamples = samples, prj_leaseExpiresAt = rt_leaseExpiresAt r,
            prj_leaseId = rt_leaseId r, prj_metricSampledAt = at, prj_nonzeroSinceAt = rt_nonzeroSinceAt r,
            prj_oldestMessageAgeSeconds = age, prj_revision = rt_revision r, prj_updatedAt = rt_updatedAt r\<rparr>
      | _ \<Rightarrow> None)"

fun fieldsOf :: "js \<Rightarrow> js_record" where
  "fieldsOf (JObj r) = r"
| "fieldsOf _ = []"

text \<open>A timestamp of four digits in the year is far from the ends of the range.\<close>

lemma shortInstant_bounds:
  assumes "shortInstant s"
  shows "- 100000000000000 \<le> getTime s" "getTime s \<le> 400000000000000"
proof -
  define t where "t = getTime s"
  obtain y m d where c: "civil_of_days (t div 86400000) = (y, m, d)"
    by (rule prod_cases3)
  have s: "s = iso_of_time t"
    using assms by (simp add: shortInstant_def canonical_iff canonical_time_Some_iff t_def)
  have "length (iso_year y) = 4"
    using assms s by (simp add: shortInstant_def iso_of_time_def c iso_clock_def)
  then have y: "0 \<le> y" "y \<le> 9999"
    by (simp_all add: iso_year_def split: if_splits)
  note md = civil_of_days_bounds[OF c]
  have "- 900000 \<le> days_of_civil y m d \<and> days_of_civil y m d \<le> 4000000"
  proof -
    define y' where "y' = (if m \<le> 2 then y - 1 else y)"
    have "- 1 \<le> y' div 400" "y' div 400 \<le> 24" "0 \<le> y' mod 400" "y' mod 400 \<le> 399"
      using y unfolding y'_def by auto
    moreover have "0 \<le> y' mod 400 div 4" "y' mod 400 div 4 \<le> 99" "0 \<le> y' mod 400 div 100" "y' mod 400 div 100 \<le> 3"
      using calculation by auto
    moreover define mp where "mp = (if m \<le> 2 then m + 9 else m - 3)"
    have "0 \<le> (153 * mp + 2) div 5" "(153 * mp + 2) div 5 \<le> 400"
      using md unfolding mp_def by auto
    ultimately show ?thesis
      using md(3,4) unfolding days_of_civil_def Let_def y'_def[symmetric] mp_def[symmetric] by linarith
  qed
  then have "- 900000 \<le> t div 86400000" "t div 86400000 \<le> 4000000"
    by (simp_all add: days_of_civil_of_days[OF c])
  then show "- 100000000000000 \<le> getTime s" "getTime s \<le> 400000000000000"
    unfolding t_def[symmetric] by linarith+
qed

lemma short_range:
  assumes "shortInstant s" and "\<bar>n\<bar> \<le> 1000000000"
  shows "time_in_range (getTime s + n * 1000)"
  using shortInstant_bounds[OF assms(1)] assms(2) unfolding time_in_range_def MAX_TIME_def by linarith

lemma getTime_plusSeconds:
  assumes "shortInstant s" and "\<bar>n\<bar> \<le> 1000000000"
  shows "getTime (plusSeconds s n) = getTime s + n * 1000"
  unfolding plusSeconds_def by (rule getTime_iso_of_time[OF short_range[OF assms]])

lemma short_iso: "shortInstant s \<Longrightarrow> s = iso_of_time (getTime s)"
  by (simp add: shortInstant_def canonical_iff canonical_time_Some_iff)

lemma short_plusSeconds:
  assumes "shortInstant s" and "shortInstant u" and "\<bar>n\<bar> \<le> 1000000000"
  shows "u = plusSeconds s n \<longleftrightarrow> getTime u = getTime s + n * 1000"
  using short_iso[OF assms(2)] getTime_plusSeconds[OF assms(1,3)] unfolding plusSeconds_def by metis

lemma short_equal: "shortInstant s \<Longrightarrow> shortInstant u \<Longrightarrow> s = u \<longleftrightarrow> getTime s = getTime u"
  using canonical_getTime_inj by (auto simp: shortInstant_def)

lemma followsSample_iff:
  assumes "pred_option shortInstant (rt_metricSampledAt old)" and "shortInstant at"
  shows "followsSample old at \<longleftrightarrow>
    (\<exists>before backlog. rt_metricSampledAt old = Some before \<and> rt_backlogCount old = Some backlog \<and> 0 < backlog \<and>
       getTime at = getTime before + SAMPLE_CADENCE_MILLISECONDS)"
  using assms short_plusSeconds[OF _ assms(2), of _ 60] getTime_plusSeconds[of _ 60]
  by (auto simp: followsSample_def SAMPLE_CADENCE_MILLISECONDS_def split: option.splits)

subsection \<open>Reading a row back\<close>

lemma projectedLease_built:
  assumes "runtimeChecks r" and "pred_option uuidV4 (rt_leaseId r)"
  shows "projectedLease (fieldsOf (rowProjection r)) (rt_updatedAt r) =
    Inr (case rt_leaseId r of None \<Rightarrow> None | Some lease \<Rightarrow> Some (lease, the (rt_leaseExpiresAt r)))"
proof -
  have short: "shortInstant (rt_updatedAt r)" "optionally shortInstant (rt_leaseExpiresAt r)"
    using assms(1) by (auto simp: runtimeChecks_def runtimeColumnChecks_def)
  have checks: "leaseChecks r"
    using assms(1) by (simp add: runtimeChecks_def)
  show ?thesis
  proof (cases "rt_leaseId r")
    case None
    with checks have "rt_leaseExpiresAt r = None"
      by (simp add: leaseChecks_def split: option.splits)
    with None show ?thesis by (simp add: projectedLease_def rowProjection_def)
  next
    case (Some lease)
    with checks obtain expires where e: "rt_leaseExpiresAt r = Some expires" "getTime (rt_updatedAt r) < getTime expires"
        "getTime expires \<le> getTime (rt_updatedAt r) + 300000"
      using getTime_plusSeconds[OF short(1), of 300] by (auto simp: leaseChecks_def split: option.splits)
    then show ?thesis
      using Some short(2) assms(2)
      by (simp add: projectedLease_def rowProjection_def optionally_def MAX_LEASE_DURATION_MILLISECONDS_def)
  qed
qed

lemma parseProjection_built:
  assumes "queueRowOk component r"
  shows "parseProjection (fieldsOf (rowProjection r)) component = Inr (projectionOf r)"
proof -
  have ok: "runtimeChecks r" "pred_option uuidV4 (rt_leaseId r)" "rt_component r = component"
      "inDomain MAX_REVISION (rt_revision r)" "shortInstant (rt_updatedAt r)"
    using assms by (auto simp: queueRowOk_def runtimeChecks_def runtimeColumnChecks_def)
  have lease: "(rt_leaseId r = None) = (rt_leaseExpiresAt r = None)"
    using ok(1) by (auto simp: runtimeChecks_def leaseChecks_def split: option.splits)
  note start = projectedLease_built[OF ok(1,2)]
  show ?thesis
  proof (cases "rt_metricSampledAt r")
    case None
    then have "rt_backlogCount r = None" "rt_backlogBytes r = None" "rt_oldestMessageAgeSeconds r = None"
        "rt_nonzeroSinceAt r = None" "rt_consecutiveNonzeroSamples r = None"
      using ok(1) by (auto simp: runtimeChecks_def metricChecks_def)
    with None ok start show ?thesis
      by (simp add: parseProjection_def rowProjection_def QUEUE_PROJECTION_KEYS_def projectionOf_def)
  next
    case (Some at)
    then obtain backlog bytes age samples where m: "rt_backlogCount r = Some backlog" "rt_backlogBytes r = Some bytes"
        "rt_oldestMessageAgeSeconds r = Some age" "rt_consecutiveNonzeroSamples r = Some samples"
      using ok(1) by (auto simp: runtimeChecks_def metricChecks_def split: option.splits)
    have d: "shortInstant at" "getTime at \<le> getTime (rt_updatedAt r)" "inDomain MAX_BACKLOG_COUNT backlog"
        "inDomain MAX_BACKLOG_BYTES bytes" "inDomain MAX_OLDEST_MESSAGE_AGE_SECONDS age"
        "inDomain MAX_CONSECUTIVE_NONZERO_SAMPLES samples"
      using ok(1) Some m by (auto simp: runtimeChecks_def runtimeColumnChecks_def chronologyChecks_def notAfter_def
          optionally_def queue_bounds)
    have streak: "projectedStreak (fieldsOf (rowProjection r)) at backlog bytes age samples = Inr (rt_nonzeroSinceAt r)"
      using assms ok(1) Some m
      by (auto simp: queueRowOk_def runtimeChecks_def runtimeColumnChecks_def metricChecks_def projectedStreak_def
          rowProjection_def optionally_def split: option.splits)
    show ?thesis
      using ok start streak Some m d lease
      by (auto simp: parseProjection_def rowProjection_def QUEUE_PROJECTION_KEYS_def projectionOf_def
          split: option.splits)
  qed
qed

subsection \<open>What an accepted sample leaves\<close>

lemma validSample_cases:
  assumes "validSample s"
  obtains (empty) "smp_backlogCount s = 0" "smp_backlogBytes s = 0" "smp_oldestMessageAgeSeconds s = 0"
      "shortInstant (smp_sampledAt s)"
  | (nonzero) "0 < smp_backlogCount s" "smp_backlogCount s \<le> 1000000000" "inDomain 1000000000000 (smp_backlogBytes s)"
      "inDomain 1000000000 (smp_oldestMessageAgeSeconds s)" "shortInstant (smp_sampledAt s)"
proof (cases "smp_backlogCount s = 0")
  case True
  with assms show ?thesis by (intro empty) (simp_all add: validSample_def)
next
  case False
  with assms show ?thesis by (intro nonzero) (simp_all add: validSample_def queue_bounds inDomain_def)
qed

lemma insertedRow_ok:
  assumes "validSample s"
  shows "\<not> runtimeInitialGuardAborts (insertedRow (ALERT_QUEUE_COMPONENTS q) s)"
    and "queueRowOk (ALERT_QUEUE_COMPONENTS q) (insertedRow (ALERT_QUEUE_COMPONENTS q) s)"
proof -
  note row_defs = queueRowOk_def insertedRow_def runtimeChecks_def runtimeColumnChecks_def leaseChecks_def metricChecks_def
    chronologyChecks_def notAfter_def optionally_def
  show "\<not> runtimeInitialGuardAborts (insertedRow (ALERT_QUEUE_COMPONENTS q) s)"
    using queueName_component(3)[of q] by (simp add: runtimeInitialGuardAborts_def insertedRow_def)
  show "queueRowOk (ALERT_QUEUE_COMPONENTS q) (insertedRow (ALERT_QUEUE_COMPONENTS q) s)"
    using assms queueName_component(1,2)[of q]
    by (cases rule: validSample_cases) (simp_all add: row_defs inDomain_def MAX_SAFE_INTEGER_def MAX_REVISION_def)
qed

text \<open>A streak that has reached the last number the column holds cannot be continued.\<close>

definition streakExhausted :: "runtimeRow \<Rightarrow> queueMetricSample \<Rightarrow> bool" where
  "streakExhausted old s \<longleftrightarrow>
     smp_backlogCount s \<noteq> 0 \<and> followsSample old (smp_sampledAt s) \<and>
     rt_consecutiveNonzeroSamples old = Some MAX_CONSECUTIVE_NONZERO_SAMPLES"

lemma updatedRow_guard:
  assumes "validSample s" and "updateApplies old s" and "rt_leaseExpiresAt old = None"
  shows "\<not> runtimeTransitionGuardAborts old (updatedRow old s)"
  using assms
  by (auto simp: runtimeTransitionGuardAborts_def updatedRow_def updateApplies_def leaseMoves_def keptOrLater_def
      errorMoves_def sampleMoves_def validSample_def inDomain_def optionally_def split: option.splits)

lemma row_metrics:
  assumes "runtimeChecks r" and "rt_metricSampledAt r = Some at" and "rt_backlogCount r = Some backlog" and "0 < backlog"
  obtains since samples where "rt_nonzeroSinceAt r = Some since" "rt_consecutiveNonzeroSamples r = Some samples" "1 \<le> samples"
proof -
  have "metricChecks r"
    using assms(1) by (simp add: runtimeChecks_def)
  with assms(2-4) that show thesis
    by (auto simp: metricChecks_def split: option.splits)
qed

lemma row_streak:
  assumes "queueRowOk c r" and "rt_metricSampledAt r = Some at" and "rt_backlogCount r = Some backlog" and "0 < backlog"
  obtains since samples where "rt_nonzeroSinceAt r = Some since" "rt_consecutiveNonzeroSamples r = Some samples"
    "1 \<le> samples" "samples \<le> MAX_CONSECUTIVE_NONZERO_SAMPLES" "shortInstant since" "shortInstant at"
    "getTime at - getTime since = (samples - 1) * SAMPLE_CADENCE_MILLISECONDS"
proof -
  have checks: "runtimeChecks r"
    using assms(1) by (simp add: queueRowOk_def)
  obtain since samples where m: "rt_nonzeroSinceAt r = Some since" "rt_consecutiveNonzeroSamples r = Some samples" "1 \<le> samples"
    by (rule row_metrics[OF checks assms(2-4)])
  have "inDomain 1000000 samples" "shortInstant since" "shortInstant at"
    using checks m assms(2) by (simp_all add: runtimeChecks_def runtimeColumnChecks_def optionally_def)
  moreover have "getTime at - getTime since = (samples - 1) * SAMPLE_CADENCE_MILLISECONDS"
    using assms(1,2) m(1,2) unfolding queueRowOk_def by blast
  ultimately show thesis
    using that m by (simp add: inDomain_def MAX_CONSECUTIVE_NONZERO_SAMPLES_def)
qed

lemma updatedRow_ok:
  assumes old: "queueRowOk (ALERT_QUEUE_COMPONENTS q) old" and s: "validSample s" and applies: "updateApplies old s"
    and room: "\<not> streakExhausted old s"
  shows "queueRowOk (ALERT_QUEUE_COMPONENTS q) (updatedRow old s)"
proof -
  have lease: "rt_leaseId old = None" "rt_leaseExpiresAt old = None"
    using old applies by (auto simp: queueRowOk_def updateApplies_def runtimeChecks_def leaseChecks_def split: option.splits)
  have later: "getTime (rt_updatedAt old) < getTime (smp_sampledAt s)" "rt_revision old < MAX_REVISION"
    using applies by (auto simp: updateApplies_def)
  have checks: "runtimeColumnChecks old" "chronologyChecks old" "rt_component old = ALERT_QUEUE_COMPONENTS q"
      "inDomain MAX_REVISION (rt_revision old)"
    using old by (auto simp: queueRowOk_def runtimeChecks_def)
  have at: "shortInstant (smp_sampledAt s)"
    using s by (simp add: validSample_def)
  have chronology: "chronologyChecks (updatedRow old s)"
    using checks(2) later by (auto simp: chronologyChecks_def updatedRow_def notAfter_def optionally_def split: option.splits)
  note c = queueName_component[of q]
  show ?thesis
  proof (cases "smp_backlogCount s \<noteq> 0 \<and> followsSample old (smp_sampledAt s)")
    case True
    have "pred_option shortInstant (rt_metricSampledAt old)"
      using checks(1) by (auto simp: runtimeColumnChecks_def optionally_def split: option.splits)
    then obtain before backlog where b: "rt_metricSampledAt old = Some before" "rt_backlogCount old = Some backlog" "0 < backlog"
        "getTime (smp_sampledAt s) = getTime before + SAMPLE_CADENCE_MILLISECONDS"
      using True followsSample_iff[OF _ at] by blast
    obtain since samples where r: "rt_nonzeroSinceAt old = Some since" "rt_consecutiveNonzeroSamples old = Some samples"
        "1 \<le> samples" "samples \<le> MAX_CONSECUTIVE_NONZERO_SAMPLES" "shortInstant since"
        "getTime before - getTime since = (samples - 1) * SAMPLE_CADENCE_MILLISECONDS"
      by (rule row_streak[OF old b(1-3)])
    have room': "samples < MAX_CONSECUTIVE_NONZERO_SAMPLES"
      using room True r(2,4) by (auto simp: streakExhausted_def)
    have "getTime since \<le> getTime (smp_sampledAt s)"
      using b(4) r(3,6) mult_nonneg_nonneg[of "samples - 1" SAMPLE_CADENCE_MILLISECONDS]
      by (simp add: SAMPLE_CADENCE_MILLISECONDS_def)
    moreover have "getTime (smp_sampledAt s) - getTime since = (samples + 1 - 1) * SAMPLE_CADENCE_MILLISECONDS"
      using b(4) r(6) by (simp add: left_diff_distrib)
    ultimately show ?thesis
      using True r room' s checks lease chronology c later
      by (auto simp: queueRowOk_def runtimeChecks_def runtimeColumnChecks_def leaseChecks_def metricChecks_def
          updatedRow_def optionally_def validSample_def queue_bounds inDomain_def MAX_SAFE_INTEGER_def)
  next
    case False
    then show ?thesis
      using s checks lease chronology c later at
      by (auto simp: queueRowOk_def runtimeChecks_def runtimeColumnChecks_def leaseChecks_def metricChecks_def
          updatedRow_def optionally_def validSample_def queue_bounds inDomain_def MAX_SAFE_INTEGER_def)
  qed
qed

subsection \<open>Histories\<close>

text \<open>Samples are listed newest first.\<close>

fun streak :: "queueMetricSample list \<Rightarrow> queueMetricSample list" where
  "streak [] = []"
| "streak (s # earlier) =
     (if smp_backlogCount s = 0 then []
      else s # (case earlier of
          [] \<Rightarrow> []
        | p # _ \<Rightarrow> if smp_sampledAt s = plusSeconds (smp_sampledAt p) 60 then streak earlier else []))"

definition recordsSamples :: "runtimeRow \<Rightarrow> queueMetricSample list \<Rightarrow> bool" where
  "recordsSamples r samples \<longleftrightarrow>
     (case samples of
        [] \<Rightarrow> False
      | s # _ \<Rightarrow>
          rt_metricSampledAt r = Some (smp_sampledAt s) \<and> rt_backlogCount r = Some (smp_backlogCount s) \<and>
          rt_backlogBytes r = Some (smp_backlogBytes s) \<and>
          rt_oldestMessageAgeSeconds r = Some (smp_oldestMessageAgeSeconds s) \<and>
          rt_updatedAt r = smp_sampledAt s \<and> rt_leaseId r = None \<and> 0 \<le> smp_backlogCount s \<and>
          rt_revision r = int (length samples) - 1) \<and>
     rt_consecutiveNonzeroSamples r = Some (int (length (streak samples))) \<and>
     rt_nonzeroSinceAt r = (if streak samples = [] then None else Some (smp_sampledAt (last (streak samples))))"

text \<open>The table takes a sample, and then has this row.\<close>

definition acceptSample :: "string \<Rightarrow> runtimeRow option \<Rightarrow> queueMetricSample \<Rightarrow> runtimeRow option option" where
  "acceptSample component row s =
     (case upsertQueueSample component s row of Inr (changed, new) \<Rightarrow> if changed = 1 then Some new else None | Inl _ \<Rightarrow> None)"

lemma acceptSample_cases:
  assumes "acceptSample component row s = Some new"
  obtains (first) "row = None" "new = Some (insertedRow component s)" "runtimeChecks (insertedRow component s)"
  | (later) old where "row = Some old" "new = Some (updatedRow old s)" "updateApplies old s"
      "runtimeChecks (insertedRow component s)" "runtimeChecks (updatedRow old s)"
  using assms by (auto simp: acceptSample_def upsertQueueSample_def sqlAbort_def Let_def split: sum.splits if_splits option.splits)

lemma inserted_counts: "runtimeChecks (insertedRow component s) \<Longrightarrow> 0 \<le> smp_backlogCount s"
  by (simp add: runtimeChecks_def runtimeColumnChecks_def insertedRow_def optionally_def inDomain_def)

lemma follows_history:
  assumes "recordsSamples old (p # samples)"
  shows "followsSample old at \<longleftrightarrow> smp_backlogCount p \<noteq> 0 \<and> at = plusSeconds (smp_sampledAt p) 60"
  using assms by (auto simp: recordsSamples_def followsSample_def)

lemma updated_history:
  assumes old: "recordsSamples old (p # samples)" and "updateApplies old s" and "0 \<le> smp_backlogCount s"
  shows "recordsSamples (updatedRow old s) (s # p # samples)"
proof (cases "smp_backlogCount s \<noteq> 0 \<and> followsSample old (smp_sampledAt s)")
  case True
  then have "streak (s # p # samples) = s # streak (p # samples)" "streak (p # samples) \<noteq> []"
    using follows_history[OF old] by auto
  with True old assms(2,3) show ?thesis
    by (auto simp: recordsSamples_def updatedRow_def updateApplies_def simp del: streak.simps)
next
  case False
  then have "streak (s # p # samples) = (if smp_backlogCount s = 0 then [] else [s])"
    using follows_history[OF old] by auto
  with False old assms(2,3) show ?thesis
    by (auto simp: recordsSamples_def updatedRow_def updateApplies_def simp del: streak.simps)
qed

lemma recordsSamples_Cons: "recordsSamples r samples \<Longrightarrow> \<exists>p earlier. samples = p # earlier"
  by (cases samples) (simp_all add: recordsSamples_def)

interpretation streaks: log_history "acceptSample component" None
  "\<lambda>samples row. case row of None \<Rightarrow> samples = [] | Some r \<Rightarrow> recordsSamples r (rev samples)"
  for component
proof unfold_locales
  fix samples row s row'
  assume h: "case row of None \<Rightarrow> samples = [] | Some r \<Rightarrow> recordsSamples r (rev samples)"
    and step: "acceptSample component row s = Some row'"
  from step show "case row' of None \<Rightarrow> samples @ [s] = [] | Some r \<Rightarrow> recordsSamples r (rev (samples @ [s]))"
  proof (cases rule: acceptSample_cases)
    case first
    with h inserted_counts[of component s] show ?thesis
      by (auto simp: recordsSamples_def insertedRow_def)
  next
    case (later old)
    with h obtain p earlier where "rev samples = p # earlier" "recordsSamples old (p # earlier)"
      using recordsSamples_Cons[of old "rev samples"] by auto
    with later inserted_counts[of component s] updated_history[of old p earlier s] show ?thesis
      by simp
  qed
qed simp

lemma streak_length: "length (streak samples) \<le> length samples"
  by (induction samples rule: streak.induct) (auto split: list.splits)

text \<open>Every row the table gets from samples of the repository is one it can read.\<close>

lemma accepted_row_ok:
  assumes "acceptSample (ALERT_QUEUE_COMPONENTS q) row s = Some new" and "validSample s"
    and "pred_option (queueRowOk (ALERT_QUEUE_COMPONENTS q)) row"
  shows "pred_option (queueRowOk (ALERT_QUEUE_COMPONENTS q)) new"
  using assms(1)
proof (cases rule: acceptSample_cases)
  case first
  with insertedRow_ok(2)[OF assms(2)] show ?thesis by simp
next
  case (later old)
  have "rt_consecutiveNonzeroSamples (updatedRow old s) \<noteq> Some (MAX_CONSECUTIVE_NONZERO_SAMPLES + 1)"
    using later(5) by (auto simp: runtimeChecks_def runtimeColumnChecks_def optionally_def inDomain_def queue_bounds)
  then have "\<not> streakExhausted old s"
    by (auto simp: streakExhausted_def updatedRow_def)
  with later assms(2,3) updatedRow_ok show ?thesis by simp
qed

interpretation readable: log_history "acceptSample (ALERT_QUEUE_COMPONENTS q)" None
  "\<lambda>samples row. list_all validSample samples \<longrightarrow> pred_option (queueRowOk (ALERT_QUEUE_COMPONENTS q)) row"
  for q
  by unfold_locales (use accepted_row_ok in auto)

end
