(* ===== verification/Alert_Queue_Properties.thy ===== *)
theory Alert_Queue_Properties
  imports Alert_Queue_Streak Alert_Selection
begin

section \<open>Properties of the queue source\<close>

subsection \<open>Observations and snapshots\<close>

definition queueObservationOf :: "string \<Rightarrow> alertQueueName \<Rightarrow> queueDepthSnapshot \<Rightarrow> alertRuleObservation" where
  "queueObservationOf asOf queue snapshot =
     \<lparr>obs_asOf = asOf, obs_dimension = QueueDimension queue, obs_ruleId = Queue_dlq_approximate,
      obs_body = QueueBody snapshot\<rparr>"

lemma queueObservation_built:
  assumes "canonical asOf" and "validQueueSnapshot snapshot"
  shows "queueObservation asOf queue snapshot = Inr (queueObservationOf asOf queue snapshot)"
    and "parseAlertObservation (jsOfObservation (queueObservationOf asOf queue snapshot)) =
      Inr (queueObservationOf asOf queue snapshot)"
    and "validObservation (queueObservationOf asOf queue snapshot)"
proof -
  let ?o = "queueObservationOf asOf queue snapshot"
  show valid: "validObservation ?o"
    using assms by (cases queue) (simp_all add: validObservation_def queueObservationOf_def rule_queue_dlq_approximate_def)
  show parse: "parseAlertObservation (jsOfObservation ?o) = Inr ?o"
    by (rule parseAlertObservation_enc[OF valid])
  have "jsOfObservation ?o = JObj
      [(''asOf'', JStr asOf),
       (''dimension'', JObj [(''kind'', JStr ''queue''), (''queue'', JStr (queueNameString queue))]),
       (''ruleId'', JStr (ruleIdString Queue_dlq_approximate)), (''snapshot'', jsOfQueueSnapshot snapshot)]"
    by (simp add: jsOfObservation_def observationFields_def queueObservationOf_def)
  with parse show "queueObservation asOf queue snapshot = Inr ?o"
    unfolding queueObservation_def by (simp add: queueObservationOf_def)
qed

lemma unknownSnapshot_valid: "validQueueSnapshot unknownSnapshot"
  by (simp add: validQueueSnapshot_def validBinding_def unknownSnapshot_def)

definition snapshotOf :: "queueMetricProjection \<Rightarrow> queueDepthSnapshot" where
  "snapshotOf p =
     \<lparr>qs_backlogBytes = Some (prj_backlogBytes p), qs_backlogCount = Some (prj_backlogCount p),
      qs_consecutiveNonzeroSamples = Some (prj_consecutiveNonzeroSamples p),
      qs_nonzeroSinceAt = prj_nonzeroSinceAt p,
      qs_oldestMessageTimestamp = (if prj_backlogCount p = 0 then None
        else Some (iso_of_time (getTime (prj_metricSampledAt p) - prj_oldestMessageAgeSeconds p * 1000))),
      qs_sampledAt = Some (prj_metricSampledAt p)\<rparr>"

text \<open>What the parser of a projected row guarantees.\<close>

definition validProjection :: "queueMetricProjection \<Rightarrow> bool" where
  "validProjection p \<longleftrightarrow>
     inDomain MAX_BACKLOG_BYTES (prj_backlogBytes p) \<and> inDomain MAX_BACKLOG_COUNT (prj_backlogCount p) \<and>
     inDomain MAX_CONSECUTIVE_NONZERO_SAMPLES (prj_consecutiveNonzeroSamples p) \<and>
     inDomain MAX_OLDEST_MESSAGE_AGE_SECONDS (prj_oldestMessageAgeSeconds p) \<and>
     shortInstant (prj_metricSampledAt p) \<and>
     (case prj_nonzeroSinceAt p of
        None \<Rightarrow> prj_backlogCount p = 0 \<and> prj_backlogBytes p = 0 \<and> prj_consecutiveNonzeroSamples p = 0
      | Some since \<Rightarrow> 0 < prj_backlogCount p \<and> shortInstant since \<and> 1 \<le> prj_consecutiveNonzeroSamples p \<and>
          getTime (prj_metricSampledAt p) - getTime since =
            (prj_consecutiveNonzeroSamples p - 1) * SAMPLE_CADENCE_MILLISECONDS)"

lemma projectedStreak_Inr:
  assumes "projectedStreak row sampledAt backlog bytes age samples = Inr since" and "inDomain MAX_BACKLOG_COUNT backlog"
  shows "case since of
      None \<Rightarrow> backlog = 0 \<and> bytes = 0 \<and> samples = 0
    | Some at \<Rightarrow> 0 < backlog \<and> shortInstant at \<and> 1 \<le> samples \<and>
        getTime sampledAt - getTime at = (samples - 1) * SAMPLE_CADENCE_MILLISECONDS"
  using assms by (auto simp: projectedStreak_def and_then_eq_Inr throw_if_eq_Inr queueTimestamp_Inr_iff inDomain_def
      split: if_splits)

lemma parseProjection_parts:
  assumes "parseProjection row component = Inr (Some p)"
  obtains fields where "shortInstant (prj_metricSampledAt p)" "inDomain MAX_BACKLOG_COUNT (prj_backlogCount p)"
    "inDomain MAX_BACKLOG_BYTES (prj_backlogBytes p)" "inDomain MAX_OLDEST_MESSAGE_AGE_SECONDS (prj_oldestMessageAgeSeconds p)"
    "inDomain MAX_CONSECUTIVE_NONZERO_SAMPLES (prj_consecutiveNonzeroSamples p)"
    "projectedStreak fields (prj_metricSampledAt p) (prj_backlogCount p) (prj_backlogBytes p)
      (prj_oldestMessageAgeSeconds p) (prj_consecutiveNonzeroSamples p) = Inr (prj_nonzeroSinceAt p)"
  using assms
  by (auto simp: parseProjection_def and_then_eq_Inr throw_if_eq_Inr queueTimestamp_Inr_iff
      dest!: queueInteger_domain split: if_splits)

lemma parseProjection_valid:
  assumes "parseProjection row component = Inr (Some p)"
  shows "validProjection p"
  using assms
proof (rule parseProjection_parts)
  fix fields
  assume parts: "shortInstant (prj_metricSampledAt p)" "inDomain MAX_BACKLOG_COUNT (prj_backlogCount p)"
    "inDomain MAX_BACKLOG_BYTES (prj_backlogBytes p)" "inDomain MAX_OLDEST_MESSAGE_AGE_SECONDS (prj_oldestMessageAgeSeconds p)"
    "inDomain MAX_CONSECUTIVE_NONZERO_SAMPLES (prj_consecutiveNonzeroSamples p)"
    and streak: "projectedStreak fields (prj_metricSampledAt p) (prj_backlogCount p) (prj_backlogBytes p)
      (prj_oldestMessageAgeSeconds p) (prj_consecutiveNonzeroSamples p) = Inr (prj_nonzeroSinceAt p)"
  show ?thesis
    using parts projectedStreak_Inr[OF streak parts(2)] by (simp add: validProjection_def)
qed

lemma snapshot_built:
  assumes "validProjection p"
  shows "snapshotFromProjection p = Inr (snapshotOf p)" and "validQueueSnapshot (snapshotOf p)"
proof -
  have at: "shortInstant (prj_metricSampledAt p)" and age: "\<bar>- prj_oldestMessageAgeSeconds p\<bar> \<le> 1000000000"
    using assms by (auto simp: validProjection_def inDomain_def queue_bounds)
  have range: "time_in_range (getTime (prj_metricSampledAt p) - prj_oldestMessageAgeSeconds p * 1000)"
    using short_range[OF at age] by simp
  then show "snapshotFromProjection p = Inr (snapshotOf p)"
    by (simp add: snapshotFromProjection_def snapshotOf_def toISOString_def)
  show "validQueueSnapshot (snapshotOf p)"
    using assms range
    by (auto simp: validProjection_def validQueueSnapshot_def validBinding_def snapshotOf_def shortInstant_def
        bound_defs queue_bounds inDomain_def split: option.splits)
qed

subsection \<open>One reading\<close>

definition unknownSource :: "string \<Rightarrow> alertQueueName \<Rightarrow> queueMetricsAlertSourceResult" where
  "unknownSource asOf queue =
     \<lparr>qsr_observation = jsOfObservation (queueObservationOf asOf queue unknownSnapshot), qsr_persistence = Sample_unknown\<rparr>"

lemma unknownResult_run: "canonical asOf \<Longrightarrow> unknownResult asOf queue w = (Inr (unknownSource asOf queue), w)"
  by (simp add: unknownResult_def unknownObservation_def queueObservation_built unknownSnapshot_valid seq_def lifts_def
      returns_def unknownSource_def)

lemma queueSourceReader_run:
  assumes "canonical asOf"
  shows "queueSourceReader batch metric queue asOf w =
    (case metric of
       Inl _ \<Rightarrow> (Inr (unknownSource asOf queue), w)
     | Inr raw \<Rightarrow>
         (case normalizeBindingMetrics raw queue (asOf, getTime asOf) of
            None \<Rightarrow> (Inr (unknownSource asOf queue), w)
          | Some s \<Rightarrow>
              (case persistQueueMetricSample batch (jsOfSample s) w of
                 (Inl _, w') \<Rightarrow> (Inr (unknownSource asOf queue), w')
               | (Inr outcome, w') \<Rightarrow> persistedResult asOf queue outcome w')))"
proof -
  have clock: "clockTimestamp (returns (JDate (Some (getTime asOf)))) w = (Inr (asOf, getTime asOf), w)"
    using assms by (simp add: clockTimestamp_def redactsQueue_def catches_def seq_def returns_def lifts_def toISOString_def
        canonical_iff canonical_time_Some_iff)
  have input: "parseQueueInput (JObj [(''queueName'', JStr (queueNameString queue))]) = Inr queue"
    by (simp add: parseQueueInput_def)
  show ?thesis
    using clock assms
    by (simp add: queueSourceReader_def readQueueMetricsAlertSource_def input redactsQueue_def catches_def seq_def lifts_def
        settled_def unknownResult_run split: sum.split option.split prod.split)
qed

lemma persist_run:
  assumes "persistQueueMetricSample batch (jsOfSample s) w = (Inr (outcome, Some snapshot), w')"
  obtains p where "validSample s" "validProjection p" "projectionOwnsSample (Some p) s" "snapshot = snapshotOf p"
    "outcome \<noteq> Metric_rejected"
proof -
  obtain s' results where s': "parseSample (jsOfSample s) = Inr s'"
      and persisted: "persistedSample (ALERT_QUEUE_COMPONENTS (smp_queueName s')) s' results = Inr (outcome, Some snapshot)"
    using assms by (auto simp: persistQueueMetricSample_def redactsQueue_def catches_def seq_def lifts_def throws_def Let_def
        split: prod.splits sum.splits)
  obtain row p where p: "parseProjection row (ALERT_QUEUE_COMPONENTS (smp_queueName s')) = Inr (Some p)"
      "projectionOwnsSample (Some p) s'" "snapshotFromProjection p = Inr snapshot" "outcome \<noteq> Metric_rejected"
    using persisted by (auto simp: persistedSample_def Let_def and_then_eq_Inr throw_if_eq_Inr split: if_splits option.splits)
  have valid: "validSample s'"
    by (rule queueSample.dec_valid[OF s'])
  have "s' = s"
    using s' by (cases s; cases s') (auto simp: parseSample_def jsOfSample_def and_then_eq_Inr throw_if_eq_Inr queueInteger_Inr_iff
        queueTimestamp_Inr_iff queueExactRecord_Inr_iff split: if_splits)
  with that valid p snapshot_built(1)[OF parseProjection_valid[OF p(1)]] show thesis
    using parseProjection_valid[OF p(1)] by simp
qed

lemma persistedResult_run:
  assumes "canonical asOf" and "pred_option validQueueSnapshot (snd persisted)"
  shows "persistedResult asOf queue persisted w =
    (case snd persisted of
       None \<Rightarrow> (Inr (unknownSource asOf queue), w)
     | Some snapshot \<Rightarrow>
         if fst persisted = Metric_rejected then (Inr (unknownSource asOf queue), w)
         else (Inr \<lparr>qsr_observation = jsOfObservation (queueObservationOf asOf queue snapshot),
           qsr_persistence = (if fst persisted = Metric_committed then Sample_committed else Sample_replayed)\<rparr>, w))"
  using assms by (cases "snd persisted") (simp_all add: persistedResult_def unknownResult_run queueObservation_built seq_def
      lifts_def returns_def)





subsection \<open>On the table\<close>

lemma projectionOf_valid: "queueRowOk c r \<Longrightarrow> projectionOf r = Some p \<Longrightarrow> validProjection p"
  using parseProjection_built parseProjection_valid by fastforce

lemma persistedSample_built:
  assumes row: "queueRowOk component r" and changed: "changed = 0 \<or> changed = 1 \<and> projectionOwnsSample (projectionOf r) s"
  shows "persistedSample component s
      [\<lparr>d1_success = JBool True, d1_rows = JArr [], d1_changes = JInt changed\<rparr>,
       \<lparr>d1_success = JBool True, d1_rows = JArr [JObj [(''changed'', JInt changed)]], d1_changes = JInt 0\<rparr>,
       \<lparr>d1_success = JBool True, d1_rows = JArr [rowProjection r], d1_changes = JInt 0\<rparr>] =
    Inr (if projectionOwnsSample (projectionOf r) s
      then (if changed = 1 then Metric_committed else Metric_replayed, map_option snapshotOf (projectionOf r))
      else (Metric_rejected, None))"
proof -
  let ?results = "[\<lparr>d1_success = JBool True, d1_rows = JArr [], d1_changes = JInt changed\<rparr>,
       \<lparr>d1_success = JBool True, d1_rows = JArr [JObj [(''changed'', JInt changed)]], d1_changes = JInt 0\<rparr>,
       \<lparr>d1_success = JBool True, d1_rows = JArr [rowProjection r], d1_changes = JInt 0\<rparr>]"
  have rows: "oneRow ?results 1 = Inr [(''changed'', JInt changed)]" "oneRow ?results 2 = Inr (fieldsOf (rowProjection r))"
    by (simp_all add: oneRow_def resultRows_def queueRecord_def rowProjection_def numeral_2_eq_2)
  have domain: "inDomain 1 changed"
    using changed by (auto simp: inDomain_def)
  note parts = rows parseProjection_built[OF row] domain
  show ?thesis
  proof (cases "projectionOwnsSample (projectionOf r) s")
    case True
    then obtain p where p: "projectionOf r = Some p"
      by (auto simp: projectionOwnsSample_def split: option.splits)
    show ?thesis
      using True p snapshot_built(1)[OF projectionOf_valid[OF row p]]
      by (simp add: persistedSample_def parts del: One_nat_def)
  next
    case False
    moreover from this changed have "changed \<noteq> 1"
      by simp
    ultimately show ?thesis
      by (simp add: persistedSample_def parts del: One_nat_def)
  qed
qed

lemma queueBatch_persist:
  assumes s: "validSample s" and c: "component = ALERT_QUEUE_COMPONENTS (smp_queueName s)"
    and upsert: "upsertQueueSample component s (table component) = Inr (changed, Some r)"
    and row: "queueRowOk component r" and changed: "changed = 0 \<or> changed = 1 \<and> projectionOwnsSample (projectionOf r) s"
  shows "persistQueueMetricSample queueBatch (jsOfSample s) table =
    (Inr (if projectionOwnsSample (projectionOf r) s
       then (if changed = 1 then Metric_committed else Metric_replayed, map_option snapshotOf (projectionOf r))
       else (Metric_rejected, None)), table(component := Some r))"
  using persistedSample_built[OF row changed]
  by (simp add: persistQueueMetricSample_def redactsQueue_def catches_def seq_def lifts_def queueSample.dec_enc[OF s]
      c[symmetric] queueBatch_def upsert)

lemma inserted_owns: "projectionOwnsSample (projectionOf (insertedRow component s)) s"
  by (simp add: projectionOwnsSample_def projectionOf_def insertedRow_def)

lemma updated_owns:
  assumes "queueRowOk c (updatedRow old s)" and "updateApplies old s"
  shows "projectionOwnsSample (projectionOf (updatedRow old s)) s"
proof -
  have checks: "leaseChecks (updatedRow old s)" "metricChecks (updatedRow old s)"
    using assms(1) by (simp_all add: queueRowOk_def runtimeChecks_def)
  then obtain n where n: "rt_consecutiveNonzeroSamples (updatedRow old s) = Some n"
    by (auto simp: metricChecks_def updatedRow_def split: option.splits if_splits)
  have "rt_leaseExpiresAt old = None"
    using checks(1) assms(2) by (auto simp: leaseChecks_def updatedRow_def updateApplies_def split: option.splits)
  with n assms(2) show ?thesis
    by (simp add: projectionOwnsSample_def projectionOf_def updatedRow_def updateApplies_def)
qed

lemma accepted_owns:
  assumes "acceptSample (ALERT_QUEUE_COMPONENTS q) row s = Some (Some r)" and "queueRowOk (ALERT_QUEUE_COMPONENTS q) r"
  shows "projectionOwnsSample (projectionOf r) s"
  using assms(1) by (cases rule: acceptSample_cases) (use assms(2) inserted_owns updated_owns in auto)

lemma accepted_upsert:
  "acceptSample component row s = Some new \<Longrightarrow> upsertQueueSample component s row = Inr (1, new)"
  by (auto simp: acceptSample_def split: sum.splits if_splits)

lemma normalized_queue: "normalizeBindingMetrics raw queue at = Some s \<Longrightarrow> smp_queueName s = queue \<and> smp_sampledAt s = fst at"
  by (auto simp: normalizeBindingMetrics_def Let_def split: sum.splits if_splits)

lemma commits:
  assumes asOf: "canonical asOf" and normal: "normalizeBindingMetrics raw queue (asOf, getTime asOf) = Some s"
    and s: "validSample s" and accept: "acceptSample (ALERT_QUEUE_COMPONENTS queue) (table (ALERT_QUEUE_COMPONENTS queue)) s = Some (Some r)"
    and row: "queueRowOk (ALERT_QUEUE_COMPONENTS queue) r"
  obtains p where "projectionOf r = Some p" "validProjection p" "projectionOwnsSample (Some p) s"
    "queueSourceReader queueBatch (Inr raw) queue asOf table =
      (Inr \<lparr>qsr_observation = jsOfObservation (queueObservationOf asOf queue (snapshotOf p)), qsr_persistence = Sample_committed\<rparr>,
       table(ALERT_QUEUE_COMPONENTS queue := Some r))"
proof -
  have owns: "projectionOwnsSample (projectionOf r) s"
    by (rule accepted_owns[OF accept row])
  then obtain p where p: "projectionOf r = Some p"
    by (auto simp: projectionOwnsSample_def split: option.splits)
  note valid = projectionOf_valid[OF row p]
  have q: "smp_queueName s = queue"
    using normalized_queue[OF normal] by simp
  have "persistQueueMetricSample queueBatch (jsOfSample s) table =
      (Inr (Metric_committed, Some (snapshotOf p)), table(ALERT_QUEUE_COMPONENTS queue := Some r))"
    using queueBatch_persist[OF s refl, of table 1 r] accepted_upsert[OF accept] row owns p q by simp
  then have "queueSourceReader queueBatch (Inr raw) queue asOf table =
      (Inr \<lparr>qsr_observation = jsOfObservation (queueObservationOf asOf queue (snapshotOf p)), qsr_persistence = Sample_committed\<rparr>,
       table(ALERT_QUEUE_COMPONENTS queue := Some r))"
    using asOf normal snapshot_built(2)[OF valid] by (simp add: queueSourceReader_run persistedResult_run)
  with that p valid owns show thesis by simp
qed

lemma upsert_row:
  assumes s: "validSample s" and row: "pred_option (queueRowOk (ALERT_QUEUE_COMPONENTS q)) row"
    and upsert: "upsertQueueSample (ALERT_QUEUE_COMPONENTS q) s row = Inr (changed, new)"
  obtains r where "new = Some r" "queueRowOk (ALERT_QUEUE_COMPONENTS q) r"
    "changed = 0 \<or> changed = 1 \<and> projectionOwnsSample (projectionOf r) s"
proof (cases "changed = 1")
  case True
  then have accept: "acceptSample (ALERT_QUEUE_COMPONENTS q) row s = Some new"
    using upsert by (simp add: acceptSample_def)
  then obtain r where new: "new = Some r"
    by (cases rule: acceptSample_cases) auto
  with accepted_row_ok[OF accept s row] have "queueRowOk (ALERT_QUEUE_COMPONENTS q) r"
    by simp
  with that new True accepted_owns[of q row s r] accept show thesis by blast
next
  case False
  with upsert have "changed = 0" "new = row" "row \<noteq> None"
    by (auto simp: upsertQueueSample_def sqlAbort_def Let_def split: if_splits option.splits)
  with that row show thesis by auto
qed

lemma stale_upsert:
  assumes "validSample s" and "queueRowOk (ALERT_QUEUE_COMPONENTS q) r" and "\<not> updateApplies r s"
  shows "upsertQueueSample (ALERT_QUEUE_COMPONENTS q) s (Some r) = Inr (0, Some r)"
  using assms insertedRow_ok[OF assms(1), of q] by (simp add: upsertQueueSample_def Let_def queueRowOk_def)

lemma owned_stale: "projectionOwnsSample (projectionOf r) s \<Longrightarrow> \<not> updateApplies r s"
  by (auto simp: projectionOwnsSample_def projectionOf_def updateApplies_def split: option.splits)

lemma persist_on_table:
  assumes s: "validSample s" and q: "smp_queueName s = q" and row: "pred_option (queueRowOk (ALERT_QUEUE_COMPONENTS q)) (table (ALERT_QUEUE_COMPONENTS q))"
    and run: "persistQueueMetricSample queueBatch (jsOfSample s) table = (Inr (outcome, Some snapshot), table')"
  obtains r where "table' (ALERT_QUEUE_COMPONENTS q) = Some r" "queueRowOk (ALERT_QUEUE_COMPONENTS q) r"
    "projectionOwnsSample (projectionOf r) s" "map_option snapshotOf (projectionOf r) = Some snapshot"
proof (cases "upsertQueueSample (ALERT_QUEUE_COMPONENTS q) s (table (ALERT_QUEUE_COMPONENTS q))")
  case (Inl err)
  with run s q show thesis
    by (simp add: persistQueueMetricSample_def redactsQueue_def catches_def seq_def lifts_def throws_def queueSample.dec_enc
        queueBatch_def Let_def)
next
  case (Inr answer)
  obtain changed new where answer: "answer = (changed, new)"
    by fastforce
  obtain r where r: "new = Some r" "queueRowOk (ALERT_QUEUE_COMPONENTS q) r"
      "changed = 0 \<or> changed = 1 \<and> projectionOwnsSample (projectionOf r) s"
    using upsert_row[OF s row] Inr answer by blast
  have upsert: "upsertQueueSample (ALERT_QUEUE_COMPONENTS q) s (table (ALERT_QUEUE_COMPONENTS q)) = Inr (changed, Some r)"
    using Inr answer r(1) by simp
  have "persistQueueMetricSample queueBatch (jsOfSample s) table =
      (Inr (if projectionOwnsSample (projectionOf r) s
         then (if changed = 1 then Metric_committed else Metric_replayed, map_option snapshotOf (projectionOf r))
         else (Metric_rejected, None)), table(ALERT_QUEUE_COMPONENTS q := Some r))"
    using queueBatch_persist[OF s refl, of table changed r] upsert r(2,3) unfolding q by blast
  with that run r(2) show thesis by (auto split: if_splits)
qed

lemma persistedResult_world: "snd (persistedResult asOf queue persisted w) = w"
  by (auto simp: persistedResult_def unknownResult_def seq_def lifts_def returns_def split: option.split sum.split)

lemma known_reading:
  assumes asOf: "canonical asOf" and read: "queueSourceReader batch metric queue asOf w = (Inr src, w')"
    and known: "qsr_persistence src \<noteq> Sample_unknown"
  shows "\<exists>raw s persisted. metric = Inr raw \<and> normalizeBindingMetrics raw queue (asOf, getTime asOf) = Some s \<and>
    persistQueueMetricSample batch (jsOfSample s) w = (Inr persisted, w') \<and>
    persistedResult asOf queue persisted w' = (Inr src, w')"
proof -
  have unknown: "src \<noteq> unknownSource asOf queue"
    using known by (auto simp: unknownSource_def)
  obtain raw where raw: "metric = Inr raw"
    using read unknown by (cases metric) (auto simp: queueSourceReader_run[OF asOf])
  obtain s where s: "normalizeBindingMetrics raw queue (asOf, getTime asOf) = Some s"
    using read unknown raw
    by (cases "normalizeBindingMetrics raw queue (asOf, getTime asOf)") (auto simp: queueSourceReader_run[OF asOf])
  obtain answer w'' where run: "persistQueueMetricSample batch (jsOfSample s) w = (answer, w'')"
    by fastforce
  obtain persisted where p: "answer = Inr persisted"
    using read unknown raw s run by (cases answer) (auto simp: queueSourceReader_run[OF asOf])
  have result: "persistedResult asOf queue persisted w'' = (Inr src, w')"
    using read raw s run p by (simp add: queueSourceReader_run[OF asOf])
  with persistedResult_world[of asOf queue persisted w''] have "w'' = w'"
    by simp
  with raw s run p result show ?thesis by blast
qed

text \<open>
  C32. A reading can be repeated. If a reading stored or found its sample, reading the same metrics
  at the same instant again returns the same observation, marked as replayed, and leaves the table
  as it is: a lost response costs nothing.
\<close>

theorem queue_reading_replayed:
  assumes "canonical asOf" and "pred_option (queueRowOk (ALERT_QUEUE_COMPONENTS queue)) (table (ALERT_QUEUE_COMPONENTS queue))"
    and "queueSourceReader queueBatch metric queue asOf table = (Inr src, table')"
    and "qsr_persistence src \<noteq> Sample_unknown"
  shows "queueSourceReader queueBatch metric queue asOf table' = (Inr (src\<lparr>qsr_persistence := Sample_replayed\<rparr>), table')"
proof -
  obtain raw s persisted where run: "metric = Inr raw" "normalizeBindingMetrics raw queue (asOf, getTime asOf) = Some s"
      "persistQueueMetricSample queueBatch (jsOfSample s) table = (Inr persisted, table')"
      "persistedResult asOf queue persisted table' = (Inr src, table')"
    using known_reading[OF assms(1,3,4)] by blast
  obtain outcome snapshot where o: "persisted = (outcome, Some snapshot)" "outcome \<noteq> Metric_rejected"
    using run(4) assms(1,4) by (cases persisted; cases "snd persisted")
      (auto simp: persistedResult_def unknownResult_run unknownSource_def split: if_splits)
  show ?thesis
  proof (rule persist_run[OF run(3)[unfolded o(1)]])
    fix p
    assume p: "validSample s" "validProjection p" "snapshot = snapshotOf p"
    have q: "smp_queueName s = queue"
      using normalized_queue[OF run(2)] by simp
    obtain r where r: "table' (ALERT_QUEUE_COMPONENTS queue) = Some r" "queueRowOk (ALERT_QUEUE_COMPONENTS queue) r"
        "projectionOwnsSample (projectionOf r) s" "map_option snapshotOf (projectionOf r) = Some snapshot"
      by (rule persist_on_table[OF p(1) q assms(2) run(3)[unfolded o(1)]])
    have "persistQueueMetricSample queueBatch (jsOfSample s) table' = (Inr (Metric_replayed, Some snapshot), table')"
      using queueBatch_persist[OF p(1) refl, of table' 0 r] stale_upsert[OF p(1) r(2) owned_stale[OF r(3)]] r q
      by (simp add: fun_upd_idem)
    moreover have "src = \<lparr>qsr_observation = jsOfObservation (queueObservationOf asOf queue snapshot),
        qsr_persistence = (if outcome = Metric_committed then Sample_committed else Sample_replayed)\<rparr>"
      using run(4) o p(3) snapshot_built(2)[OF p(2)] by (simp add: persistedResult_run[OF assms(1)])
    ultimately show ?thesis
      using run(1,2) p(3) snapshot_built(2)[OF p(2)]
      by (simp add: queueSourceReader_run[OF assms(1)] persistedResult_run[OF assms(1)])
  qed
qed

subsection \<open>What the rule makes of a streak\<close>






lemma accepts_first: "validSample s \<Longrightarrow> acceptSample (ALERT_QUEUE_COMPONENTS q) None s = Some (Some (insertedRow (ALERT_QUEUE_COMPONENTS q) s))"
  using insertedRow_ok[of s q] by (simp add: acceptSample_def upsertQueueSample_def Let_def queueRowOk_def)

lemma accepts_later:
  assumes "validSample s" and "queueRowOk (ALERT_QUEUE_COMPONENTS q) old" and "updateApplies old s" and "\<not> streakExhausted old s"
  shows "acceptSample (ALERT_QUEUE_COMPONENTS q) (Some old) s = Some (Some (updatedRow old s))"
proof -
  have lease: "rt_leaseExpiresAt old = None"
    using assms(2,3) by (auto simp: queueRowOk_def updateApplies_def runtimeChecks_def leaseChecks_def split: option.splits)
  show ?thesis
    using insertedRow_ok[OF assms(1), of q] updatedRow_ok[OF assms(2,1,3,4)] updatedRow_guard[OF assms(1,3) lease] assms(3)
    by (simp add: acceptSample_def upsertQueueSample_def Let_def queueRowOk_def)
qed


text \<open>
  C30. The table counts streaks. Whatever samples a queue's row has accepted, in whatever distance, its
  continuity columns are those of the specification: as many samples as the newest ones that are
  nonzero and exactly sixty seconds apart, and the instant of the first of them.
\<close>

theorem queue_streak_counted:
  assumes "replayAll (acceptSample component) None samples = Some (Some row)"
  shows "recordsSamples row (rev samples)"
  using streaks.accepted_history[OF assms] by simp


subsection \<open>A sample run\<close>

definition firstSample :: queueMetricSample where
  "firstSample = \<lparr>smp_backlogBytes = 10, smp_backlogCount = 2, smp_oldestMessageAgeSeconds = 5,
     smp_queueName = Alert_deliveries_dlq, smp_sampledAt = ''2026-03-01T12:00:00.000Z''\<rparr>"

definition secondSample :: queueMetricSample where
  "secondSample = \<lparr>smp_backlogBytes = 10, smp_backlogCount = 2, smp_oldestMessageAgeSeconds = 65,
     smp_queueName = Alert_deliveries_dlq, smp_sampledAt = ''2026-03-01T12:01:00.000Z''\<rparr>"

definition sampleMetrics :: js where
  "sampleMetrics = JObj [(''backlogCount'', JInt 2), (''backlogBytes'', JInt 10),
     (''oldestMessageTimestamp'', JDate (Some 1772366395000))]"

definition sampleTable :: runtimeTable where
  "sampleTable = [ALERT_QUEUE_COMPONENTS Alert_deliveries_dlq \<mapsto> insertedRow (ALERT_QUEUE_COMPONENTS Alert_deliveries_dlq) firstSample]"

lemma sample_instants:
  "shortInstant ''2026-03-01T12:00:00.000Z''" "shortInstant ''2026-03-01T12:01:00.000Z''"
  "hourBeforeExists ''2026-03-01T12:01:00.000Z''" "canonical ''2026-03-01T12:01:00.000Z''"
  by code_simp+

lemma sample_samples: "validSample firstSample" "validSample secondSample"
  by (simp_all add: validSample_def firstSample_def secondSample_def sample_instants inDomain_def queue_bounds)

lemma sample_normal:
  "normalizeBindingMetrics sampleMetrics Alert_deliveries_dlq
     (''2026-03-01T12:01:00.000Z'', getTime ''2026-03-01T12:01:00.000Z'') = Some secondSample"
  by code_simp

lemma sample_queue_times:
  "getTime ''2026-03-01T12:00:00.000Z'' = 1772366400000" "getTime ''2026-03-01T12:01:00.000Z'' = 1772366460000"
  by code_simp+

lemma sample_accepts:
  "acceptSample (ALERT_QUEUE_COMPONENTS Alert_deliveries_dlq) None firstSample =
     Some (sampleTable (ALERT_QUEUE_COMPONENTS Alert_deliveries_dlq))"
  "acceptSample (ALERT_QUEUE_COMPONENTS Alert_deliveries_dlq) (sampleTable (ALERT_QUEUE_COMPONENTS Alert_deliveries_dlq)) secondSample =
     Some (Some (updatedRow (insertedRow (ALERT_QUEUE_COMPONENTS Alert_deliveries_dlq) firstSample) secondSample))"
proof -
  let ?c = "ALERT_QUEUE_COMPONENTS Alert_deliveries_dlq"
  show "acceptSample ?c None firstSample = Some (sampleTable ?c)"
    by (simp only: sampleTable_def fun_upd_same accepts_first[OF sample_samples(1)])
  have "updateApplies (insertedRow ?c firstSample) secondSample" "\<not> streakExhausted (insertedRow ?c firstSample) secondSample"
    by (simp_all add: updateApplies_def streakExhausted_def insertedRow_def firstSample_def secondSample_def sample_queue_times
        optionally_def queue_bounds)
  then show "acceptSample ?c (sampleTable ?c) secondSample = Some (Some (updatedRow (insertedRow ?c firstSample) secondSample))"
    unfolding sampleTable_def fun_upd_same
    by (rule accepts_later[OF sample_samples(2) insertedRow_ok(2)[OF sample_samples(1)]])
qed

lemma sample_accepted:
  "replayAll (acceptSample (ALERT_QUEUE_COMPONENTS Alert_deliveries_dlq)) None [firstSample] =
     Some (sampleTable (ALERT_QUEUE_COMPONENTS Alert_deliveries_dlq))"
  "replayAll (acceptSample (ALERT_QUEUE_COMPONENTS Alert_deliveries_dlq)) None [firstSample, secondSample] =
     Some (Some (updatedRow (insertedRow (ALERT_QUEUE_COMPONENTS Alert_deliveries_dlq) firstSample) secondSample))"
  by (simp_all only: replayAll.simps sample_accepts option.case)


theorem queue_reading_replayed_witness:
  "\<exists>src table. queueSourceReader queueBatch (Inr sampleMetrics) Alert_deliveries_dlq ''2026-03-01T12:01:00.000Z'' table =
     (Inr (src\<lparr>qsr_persistence := Sample_replayed\<rparr>), table) \<and> table \<noteq> sampleTable"
proof -
  let ?c = "ALERT_QUEUE_COMPONENTS Alert_deliveries_dlq"
  have old: "queueRowOk ?c (insertedRow ?c firstSample)"
    by (rule insertedRow_ok(2)[OF sample_samples(1)])
  note accept = sample_accepts(2)
  have new: "queueRowOk ?c (updatedRow (insertedRow ?c firstSample) secondSample)"
    using accepted_row_ok[OF accept sample_samples(2)] old by (simp add: sampleTable_def)
  obtain src where src: "qsr_persistence src = Sample_committed"
      "queueSourceReader queueBatch (Inr sampleMetrics) Alert_deliveries_dlq ''2026-03-01T12:01:00.000Z'' sampleTable =
        (Inr src, sampleTable(?c := Some (updatedRow (insertedRow ?c firstSample) secondSample)))"
    by (rule commits[where table = sampleTable, OF sample_instants(4) sample_normal sample_samples(2) accept new])
      (metis queueMetricsAlertSourceResult.select_convs(2))
  have "queueSourceReader queueBatch (Inr sampleMetrics) Alert_deliveries_dlq ''2026-03-01T12:01:00.000Z''
      (sampleTable(?c := Some (updatedRow (insertedRow ?c firstSample) secondSample))) =
    (Inr (src\<lparr>qsr_persistence := Sample_replayed\<rparr>), sampleTable(?c := Some (updatedRow (insertedRow ?c firstSample) secondSample)))"
    by (rule queue_reading_replayed[OF sample_instants(4) _ src(2)]) (use old in \<open>simp_all add: src(1) sampleTable_def\<close>)
  moreover have "sampleTable(?c := Some (updatedRow (insertedRow ?c firstSample) secondSample)) \<noteq> sampleTable"
    by (simp add: sampleTable_def fun_eq_iff updatedRow_def insertedRow_def firstSample_def secondSample_def)
  ultimately show ?thesis by blast
qed

theorem queue_streak_counted_witness:
  "recordsSamples (updatedRow (insertedRow (ALERT_QUEUE_COMPONENTS Alert_deliveries_dlq) firstSample) secondSample) (rev [firstSample, secondSample]) \<and>
   length (streak (rev [firstSample, secondSample])) = 2"
proof
  show "recordsSamples (updatedRow (insertedRow (ALERT_QUEUE_COMPONENTS Alert_deliveries_dlq) firstSample) secondSample) (rev [firstSample, secondSample])"
    by (rule queue_streak_counted[OF sample_accepted(2)])
  show "length (streak (rev [firstSample, secondSample])) = 2"
    by code_simp
qed


end
