(* ===== verification/Spec2Isabelle.thy ===== *)
theory Spec2Isabelle
  imports Alert_Rule_Properties Alert_Lifecycle_Properties Alert_Codec_Properties Alert_State_Properties
    Alert_Runtime_Source Alert_Evaluator_Cap Alert_Evaluator_Properties
    Alert_Queue_Properties
begin

text \<open>
  A model of the alert pipeline of the single sign-on worker in
  \<^verbatim>\<open>apps/sso/worker/\<close>, and the theorems that make it correct.

  \<^bold>\<open>The program.\<close> Every few minutes the worker looks at its own security telemetry. A source
  returns one observation per rule and dimension; \<^verbatim>\<open>alert-rules.ts\<close> parses it and evaluates the
  thresholds of the rule; \<^verbatim>\<open>alert-evaluator.ts\<close> takes the evaluation and the stored state of the
  alert to an intent (open, escalate, remind, resolve) and the next state;
  \<^verbatim>\<open>alert-state-repository.ts\<close> reads that state from three tables and writes the decision back
  in one batch, which the triggers of \<^verbatim>\<open>migrations/0020_alert_observability.sql\<close> check again,
  together with the outbox row that will deliver it.

  \<^bold>\<open>Conventions\<close> (\<open>Prelude\<close>, \<open>Js_Values\<close>, \<open>Js_Date\<close>, \<open>Js_Json\<close>). A function that may throw returns
  \<open>js_error + 'a\<close>. The argument of a parser that takes \<open>unknown\<close> is a \<open>js\<close> value; object keys keep
  their order. \<open>Js_Date\<close> has \<open>Date\<close> on the strings \<open>toISOString\<close> prints, with the calendar;
  \<open>Js_Json\<close> has \<open>JSON.stringify\<close> on what the code prints. Counters are \<open>int\<close> with the bounds of
  safe integers checked where the code checks them. A string is a list of code units below 256.

  \<^bold>\<open>Interfaces.\<close> \<open>Codec\<close> states what a parser of \<open>unknown\<close> promises on the values the program built;
  \<open>Step_System\<close> states what one step of a state machine has to show, with the consequence for
  whole runs. Both are interpreted on the parsers and the machines below.

  \<^bold>\<open>Rules\<close> (\<^verbatim>\<open>alert-rules.ts\<close>). \<open>Alert_Types\<close> and \<open>Alert_Rule_Table\<close> have the enumerations and the
  rule table; \<open>Base64url\<close> the keys and references; \<open>Alert_Observation\<close> the parsers of observations,
  \<open>Alert_Observation_Codec\<close> their contract; \<open>Alert_Evaluation\<close> \<open>evaluateAlertRule\<close>; \<open>Alert_Kleene\<close>
  a specification of it in strong Kleene logic, which it refines; \<open>Alert_Evidence\<close> the parsers of
  stored evidence; \<open>Alert_Selection\<close> the proof that selected evidence passes them.

  \<^bold>\<open>Lifecycle\<close> (\<^verbatim>\<open>alert-evaluator.ts\<close>). \<open>Alert_Lifecycle\<close> has the state, its parser and
  \<open>advanceAlertLifecycle\<close>; \<open>Alert_Lifecycle_Invariant\<close> the parser as an invariant the step keeps;
  \<open>Alert_Lifecycle_Outcome\<close> the step as an inductive relation; \<open>Alert_Lifecycle_Log\<close> the contract of
  the intents; \<open>Alert_Lifecycle_Total\<close> when the step throws.

  \<^bold>\<open>State repository\<close> (\<^verbatim>\<open>alert-state-repository.ts\<close>). \<open>Alert_State_Input\<close> has the checks of the
  evaluation and the decision, \<open>Alert_State_Columns\<close> and \<open>Alert_State_Guard\<close> the row of an alert and
  the triggers on it, \<open>Alert_State_Db\<close> the tables and the read, \<open>Alert_State_Outbox\<close> the delivery and
  its table, \<open>Alert_State_Store\<close> the plan of a write, the batch and the comparison afterwards,
  \<open>Alert_State_Repository\<close> the two exported operations on the values a caller passes.
  \<open>Alert_State_Refinement\<close> relates tables to lifecycle states; \<open>Alert_State_Writes\<close>,
  \<open>Alert_State_Delivery\<close> and \<open>Alert_State_Persisted\<close> take the batch of a decision through the
  triggers; \<open>Alert_State_Properties\<close> composes read, decision, write and read. Two decisions of the
  lifecycle do not survive this composition; they are theorems too.

  \<^bold>\<open>Evaluator\<close> (\<^verbatim>\<open>alert-run-proof.ts\<close>, \<^verbatim>\<open>alert-evaluator-orchestration.ts\<close>). A scheduled run reads
  nine sources, plans a decision for each observation and proves what it did. \<open>Js_Stringify\<close> has
  \<open>JSON.stringify\<close> on any value, with the proof that the text determines the value;
  \<open>Alert_Run_Proof\<close> the proof records and the manifest digests; \<open>Alert_Runtime_Source\<close> the row the
  evaluator itself is judged by; \<open>Alert_Evaluator_Work\<close> the order of the work, the check of what a
  source returned, the work cap, and what is done with partial evidence;
  \<open>Alert_Evaluator_Sources\<close> and \<open>Alert_Evaluator_Cap\<close> prove these. \<open>Alert_Evaluator_Run\<close> is
  \<open>runAlertEvaluator\<close>, in the effects of \<open>Effect\<close> on a world of repositories, queue providers and a
  clock that may answer or throw anything; the calls are kept in a log no operation reads. They are
  a word of the automaton of \<open>Alert_Evaluator_Protocol\<close> (\<open>Alert_Evaluator_Conduct\<close>, a triple for each
  stage); \<open>Alert_Evaluator_History\<close> and \<open>Alert_Evaluator_Budget\<close> show what every word has:
  fences, instants, proofs and decisions, and the cost; \<open>Alert_Evaluator_Properties\<close> composes them.
  The queue providers are called one after the other; the source starts all of them before it
  awaits the first.

  \<^bold>\<open>Queue source\<close> (\<^verbatim>\<open>alert-queue-source-repository.ts\<close>). \<open>Alert_Queue_Table\<close> has the table of runtime
  rows with its checks and triggers and the batch that stores a sample; \<open>Alert_Queue_Source\<close> the
  reading, over any provider, clock and database; \<open>Alert_Queue_Streak\<close> the specification of a streak
  and its refinement by the columns of a row; \<open>Alert_Queue_Properties\<close> what a reading says, on any
  database and on the table, and what the rule makes of it.

  \<^bold>\<open>Parameters.\<close> The digest (SHA-256), the HMAC and the random identifiers are arguments. A digest is
  assumed to give 32 bytes; fresh identifiers are assumed not to be in use. Clocks are arguments.

  \<^bold>\<open>Not modelled.\<close> The proof of an evaluator run that a write may carry, and the CHECK constraints
  on the metric columns of the tables; the SQL of the other sources, of the run ledger and of the
  audit archive; HTTP handlers, the browser application and the scripts.
\<close>

end
